(* ===== verification/MA35_Prelude.thy ===== *)
theory MA35_Prelude
  imports Main "HOL-Library.Word"
begin

text \<open>
  Shared vocabulary of the development: the machine integers of the C sources, C's truncating
  division, the bounded stores on C arrays, bit-field updates of memory-mapped registers, and the
  generic lemmas about them that the component theories use.

  The library is compiled for AArch64 (LP64), so \<open>uint64_t\<close> and pointers are 64 bits wide,
  \<open>int\<close> and \<open>uint32_t\<close> are 32 bits wide. Unsigned registers are words; a C
  \<open>int\<close> whose values provably stay small is an \<open>int\<close>.
\<close>

unbundle bit_operations_syntax

type_synonym u8 = "8 word"
type_synonym u16 = "16 word"
type_synonym u32 = "32 word"
type_synonym u64 = "64 word"

named_theorems c_arith \<open>C integer arithmetic on non-negative operands\<close>
named_theorems reg_simps \<open>bit-field reads after bit-field writes\<close>

section \<open>C integers\<close>

text \<open>Signed division of C truncates towards zero.\<close>

definition c_div :: "int \<Rightarrow> int \<Rightarrow> int" where
  "c_div a b = sgn a * sgn b * (\<bar>a\<bar> div \<bar>b\<bar>)"

text \<open>Number of units of \<open>unit\<close> bytes that hold \<open>size\<close> bytes: \<open>(size + unit - 1) / unit\<close>.\<close>

definition units_for :: "int \<Rightarrow> int \<Rightarrow> int" where
  "units_for sz u = c_div (sz + u - 1) u"

section \<open>Arrays of flags\<close>

text \<open>Number of set flags of an occupancy array.\<close>

definition used_count :: "bool list \<Rightarrow> int" where
  "used_count xs = int (length (filter id xs))"

text \<open>The loop \<open>for (i = lo; n > 0; i++, n--) a[i] = v\<close>.\<close>

fun fill :: "nat \<Rightarrow> nat \<Rightarrow> 'a \<Rightarrow> 'a list \<Rightarrow> 'a list" where
  "fill lo 0 v xs = xs"
| "fill lo (Suc n) v xs = fill (Suc lo) n v (xs[lo := v])"

section \<open>Bit fields of 32-bit registers\<close>

text \<open>
  \<open>(reg & ~(msk << pos)) | (v << pos)\<close>, the read-modify-write by which the drivers set a
  field of a register, and \<open>(reg & (msk << pos)) >> pos\<close>, by which they read it.
\<close>

definition put_field :: "u32 \<Rightarrow> nat \<Rightarrow> u32 \<Rightarrow> u32 \<Rightarrow> u32" where
  "put_field msk pos v reg = (reg AND NOT (push_bit pos msk)) OR push_bit pos v"

definition get_field :: "u32 \<Rightarrow> nat \<Rightarrow> u32 \<Rightarrow> u32" where
  "get_field msk pos reg = drop_bit pos (reg AND push_bit pos msk)"

section \<open>Computations that may fail\<close>

text \<open>Sequencing of computations whose faults are the left summand.\<close>

fun sbind :: "'e + 'a \<Rightarrow> ('a \<Rightarrow> 'e + 'b) \<Rightarrow> 'e + 'b" where
  "sbind (Inl e) f = Inl e"
| "sbind (Inr a) f = f a"

section \<open>Lemmas\<close>

lemma sbind_cong [fundef_cong]:
  "x = y \<Longrightarrow> (\<And>a. y = Inr a \<Longrightarrow> f a = g a) \<Longrightarrow> sbind x f = sbind y g"
  by (cases y) auto

lemma sbind_eq_Inr_iff: "sbind x f = Inr b \<longleftrightarrow> (\<exists>a. x = Inr a \<and> f a = Inr b)"
  by (cases x) auto

lemma sbind_eq_Inl_iff: "sbind x f = Inl e \<longleftrightarrow> x = Inl e \<or> (\<exists>a. x = Inr a \<and> f a = Inl e)"
  by (cases x) auto

lemma c_div_nonneg [c_arith]: "0 \<le> a \<Longrightarrow> 0 < b \<Longrightarrow> c_div a b = a div b"
  by (cases "a = 0") (auto simp: c_div_def)

lemma c_div_pos_iff:
  assumes "0 < b"
  shows "0 < c_div a b \<longleftrightarrow> b \<le> a"
proof (cases "0 \<le> a")
  case True
  then show ?thesis using assms by (simp add: c_div_nonneg pos_imp_zdiv_pos_iff)
next
  case False
  then have "c_div a b = - (\<bar>a\<bar> div b)" using assms by (simp add: c_div_def)
  moreover have "0 \<le> \<bar>a\<bar> div b" using assms by (simp add: pos_imp_zdiv_nonneg_iff)
  ultimately show ?thesis using False assms by linarith
qed

lemma units_for_pos [c_arith]: "0 < u \<Longrightarrow> 0 < units_for sz u \<longleftrightarrow> 0 < sz"
  by (auto simp: units_for_def c_div_pos_iff)

lemma units_for_cover:
  assumes "0 < sz" "0 < u"
  shows "sz \<le> units_for sz u * u \<and> (units_for sz u - 1) * u < sz"
proof -
  define q where "q = (sz + u - 1) div u"
  have q: "units_for sz u = q" using assms by (simp add: units_for_def q_def c_div_nonneg)
  have "q * u + (sz + u - 1) mod u = sz + u - 1" by (simp add: q_def)
  moreover have "0 \<le> (sz + u - 1) mod u" "(sz + u - 1) mod u < u" using assms by simp_all
  ultimately have "sz \<le> q * u \<and> q * u - u < sz" by linarith
  then show ?thesis by (simp add: q algebra_simps)
qed

lemma le_zdiv_iff:
  fixes a b x :: int
  assumes "0 < b"
  shows "x \<le> a div b \<longleftrightarrow> x * b \<le> a"
proof
  assume "x \<le> a div b"
  then have "x * b \<le> a div b * b" using assms by simp
  also have "\<dots> \<le> a" using div_mult_mod_eq[of a b] pos_mod_sign[OF assms, of a] by linarith
  finally show "x * b \<le> a" .
next
  assume "x * b \<le> a"
  then have "x * b div b \<le> a div b" using assms by (intro zdiv_mono1)
  with assms show "x \<le> a div b" by simp
qed

lemma zdiv_less_iff: "0 < b \<Longrightarrow> a div b < x \<longleftrightarrow> a < x * b" for a b x :: int
  using le_zdiv_iff[of b x a] by linarith

lemma unat_add_nowrap:
  "unat a + unat b < 2 ^ LENGTH('a) \<Longrightarrow> unat (a + b) = unat a + unat b" for a b :: "'a :: len word"
  by (simp add: unat_word_ariths)

lemma unat_mult_nowrap:
  "unat a * unat b < 2 ^ LENGTH('a) \<Longrightarrow> unat (a * b) = unat a * unat b" for a b :: "'a :: len word"
  by (simp add: unat_word_ariths)

lemma length_fill [simp]: "length (fill lo n v xs) = length xs"
  by (induction lo n v xs rule: fill.induct) auto

lemma nth_fill [simp]:
  "k < length xs \<Longrightarrow> fill lo n v xs ! k = (if lo \<le> k \<and> k < lo + n then v else xs ! k)"
  by (induction lo n v xs rule: fill.induct) (auto simp: nth_list_update)

lemma used_count_alt: "used_count xs = (\<Sum>i<length xs. of_bool (xs ! i))"
proof (induction xs rule: rev_induct)
  case (snoc x xs)
  have "(\<Sum>i<length xs. of_bool ((xs @ [x]) ! i)) = (\<Sum>i<length xs. of_bool (xs ! i) :: int)"
    by (rule sum.cong) (auto simp: nth_append)
  with snoc show ?case by (simp add: used_count_def nth_append)
qed (simp add: used_count_def)

lemma used_count_nonneg [simp]: "0 \<le> used_count xs"
  by (simp add: used_count_def)

lemma used_count_le: "used_count xs \<le> int (length xs)"
  by (simp add: used_count_def)

lemma used_count_replicate [simp]: "used_count (replicate n False) = 0"
  by (simp add: used_count_def)

lemma used_count_update:
  "i < length xs \<Longrightarrow> used_count (xs[i := b]) = used_count xs + of_bool b - of_bool (xs ! i)"
proof (induction xs arbitrary: i)
  case (Cons x xs)
  then show ?case by (cases i) (auto simp: used_count_def)
qed simp

lemma used_count_fill:
  assumes "lo + n \<le> length xs" "\<And>k. lo \<le> k \<Longrightarrow> k < lo + n \<Longrightarrow> xs ! k = (\<not> b)"
  shows "used_count (fill lo n b xs) = used_count xs + (if b then int n else - int n)"
  using assms
proof (induction lo n b xs rule: fill.induct)
  case (2 lo n v xs)
  have "used_count (xs[lo := v]) = used_count xs + (if v then 1 else - 1)"
    using "2.prems"(1) "2.prems"(2)[of lo] by (simp add: used_count_update)
  with 2 show ?case by (auto simp: nth_list_update)
qed simp

lemma get_put_field [reg_simps]:
  assumes "v AND msk = v" "\<And>n. bit msk n \<Longrightarrow> n + pos < 32"
  shows "get_field msk pos (put_field msk pos v reg) = v"
proof (rule bit_word_eqI)
  fix n :: nat
  assume n: "n < LENGTH(32)"
  have vm: "bit v n \<Longrightarrow> bit msk n" for n
    using arg_cong [OF assms(1), of "\<lambda>w. bit w n"] by (simp add: bit_and_iff)
  show "bit (get_field msk pos (put_field msk pos v reg)) n \<longleftrightarrow> bit v n"
    using assms(2)[of n] vm[of n] n
    by (auto simp: get_field_def put_field_def bit_simps add.commute)
qed

lemma get_put_field_other [reg_simps]:
  assumes "push_bit p msk AND push_bit q msk' = 0" "v AND msk' = v"
  shows "get_field msk p (put_field msk' q v reg) = get_field msk p reg"
proof (rule bit_word_eqI)
  fix n :: nat
  assume n: "n < LENGTH(32)"
  have vm: "bit v n \<Longrightarrow> bit msk' n" for n
    using arg_cong [OF assms(2), of "\<lambda>w. bit w n"] by (simp add: bit_and_iff)
  have dis: "\<not> (bit (push_bit p msk) k \<and> bit (push_bit q msk') k)" for k
    using arg_cong [OF assms(1), of "\<lambda>w. bit w k"] by (simp add: bit_and_iff)
  show "bit (get_field msk p (put_field msk' q v reg)) n \<longleftrightarrow> bit (get_field msk p reg) n"
    using dis[of "p + n"] vm[of "p + n - q"] n
    by (auto simp: get_field_def put_field_def bit_simps)
qed

text \<open>A number that fits in a mask, and words inside or outside of a mask.\<close>

lemma low_mask: "unat v < 2 ^ n \<Longrightarrow> v AND mask n = v" for v :: u32
proof -
  assume "unat v < 2 ^ n"
  then have "take_bit n v = v" by (intro unsigned_word_eqI[where ?'a = nat]) (simp add: unsigned_take_bit_eq take_bit_nat_eq_self_iff)
  then show ?thesis by (simp add: take_bit_eq_mask)
qed

lemma sub_in: "w AND a = w \<Longrightarrow> a AND m = a \<Longrightarrow> w AND m = w" for w :: u32
  by (metis and.assoc)

lemma sub_out: "w AND a = w \<Longrightarrow> a AND m = 0 \<Longrightarrow> w AND m = 0" for w :: u32
  by (metis and.assoc and_zero_eq)

text \<open>A field inside of the mask that is replaced, and one outside of it.\<close>

lemma field_in: "m' AND m = m' \<Longrightarrow> ((reg AND NOT m) OR v) AND m' = v AND m'" for reg :: u32
proof (rule bit_word_eqI)
  fix n :: nat
  assume "m' AND m = m'" "n < LENGTH(32)"
  then have "bit m' n \<Longrightarrow> bit m n" by (metis bit_and_iff)
  then show "bit (((reg AND NOT m) OR v) AND m') n \<longleftrightarrow> bit (v AND m') n" by (auto simp: bit_simps)
qed

lemma field_out: "v AND m = v \<Longrightarrow> m' AND m = 0 \<Longrightarrow> ((reg AND NOT m) OR v) AND m' = reg AND m'" for reg :: u32
proof (rule bit_word_eqI)
  fix n :: nat
  assume a: "v AND m = v" "m' AND m = 0" "n < LENGTH(32)"
  have "bit v n \<Longrightarrow> bit m n" using a(1) by (metis bit_and_iff)
  moreover have "\<not> (bit m' n \<and> bit m n)" using a(2) by (metis bit_and_iff bit_0_eq bot_apply bot_bool_def)
  ultimately show "bit (((reg AND NOT m) OR v) AND m') n \<longleftrightarrow> bit (reg AND m') n" using a(3) by (auto simp: bit_simps)
qed

lemma unshift: "unat x < 2 ^ k \<Longrightarrow> j + k \<le> 32 \<Longrightarrow> drop_bit j (push_bit j x) = x" for x :: u32
proof -
  assume x: "unat x < 2 ^ k" and j: "j + k \<le> 32"
  have "take_bit k x = x" using x by (intro unsigned_word_eqI[where ?'a = nat]) (simp add: unsigned_take_bit_eq take_bit_nat_eq_self_iff)
  then have "bit x n \<Longrightarrow> n < k" for n by (metis bit_take_bit_iff)
  then have "bit x n \<Longrightarrow> j + n < 32" for n using j by (meson add_less_cancel_left order_less_le_trans)
  then show ?thesis by (intro bit_word_eqI) (auto simp: bit_simps)
qed

end
