(* ===== verification/Usb_Mem.thy ===== *)
theory Usb_Mem
  imports MA35_Prelude
begin

text \<open>
  The memory manager of the USB host library, \<^verbatim>\<open>UsbHostLib/src_core/mem_alloc.c\<close>: the pool of
  128 DMA units of 1024 bytes (\<open>usbh_alloc_mem\<close>, \<open>usbh_free_mem\<close>), the pool of 512
  hardware descriptor units of 128 bytes (six pairs of allocate/free functions for OHCI ED/TD and
  EHCI QH/qTD/iTD/siTD), the chain of USB devices, the UTR blocks and the device addresses 1..127.

  The static variables of the file are one record. The addresses of the two pools are chosen by the
  linker: they are fields of the record no operation writes. The raw bytes of the DMA pool are a
  function of the offset; a descriptor in the hardware pool, a \<open>UDEV_T\<close> and a \<open>UTR_T\<close>
  are typed objects at the address the allocator returned. Debug prints are left out.
  An array access out of range and the use of an object that is not allocated are
  \<open>mem_fault\<close>s, the undefined behaviour of C.
\<close>

section \<open>Constants and data\<close>

abbreviation HW_MEM_UNIT_SIZE :: nat where "HW_MEM_UNIT_SIZE \<equiv> 128"
abbreviation HW_MEM_UNIT_NUM :: nat where "HW_MEM_UNIT_NUM \<equiv> 512"
abbreviation DMA_MEM_UNIT_SIZE :: int where "DMA_MEM_UNIT_SIZE \<equiv> 1024"
abbreviation DMA_MEM_UNIT_NUM :: int where "DMA_MEM_UNIT_NUM \<equiv> 128"
abbreviation MAX_DESC_BUFF_SIZE :: int where "MAX_DESC_BUFF_SIZE \<equiv> 4096"
abbreviation USBH_ERR_MEM_FREE_INVALID :: int where "USBH_ERR_MEM_FREE_INVALID \<equiv> - 5"
abbreviation NON_CACHE :: u64 where "NON_CACHE \<equiv> 0x100000000"
abbreviation QTD_LIST_END :: u32 where "QTD_LIST_END \<equiv> 1"
abbreviation QTD_STS_HALT :: u32 where "QTD_STS_HALT \<equiv> 0x40"

text \<open>
  Sizes of the two structures on LP64: \<open>UDEV_T\<close> has an 18 byte packed descriptor, four
  pointers around a 16 byte \<open>EP_INFO_T\<close>; \<open>UTR_T\<close> has eight buffer pointers.
\<close>

abbreviation sizeof_UDEV_T :: int where "sizeof_UDEV_T \<equiv> 88"
abbreviation sizeof_UTR_T :: int where "sizeof_UTR_T \<equiv> 200"

text \<open>The address macros of \<^verbatim>\<open>mmio.h\<close>.\<close>

definition ptr_to_u32 :: "u64 \<Rightarrow> u32" where
  "ptr_to_u32 x = ucast x"

definition nc_addr64 :: "u64 \<Rightarrow> u64" where
  "nc_addr64 x = (x AND 0xffffffff) OR NON_CACHE"

definition addr_s :: "u64 \<Rightarrow> u64" where
  "addr_s x = x AND 0xffffffff"

datatype mem_fault = Index_Out_Of_Range | Dangling_Pointer

record ED_T =
  ed_Info :: u32
  ed_TailP :: u32
  ed_HeadP :: u32
  ed_NextED :: u32
  ed_bInterval :: u8
  ed_next_sf :: u16
  ed_next :: u64

record TD_T =
  td_Info :: u32
  td_CBP :: u32
  td_NextTD :: u32
  td_BE :: u32
  td_PSW :: "u32 list"
  td_buff_start :: u32
  td_ed :: u64
  td_utr :: u64
  td_next :: u64

record qTD_T =
  qtd_Next_qTD :: u32
  qtd_Alt_Next_qTD :: u32
  qtd_Token :: u32
  qtd_Bptr :: "u32 list"
  qtd_utr :: u64
  qtd_xfer_len :: u32
  qtd_qh :: u64
  qtd_next :: u64

record QH_T =
  qh_HLink :: u32
  qh_Chrst :: u32
  qh_Cap :: u32
  qh_Curr_qTD :: u32
  qh_OL_Next_qTD :: u32
  qh_OL_Alt_Next_qTD :: u32
  qh_OL_Token :: u32
  qh_OL_Bptr :: "u32 list"
  qh_qtd_list :: u64
  qh_done_list :: u64
  qh_next :: u64

record iTD_T =
  itd_Next_Link :: u32
  itd_Transaction :: "u32 list"
  itd_Bptr :: "u32 list"
  itd_iso_ep :: u64
  itd_utr :: u64
  itd_buff_base :: u32
  itd_fidx :: u8
  itd_trans_mask :: u8
  itd_sched_frnidx :: u32
  itd_next :: u64

record siTD_T =
  sitd_Next_Link :: u32
  sitd_Chrst :: u32
  sitd_Sched :: u32
  sitd_StsCtrl :: u32
  sitd_Bptr :: "u32 list"
  sitd_BackLink :: u32
  sitd_iso_ep :: u64
  sitd_utr :: u64
  sitd_fidx :: u8
  sitd_sched_frnidx :: u32
  sitd_next :: u64

datatype hw_obj = HW_raw | HW_ED ED_T | HW_TD TD_T | HW_QH QH_T | HW_qTD qTD_T | HW_iTD iTD_T | HW_siTD siTD_T

text \<open>What \<open>memset(p, 0, sizeof)\<close> leaves in each structure.\<close>

definition ED_zero :: ED_T where
  "ED_zero = \<lparr>ed_Info = 0, ed_TailP = 0, ed_HeadP = 0, ed_NextED = 0, ed_bInterval = 0,
     ed_next_sf = 0, ed_next = 0\<rparr>"

definition TD_zero :: TD_T where
  "TD_zero = \<lparr>td_Info = 0, td_CBP = 0, td_NextTD = 0, td_BE = 0, td_PSW = [0, 0, 0, 0],
     td_buff_start = 0, td_ed = 0, td_utr = 0, td_next = 0\<rparr>"

definition qTD_zero :: qTD_T where
  "qTD_zero = \<lparr>qtd_Next_qTD = 0, qtd_Alt_Next_qTD = 0, qtd_Token = 0, qtd_Bptr = [0, 0, 0, 0, 0],
     qtd_utr = 0, qtd_xfer_len = 0, qtd_qh = 0, qtd_next = 0\<rparr>"

definition QH_zero :: QH_T where
  "QH_zero = \<lparr>qh_HLink = 0, qh_Chrst = 0, qh_Cap = 0, qh_Curr_qTD = 0, qh_OL_Next_qTD = 0,
     qh_OL_Alt_Next_qTD = 0, qh_OL_Token = 0, qh_OL_Bptr = [0, 0, 0, 0, 0], qh_qtd_list = 0,
     qh_done_list = 0, qh_next = 0\<rparr>"

definition iTD_zero :: iTD_T where
  "iTD_zero = \<lparr>itd_Next_Link = 0, itd_Transaction = [0, 0, 0, 0, 0, 0, 0, 0],
     itd_Bptr = [0, 0, 0, 0, 0, 0, 0], itd_iso_ep = 0, itd_utr = 0, itd_buff_base = 0,
     itd_fidx = 0, itd_trans_mask = 0, itd_sched_frnidx = 0, itd_next = 0\<rparr>"

definition siTD_zero :: siTD_T where
  "siTD_zero = \<lparr>sitd_Next_Link = 0, sitd_Chrst = 0, sitd_Sched = 0, sitd_StsCtrl = 0,
     sitd_Bptr = [0, 0], sitd_BackLink = 0, sitd_iso_ep = 0, sitd_utr = 0, sitd_fidx = 0,
     sitd_sched_frnidx = 0, sitd_next = 0\<rparr>"

datatype speed_e = SPEED_LOW | SPEED_FULL | SPEED_HIGH

record EP_INFO_T =
  ep_bEndpointAddress :: u8
  ep_bmAttributes :: u8
  ep_bInterval :: u8
  ep_bToggle :: u8
  ep_wMaxPacketSize :: u16
  ep_hw_pipe :: u64

record UDEV_T =
  ud_descriptor :: "u8 list"
  ud_parent :: u64
  ud_port_num :: u8
  ud_dev_num :: u8
  ud_cur_conf :: int
  ud_speed :: speed_e
  ud_cfd_buff :: u64
  ud_ep0 :: EP_INFO_T
  ud_hc_driver :: u64
  ud_iface_list :: u64
  ud_next :: u64

definition UDEV_zero :: UDEV_T where
  "UDEV_zero = \<lparr>ud_descriptor = replicate 18 0, ud_parent = 0, ud_port_num = 0, ud_dev_num = 0,
     ud_cur_conf = 0, ud_speed = SPEED_LOW, ud_cfd_buff = 0,
     ud_ep0 = \<lparr>ep_bEndpointAddress = 0, ep_bmAttributes = 0, ep_bInterval = 0, ep_bToggle = 0,
       ep_wMaxPacketSize = 0, ep_hw_pipe = 0\<rparr>,
     ud_hc_driver = 0, ud_iface_list = 0, ud_next = 0\<rparr>"

record UTR_T =
  utr_udev :: u64
  utr_setup :: "u8 list"
  utr_ep :: u64
  utr_buff :: u64
  utr_bIsTransferDone :: u8
  utr_data_len :: u32
  utr_xfer_len :: u32
  utr_bIsoNewSched :: u8
  utr_iso_sf :: u16
  utr_iso_xlen :: "u16 list"
  utr_iso_buff :: "u64 list"
  utr_iso_status :: "int list"
  utr_td_cnt :: int
  utr_status :: int
  utr_interval :: int
  utr_context :: u64
  utr_func :: u64
  utr_next :: u64

definition UTR_zero :: UTR_T where
  "UTR_zero = \<lparr>utr_udev = 0, utr_setup = replicate 8 0, utr_ep = 0, utr_buff = 0,
     utr_bIsTransferDone = 0, utr_data_len = 0, utr_xfer_len = 0, utr_bIsoNewSched = 0,
     utr_iso_sf = 0, utr_iso_xlen = replicate 8 0, utr_iso_buff = replicate 8 0,
     utr_iso_status = replicate 8 0, utr_td_cnt = 0, utr_status = 0, utr_interval = 0,
     utr_context = 0, utr_func = 0, utr_next = 0\<rparr>"

text \<open>The static and global variables of the file.\<close>

record usb_mem =
  hw_mem_pool :: u64
  hw_unit_used :: "bool list"
  hw_objs :: "nat \<Rightarrow> hw_obj"
  dma_mem_pool :: u64
  dma_unit_used :: "bool list"
  dma_bytes :: "int \<Rightarrow> u8"
  g_udev_list :: u64
  udev_heap :: "u64 \<rightharpoonup> UDEV_T"
  utr_heap :: "u64 \<rightharpoonup> UTR_T"
  dev_addr_pool :: "u8 list"
  device_addr :: nat
  sidx :: nat
  hw_mem_used_cnt :: int
  dma_mem_used_cnt :: int
  ehci_qh_used :: int
  ehci_qtd_used :: int
  ehci_itd_used :: int
  ehci_sitd_used :: int
  ohci_ed_used :: int
  ohci_td_used :: int
  utr_used :: int

section \<open>Operations\<close>

subsection \<open>Initialisation and the DMA pool\<close>

definition usbh_memory_init :: "usb_mem \<Rightarrow> usb_mem" where
  "usbh_memory_init s = s\<lparr>
     hw_unit_used := replicate HW_MEM_UNIT_NUM False,
     hw_mem_used_cnt := 0,
     dma_unit_used := replicate (nat DMA_MEM_UNIT_NUM) False,
     dma_mem_used_cnt := 0,
     sidx := 0,
     g_udev_list := 0,
     dev_addr_pool := replicate 128 0,
     device_addr := 1,
     ehci_qh_used := 0, ehci_qtd_used := 0, ehci_itd_used := 0, ehci_sitd_used := 0,
     ohci_ed_used := 0, ohci_td_used := 0,
     utr_used := 0\<rparr>"

definition usbh_memory_used :: "usb_mem \<Rightarrow> int" where
  "usbh_memory_used s = dma_mem_used_cnt s"

text \<open>The search loop of \<open>usbh_alloc_mem\<close>; the result is \<open>(found, start)\<close> on leaving it.\<close>

function dma_scan :: "bool list \<Rightarrow> int \<Rightarrow> int \<Rightarrow> int \<Rightarrow> int \<Rightarrow> mem_fault + int \<times> int" where
  "dma_scan used wanted i found start =
     (if i < DMA_MEM_UNIT_NUM - wanted + 1 then
        if i < 0 \<or> int (length used) \<le> i then Inl Index_Out_Of_Range
        else if \<not> used ! nat i then
          (let start' = (if found = 0 then i else start); found' = found + 1 in
           if wanted \<le> found' then Inr (found', start')
           else dma_scan used wanted (i + 1) found' start')
        else dma_scan used wanted (i + 1) 0 start
      else Inr (found, start))"
  by pat_completeness auto
termination
  by (relation "measure (\<lambda>(used, wanted, i, found, start). nat (DMA_MEM_UNIT_NUM - wanted + 1 - i))")
     auto

definition dma_block :: "usb_mem \<Rightarrow> int \<Rightarrow> u64" where
  "dma_block s k = nc_addr64 (dma_mem_pool s + word_of_int (k * DMA_MEM_UNIT_SIZE))"

text \<open>
  A negative \<open>wanted\<close> reaches \<open>memset\<close> as a length of almost \<open>2 ^ 64\<close> bytes.
\<close>

definition usbh_alloc_mem :: "int \<Rightarrow> usb_mem \<Rightarrow> mem_fault + u64 \<times> usb_mem" where
  "usbh_alloc_mem sz s =
     (let wanted = units_for sz DMA_MEM_UNIT_SIZE in
      case dma_scan (dma_unit_used s) wanted 0 0 (- 1) of
        Inl e \<Rightarrow> Inl e
      | Inr (found, start) \<Rightarrow>
          if found < wanted then Inr (0, s)
          else if wanted < 0 then Inl Index_Out_Of_Range
          else Inr (dma_block s start,
            s\<lparr>dma_unit_used := fill (nat start) (nat found) True (dma_unit_used s),
              dma_mem_used_cnt := dma_mem_used_cnt s + wanted,
              dma_bytes := (\<lambda>k. if start * DMA_MEM_UNIT_SIZE \<le> k \<and>
                                   k < start * DMA_MEM_UNIT_SIZE + DMA_MEM_UNIT_SIZE * wanted
                                then 0 else dma_bytes s k)\<rparr>))"

text \<open>
  The address arithmetic of \<open>usbh_free_mem\<close> is unsigned 64 bit; \<open>wanted\<close> is a signed
  \<open>int\<close> that is converted.
\<close>

definition usbh_free_mem :: "u64 \<Rightarrow> int \<Rightarrow> usb_mem \<Rightarrow> int \<times> usb_mem" where
  "usbh_free_mem p sz s =
     (let paddr = addr_s p; base = addr_s (dma_mem_pool s) in
      if paddr < base \<or> base + word_of_int ((DMA_MEM_UNIT_NUM - 1) * DMA_MEM_UNIT_SIZE) < paddr
      then (USBH_ERR_MEM_FREE_INVALID, s)
      else let start = uint ((paddr - base) div word_of_int DMA_MEM_UNIT_SIZE) in
      if addr_s (dma_mem_pool s + word_of_int (start * DMA_MEM_UNIT_SIZE)) \<noteq> paddr
      then (USBH_ERR_MEM_FREE_INVALID, s)
      else let wanted = units_for sz DMA_MEM_UNIT_SIZE in
      if base + word_of_int (DMA_MEM_UNIT_NUM * DMA_MEM_UNIT_SIZE)
           < paddr + word_of_int (wanted * DMA_MEM_UNIT_SIZE)
      then (USBH_ERR_MEM_FREE_INVALID, s)
      else (0, s\<lparr>dma_unit_used := fill (nat start) (nat wanted) False (dma_unit_used s),
                 dma_mem_used_cnt := dma_mem_used_cnt s - wanted\<rparr>))"

subsection \<open>USB devices\<close>

definition alloc_device :: "usb_mem \<Rightarrow> mem_fault + u64 \<times> usb_mem" where
  "alloc_device s =
     (case usbh_alloc_mem sizeof_UDEV_T s of
        Inl e \<Rightarrow> Inl e
      | Inr (p, s1) \<Rightarrow>
          if p = 0 then Inr (0, s1)
          else Inr (p, s1\<lparr>
            udev_heap := (udev_heap s1)(p \<mapsto> UDEV_zero\<lparr>ud_cur_conf := - 1, ud_next := g_udev_list s1\<rparr>),
            g_udev_list := p\<rparr>))"

text \<open>The loop that unlinks \<open>udev\<close> from the chain that starts at \<open>d\<close>.\<close>

partial_function (option) unlink_udev ::
  "u64 \<Rightarrow> u64 \<Rightarrow> u64 \<Rightarrow> (u64 \<rightharpoonup> UDEV_T) \<Rightarrow> (mem_fault + (u64 \<rightharpoonup> UDEV_T)) option" where
  "unlink_udev udev nxt d h =
     (if d = 0 then Some (Inr h)
      else case h d of
        None \<Rightarrow> Some (Inl Dangling_Pointer)
      | Some ob \<Rightarrow>
          if ud_next ob = udev then Some (Inr (h(d \<mapsto> ob\<lparr>ud_next := nxt\<rparr>)))
          else unlink_udev udev nxt (ud_next ob) h)"

definition free_device :: "u64 \<Rightarrow> usb_mem \<Rightarrow> (mem_fault + usb_mem) option" where
  "free_device udev s =
     (if udev = 0 then Some (Inr s)
      else case udev_heap s udev of
        None \<Rightarrow> Some (Inl Dangling_Pointer)
      | Some ob \<Rightarrow>
          (let cfd = addr_s (ud_cfd_buff ob);
               s1 = s\<lparr>udev_heap := (udev_heap s)(udev \<mapsto> ob\<lparr>ud_cfd_buff := cfd\<rparr>)\<rparr>;
               s2 = (if cfd \<noteq> 0 then snd (usbh_free_mem cfd MAX_DESC_BUFF_SIZE s1) else s1);
               unlinked =
                 (if g_udev_list s2 = udev
                  then Some (Inr (s2\<lparr>g_udev_list := ud_next ob\<rparr>))
                  else map_option (map_sum id (\<lambda>h. s2\<lparr>udev_heap := h\<rparr>))
                         (unlink_udev udev (ud_next ob) (g_udev_list s2) (udev_heap s2)))
           in map_option (map_sum id (\<lambda>s3.
                let s4 = snd (usbh_free_mem udev sizeof_UDEV_T s3)
                in s4\<lparr>udev_heap := (udev_heap s4)(udev := None)\<rparr>)) unlinked))"

subsection \<open>Device addresses\<close>

text \<open>
  \<open>_device_addr++; if (_device_addr >= 128) _device_addr = 1;\<close> and the search loop, which
  does not return when no address is free.
\<close>

definition next_dev_addr :: "nat \<Rightarrow> nat" where
  "next_dev_addr a = (if 128 \<le> a + 1 then 1 else a + 1)"

partial_function (option) dev_addr_loop :: "u8 list \<Rightarrow> nat \<Rightarrow> nat option" where
  "dev_addr_loop pool a =
     (if pool ! a = 0 then Some a else dev_addr_loop pool (next_dev_addr a))"

definition alloc_dev_address :: "usb_mem \<Rightarrow> (nat \<times> usb_mem) option" where
  "alloc_dev_address s =
     map_option (\<lambda>a. (a, s\<lparr>device_addr := a, dev_addr_pool := (dev_addr_pool s)[a := 1]\<rparr>))
       (dev_addr_loop (dev_addr_pool s) (next_dev_addr (device_addr s)))"

definition free_dev_address :: "int \<Rightarrow> usb_mem \<Rightarrow> mem_fault + usb_mem" where
  "free_dev_address dev_addr s =
     (if dev_addr < 128 then
        if dev_addr < 0 then Inl Index_Out_Of_Range
        else Inr (s\<lparr>dev_addr_pool := (dev_addr_pool s)[nat dev_addr := 0]\<rparr>)
      else Inr s)"

subsection \<open>Transfer requests\<close>

definition alloc_utr :: "u64 \<Rightarrow> usb_mem \<Rightarrow> mem_fault + u64 \<times> usb_mem" where
  "alloc_utr udev s =
     (case usbh_alloc_mem sizeof_UTR_T s of
        Inl e \<Rightarrow> Inl e
      | Inr (p, s1) \<Rightarrow>
          if p = 0 then Inr (0, s1)
          else Inr (p, s1\<lparr>utr_heap := (utr_heap s1)(p \<mapsto> UTR_zero\<lparr>utr_udev := udev\<rparr>),
                          utr_used := utr_used s1 + 1\<rparr>))"

definition free_utr :: "u64 \<Rightarrow> usb_mem \<Rightarrow> usb_mem" where
  "free_utr utr s =
     (if utr = 0 then s
      else let s1 = snd (usbh_free_mem utr sizeof_UTR_T s)
           in s1\<lparr>utr_heap := (utr_heap s1)(utr := None), utr_used := utr_used s1 - 1\<rparr>)"

subsection \<open>Hardware descriptors\<close>

definition hw_unit_addr :: "usb_mem \<Rightarrow> nat \<Rightarrow> u64" where
  "hw_unit_addr s i = hw_mem_pool s + word_of_nat (i * HW_MEM_UNIT_SIZE)"

text \<open>First fit, the loop of the OHCI allocators.\<close>

function hw_first_free :: "bool list \<Rightarrow> nat \<Rightarrow> nat option" where
  "hw_first_free used i =
     (if i < HW_MEM_UNIT_NUM then
        if \<not> used ! i then Some i else hw_first_free used (i + 1)
      else None)"
  by pat_completeness auto
termination by (relation "measure (\<lambda>(used, i). HW_MEM_UNIT_NUM - i)") auto

text \<open>Next fit after \<open>_sidx\<close>, the loop of the EHCI allocators; the unit \<open>_sidx\<close> itself is not tried.\<close>

partial_function (option) hw_next_free :: "bool list \<Rightarrow> nat \<Rightarrow> nat \<Rightarrow> nat option option" where
  "hw_next_free used sidx0 i =
     (if i = sidx0 then Some None
      else if \<not> used ! i then Some (Some i)
      else hw_next_free used sidx0 ((i + 1) mod HW_MEM_UNIT_NUM))"

text \<open>The loop of the \<open>free\<close> functions: the unit whose address has the same low 32 bits.\<close>

function hw_unit_of :: "u64 \<Rightarrow> usb_mem \<Rightarrow> nat \<Rightarrow> nat option" where
  "hw_unit_of p s i =
     (if i < HW_MEM_UNIT_NUM then
        if ptr_to_u32 (hw_unit_addr s i) = ptr_to_u32 p then Some i else hw_unit_of p s (i + 1)
      else None)"
  by pat_completeness auto
termination by (relation "measure (\<lambda>(p, s, i). HW_MEM_UNIT_NUM - i)") auto

declare dma_scan.simps [simp del] hw_first_free.simps [simp del] hw_unit_of.simps [simp del]

text \<open>Taking unit \<open>i\<close> for the object \<open>ob\<close>, and giving it back.\<close>

definition hw_take :: "nat \<Rightarrow> hw_obj \<Rightarrow> usb_mem \<Rightarrow> usb_mem" where
  "hw_take i ob s = s\<lparr>hw_unit_used := (hw_unit_used s)[i := True],
                      hw_mem_used_cnt := hw_mem_used_cnt s + 1,
                      hw_objs := (hw_objs s)(i := ob)\<rparr>"

definition hw_release :: "nat \<Rightarrow> usb_mem \<Rightarrow> usb_mem" where
  "hw_release i s = s\<lparr>hw_unit_used := (hw_unit_used s)[i := False],
                      hw_mem_used_cnt := hw_mem_used_cnt s - 1\<rparr>"

definition alloc_ohci_ED :: "usb_mem \<Rightarrow> u64 \<times> usb_mem" where
  "alloc_ohci_ED s =
     (case hw_first_free (hw_unit_used s) 0 of
        None \<Rightarrow> (0, s)
      | Some i \<Rightarrow> (nc_addr64 (hw_unit_addr s i),
          (hw_take i (HW_ED ED_zero) s)\<lparr>ohci_ed_used := ohci_ed_used s + 1\<rparr>))"

definition free_ohci_ED :: "u64 \<Rightarrow> usb_mem \<Rightarrow> usb_mem" where
  "free_ohci_ED ed s =
     (case hw_unit_of ed s 0 of
        None \<Rightarrow> s
      | Some i \<Rightarrow> (hw_release i s)\<lparr>ohci_ed_used := ohci_ed_used s - 1\<rparr>)"

definition alloc_ohci_TD :: "u64 \<Rightarrow> usb_mem \<Rightarrow> u64 \<times> usb_mem" where
  "alloc_ohci_TD utr s =
     (case hw_first_free (hw_unit_used s) 0 of
        None \<Rightarrow> (0, s)
      | Some i \<Rightarrow> (nc_addr64 (hw_unit_addr s i),
          (hw_take i (HW_TD (TD_zero\<lparr>td_utr := utr\<rparr>)) s)\<lparr>ohci_td_used := ohci_td_used s + 1\<rparr>))"

definition free_ohci_TD :: "u64 \<Rightarrow> usb_mem \<Rightarrow> usb_mem" where
  "free_ohci_TD td s =
     (case hw_unit_of td s 0 of
        None \<Rightarrow> s
      | Some i \<Rightarrow> (hw_release i s)\<lparr>ohci_td_used := ohci_td_used s - 1\<rparr>)"

text \<open>The common search of the EHCI allocators.\<close>

definition ehci_search :: "usb_mem \<Rightarrow> nat option option" where
  "ehci_search s = hw_next_free (hw_unit_used s) (sidx s) ((sidx s + 1) mod HW_MEM_UNIT_NUM)"

definition alloc_ehci_QH :: "usb_mem \<Rightarrow> (u64 \<times> usb_mem) option" where
  "alloc_ehci_QH s = map_option (\<lambda>r. case r of
        None \<Rightarrow> (0, s)
      | Some i \<Rightarrow> (nc_addr64 (hw_unit_addr s i),
          (hw_take i (HW_QH (QH_zero\<lparr>qh_Curr_qTD := QTD_LIST_END, qh_OL_Next_qTD := QTD_LIST_END,
             qh_OL_Alt_Next_qTD := QTD_LIST_END, qh_OL_Token := QTD_STS_HALT\<rparr>)) s)
          \<lparr>sidx := i, ehci_qh_used := ehci_qh_used s + 1\<rparr>)) (ehci_search s)"

definition free_ehci_QH :: "u64 \<Rightarrow> usb_mem \<Rightarrow> usb_mem" where
  "free_ehci_QH qh s =
     (case hw_unit_of qh s 0 of
        None \<Rightarrow> s
      | Some i \<Rightarrow> (hw_release i s)\<lparr>ehci_qh_used := ehci_qh_used s - 1\<rparr>)"

definition alloc_ehci_qTD :: "u64 \<Rightarrow> usb_mem \<Rightarrow> (u64 \<times> usb_mem) option" where
  "alloc_ehci_qTD utr s = map_option (\<lambda>r. case r of
        None \<Rightarrow> (0, s)
      | Some i \<Rightarrow> (nc_addr64 (hw_unit_addr s i),
          (hw_take i (HW_qTD (qTD_zero\<lparr>qtd_Next_qTD := QTD_LIST_END, qtd_Alt_Next_qTD := QTD_LIST_END,
             qtd_Token := 0x1197B7F, qtd_utr := utr\<rparr>)) s)
          \<lparr>sidx := i, ehci_qtd_used := ehci_qtd_used s + 1\<rparr>)) (ehci_search s)"

definition free_ehci_qTD :: "u64 \<Rightarrow> usb_mem \<Rightarrow> usb_mem" where
  "free_ehci_qTD qtd s =
     (case hw_unit_of qtd s 0 of
        None \<Rightarrow> s
      | Some i \<Rightarrow> (hw_release i s)\<lparr>ehci_qtd_used := ehci_qtd_used s - 1\<rparr>)"

definition alloc_ehci_iTD :: "usb_mem \<Rightarrow> (u64 \<times> usb_mem) option" where
  "alloc_ehci_iTD s = map_option (\<lambda>r. case r of
        None \<Rightarrow> (0, s)
      | Some i \<Rightarrow> (nc_addr64 (hw_unit_addr s i),
          (hw_take i (HW_iTD iTD_zero) s)\<lparr>sidx := i, ehci_itd_used := ehci_itd_used s + 1\<rparr>))
      (ehci_search s)"

definition free_ehci_iTD :: "u64 \<Rightarrow> usb_mem \<Rightarrow> usb_mem" where
  "free_ehci_iTD itd s =
     (case hw_unit_of itd s 0 of
        None \<Rightarrow> s
      | Some i \<Rightarrow> (hw_release i s)\<lparr>ehci_itd_used := ehci_itd_used s - 1\<rparr>)"

definition alloc_ehci_siTD :: "usb_mem \<Rightarrow> (u64 \<times> usb_mem) option" where
  "alloc_ehci_siTD s = map_option (\<lambda>r. case r of
        None \<Rightarrow> (0, s)
      | Some i \<Rightarrow> (nc_addr64 (hw_unit_addr s i),
          (hw_take i (HW_siTD siTD_zero) s)\<lparr>sidx := i, ehci_sitd_used := ehci_sitd_used s + 1\<rparr>))
      (ehci_search s)"

definition free_ehci_siTD :: "u64 \<Rightarrow> usb_mem \<Rightarrow> usb_mem" where
  "free_ehci_siTD sitd s =
     (case hw_unit_of sitd s 0 of
        None \<Rightarrow> s
      | Some i \<Rightarrow> (hw_release i s)\<lparr>ehci_sitd_used := ehci_sitd_used s - 1\<rparr>)"

end
