(* ===== verification/Usb_Mem_Facts.thy ===== *)
theory Usb_Mem_Facts
  imports Usb_Mem
begin

text \<open>
  Correctness of the USB host memory manager of theory \<open>Usb_Mem\<close>: the well-formedness
  invariant, the exact behaviour of the three search loops, soundness of allocation, release as its
  inverse, the interface \<open>block_allocator\<close> that the host controller drivers rely on with one
  interpretation per descriptor type, the device chain as a list, and the step relation of the whole
  manager with its reachable states.
\<close>

section \<open>Invariant and abstractions\<close>

text \<open>
  Array lengths, cursors in range, usage counters equal to the number of occupied units, and both
  pools below 4 GB as the 32 bit address macros require.
\<close>

definition mem_wf :: "usb_mem \<Rightarrow> bool" where
  "mem_wf s \<longleftrightarrow>
     length (hw_unit_used s) = HW_MEM_UNIT_NUM \<and>
     length (dma_unit_used s) = nat DMA_MEM_UNIT_NUM \<and>
     length (dev_addr_pool s) = 128 \<and>
     sidx s < HW_MEM_UNIT_NUM \<and>
     1 \<le> device_addr s \<and> device_addr s < 128 \<and>
     hw_mem_used_cnt s = used_count (hw_unit_used s) \<and>
     dma_mem_used_cnt s = used_count (dma_unit_used s) \<and>
     uint (hw_mem_pool s) + 65536 \<le> 2 ^ 32 \<and>
     uint (dma_mem_pool s) + 131072 \<le> 2 ^ 32"

text \<open>A run of \<open>n\<close> free units from unit \<open>k\<close> on.\<close>

definition free_run :: "bool list \<Rightarrow> int \<Rightarrow> int \<Rightarrow> bool" where
  "free_run used k n \<longleftrightarrow> 0 \<le> k \<and> k + n \<le> int (length used) \<and> (\<forall>j\<in>{k..<k + n}. \<not> used ! nat j)"

text \<open>The addresses handed out and not given back.\<close>

definition hw_live :: "usb_mem \<Rightarrow> u64 set" where
  "hw_live s = (\<lambda>i. nc_addr64 (hw_unit_addr s i)) ` {i. i < HW_MEM_UNIT_NUM \<and> hw_unit_used s ! i}"

definition dma_live :: "usb_mem \<Rightarrow> u64 set" where
  "dma_live s = dma_block s ` {k. 0 \<le> k \<and> k < DMA_MEM_UNIT_NUM \<and> dma_unit_used s ! nat k}"

section \<open>Addresses\<close>

lemma word_and_mask32: "(x :: u64) AND 0xffffffff = take_bit 32 x"
  by (simp add: take_bit_eq_mask mask_eq_decr_exp)

lemma uint_addr_s: "uint (addr_s x) = uint x mod 2 ^ 32"
  unfolding addr_s_def word_and_mask32 unsigned_take_bit_eq by (rule take_bit_eq_mod)

lemma bit_NON_CACHE: "bit NON_CACHE n \<longleftrightarrow> n = 32"
  using bit_exp_iff [where ?'a = "64 word", of 32 n] by auto

lemma addr_s_nc [simp]: "addr_s (nc_addr64 x) = addr_s x"
  by (rule bit_word_eqI) (simp only: addr_s_def nc_addr64_def word_and_mask32 bit_simps bit_NON_CACHE, auto)

lemma nc_addr64_neq_0 [simp]: "nc_addr64 x \<noteq> 0"
proof
  assume "nc_addr64 x = 0"
  then have "bit (nc_addr64 x) 32 = bit (0 :: u64) 32" by simp
  then show False by (simp only: nc_addr64_def bit_simps bit_NON_CACHE, auto)
qed

lemma ptr_to_u32_nc [simp]: "ptr_to_u32 (nc_addr64 x) = ptr_to_u32 x"
  by (rule bit_word_eqI)
     (simp only: ptr_to_u32_def nc_addr64_def word_and_mask32 bit_simps bit_NON_CACHE, auto)

lemma nc_addr64_eqD:
  assumes "nc_addr64 x = nc_addr64 y" "uint x < 2 ^ 32" "uint y < 2 ^ 32"
  shows "x = y"
proof -
  from assms(1) have "uint (addr_s x) = uint (addr_s y)" by (metis addr_s_nc)
  with assms(2,3) have "uint x = uint y" by (simp add: uint_addr_s)
  then show ?thesis by (rule word_uint_eqI)
qed

lemma ptr_to_u32_eqD:
  assumes "ptr_to_u32 x = ptr_to_u32 y" "uint x < 2 ^ 32" "uint y < 2 ^ 32"
  shows "x = y"
proof -
  have "uint (ptr_to_u32 z) = uint z mod 2 ^ 32" for z
    unfolding ptr_to_u32_def unsigned_ucast_eq by (simp add: take_bit_eq_mod)
  with assms have "uint x = uint y" by (metis mod_pos_pos_trivial unsigned_greater_eq)
  then show ?thesis by (rule word_uint_eqI)
qed

lemma uint_plus_small:
  assumes "0 \<le> k" "uint (a :: u64) + k \<le> 2 ^ 32"
  shows "uint (a + word_of_int k) = uint a + k"
proof -
  have a: "0 \<le> uint a" by simp
  have "(2 :: int) ^ 32 < 2 ^ 64" by simp
  with assms a have "k < 2 ^ 64" "uint a + k < 2 ^ 64" by linarith+
  with assms(1) a have "k mod 2 ^ 64 = k" "(uint a + k) mod 2 ^ 64 = uint a + k"
    by (auto intro: mod_pos_pos_trivial)
  then show ?thesis by (simp add: uint_word_ariths uint_word_of_int)
qed

section \<open>The search loops\<close>

lemma dma_scan_sound:
  assumes "dma_scan used wanted i found start = Inr (f, st)" "1 \<le> wanted"
    "length used = 128" "0 \<le> i" "0 \<le> found" "found < wanted" "found \<le> i"
    "0 < found \<longrightarrow> start = i - found" "\<forall>j\<in>{i - found..<i}. \<not> used ! nat j" "wanted \<le> f"
  shows "f = wanted \<and> 0 \<le> st \<and> st + 2 * wanted \<le> 129 \<and> free_run used st wanted"
  using assms
proof (induction used wanted i found start rule: dma_scan.induct)
  case (1 used wanted i found start)
  let ?st = "if found = 0 then i else start"
  show ?case
  proof (cases "i < DMA_MEM_UNIT_NUM - wanted + 1")
    case False
    with "1.prems" show ?thesis by (simp add: dma_scan.simps[of used wanted i])
  next
    case lt: True
    have len: "\<not> (i < 0 \<or> int (length used) \<le> i)" using lt "1.prems" by auto
    show ?thesis
    proof (cases "used ! nat i")
      case True
      have "dma_scan used wanted (i + 1) 0 start = Inr (f, st)"
        using "1.prems"(1) lt len True by (simp add: dma_scan.simps[of used wanted i])
      then show ?thesis using "1.IH"(2)[OF lt len] True "1.prems" by auto
    next
      case free: False
      have run: "\<forall>j\<in>{i - found..<i + 1}. \<not> used ! nat j"
      proof
        fix j assume "j \<in> {i - found..<i + 1}"
        then show "\<not> used ! nat j" using "1.prems"(9) free by (cases "j = i") auto
      qed
      have st: "?st = i - found" using "1.prems" by auto
      show ?thesis
      proof (cases "wanted \<le> found + 1")
        case True
        then have "f = found + 1 \<and> st = i - found"
          using "1.prems"(1) lt len free st by (simp add: dma_scan.simps[of used wanted i] Let_def)
        then show ?thesis using True run "1.prems" lt by (auto simp: free_run_def)
      next
        case False
        have "dma_scan used wanted (i + 1) (found + 1) ?st = Inr (f, st)"
          using "1.prems"(1) lt len free False
          by (simp add: dma_scan.simps[of used wanted i] Let_def)
        then show ?thesis
          using "1.IH"(1)[OF lt len _ refl refl] free False "1.prems" run st by simp
      qed
    qed
  qed
qed

lemma dma_scan_complete:
  assumes "dma_scan used wanted i found start = Inr (f, st)" "1 \<le> wanted"
    "length used = 128" "0 \<le> i" "0 \<le> found" "found < wanted" "found \<le> i" "f < wanted"
    "i - found \<le> k" "k + 2 * wanted \<le> 129"
  shows "\<not> free_run used k wanted"
  using assms
proof (induction used wanted i found start rule: dma_scan.induct)
  case (1 used wanted i found start)
  show ?case
  proof (cases "i < DMA_MEM_UNIT_NUM - wanted + 1")
    case False
    with "1.prems" show ?thesis by auto
  next
    case lt: True
    have len: "\<not> (i < 0 \<or> int (length used) \<le> i)" using lt "1.prems" by auto
    show ?thesis
    proof (cases "used ! nat i")
      case True
      have "dma_scan used wanted (i + 1) 0 start = Inr (f, st)"
        using "1.prems"(1) lt len True by (simp add: dma_scan.simps[of used wanted i])
      then have "i + 1 \<le> k \<Longrightarrow> \<not> free_run used k wanted"
        using "1.IH"(2)[OF lt len] True "1.prems" by auto
      moreover have "\<not> free_run used k wanted" if "k \<le> i"
        using True that "1.prems" by (auto simp: free_run_def)
      ultimately show ?thesis by linarith
    next
      case free: False
      show ?thesis
      proof (cases "wanted \<le> found + 1")
        case True
        then show ?thesis
          using "1.prems"(1,8) lt len free by (simp add: dma_scan.simps[of used wanted i] Let_def)
      next
        case False
        have "dma_scan used wanted (i + 1) (found + 1) (if found = 0 then i else start) = Inr (f, st)"
          using "1.prems"(1) lt len free False
          by (simp add: dma_scan.simps[of used wanted i] Let_def)
        then show ?thesis using "1.IH"(1)[OF lt len _ refl refl] free False "1.prems" by simp
      qed
    qed
  qed
qed

lemma dma_scan_in_range:
  assumes "1 \<le> wanted" "length used = 128" "0 \<le> i"
  shows "\<exists>f st. dma_scan used wanted i found start = Inr (f, st)"
  using assms
proof (induction used wanted i found start rule: dma_scan.induct)
  case (1 used wanted i found start)
  show ?case
  proof (cases "i < DMA_MEM_UNIT_NUM - wanted + 1")
    case lt: True
    have len: "\<not> (i < 0 \<or> int (length used) \<le> i)" using lt "1.prems" by auto
    show ?thesis
      using "1.IH"(1)[OF lt len _ refl refl] "1.IH"(2)[OF lt len] "1.prems" lt len
      by (auto simp: dma_scan.simps[of used wanted i] Let_def)
  qed (simp add: dma_scan.simps[of used wanted i])
qed

lemma hw_first_free_Some:
  "hw_first_free used i = Some k \<Longrightarrow>
     i \<le> k \<and> k < HW_MEM_UNIT_NUM \<and> \<not> used ! k \<and> (\<forall>j\<in>{i..<k}. used ! j)"
proof (induction used i rule: hw_first_free.induct)
  case (1 used i)
  show ?case
  proof (cases "i < HW_MEM_UNIT_NUM \<and> used ! i")
    case True
    with 1 have IH: "i + 1 \<le> k \<and> k < HW_MEM_UNIT_NUM \<and> \<not> used ! k \<and> (\<forall>j\<in>{i + 1..<k}. used ! j)"
      by (simp add: hw_first_free.simps[of used i])
    have "used ! j" if "j \<in> {i..<k}" for j
      using IH True that by (cases "j = i") auto
    with IH show ?thesis by auto
  next
    case False
    with "1.prems" show ?thesis by (auto simp: hw_first_free.simps[of used i] split: if_splits)
  qed
qed

lemma hw_first_free_None:
  "hw_first_free used i = None \<longleftrightarrow> (\<forall>j\<in>{i..<HW_MEM_UNIT_NUM}. used ! j)"
proof (induction used i rule: hw_first_free.induct)
  case (1 used i)
  show ?case
  proof (cases "i < HW_MEM_UNIT_NUM")
    case True
    then have "{i..<HW_MEM_UNIT_NUM} = insert i {i + 1..<HW_MEM_UNIT_NUM}" by auto
    with True 1 show ?thesis by (auto simp: hw_first_free.simps[of used i])
  qed (simp add: hw_first_free.simps[of used i])
qed

text \<open>Distance from \<open>i\<close> to \<open>a\<close> on the circle of \<open>n\<close> units.\<close>

lemma circle_distance:
  "a < n \<Longrightarrow> i < n \<Longrightarrow> (a + n - i) mod n = (if i \<le> a then a - i else a + n - i)" for n :: nat
  by (auto simp: le_add_diff_inverse2 mod_if)

lemma circle_next: "i < n \<Longrightarrow> (i + 1) mod n = (if i + 1 = n then 0 else i + 1)" for n :: nat
  by auto

lemma circle_reach:
  "a < n \<Longrightarrow> i < n \<Longrightarrow> (i + (a + n - i) mod n) mod n = a" for n :: nat
  by (auto simp: circle_distance)

lemma hw_next_free_spec:
  assumes "sidx0 < HW_MEM_UNIT_NUM" "i < HW_MEM_UNIT_NUM" "d = (sidx0 + HW_MEM_UNIT_NUM - i) mod HW_MEM_UNIT_NUM"
  shows "\<exists>r. hw_next_free used sidx0 i = Some r \<and>
    (case r of None \<Rightarrow> \<forall>m<d. used ! ((i + m) mod HW_MEM_UNIT_NUM)
     | Some k \<Rightarrow> k < HW_MEM_UNIT_NUM \<and> k \<noteq> sidx0 \<and> \<not> used ! k)"
  using assms
proof (induction d arbitrary: i)
  case 0
  then have "i = sidx0" by (auto simp: circle_distance split: if_splits)
  then show ?case by (simp add: hw_next_free.simps[of used sidx0 sidx0])
next
  case (Suc d)
  define i' where "i' = (i + 1) mod HW_MEM_UNIT_NUM"
  have ne: "i \<noteq> sidx0" using Suc.prems by (auto simp: circle_distance)
  have i': "i' < HW_MEM_UNIT_NUM" "d = (sidx0 + HW_MEM_UNIT_NUM - i') mod HW_MEM_UNIT_NUM"
    using Suc.prems ne unfolding i'_def circle_next[OF Suc.prems(2)]
    by (auto simp: circle_distance split: if_splits)
  show ?case
  proof (cases "used ! i")
    case False
    then show ?thesis using ne Suc.prems by (simp add: hw_next_free.simps[of used sidx0 i])
  next
    case True
    then have eq: "hw_next_free used sidx0 i = hw_next_free used sidx0 i'"
      using ne by (simp add: hw_next_free.simps[of used sidx0 i] i'_def)
    have "\<forall>m<Suc d. used ! ((i + m) mod HW_MEM_UNIT_NUM)"
      if h: "\<forall>m<d. used ! ((i' + m) mod HW_MEM_UNIT_NUM)"
    proof (intro allI impI)
      fix m assume "m < Suc d"
      then show "used ! ((i + m) mod HW_MEM_UNIT_NUM)"
        using h True Suc.prems(2) by (cases m) (auto simp: i'_def mod_simps)
    qed
    then show ?thesis
      using Suc.IH[OF Suc.prems(1) i'] unfolding eq by (auto split: option.splits)
  qed
qed

lemma ehci_search_spec:
  assumes "sidx s < HW_MEM_UNIT_NUM"
  shows "\<exists>r. ehci_search s = Some r \<and>
    (case r of None \<Rightarrow> \<forall>j<HW_MEM_UNIT_NUM. j \<noteq> sidx s \<longrightarrow> hw_unit_used s ! j
     | Some k \<Rightarrow> k < HW_MEM_UNIT_NUM \<and> k \<noteq> sidx s \<and> \<not> hw_unit_used s ! k)"
proof -
  let ?i = "(sidx s + 1) mod HW_MEM_UNIT_NUM"
  have d: "511 = (sidx s + HW_MEM_UNIT_NUM - ?i) mod HW_MEM_UNIT_NUM" and lt: "?i < HW_MEM_UNIT_NUM"
    unfolding circle_next[OF assms] using assms by (auto simp: circle_distance)
  have all: "\<forall>j<HW_MEM_UNIT_NUM. j \<noteq> sidx s \<longrightarrow> hw_unit_used s ! j"
    if h: "\<forall>m<511. hw_unit_used s ! ((?i + m) mod HW_MEM_UNIT_NUM)"
  proof (intro allI impI)
    fix j assume "j < HW_MEM_UNIT_NUM" "j \<noteq> sidx s"
    then have "(j + HW_MEM_UNIT_NUM - ?i) mod HW_MEM_UNIT_NUM < 511"
      using assms lt unfolding circle_next[OF assms] by (auto simp: circle_distance split: if_splits)
    moreover have "(?i + (j + HW_MEM_UNIT_NUM - ?i) mod HW_MEM_UNIT_NUM) mod HW_MEM_UNIT_NUM = j"
      using \<open>j < HW_MEM_UNIT_NUM\<close> lt by (rule circle_reach)
    ultimately
    show "hw_unit_used s ! j" using h by metis
  qed
  then show ?thesis
    using hw_next_free_spec[OF assms lt d, of "hw_unit_used s"]
    unfolding ehci_search_def by (auto split: option.splits)
qed

section \<open>Addresses of units\<close>

lemma uint_hw_unit_addr:
  "mem_wf s \<Longrightarrow> i < HW_MEM_UNIT_NUM \<Longrightarrow>
     uint (hw_unit_addr s i) = uint (hw_mem_pool s) + 128 * int i \<and> uint (hw_unit_addr s i) < 2 ^ 32"
proof -
  assume "mem_wf s" "i < HW_MEM_UNIT_NUM"
  then have "uint (hw_mem_pool s) + int (i * 128) < 2 ^ 32" by (simp add: mem_wf_def)
  moreover from this have "uint (hw_mem_pool s + word_of_int (int (i * 128))) = uint (hw_mem_pool s) + int (i * 128)"
    by (intro uint_plus_small) simp_all
  moreover have "hw_unit_addr s i = hw_mem_pool s + word_of_int (int (i * 128))"
    unfolding hw_unit_addr_def by (simp only: of_int_of_nat_eq)
  ultimately show ?thesis by simp
qed

lemma hw_unit_addr_inj:
  assumes "mem_wf s" "i < HW_MEM_UNIT_NUM" "j < HW_MEM_UNIT_NUM"
    "ptr_to_u32 (hw_unit_addr s i) = ptr_to_u32 (hw_unit_addr s j)"
  shows "i = j"
proof -
  have "hw_unit_addr s i = hw_unit_addr s j"
    using assms(4) conjunct2[OF uint_hw_unit_addr[OF assms(1,2)]]
      conjunct2[OF uint_hw_unit_addr[OF assms(1,3)]] by (rule ptr_to_u32_eqD)
  then have "uint (hw_unit_addr s i) = uint (hw_unit_addr s j)" by (rule arg_cong)
  then show ?thesis
    using conjunct1[OF uint_hw_unit_addr[OF assms(1,2)]] conjunct1[OF uint_hw_unit_addr[OF assms(1,3)]]
    by linarith
qed

lemma hw_unit_of_from:
  assumes "mem_wf s" "k < HW_MEM_UNIT_NUM" "i \<le> k"
  shows "hw_unit_of (nc_addr64 (hw_unit_addr s k)) s i = Some k"
  using assms(3)
proof (induction "k - i" arbitrary: i)
  case 0
  then show ?case using assms by (simp add: hw_unit_of.simps[of _ s i])
next
  case (Suc n)
  then have "i < HW_MEM_UNIT_NUM" "i \<noteq> k" using assms by auto
  moreover from this have "ptr_to_u32 (hw_unit_addr s i) \<noteq> ptr_to_u32 (hw_unit_addr s k)"
    using hw_unit_addr_inj[OF assms(1)] assms(2) by blast
  ultimately show ?case using Suc by (simp add: hw_unit_of.simps[of _ s i])
qed

lemma hw_unit_of_live:
  "mem_wf s \<Longrightarrow> k < HW_MEM_UNIT_NUM \<Longrightarrow> hw_unit_of (nc_addr64 (hw_unit_addr s k)) s 0 = Some k"
  by (rule hw_unit_of_from) auto

lemma uint_dma_unit:
  assumes "mem_wf s" "0 \<le> k" "k < DMA_MEM_UNIT_NUM"
  shows "uint (dma_mem_pool s + word_of_int (k * DMA_MEM_UNIT_SIZE)) = uint (dma_mem_pool s) + k * 1024
    \<and> uint (dma_mem_pool s) + k * 1024 < 2 ^ 32"
proof -
  have lt: "uint (dma_mem_pool s) + k * 1024 < 2 ^ 32" using assms by (simp add: mem_wf_def)
  with assms(2) show ?thesis by (intro conjI uint_plus_small) simp_all
qed

lemma dma_block_inj:
  assumes "mem_wf s" "0 \<le> j" "j < DMA_MEM_UNIT_NUM" "0 \<le> k" "k < DMA_MEM_UNIT_NUM"
    "dma_block s j = dma_block s k"
  shows "j = k"
proof -
  let ?a = "\<lambda>k. dma_mem_pool s + word_of_int (k * DMA_MEM_UNIT_SIZE)"
  note u = conjunct1[OF uint_dma_unit[OF assms(1-3)]] conjunct1[OF uint_dma_unit[OF assms(1,4,5)]]
  note b = conjunct2[OF uint_dma_unit[OF assms(1-3)]] conjunct2[OF uint_dma_unit[OF assms(1,4,5)]]
  have "uint (?a j) < 2 ^ 32" "uint (?a k) < 2 ^ 32" unfolding u by (rule b)+
  moreover have "nc_addr64 (?a j) = nc_addr64 (?a k)" using assms(6) by (simp only: dma_block_def)
  ultimately have "?a j = ?a k" by (metis nc_addr64_eqD)
  then have "uint (?a j) = uint (?a k)" by (rule arg_cong)
  then show ?thesis unfolding u by linarith
qed

section \<open>The DMA pool\<close>

text \<open>The state after a block of \<open>n\<close> units from unit \<open>k\<close> on has been handed out.\<close>

definition dma_taken :: "int \<Rightarrow> int \<Rightarrow> usb_mem \<Rightarrow> usb_mem" where
  "dma_taken k n s = s\<lparr>dma_unit_used := fill (nat k) (nat n) True (dma_unit_used s),
     dma_mem_used_cnt := dma_mem_used_cnt s + n,
     dma_bytes := (\<lambda>b. if k * DMA_MEM_UNIT_SIZE \<le> b \<and> b < k * DMA_MEM_UNIT_SIZE + DMA_MEM_UNIT_SIZE * n
                        then 0 else dma_bytes s b)\<rparr>"

lemma dma_taken_frame [simp]:
  "hw_mem_pool (dma_taken k n s) = hw_mem_pool s" "hw_unit_used (dma_taken k n s) = hw_unit_used s"
  "hw_objs (dma_taken k n s) = hw_objs s" "dma_mem_pool (dma_taken k n s) = dma_mem_pool s"
  "g_udev_list (dma_taken k n s) = g_udev_list s" "udev_heap (dma_taken k n s) = udev_heap s"
  "utr_heap (dma_taken k n s) = utr_heap s" "dev_addr_pool (dma_taken k n s) = dev_addr_pool s"
  "device_addr (dma_taken k n s) = device_addr s" "sidx (dma_taken k n s) = sidx s"
  "hw_mem_used_cnt (dma_taken k n s) = hw_mem_used_cnt s" "utr_used (dma_taken k n s) = utr_used s"
  "dma_unit_used (dma_taken k n s) = fill (nat k) (nat n) True (dma_unit_used s)"
  "dma_mem_used_cnt (dma_taken k n s) = dma_mem_used_cnt s + n"
  "dma_block (dma_taken k n s) j = dma_block s j"
  by (simp_all add: dma_taken_def dma_block_def)

lemma usbh_alloc_mem_cases:
  assumes "mem_wf s" "0 < sz" and wanted: "wanted = units_for sz DMA_MEM_UNIT_SIZE"
  obtains (taken) k where "usbh_alloc_mem sz s = Inr (dma_block s k, dma_taken k wanted s)"
      "free_run (dma_unit_used s) k wanted" "k + 2 * wanted \<le> 129" "1 \<le> wanted"
    | (full) "usbh_alloc_mem sz s = Inr (0, s)"
      "\<And>k. 0 \<le> k \<Longrightarrow> k + 2 * wanted \<le> 129 \<Longrightarrow> \<not> free_run (dma_unit_used s) k wanted"
proof -
  have w: "1 \<le> wanted" using assms units_for_pos[of DMA_MEM_UNIT_SIZE sz] by auto
  have len: "length (dma_unit_used s) = 128" using assms by (simp add: mem_wf_def)
  obtain f st where scan: "dma_scan (dma_unit_used s) wanted 0 0 (- 1) = Inr (f, st)"
    using dma_scan_in_range[OF w len, of 0] by blast
  show ?thesis
  proof (cases "f < wanted")
    case True
    then have "usbh_alloc_mem sz s = Inr (0, s)"
      using scan by (simp add: usbh_alloc_mem_def Let_def flip: wanted)
    moreover have "\<not> free_run (dma_unit_used s) k wanted" if "0 \<le> k" "k + 2 * wanted \<le> 129" for k
      using dma_scan_complete[OF scan w len] True w that by simp
    ultimately show ?thesis by (rule full)
  next
    case False
    then have "f = wanted \<and> 0 \<le> st \<and> st + 2 * wanted \<le> 129 \<and> free_run (dma_unit_used s) st wanted"
      using dma_scan_sound[OF scan w len] w by simp
    moreover from this have "usbh_alloc_mem sz s = Inr (dma_block s st, dma_taken st wanted s)"
      using scan w by (simp add: usbh_alloc_mem_def dma_taken_def Let_def flip: wanted)
    ultimately show ?thesis using taken w by blast
  qed
qed

lemma free_runD: "free_run used k n \<Longrightarrow> k \<le> int j \<Longrightarrow> int j < k + n \<Longrightarrow> \<not> used ! j"
  unfolding free_run_def by (metis atLeastLessThan_iff nat_int)

lemma mem_wf_dma_taken:
  assumes "mem_wf s" "free_run (dma_unit_used s) k n" "0 \<le> n"
  shows "mem_wf (dma_taken k n s)"
proof -
  have "used_count (fill (nat k) (nat n) True (dma_unit_used s)) = used_count (dma_unit_used s) + n"
    using assms free_runD[OF assms(2)] by (subst used_count_fill) (auto simp: free_run_def)
  then show ?thesis using assms(1) by (simp add: mem_wf_def)
qed

lemma usbh_alloc_mem_wf:
  assumes "mem_wf s" "0 < sz" "usbh_alloc_mem sz s = Inr (p, s')"
  shows "mem_wf s'"
  using assms(1,2) refl
proof (cases rule: usbh_alloc_mem_cases)
  case (taken k)
  then show ?thesis using assms mem_wf_dma_taken by auto
qed (use assms in auto)

text \<open>Release of a block the allocator handed out passes all three range checks.\<close>

lemma usbh_free_mem_block:
  assumes "mem_wf s" "0 \<le> k" "1 \<le> n" "k + n \<le> DMA_MEM_UNIT_NUM" "n = units_for sz DMA_MEM_UNIT_SIZE"
  shows "usbh_free_mem (dma_block s k) sz s =
    (0, s\<lparr>dma_unit_used := fill (nat k) (nat n) False (dma_unit_used s),
          dma_mem_used_cnt := dma_mem_used_cnt s - n\<rparr>)"
proof -
  define B where "B = uint (dma_mem_pool s)"
  have B: "0 \<le> B" "B + 131072 \<le> 2 ^ 32" using assms(1) by (simp_all add: B_def mem_wf_def)
  define base where "base = addr_s (dma_mem_pool s)"
  define paddr where "paddr = addr_s (dma_block s k)"
  have ub: "uint base = B" unfolding base_def uint_addr_s using B by (simp add: B_def)
  have up: "uint paddr = B + k * 1024"
  proof -
    have "uint (dma_mem_pool s + word_of_int (k * DMA_MEM_UNIT_SIZE)) = B + k * 1024"
      unfolding B_def using uint_dma_unit[OF assms(1,2)] assms(3,4) by auto
    then show ?thesis unfolding paddr_def dma_block_def addr_s_nc uint_addr_s
      using B assms(2-4) by simp
  qed
  have add: "uint (base + word_of_int m) = B + m" if "0 \<le> m" "m \<le> 131072" for m
    using uint_plus_small[of m base] ub B that by simp
  have p: "paddr = base + word_of_int (k * 1024)"
    by (rule word_uint_eqI) (use up add[of "k * 1024"] assms(2-4) in simp)
  have "uint (word_of_int (k * 1024) :: u64) = k * 1024"
    unfolding uint_word_of_int using assms(2-4) by simp
  then have st: "uint ((paddr - base) div word_of_int DMA_MEM_UNIT_SIZE) = k"
    unfolding p by (simp add: uint_div)
  have c1: "\<not> (paddr < base \<or> base + word_of_int ((DMA_MEM_UNIT_NUM - 1) * DMA_MEM_UNIT_SIZE) < paddr)"
    using up ub add[of 130048] assms(2-4) by (simp add: word_less_def)
  have c2: "addr_s (dma_mem_pool s + word_of_int (k * DMA_MEM_UNIT_SIZE)) = paddr"
    unfolding paddr_def dma_block_def by simp
  have "paddr + word_of_int (n * DMA_MEM_UNIT_SIZE) = base + word_of_int (k * 1024 + n * 1024)"
    unfolding p by simp
  then have c3: "\<not> base + word_of_int (DMA_MEM_UNIT_NUM * DMA_MEM_UNIT_SIZE)
      < paddr + word_of_int (n * DMA_MEM_UNIT_SIZE)"
    using add[of 131072] add[of "k * 1024 + n * 1024"] assms(2-4)
    by (simp add: word_less_def add.assoc)
  show ?thesis
    unfolding usbh_free_mem_def Let_def
    by (simp only: flip: base_def paddr_def assms(5)) (simp only: st c1 c2 c3 if_False simp_thms)
qed

section \<open>The hardware pool\<close>

lemma hw_take_frame [simp]:
  "hw_mem_pool (hw_take i ob s) = hw_mem_pool s" "dma_mem_pool (hw_take i ob s) = dma_mem_pool s"
  "dma_unit_used (hw_take i ob s) = dma_unit_used s" "dev_addr_pool (hw_take i ob s) = dev_addr_pool s"
  "device_addr (hw_take i ob s) = device_addr s" "sidx (hw_take i ob s) = sidx s"
  "dma_mem_used_cnt (hw_take i ob s) = dma_mem_used_cnt s"
  "hw_unit_used (hw_take i ob s) = (hw_unit_used s)[i := True]"
  "hw_mem_used_cnt (hw_take i ob s) = hw_mem_used_cnt s + 1"
  "hw_objs (hw_take i ob s) = (hw_objs s)(i := ob)"
  by (simp_all add: hw_take_def)

lemma hw_release_frame [simp]:
  "hw_mem_pool (hw_release i s) = hw_mem_pool s" "dma_mem_pool (hw_release i s) = dma_mem_pool s"
  "dma_unit_used (hw_release i s) = dma_unit_used s" "dev_addr_pool (hw_release i s) = dev_addr_pool s"
  "device_addr (hw_release i s) = device_addr s" "sidx (hw_release i s) = sidx s"
  "dma_mem_used_cnt (hw_release i s) = dma_mem_used_cnt s"
  "hw_unit_used (hw_release i s) = (hw_unit_used s)[i := False]"
  "hw_mem_used_cnt (hw_release i s) = hw_mem_used_cnt s - 1"
  by (simp_all add: hw_release_def)

lemma mem_wf_hw_take:
  "mem_wf s \<Longrightarrow> i < HW_MEM_UNIT_NUM \<Longrightarrow> \<not> hw_unit_used s ! i \<Longrightarrow> mem_wf (hw_take i ob s)"
  by (simp add: mem_wf_def used_count_update)

lemma mem_wf_hw_release:
  "mem_wf s \<Longrightarrow> i < HW_MEM_UNIT_NUM \<Longrightarrow> hw_unit_used s ! i \<Longrightarrow> mem_wf (hw_release i s)"
  by (simp add: mem_wf_def used_count_update)

lemma nc_hw_addr_inj:
  assumes "mem_wf s"
  shows "inj_on (\<lambda>i. nc_addr64 (hw_unit_addr s i)) {..<HW_MEM_UNIT_NUM}"
proof (rule inj_onI)
  fix i j
  assume "i \<in> {..<HW_MEM_UNIT_NUM}" "j \<in> {..<HW_MEM_UNIT_NUM}"
    "nc_addr64 (hw_unit_addr s i) = nc_addr64 (hw_unit_addr s j)"
  then show "i = j" using hw_unit_addr_inj[OF assms] by (metis lessThan_iff ptr_to_u32_nc)
qed

lemma hw_live_eq:
  "hw_mem_pool s' = hw_mem_pool s \<Longrightarrow>
   hw_live s' = (\<lambda>i. nc_addr64 (hw_unit_addr s i)) ` {i. i < HW_MEM_UNIT_NUM \<and> hw_unit_used s' ! i}"
  by (simp add: hw_live_def hw_unit_addr_def)

lemma hw_live_take:
  assumes "mem_wf s" "i < HW_MEM_UNIT_NUM" "\<not> hw_unit_used s ! i"
    "hw_mem_pool s' = hw_mem_pool s" "hw_unit_used s' = (hw_unit_used s)[i := True]"
  shows "nc_addr64 (hw_unit_addr s i) \<notin> hw_live s"
    and "hw_live s' = insert (nc_addr64 (hw_unit_addr s i)) (hw_live s)"
proof -
  show "nc_addr64 (hw_unit_addr s i) \<notin> hw_live s"
    using nc_hw_addr_inj[OF assms(1)] assms(2,3) by (auto simp: hw_live_def dest: inj_onD)
  have "{j. j < HW_MEM_UNIT_NUM \<and> hw_unit_used s' ! j} = insert i {j. j < HW_MEM_UNIT_NUM \<and> hw_unit_used s ! j}"
    using assms by (auto simp: mem_wf_def nth_list_update)
  then show "hw_live s' = insert (nc_addr64 (hw_unit_addr s i)) (hw_live s)"
    unfolding hw_live_eq[OF assms(4)] by (simp add: hw_live_def)
qed

lemma hw_live_release:
  assumes "mem_wf s" "i < HW_MEM_UNIT_NUM"
    "hw_mem_pool s' = hw_mem_pool s" "hw_unit_used s' = (hw_unit_used s)[i := False]"
  shows "hw_live s' = hw_live s - {nc_addr64 (hw_unit_addr s i)}"
proof -
  let ?S = "{j. j < HW_MEM_UNIT_NUM \<and> hw_unit_used s ! j}"
  have "{j. j < HW_MEM_UNIT_NUM \<and> hw_unit_used s' ! j} = ?S - {i}"
    using assms by (auto simp: mem_wf_def nth_list_update split: if_splits)
  moreover have "(\<lambda>j. nc_addr64 (hw_unit_addr s j)) ` (?S - {i}) =
      (\<lambda>j. nc_addr64 (hw_unit_addr s j)) ` ?S - (\<lambda>j. nc_addr64 (hw_unit_addr s j)) ` {i}"
    using assms(2) by (intro inj_on_image_set_diff[OF nc_hw_addr_inj[OF assms(1)]]) auto
  ultimately show ?thesis unfolding hw_live_eq[OF assms(3)] by (simp add: hw_live_def)
qed

section \<open>The allocator interface\<close>

text \<open>
  What a client of an allocator relies on: a block handed out is not in use, handing out and
  taking back change the blocks in use by exactly that block, and failure changes nothing. A
  request names the kind of object the block is for; all kinds share the pool.
\<close>

locale block_allocator =
  fixes acquire :: "'k \<Rightarrow> 's \<Rightarrow> 'p \<times> 's"
    and release :: "'k \<Rightarrow> 'p \<Rightarrow> 's \<Rightarrow> 's"
    and null :: 'p
    and live :: "'s \<Rightarrow> 'p set"
    and ok :: "'s \<Rightarrow> bool"
  assumes null_not_live: "ok s \<Longrightarrow> null \<notin> live s"
    and acquire_ok: "ok s \<Longrightarrow> acquire k s = (p, s') \<Longrightarrow> ok s'"
    and acquire_null: "ok s \<Longrightarrow> acquire k s = (null, s') \<Longrightarrow> live s' = live s"
    and acquire_fresh: "ok s \<Longrightarrow> acquire k s = (p, s') \<Longrightarrow> p \<noteq> null \<Longrightarrow>
      p \<notin> live s \<and> live s' = insert p (live s)"
    and release_ok: "ok s \<Longrightarrow> p \<in> live s \<Longrightarrow> ok (release k p s)"
    and release_live: "ok s \<Longrightarrow> p \<in> live s \<Longrightarrow> live (release k p s) = live s - {p}"

text \<open>A client that interleaves requests, keeping the list of the blocks it holds, each with the kind it was asked for.\<close>

datatype ('k, 'p) request = Acquire 'k | Release 'k 'p

fun serve :: "('k \<Rightarrow> 's \<Rightarrow> 'p \<times> 's) \<Rightarrow> ('k \<Rightarrow> 'p \<Rightarrow> 's \<Rightarrow> 's) \<Rightarrow> 'p \<Rightarrow> ('k, 'p) request list \<Rightarrow>
    ('k \<times> 'p) list \<times> 's \<Rightarrow> ('k \<times> 'p) list \<times> 's" where
  "serve acquire release null [] st = st"
| "serve acquire release null (Acquire k # rs) (held, s) =
     (case acquire k s of (p, s') \<Rightarrow>
        serve acquire release null rs (if p = null then held else (k, p) # held, s'))"
| "serve acquire release null (Release k p # rs) (held, s) =
     (if p \<in> snd ` set held then serve acquire release null rs (filter (\<lambda>h. snd h \<noteq> p) held, release k p s)
      else serve acquire release null rs (held, s))"

lemma distinct_snd_filter: "distinct (map snd xs) \<Longrightarrow> distinct (map snd (filter P xs))"
  by (induction xs) auto

context block_allocator
begin

text \<open>Whatever the interleaving, the client never holds the same block twice, and holds live blocks only.\<close>

definition owns :: "('k \<times> 'p) list \<Rightarrow> 's \<Rightarrow> bool" where
  "owns held s \<longleftrightarrow> ok s \<and> distinct (map snd held) \<and> snd ` set held \<subseteq> live s"

lemma owns_acquire: "owns held s \<Longrightarrow> acquire k s = (p, s') \<Longrightarrow> owns (if p = null then held else (k, p) # held) s'"
  using acquire_ok[of s k p s'] acquire_null[of s k s'] acquire_fresh[of s k p s'] by (auto simp: owns_def)

lemma owns_release: "owns held s \<Longrightarrow> p \<in> snd ` set held \<Longrightarrow> owns (filter (\<lambda>h. snd h \<noteq> p) held) (release k p s)"
  using release_ok[of s p k] release_live[of s p k] by (auto simp: owns_def distinct_snd_filter)

lemma serve_exclusive:
  "owns held s \<Longrightarrow> serve acquire release null rs (held, s) = (held', s') \<Longrightarrow> owns held' s'"
proof (induction rs arbitrary: held s)
  case (Cons r rs)
  show ?case
  proof (cases r)
    case (Acquire k)
    obtain p s1 where a: "acquire k s = (p, s1)" by (cases "acquire k s")
    then show ?thesis using Cons.IH[OF owns_acquire[OF Cons.prems(1) a]] Cons.prems(2) Acquire by simp
  next
    case (Release k p)
    then show ?thesis using Cons.IH[OF owns_release[OF Cons.prems(1)]] Cons.IH[OF Cons.prems(1)] Cons.prems(2)
      by (auto split: if_splits)
  qed
qed simp

text \<open>A block that is given back at once leaves the pool as it was.\<close>

lemma acquire_release:
  assumes "ok s" "acquire k s = (p, s')" "p \<noteq> null"
  shows "live (release k' p s') = live s"
proof -
  have "p \<notin> live s" "live s' = insert p (live s)" using acquire_fresh[OF assms] by auto
  then show ?thesis using release_live[OF acquire_ok[OF assms(1,2)], of p k'] by auto
qed

end

text \<open>
  An allocator of typed objects: a new block holds the fresh object of the kind that was asked for, and no request
  changes the objects of other live blocks.
\<close>

locale object_allocator = block_allocator acquire release null live ok
  for acquire :: "'k \<Rightarrow> 's \<Rightarrow> 'p \<times> 's" and release :: "'k \<Rightarrow> 'p \<Rightarrow> 's \<Rightarrow> 's" and null :: 'p
    and live :: "'s \<Rightarrow> 'p set" and ok :: "'s \<Rightarrow> bool" +
  fixes content :: "'s \<Rightarrow> 'p \<Rightarrow> 'o" and fresh :: "'k \<Rightarrow> 'o"
  assumes acquire_content: "ok s \<Longrightarrow> acquire k s = (p, s') \<Longrightarrow> p \<noteq> null \<Longrightarrow> content s' p = fresh k"
    and acquire_keeps: "ok s \<Longrightarrow> acquire k s = (p, s') \<Longrightarrow> q \<in> live s \<Longrightarrow> content s' q = content s q"
    and release_keeps: "ok s \<Longrightarrow> p \<in> live s \<Longrightarrow> q \<in> live s \<Longrightarrow> q \<noteq> p \<Longrightarrow> content (release k p s) q = content s q"
begin

lemma serve_contents:
  "owns held s \<Longrightarrow> \<forall>(k, p) \<in> set held. content s p = fresh k \<Longrightarrow>
   serve acquire release null rs (held, s) = (held', s') \<Longrightarrow> \<forall>(k, p) \<in> set held'. content s' p = fresh k"
proof (induction rs arbitrary: held s)
  case (Cons r rs)
  have s: "ok s" and l: "\<And>k q. (k, q) \<in> set held \<Longrightarrow> q \<in> live s" using Cons.prems(1) by (force simp: owns_def)+
  show ?case
  proof (cases r)
    case (Acquire k)
    obtain p s1 where a: "acquire k s = (p, s1)" by (cases "acquire k s")
    have "\<forall>(k, q) \<in> set (if p = null then held else (k, p) # held). content s1 q = fresh k"
      using acquire_content[OF s a] acquire_keeps[OF s a l] Cons.prems(2) by (auto split: if_splits)
    then show ?thesis using Cons.IH[OF owns_acquire[OF Cons.prems(1) a]] Cons.prems(3) Acquire a by simp
  next
    case (Release k p)
    show ?thesis
    proof (cases "p \<in> snd ` set held")
      case True
      then have p: "p \<in> live s" using l by auto
      have "\<forall>(j, q) \<in> set (filter (\<lambda>h. snd h \<noteq> p) held). content (release k p s) q = fresh j"
        using release_keeps[OF s p l] Cons.prems(2) by auto
      then show ?thesis using Cons.IH[OF owns_release[OF Cons.prems(1) True]] Cons.prems(3) Release True by simp
    next
      case False
      then show ?thesis using Cons.IH[OF Cons.prems(1,2)] Cons.prems(3) Release by simp
    qed
  qed
qed simp

end

section \<open>The descriptor allocators implement the interface\<close>

text \<open>Outcome of an allocation from the hardware pool, and of a release, as the interface wants it.\<close>

definition hw_alloc_ok :: "usb_mem \<Rightarrow> u64 \<times> usb_mem \<Rightarrow> bool" where
  "hw_alloc_ok s r \<longleftrightarrow> mem_wf (snd r) \<and>
     (if fst r = 0 then hw_live (snd r) = hw_live s
      else fst r \<notin> hw_live s \<and> hw_live (snd r) = insert (fst r) (hw_live s))"

definition hw_free_ok :: "u64 \<Rightarrow> usb_mem \<Rightarrow> usb_mem \<Rightarrow> bool" where
  "hw_free_ok p s s' \<longleftrightarrow> mem_wf s' \<and> hw_live s' = hw_live s - {p}"

lemma hw_live_counters [simp]:
  "hw_live (s\<lparr>ohci_ed_used := x\<rparr>) = hw_live s" "hw_live (s\<lparr>ohci_td_used := x\<rparr>) = hw_live s"
  "hw_live (s\<lparr>ehci_qh_used := x\<rparr>) = hw_live s" "hw_live (s\<lparr>ehci_qtd_used := x\<rparr>) = hw_live s"
  "hw_live (s\<lparr>ehci_itd_used := x\<rparr>) = hw_live s" "hw_live (s\<lparr>ehci_sitd_used := x\<rparr>) = hw_live s"
  "hw_live (s\<lparr>sidx := k\<rparr>) = hw_live s"
  by (simp_all add: hw_live_def hw_unit_addr_def)

lemma mem_wf_counters [simp]:
  "mem_wf (s\<lparr>ohci_ed_used := x\<rparr>) = mem_wf s" "mem_wf (s\<lparr>ohci_td_used := x\<rparr>) = mem_wf s"
  "mem_wf (s\<lparr>ehci_qh_used := x\<rparr>) = mem_wf s" "mem_wf (s\<lparr>ehci_qtd_used := x\<rparr>) = mem_wf s"
  "mem_wf (s\<lparr>ehci_itd_used := x\<rparr>) = mem_wf s" "mem_wf (s\<lparr>ehci_sitd_used := x\<rparr>) = mem_wf s"
  "mem_wf s \<Longrightarrow> k < HW_MEM_UNIT_NUM \<Longrightarrow> mem_wf (s\<lparr>sidx := k\<rparr>)"
  by (simp_all add: mem_wf_def)

lemma null_not_hw_live: "0 \<notin> hw_live s"
  by (auto simp: hw_live_def)

lemma hw_take_ok:
  assumes "mem_wf s" "i < HW_MEM_UNIT_NUM" "\<not> hw_unit_used s ! i"
  shows "nc_addr64 (hw_unit_addr s i) \<notin> hw_live s"
    "hw_live (hw_take i ob s) = insert (nc_addr64 (hw_unit_addr s i)) (hw_live s)"
    "mem_wf (hw_take i ob s)"
  using hw_live_take[OF assms, of "hw_take i ob s"] mem_wf_hw_take[OF assms] by simp_all

lemma hw_liveE:
  assumes "p \<in> hw_live s" "mem_wf s"
  obtains i where "hw_unit_of p s 0 = Some i" "i < HW_MEM_UNIT_NUM" "hw_unit_used s ! i"
    "p = nc_addr64 (hw_unit_addr s i)"
  using assms by (auto simp: hw_live_def hw_unit_of_live)

lemma hw_release_ok:
  assumes "mem_wf s" "i < HW_MEM_UNIT_NUM" "hw_unit_used s ! i"
  shows "hw_live (hw_release i s) = hw_live s - {nc_addr64 (hw_unit_addr s i)}" "mem_wf (hw_release i s)"
  using hw_live_release[OF assms(1,2), of "hw_release i s"] mem_wf_hw_release[OF assms] by simp_all

lemmas ohci_alloc_defs = alloc_ohci_ED_def alloc_ohci_TD_def
lemmas ehci_alloc_defs = alloc_ehci_QH_def alloc_ehci_qTD_def alloc_ehci_iTD_def alloc_ehci_siTD_def
lemmas hw_free_defs = free_ohci_ED_def free_ohci_TD_def free_ehci_QH_def free_ehci_qTD_def
  free_ehci_iTD_def free_ehci_siTD_def

lemma ohci_alloc_ok:
  assumes "mem_wf s"
  shows "hw_alloc_ok s (alloc_ohci_ED s)" "hw_alloc_ok s (alloc_ohci_TD utr s)"
  using assms hw_first_free_Some[of "hw_unit_used s" 0]
  by (auto simp: ohci_alloc_defs hw_alloc_ok_def hw_take_ok split: option.splits)

lemma ehci_alloc_ok:
  assumes "mem_wf s"
  shows "\<exists>r. alloc_ehci_QH s = Some r \<and> hw_alloc_ok s r" "\<exists>r. alloc_ehci_qTD utr s = Some r \<and> hw_alloc_ok s r"
    "\<exists>r. alloc_ehci_iTD s = Some r \<and> hw_alloc_ok s r" "\<exists>r. alloc_ehci_siTD s = Some r \<and> hw_alloc_ok s r"
proof -
  obtain r where r: "ehci_search s = Some r"
    and spec: "case r of None \<Rightarrow> True | Some k \<Rightarrow> k < HW_MEM_UNIT_NUM \<and> \<not> hw_unit_used s ! k"
    using ehci_search_spec[of s] assms by (auto simp: mem_wf_def split: option.splits)
  show "\<exists>r. alloc_ehci_QH s = Some r \<and> hw_alloc_ok s r" "\<exists>r. alloc_ehci_qTD utr s = Some r \<and> hw_alloc_ok s r"
    "\<exists>r. alloc_ehci_iTD s = Some r \<and> hw_alloc_ok s r" "\<exists>r. alloc_ehci_siTD s = Some r \<and> hw_alloc_ok s r"
    using assms r spec by (auto simp: ehci_alloc_defs hw_alloc_ok_def hw_take_ok split: option.splits)
qed

lemma hw_free_ok_all:
  assumes "mem_wf s" "p \<in> hw_live s"
  shows "hw_free_ok p s (free_ohci_ED p s)" "hw_free_ok p s (free_ohci_TD p s)"
    "hw_free_ok p s (free_ehci_QH p s)" "hw_free_ok p s (free_ehci_qTD p s)"
    "hw_free_ok p s (free_ehci_iTD p s)" "hw_free_ok p s (free_ehci_siTD p s)"
proof -
  obtain i where i: "hw_unit_of p s 0 = Some i" "i < HW_MEM_UNIT_NUM" "hw_unit_used s ! i"
    "p = nc_addr64 (hw_unit_addr s i)" using hw_liveE[OF assms(2,1)] .
  show "hw_free_ok p s (free_ohci_ED p s)" "hw_free_ok p s (free_ohci_TD p s)"
    "hw_free_ok p s (free_ehci_QH p s)" "hw_free_ok p s (free_ehci_qTD p s)"
    "hw_free_ok p s (free_ehci_iTD p s)" "hw_free_ok p s (free_ehci_siTD p s)"
    using hw_release_ok[OF assms(1) i(2,3), folded i(4)]
    by (simp_all add: hw_free_defs hw_free_ok_def i(1))
qed

lemma the_ehci_alloc_ok:
  assumes "mem_wf s"
  shows "hw_alloc_ok s (the (alloc_ehci_QH s))" "hw_alloc_ok s (the (alloc_ehci_qTD utr s))"
    "hw_alloc_ok s (the (alloc_ehci_iTD s))" "hw_alloc_ok s (the (alloc_ehci_siTD s))"
  using ehci_alloc_ok(1)[OF assms] ehci_alloc_ok(2)[OF assms, of utr]
    ehci_alloc_ok(3)[OF assms] ehci_alloc_ok(4)[OF assms]
  by (auto simp del: split_paired_Ex)

text \<open>
  The six kinds of descriptors behind one interface; a descriptor for a transfer names its UTR. The
  EHCI searches return on every well-formed state (\<open>ehci_alloc_ok\<close>), so \<open>the\<close> is their result.
\<close>

datatype hw_kind = Kind_ED | Kind_TD u64 | Kind_QH | Kind_qTD u64 | Kind_iTD | Kind_siTD

fun hw_alloc :: "hw_kind \<Rightarrow> usb_mem \<Rightarrow> u64 \<times> usb_mem" where
  "hw_alloc Kind_ED s = alloc_ohci_ED s"
| "hw_alloc (Kind_TD utr) s = alloc_ohci_TD utr s"
| "hw_alloc Kind_QH s = the (alloc_ehci_QH s)"
| "hw_alloc (Kind_qTD utr) s = the (alloc_ehci_qTD utr s)"
| "hw_alloc Kind_iTD s = the (alloc_ehci_iTD s)"
| "hw_alloc Kind_siTD s = the (alloc_ehci_siTD s)"

fun hw_free :: "hw_kind \<Rightarrow> u64 \<Rightarrow> usb_mem \<Rightarrow> usb_mem" where
  "hw_free Kind_ED p s = free_ohci_ED p s"
| "hw_free (Kind_TD utr) p s = free_ohci_TD p s"
| "hw_free Kind_QH p s = free_ehci_QH p s"
| "hw_free (Kind_qTD utr) p s = free_ehci_qTD p s"
| "hw_free Kind_iTD p s = free_ehci_iTD p s"
| "hw_free Kind_siTD p s = free_ehci_siTD p s"

lemma hw_alloc_ok_kind: "mem_wf s \<Longrightarrow> hw_alloc_ok s (hw_alloc k s)"
  by (cases k) (simp_all add: ohci_alloc_ok the_ehci_alloc_ok)

lemma hw_free_ok_kind: "mem_wf s \<Longrightarrow> p \<in> hw_live s \<Longrightarrow> hw_free_ok p s (hw_free k p s)"
  by (cases k) (simp_all add: hw_free_ok_all)

text \<open>The object in the unit of a descriptor, and what a descriptor of each kind holds when it is handed out.\<close>

definition hw_content :: "usb_mem \<Rightarrow> u64 \<Rightarrow> hw_obj" where
  "hw_content s p = (case hw_unit_of p s 0 of None \<Rightarrow> HW_raw | Some i \<Rightarrow> hw_objs s i)"

fun hw_fresh :: "hw_kind \<Rightarrow> hw_obj" where
  "hw_fresh Kind_ED = HW_ED \<lparr>ed_Info = 0, ed_TailP = 0, ed_HeadP = 0, ed_NextED = 0, ed_bInterval = 0, ed_next_sf = 0, ed_next = 0\<rparr>"
| "hw_fresh (Kind_TD utr) = HW_TD \<lparr>td_Info = 0, td_CBP = 0, td_NextTD = 0, td_BE = 0, td_PSW = [0, 0, 0, 0],
     td_buff_start = 0, td_ed = 0, td_utr = utr, td_next = 0\<rparr>"
| "hw_fresh Kind_QH = HW_QH \<lparr>qh_HLink = 0, qh_Chrst = 0, qh_Cap = 0, qh_Curr_qTD = 1, qh_OL_Next_qTD = 1,
     qh_OL_Alt_Next_qTD = 1, qh_OL_Token = 0x40, qh_OL_Bptr = [0, 0, 0, 0, 0], qh_qtd_list = 0, qh_done_list = 0, qh_next = 0\<rparr>"
| "hw_fresh (Kind_qTD utr) = HW_qTD \<lparr>qtd_Next_qTD = 1, qtd_Alt_Next_qTD = 1, qtd_Token = 0x1197B7F, qtd_Bptr = [0, 0, 0, 0, 0],
     qtd_utr = utr, qtd_xfer_len = 0, qtd_qh = 0, qtd_next = 0\<rparr>"
| "hw_fresh Kind_iTD = HW_iTD \<lparr>itd_Next_Link = 0, itd_Transaction = [0, 0, 0, 0, 0, 0, 0, 0], itd_Bptr = [0, 0, 0, 0, 0, 0, 0], itd_iso_ep = 0,
     itd_utr = 0, itd_buff_base = 0, itd_fidx = 0, itd_trans_mask = 0, itd_sched_frnidx = 0, itd_next = 0\<rparr>"
| "hw_fresh Kind_siTD = HW_siTD \<lparr>sitd_Next_Link = 0, sitd_Chrst = 0, sitd_Sched = 0, sitd_StsCtrl = 0, sitd_Bptr = [0, 0],
     sitd_BackLink = 0, sitd_iso_ep = 0, sitd_utr = 0, sitd_fidx = 0, sitd_sched_frnidx = 0, sitd_next = 0\<rparr>"

lemmas hw_zero_defs = ED_zero_def TD_zero_def QH_zero_def qTD_zero_def iTD_zero_def siTD_zero_def

text \<open>An allocation takes a free unit for a fresh object or changes nothing; a release changes no object.\<close>

lemma hw_alloc_takes:
  assumes "mem_wf s" "hw_alloc k s = (p, s')"
  shows "p = 0 \<and> s' = s \<or> (\<exists>i < HW_MEM_UNIT_NUM. p = nc_addr64 (hw_unit_addr s i) \<and> \<not> hw_unit_used s ! i \<and>
    hw_mem_pool s' = hw_mem_pool s \<and> hw_objs s' = (hw_objs s)(i := hw_fresh k))"
proof -
  obtain e where e: "ehci_search s = Some e" "\<And>i. e = Some i \<Longrightarrow> i < HW_MEM_UNIT_NUM \<and> \<not> hw_unit_used s ! i"
    using ehci_search_spec[of s] assms(1) by (fastforce simp: mem_wf_def split: option.splits)
  define sr where "sr = (case k of Kind_ED \<Rightarrow> hw_first_free (hw_unit_used s) 0 | Kind_TD utr \<Rightarrow> hw_first_free (hw_unit_used s) 0 | _ \<Rightarrow> e)"
  show ?thesis
  proof (cases sr)
    case None
    then have "hw_alloc k s = (0, s)" using e(1) by (cases k) (simp_all add: sr_def ohci_alloc_defs ehci_alloc_defs)
    then show ?thesis using assms(2) by simp
  next
    case (Some i)
    have i: "i < HW_MEM_UNIT_NUM" "\<not> hw_unit_used s ! i"
      using Some e(2) hw_first_free_Some[of "hw_unit_used s" 0 i] by (cases k; simp add: sr_def)+
    have "p = nc_addr64 (hw_unit_addr s i) \<and> hw_mem_pool s' = hw_mem_pool s \<and> hw_objs s' = (hw_objs s)(i := hw_fresh k)"
      using Some e(1) assms(2)
      by (cases k) (auto simp: sr_def ohci_alloc_defs ehci_alloc_defs hw_zero_defs hw_take_def)
    then show ?thesis using i by blast
  qed
qed

lemma hw_free_objs: "hw_objs (hw_free k p s) = hw_objs s" "hw_mem_pool (hw_free k p s) = hw_mem_pool s"
  by (cases k; simp add: hw_free_defs hw_release_def split: option.splits)+

lemma hw_unit_of_pool: "hw_mem_pool s' = hw_mem_pool s \<Longrightarrow> hw_unit_of p s' i = hw_unit_of p s i"
proof (induction p s i rule: hw_unit_of.induct)
  case (1 p s i)
  then show ?case unfolding hw_unit_of.simps[of p s' i] hw_unit_of.simps[of p s i] by (simp add: hw_unit_addr_def)
qed

interpretation hw_pool: object_allocator hw_alloc hw_free 0 hw_live mem_wf hw_content hw_fresh
proof
  fix s p s' k q
  assume wf: "mem_wf s"
  then show "0 \<notin> hw_live s" by (simp add: null_not_hw_live)
  note ok = hw_alloc_ok_kind[OF wf, of k]
  show "hw_alloc k s = (p, s') \<Longrightarrow> mem_wf s'" "hw_alloc k s = (0, s') \<Longrightarrow> hw_live s' = hw_live s"
    "hw_alloc k s = (p, s') \<Longrightarrow> p \<noteq> 0 \<Longrightarrow> p \<notin> hw_live s \<and> hw_live s' = insert p (hw_live s)"
    using ok by (auto simp: hw_alloc_ok_def)
  show "hw_content s' p = hw_fresh k" if a: "hw_alloc k s = (p, s')" "p \<noteq> 0"
    using hw_alloc_takes[OF wf a(1)] a(2) hw_unit_of_live[OF wf] hw_unit_of_pool[of s' s p 0] by (auto simp: hw_content_def)
  show "hw_content s' q = hw_content s q" if a: "hw_alloc k s = (p, s')" "q \<in> hw_live s"
  proof -
    obtain i where "hw_unit_of q s 0 = Some i" "hw_unit_used s ! i" using hw_liveE[OF a(2) wf] by blast
    then show ?thesis using hw_alloc_takes[OF wf a(1)] hw_unit_of_pool[of s' s q 0] by (auto simp: hw_content_def)
  qed
  assume "p \<in> hw_live s"
  then show "mem_wf (hw_free k p s)" "hw_live (hw_free k p s) = hw_live s - {p}"
    using hw_free_ok_kind[OF wf, of p k] by (auto simp: hw_free_ok_def)
  show "hw_content (hw_free k p s) q = hw_content s q"
    unfolding hw_content_def hw_free_objs(1) hw_unit_of_pool[OF hw_free_objs(2)] by (rule refl)
qed

section \<open>Device addresses\<close>

lemma next_dev_addr_range: "1 \<le> next_dev_addr a \<and> next_dev_addr a < 128"
  by (auto simp: next_dev_addr_def)

text \<open>Number of steps from address \<open>a\<close> to address \<open>b\<close> on the circle 1..127.\<close>

definition addr_distance :: "nat \<Rightarrow> nat \<Rightarrow> nat" where
  "addr_distance b a = (if a \<le> b then b - a else b + 127 - a)"

lemma dev_addr_loop_returns:
  assumes "1 \<le> a" "a < 128" "1 \<le> b" "b < 128" "pool ! b = 0"
  shows "\<exists>r. dev_addr_loop pool a = Some r \<and> 1 \<le> r \<and> r < 128 \<and> pool ! r = 0"
  using assms
proof (induction "addr_distance b a" arbitrary: a)
  case 0
  then have "a = b" by (auto simp: addr_distance_def split: if_splits)
  then show ?case using 0 by (simp add: dev_addr_loop.simps[of pool b])
next
  case (Suc n)
  show ?case
  proof (cases "pool ! a = 0")
    case True
    then show ?thesis using Suc.prems by (simp add: dev_addr_loop.simps[of pool a])
  next
    case False
    have "n = addr_distance b (next_dev_addr a)"
      using Suc.hyps(2) Suc.prems False by (auto simp: addr_distance_def next_dev_addr_def split: if_splits)
    then show ?thesis
      using Suc.hyps(1)[of "next_dev_addr a"] Suc.prems False next_dev_addr_range[of a]
      by (simp add: dev_addr_loop.simps[of pool a])
  qed
qed

text \<open>When every address is taken the loop does not return.\<close>

lemma dev_addr_loop_Some_free: "dev_addr_loop pool a = Some r \<Longrightarrow> pool ! r = 0"
proof (rule dev_addr_loop.raw_induct[where P = "\<lambda>pool a r. pool ! r = 0"])
  fix f pool a r
  assume IH: "\<And>pool a r. f pool a = Some r \<Longrightarrow> pool ! r = (0 :: u8)"
    and eq: "(if pool ! a = 0 then Some a else f pool (next_dev_addr a)) = Some r"
  then show "pool ! r = 0" by (auto split: if_splits)
qed

lemma dev_addr_loop_range:
  assumes "dev_addr_loop pool a = Some r" "1 \<le> a" "a < 128"
  shows "1 \<le> r \<and> r < 128"
proof -
  have "1 \<le> a \<and> a < 128 \<longrightarrow> 1 \<le> r \<and> r < 128"
  proof (rule dev_addr_loop.raw_induct[where P = "\<lambda>pool a r. 1 \<le> a \<and> a < 128 \<longrightarrow> 1 \<le> r \<and> r < 128", OF _ assms(1)])
    fix f pool a r
    assume IH: "\<And>pool a r. f pool a = Some r \<Longrightarrow> 1 \<le> a \<and> a < 128 \<longrightarrow> 1 \<le> r \<and> r < (128 :: nat)"
      and eq: "(if pool ! a = (0 :: u8) then Some a else f pool (next_dev_addr a)) = Some r"
    show "1 \<le> a \<and> a < 128 \<longrightarrow> 1 \<le> r \<and> r < 128"
      using eq IH[of pool "next_dev_addr a" r] next_dev_addr_range[of a] by (auto split: if_splits)
  qed
  with assms show ?thesis by blast
qed

lemma alloc_dev_address_wf:
  assumes "mem_wf s" "alloc_dev_address s = Some (a, s')"
  shows "mem_wf s' \<and> 1 \<le> a \<and> a < 128 \<and> dev_addr_pool s ! a = 0"
proof -
  have l: "dev_addr_loop (dev_addr_pool s) (next_dev_addr (device_addr s)) = Some a"
    and s': "s' = s\<lparr>device_addr := a, dev_addr_pool := (dev_addr_pool s)[a := 1]\<rparr>"
    using assms(2) by (auto simp: alloc_dev_address_def)
  have "1 \<le> a \<and> a < 128" using dev_addr_loop_range[OF l] next_dev_addr_range by blast
  then show ?thesis using assms(1) dev_addr_loop_Some_free[OF l] by (simp add: s' mem_wf_def)
qed

section \<open>The chain of devices\<close>

text \<open>\<open>udev_chain h p ps\<close>: from \<open>p\<close> the \<open>next\<close> pointers visit exactly \<open>ps\<close> and end with NULL.\<close>

primrec udev_chain :: "(u64 \<rightharpoonup> UDEV_T) \<Rightarrow> u64 \<Rightarrow> u64 list \<Rightarrow> bool" where
  "udev_chain h p [] = (p = 0)"
| "udev_chain h p (q # qs) = (p = q \<and> q \<noteq> 0 \<and> (case h q of None \<Rightarrow> False | Some ob \<Rightarrow> udev_chain h (ud_next ob) qs))"

lemma udev_chain_upd [simp]: "q \<notin> set ps \<Longrightarrow> udev_chain (h(q := x)) p ps = udev_chain h p ps"
  by (induction ps arbitrary: p) (auto split: option.splits)

lemma udev_chain_nonzero: "udev_chain h p ps \<Longrightarrow> 0 \<notin> set ps"
  by (induction ps arbitrary: p) (auto split: option.splits)

lemma udev_chain_dom: "udev_chain h p ps \<Longrightarrow> set ps \<subseteq> dom h"
  by (induction ps arbitrary: p) (auto split: option.splits)

text \<open>Rewriting a device without changing its \<open>next\<close> keeps the chain.\<close>

lemma udev_chain_same_next:
  "h q = Some ob \<Longrightarrow> ud_next ob' = ud_next ob \<Longrightarrow> udev_chain (h(q \<mapsto> ob')) p ps = udev_chain h p ps"
  by (induction ps arbitrary: p) (auto split: option.splits)

lemma unlink_udev_chain:
  assumes "udev_chain h d ps" "distinct ps" "udev \<noteq> d" "udev \<in> set ps" "h udev = Some ob"
  shows "\<exists>h'. unlink_udev udev (ud_next ob) d h = Some (Inr h') \<and>
    udev_chain h' d (remove1 udev ps) \<and> (\<forall>q. q \<notin> set ps \<longrightarrow> h' q = h q) \<and> h' udev = Some ob"
  using assms
proof (induction ps arbitrary: d)
  case (Cons p ps)
  have d: "p = d" "d \<noteq> 0" using Cons.prems(1) by simp_all
  obtain od where "h d = Some od" "udev_chain h (ud_next od) ps"
    using Cons.prems(1) d(1) by (cases "h d") simp_all
  note od = this(1) d this(2)
  show ?case
  proof (cases "ud_next od = udev")
    case True
    obtain qs where ps: "ps = udev # qs"
      using Cons.prems od True by (cases ps) (auto split: option.splits)
    have "udev_chain h (ud_next ob) qs" using od(4) Cons.prems(5) by (simp add: ps)
    then have "udev_chain (h(d \<mapsto> od\<lparr>ud_next := ud_next ob\<rparr>)) d (remove1 udev (p # ps))"
      using Cons.prems(2,3) od by (auto simp: ps)
    moreover have "unlink_udev udev (ud_next ob) d h = Some (Inr (h(d \<mapsto> od\<lparr>ud_next := ud_next ob\<rparr>)))"
      using od True by (simp add: unlink_udev.simps[of udev _ d])
    ultimately show ?thesis using od(2) Cons.prems(3,5) by simp
  next
    case False
    have "udev \<in> set ps" "distinct ps" using Cons.prems od by auto
    then obtain h' where h': "unlink_udev udev (ud_next ob) (ud_next od) h = Some (Inr h')"
      "udev_chain h' (ud_next od) (remove1 udev ps)" "\<forall>q. q \<notin> set ps \<longrightarrow> h' q = h q" "h' udev = Some ob"
      using Cons.IH[OF od(4) _ _ _ Cons.prems(5)] False by metis
    have "h' d = Some od" using h'(3) Cons.prems(2) od(1,2) by simp
    then have "udev_chain h' d (remove1 udev (p # ps))"
      using h'(2) od Cons.prems(3) by simp
    moreover have "unlink_udev udev (ud_next ob) d h = Some (Inr h')"
      using od False h'(1) by (simp add: unlink_udev.simps[of udev _ d])
    ultimately show ?thesis using h'(3,4) by auto
  qed
qed simp

section \<open>Releasing DMA blocks and devices\<close>

text \<open>\<open>n\<close> units from unit \<open>k\<close> on are all handed out.\<close>

definition used_run :: "bool list \<Rightarrow> int \<Rightarrow> int \<Rightarrow> bool" where
  "used_run used k n \<longleftrightarrow> 0 \<le> k \<and> k + n \<le> int (length used) \<and> (\<forall>j\<in>{k..<k + n}. used ! nat j)"

definition dma_given_back :: "int \<Rightarrow> int \<Rightarrow> usb_mem \<Rightarrow> usb_mem" where
  "dma_given_back k n s = s\<lparr>dma_unit_used := fill (nat k) (nat n) False (dma_unit_used s),
     dma_mem_used_cnt := dma_mem_used_cnt s - n\<rparr>"

lemma used_runD: "used_run used k n \<Longrightarrow> k \<le> int j \<Longrightarrow> int j < k + n \<Longrightarrow> used ! j"
  unfolding used_run_def by (metis atLeastLessThan_iff nat_int)

lemma used_run_1: "used_run used k 1 \<longleftrightarrow> 0 \<le> k \<and> k < int (length used) \<and> used ! nat k"
proof -
  have "{k..<k + 1} = {k}" by auto
  then show ?thesis by (auto simp: used_run_def)
qed

lemma used_run_fill:
  assumes "0 \<le> k" "0 \<le> n" "k + n \<le> int (length xs)"
  shows "used_run (fill (nat k) (nat n) True xs) k n"
proof -
  have "nat k \<le> nat j \<and> nat j < nat k + nat n \<and> nat j < length xs" if "j \<in> {k..<k + n}" for j
    using that assms by auto
  then show ?thesis using assms by (auto simp: used_run_def)
qed

lemma dma_given_back_frame [simp]:
  "hw_mem_pool (dma_given_back k n s) = hw_mem_pool s" "hw_unit_used (dma_given_back k n s) = hw_unit_used s"
  "dma_mem_pool (dma_given_back k n s) = dma_mem_pool s" "dma_bytes (dma_given_back k n s) = dma_bytes s"
  "g_udev_list (dma_given_back k n s) = g_udev_list s" "udev_heap (dma_given_back k n s) = udev_heap s"
  "utr_heap (dma_given_back k n s) = utr_heap s" "dev_addr_pool (dma_given_back k n s) = dev_addr_pool s"
  "device_addr (dma_given_back k n s) = device_addr s" "sidx (dma_given_back k n s) = sidx s"
  "hw_mem_used_cnt (dma_given_back k n s) = hw_mem_used_cnt s" "utr_used (dma_given_back k n s) = utr_used s"
  "dma_unit_used (dma_given_back k n s) = fill (nat k) (nat n) False (dma_unit_used s)"
  "dma_mem_used_cnt (dma_given_back k n s) = dma_mem_used_cnt s - n"
  "dma_block (dma_given_back k n s) j = dma_block s j"
  by (simp_all add: dma_given_back_def dma_block_def)

lemma usbh_free_mem_run:
  assumes "mem_wf s" "used_run (dma_unit_used s) k n" "1 \<le> n" "n = units_for sz DMA_MEM_UNIT_SIZE"
  shows "usbh_free_mem (dma_block s k) sz s = (0, dma_given_back k n s)"
    and "mem_wf (dma_given_back k n s)"
proof -
  have k: "0 \<le> k" "k + n \<le> DMA_MEM_UNIT_NUM" using assms(1,2) by (auto simp: used_run_def mem_wf_def)
  show "usbh_free_mem (dma_block s k) sz s = (0, dma_given_back k n s)"
    using usbh_free_mem_block[OF assms(1) k(1) assms(3) k(2) assms(4)] by (simp add: dma_given_back_def)
  have "used_count (fill (nat k) (nat n) False (dma_unit_used s)) = used_count (dma_unit_used s) - n"
    using assms k used_runD[OF assms(2)] by (subst used_count_fill) (auto simp: mem_wf_def)
  then show "mem_wf (dma_given_back k n s)" using assms(1) by (simp add: mem_wf_def)
qed

lemma usbh_free_mem_addr_s: "usbh_free_mem (addr_s p) sz s = usbh_free_mem p sz s"
proof -
  have "addr_s (addr_s p) = addr_s p" by (simp add: addr_s_def ac_simps)
  then show ?thesis by (simp add: usbh_free_mem_def)
qed

lemma units_for_struct: "units_for sizeof_UDEV_T DMA_MEM_UNIT_SIZE = 1"
  "units_for sizeof_UTR_T DMA_MEM_UNIT_SIZE = 1" "units_for MAX_DESC_BUFF_SIZE DMA_MEM_UNIT_SIZE = 4"
  by (simp_all add: units_for_def c_div_def)

text \<open>The typed heaps and the chain do not take part in the unit accounting.\<close>

lemma mem_wf_heaps [simp]:
  "mem_wf (s\<lparr>udev_heap := h\<rparr>) = mem_wf s" "mem_wf (s\<lparr>utr_heap := u\<rparr>) = mem_wf s"
  "mem_wf (s\<lparr>g_udev_list := p\<rparr>) = mem_wf s" "mem_wf (s\<lparr>utr_used := x\<rparr>) = mem_wf s"
  by (simp_all add: mem_wf_def)

lemma dma_block_heaps [simp]:
  "dma_block (s\<lparr>udev_heap := h\<rparr>) k = dma_block s k" "dma_block (s\<lparr>utr_heap := u\<rparr>) k = dma_block s k"
  "dma_block (s\<lparr>g_udev_list := p\<rparr>) k = dma_block s k" "dma_block (s\<lparr>utr_used := x\<rparr>) k = dma_block s k"
  by (simp_all add: dma_block_def)

text \<open>The configuration buffer of a device: none, or four units of its own.\<close>

definition cfd_owned :: "usb_mem \<Rightarrow> int \<Rightarrow> u64 \<Rightarrow> bool" where
  "cfd_owned s k cfd \<longleftrightarrow> addr_s cfd = 0 \<or>
     (\<exists>c\<in>{0..124}. addr_s cfd = addr_s (dma_block s c) \<and> used_run (dma_unit_used s) c 4 \<and> k \<notin> {c..<c + 4})"

text \<open>The units behind a configuration buffer; the driver compares addresses by their low word only.\<close>

definition cfd_units :: "usb_mem \<Rightarrow> u64 \<Rightarrow> nat set" where
  "cfd_units s cfd = {j. addr_s cfd \<noteq> 0 \<and> (\<exists>c\<in>{0..124}. addr_s cfd = addr_s (dma_block s c) \<and> int j \<in> {c..<c + 4})}"

lemma addr_s_block_inj:
  assumes "mem_wf s" "0 \<le> j" "j < DMA_MEM_UNIT_NUM" "0 \<le> k" "k < DMA_MEM_UNIT_NUM"
    "addr_s (dma_block s j) = addr_s (dma_block s k)"
  shows "j = k"
proof -
  note u = uint_dma_unit[OF assms(1-3)] uint_dma_unit[OF assms(1,4,5)]
  have "0 \<le> uint (dma_mem_pool s) + j * 1024" "0 \<le> uint (dma_mem_pool s) + k * 1024" using assms(2,4) by simp_all
  moreover have "uint (addr_s (dma_block s j)) = uint (addr_s (dma_block s k))" using assms(6) by simp
  ultimately show ?thesis
    using u unfolding dma_block_def addr_s_nc uint_addr_s by (simp add: mod_pos_pos_trivial)
qed

lemma cfd_units_block:
  assumes "mem_wf s" "c \<in> {0..124}" "addr_s cfd = addr_s (dma_block s c)" "addr_s cfd \<noteq> 0"
  shows "j \<in> cfd_units s cfd \<longleftrightarrow> nat c \<le> j \<and> j < nat c + 4"
proof -
  have "c' = c" if "c' \<in> {0..124}" "addr_s cfd = addr_s (dma_block s c')" for c'
    by (rule addr_s_block_inj[OF assms(1)]) (use that assms(2,3) in auto)
  then have "j \<in> cfd_units s cfd \<longleftrightarrow> int j \<in> {c..<c + 4}" using assms(2-4) unfolding cfd_units_def by blast
  then show ?thesis using assms(2) by auto
qed

lemma free_device_cfd:
  assumes "mem_wf s" "used_run (dma_unit_used s) k 1" "cfd_owned s k (ud_cfd_buff ob)"
  defines "cfd \<equiv> addr_s (ud_cfd_buff ob)"
  defines "s2 \<equiv> (if cfd \<noteq> 0 then snd (usbh_free_mem cfd MAX_DESC_BUFF_SIZE s) else s)"
  shows "mem_wf s2 \<and> used_run (dma_unit_used s2) k 1 \<and> udev_heap s2 = udev_heap s \<and>
    g_udev_list s2 = g_udev_list s \<and> dma_mem_pool s2 = dma_mem_pool s \<and>
    dma_mem_used_cnt s2 = dma_mem_used_cnt s - (if cfd = 0 then 0 else 4) \<and>
    (\<forall>j < 128. dma_unit_used s2 ! j \<longleftrightarrow> dma_unit_used s ! j \<and> j \<notin> cfd_units s (ud_cfd_buff ob))"
proof (cases "cfd = 0")
  case False
  then obtain c where c: "c \<in> {0..124}" "cfd = addr_s (dma_block s c)" "used_run (dma_unit_used s) c 4"
    "k \<notin> {c..<c + 4}" using assms(3) by (auto simp: cfd_owned_def cfd_def)
  have n: "1 \<le> (4 :: int)" "4 = units_for MAX_DESC_BUFF_SIZE DMA_MEM_UNIT_SIZE"
    by (simp_all only: units_for_struct)
  have "usbh_free_mem cfd MAX_DESC_BUFF_SIZE s = (0, dma_given_back c 4 s)"
    unfolding c(2) usbh_free_mem_addr_s by (rule usbh_free_mem_run(1)[OF assms(1) c(3) n])
  then have "s2 = dma_given_back c 4 s" unfolding s2_def using False by simp
  moreover have "mem_wf (dma_given_back c 4 s)" by (rule usbh_free_mem_run(2)[OF assms(1) c(3) n])
  moreover have "used_run (dma_unit_used (dma_given_back c 4 s)) k 1"
  proof -
    have k: "0 \<le> k" "k < int (length (dma_unit_used s))" "dma_unit_used s ! nat k"
      using assms(2) by (simp_all add: used_run_1)
    moreover have "\<not> (nat c \<le> nat k \<and> nat k < nat c + nat 4)" using c(1,4) k(1) by auto
    ultimately show ?thesis by (simp add: used_run_1)
  qed
  moreover have "\<forall>j < 128. dma_unit_used (dma_given_back c 4 s) ! j \<longleftrightarrow>
      dma_unit_used s ! j \<and> j \<notin> cfd_units s (ud_cfd_buff ob)"
    using cfd_units_block[OF assms(1) c(1), of "ud_cfd_buff ob"] c(2) False assms(1) by (auto simp: cfd_def mem_wf_def)
  ultimately show ?thesis using False by simp
qed (use assms in \<open>simp add: cfd_units_def\<close>)

lemma mem_wf_free_device:
  assumes "mem_wf s" "used_run (dma_unit_used s) k 1"
  shows "usbh_free_mem (dma_block s k) sizeof_UDEV_T s = (0, dma_given_back k 1 s)"
    "mem_wf (dma_given_back k 1 s)"
  using usbh_free_mem_run[OF assms, of sizeof_UDEV_T] by (simp_all add: units_for_struct)

text \<open>
  \<open>free_device\<close> on a device of the chain returns without fault, takes exactly that device out of
  the chain, gives back its unit and the four units of its configuration buffer and no others, and keeps the
  accounting exact.
\<close>

lemma free_device_chain:
  assumes "mem_wf s" "udev_chain (udev_heap s) (g_udev_list s) ps" "distinct ps" "udev \<in> set ps"
    "udev = dma_block s k" "used_run (dma_unit_used s) k 1" "udev_heap s udev = Some ob"
    "cfd_owned s k (ud_cfd_buff ob)"
  shows "\<exists>s'. free_device udev s = Some (Inr s') \<and> mem_wf s' \<and>
    udev_chain (udev_heap s') (g_udev_list s') (remove1 udev ps) \<and> udev_heap s' udev = None \<and>
    \<not> dma_unit_used s' ! nat k \<and>
    dma_mem_used_cnt s' = dma_mem_used_cnt s - (if addr_s (ud_cfd_buff ob) = 0 then 1 else 5) \<and>
    (\<forall>j < 128. dma_unit_used s' ! j \<longleftrightarrow> dma_unit_used s ! j \<and> j \<noteq> nat k \<and> j \<notin> cfd_units s (ud_cfd_buff ob))"
proof -
  let ?cfd = "addr_s (ud_cfd_buff ob)"
  let ?ob = "ob\<lparr>ud_cfd_buff := ?cfd\<rparr>"
  define s1 where "s1 = s\<lparr>udev_heap := (udev_heap s)(udev \<mapsto> ?ob)\<rparr>"
  define s2 where "s2 = (if ?cfd \<noteq> 0 then snd (usbh_free_mem ?cfd MAX_DESC_BUFF_SIZE s1) else s1)"
  have s2: "mem_wf s2" "used_run (dma_unit_used s2) k 1" "udev_heap s2 = (udev_heap s)(udev \<mapsto> ?ob)"
    "g_udev_list s2 = g_udev_list s" "dma_mem_pool s2 = dma_mem_pool s"
    "dma_mem_used_cnt s2 = dma_mem_used_cnt s - (if ?cfd = 0 then 0 else 4)"
    "\<forall>j < 128. dma_unit_used s2 ! j \<longleftrightarrow> dma_unit_used s ! j \<and> j \<notin> cfd_units s (ud_cfd_buff ob)"
    using free_device_cfd[of s1 k ob] assms(1,6,8) unfolding s2_def
    by (simp_all add: s1_def cfd_owned_def cfd_units_def dma_block_def)
  have chain: "udev_chain (udev_heap s2) (g_udev_list s2) ps" "udev_heap s2 udev = Some ?ob"
    using assms(2) by (simp_all add: s2(3,4) udev_chain_same_next[where h = "udev_heap s" and q = udev, OF assms(7), of ?ob])
  have nz: "udev \<noteq> 0" using udev_chain_nonzero[OF assms(2)] assms(4) by auto
  have "\<exists>s3. (if g_udev_list s2 = udev then Some (Inr (s2\<lparr>g_udev_list := ud_next ob\<rparr>))
      else map_option (map_sum id (\<lambda>h. s2\<lparr>udev_heap := h\<rparr>))
        (unlink_udev udev (ud_next ob) (g_udev_list s2) (udev_heap s2))) = Some (Inr s3) \<and>
      mem_wf s3 \<and> dma_unit_used s3 = dma_unit_used s2 \<and> dma_mem_pool s3 = dma_mem_pool s2 \<and>
      dma_mem_used_cnt s3 = dma_mem_used_cnt s2 \<and>
      udev_chain (udev_heap s3) (g_udev_list s3) (remove1 udev ps)"
  proof (cases "g_udev_list s2 = udev")
    case True
    then obtain qs where "ps = udev # qs" using chain(1) assms(4) by (cases ps) auto
    then show ?thesis using True chain s2(1) by simp
  next
    case False
    then show ?thesis
      using unlink_udev_chain[OF chain(1) assms(3) _ assms(4) chain(2)] s2(1) by fastforce
  qed
  then obtain s3 where s3: "(if g_udev_list s2 = udev then Some (Inr (s2\<lparr>g_udev_list := ud_next ob\<rparr>))
      else map_option (map_sum id (\<lambda>h. s2\<lparr>udev_heap := h\<rparr>))
        (unlink_udev udev (ud_next ob) (g_udev_list s2) (udev_heap s2))) = Some (Inr s3)"
    "mem_wf s3" "dma_unit_used s3 = dma_unit_used s2" "dma_mem_pool s3 = dma_mem_pool s2"
    "dma_mem_used_cnt s3 = dma_mem_used_cnt s2"
    "udev_chain (udev_heap s3) (g_udev_list s3) (remove1 udev ps)" by blast
  have "udev = dma_block s3 k" using assms(5) s2(5) s3(4) by (simp add: dma_block_def)
  moreover have run: "used_run (dma_unit_used s3) k 1" using s2(2) s3(3) by simp
  ultimately have fm: "usbh_free_mem udev sizeof_UDEV_T s3 = (0, dma_given_back k 1 s3)"
    and wf: "mem_wf (dma_given_back k 1 s3)" using mem_wf_free_device[OF s3(2)] by simp_all
  have "free_device udev s = Some (Inr ((dma_given_back k 1 s3)\<lparr>udev_heap := (udev_heap s3)(udev := None)\<rparr>))"
    unfolding free_device_def Let_def
    by (simp only: nz assms(7) if_False option.case s1_def[symmetric] s2_def[symmetric] s3(1))
       (simp add: fm)
  moreover have "udev \<notin> set (remove1 udev ps)" using assms(3) by simp
  moreover have "dma_unit_used (dma_given_back k 1 s3) ! j \<longleftrightarrow>
      dma_unit_used s ! j \<and> j \<noteq> nat k \<and> j \<notin> cfd_units s (ud_cfd_buff ob)" if "j < 128" for j
    using s2(7) that mem_wf_def[of s2] s2(1) by (cases "j = nat k") (simp_all add: s3(3))
  ultimately show ?thesis
    using wf s3(5,6) s2(6) run by (auto simp: used_run_1)
qed

section \<open>The transfer requests implement the interface\<close>

lemma dma_liveE:
  assumes "p \<in> dma_live s" "mem_wf s"
  obtains k where "p = dma_block s k" "used_run (dma_unit_used s) k 1"
  using assms by (auto simp: dma_live_def used_run_1 mem_wf_def)

lemma free_utr_eq:
  assumes "mem_wf s" "p = dma_block s k" "used_run (dma_unit_used s) k 1"
  shows "free_utr p s = (dma_given_back k 1 s)\<lparr>utr_heap := (utr_heap s)(p := None), utr_used := utr_used s - 1\<rparr>"
    and "mem_wf (free_utr p s)"
proof -
  have n: "1 = units_for sizeof_UTR_T DMA_MEM_UNIT_SIZE" by (simp only: units_for_struct)
  have "p \<noteq> 0" using assms(2) by (simp add: dma_block_def)
  then show eq: "free_utr p s =
      (dma_given_back k 1 s)\<lparr>utr_heap := (utr_heap s)(p := None), utr_used := utr_used s - 1\<rparr>"
    using usbh_free_mem_run(1)[OF assms(1,3) _ n] assms(2) by (simp add: free_utr_def Let_def)
  show "mem_wf (free_utr p s)" unfolding eq using usbh_free_mem_run(2)[OF assms(1,3) _ n] by simp
qed

lemma dma_block_inj_on: "mem_wf s \<Longrightarrow> inj_on (dma_block s) {0..<DMA_MEM_UNIT_NUM}"
  by (rule inj_onI) (auto intro: dma_block_inj)

lemma dma_live_eq:
  "dma_mem_pool s' = dma_mem_pool s \<Longrightarrow>
   dma_live s' = dma_block s ` {k. 0 \<le> k \<and> k < DMA_MEM_UNIT_NUM \<and> dma_unit_used s' ! nat k}"
  by (simp add: dma_live_def dma_block_def)

lemma dma_live_take:
  assumes "mem_wf s" "free_run (dma_unit_used s) k 1" "dma_mem_pool s' = dma_mem_pool s"
    "dma_unit_used s' = fill (nat k) (nat 1) True (dma_unit_used s)"
  shows "dma_block s k \<notin> dma_live s" "dma_live s' = insert (dma_block s k) (dma_live s)"
proof -
  have "{k..<k + 1} = {k}" by auto
  then have k: "0 \<le> k" "k < DMA_MEM_UNIT_NUM" "\<not> dma_unit_used s ! nat k"
    using assms(1,2) by (auto simp: free_run_def mem_wf_def)
  show "dma_block s k \<notin> dma_live s"
    using dma_block_inj[OF assms(1)] k by (auto simp: dma_live_def)
  have "{j. 0 \<le> j \<and> j < DMA_MEM_UNIT_NUM \<and> dma_unit_used s' ! nat j} =
      insert k {j. 0 \<le> j \<and> j < DMA_MEM_UNIT_NUM \<and> dma_unit_used s ! nat j}"
    using assms(1) k unfolding assms(4) by (auto simp: mem_wf_def nth_list_update split: if_splits)
  then show "dma_live s' = insert (dma_block s k) (dma_live s)"
    unfolding dma_live_eq[OF assms(3)] by (simp add: dma_live_def)
qed

lemma dma_live_given_back:
  assumes "mem_wf s" "used_run (dma_unit_used s) k 1" "dma_mem_pool s' = dma_mem_pool s"
    "dma_unit_used s' = fill (nat k) (nat 1) False (dma_unit_used s)"
  shows "dma_live s' = dma_live s - {dma_block s k}"
proof -
  let ?S = "{j. 0 \<le> j \<and> j < DMA_MEM_UNIT_NUM \<and> dma_unit_used s ! nat j}"
  have k: "0 \<le> k" "k < DMA_MEM_UNIT_NUM" using assms(1,2) by (auto simp: used_run_1 mem_wf_def)
  have "{j. 0 \<le> j \<and> j < DMA_MEM_UNIT_NUM \<and> dma_unit_used s' ! nat j} = ?S - {k}"
    using assms(1) k unfolding assms(4) by (auto simp: mem_wf_def nth_list_update split: if_splits)
  moreover have "dma_block s ` (?S - {k}) = dma_block s ` ?S - dma_block s ` {k}"
    using k by (intro inj_on_image_set_diff[OF dma_block_inj_on[OF assms(1)]]) auto
  ultimately show ?thesis unfolding dma_live_eq[OF assms(3)] by (simp add: dma_live_def)
qed

lemma dma_live_utr [simp]:
  "dma_live (s\<lparr>utr_heap := h\<rparr>) = dma_live s" "dma_live (s\<lparr>utr_used := x\<rparr>) = dma_live s"
  by (simp_all add: dma_live_def dma_block_def)

definition utr_alloc :: "u64 \<Rightarrow> usb_mem \<Rightarrow> u64 \<times> usb_mem" where
  "utr_alloc udev s = (case alloc_utr udev s of Inl e \<Rightarrow> (0, s) | Inr r \<Rightarrow> r)"

lemma utr_alloc_ok:
  assumes "mem_wf s" "utr_alloc udev s = (p, s')"
  shows "mem_wf s' \<and> (if p = 0 then dma_live s' = dma_live s
    else p \<notin> dma_live s \<and> dma_live s' = insert p (dma_live s))"
proof -
  have pos: "0 < sizeof_UTR_T" by simp
  show ?thesis
  using assms(1) pos refl
  proof (cases rule: usbh_alloc_mem_cases)
  case (taken k)
  note one = taken[unfolded units_for_struct]
  have "p = dma_block s k" "s' = (dma_taken k 1 s)\<lparr>utr_heap := (utr_heap s)(p \<mapsto> UTR_zero\<lparr>utr_udev := udev\<rparr>),
      utr_used := utr_used s + 1\<rparr>"
    using assms(2) one(1) by (auto simp: utr_alloc_def alloc_utr_def dma_block_def)
  then show ?thesis
    using dma_live_take[OF assms(1) one(2), of "dma_taken k 1 s"] mem_wf_dma_taken[OF assms(1) one(2)]
    by (simp add: dma_block_def)
  qed (use assms in \<open>auto simp: utr_alloc_def alloc_utr_def\<close>)
qed

interpretation utr_pool: block_allocator utr_alloc "\<lambda>udev. free_utr" 0 dma_live mem_wf
proof
  fix s p s' k
  assume wf: "mem_wf s"
  then show "0 \<notin> dma_live s" by (auto simp: dma_live_def dma_block_def)
  show "utr_alloc k s = (p, s') \<Longrightarrow> mem_wf s'" "utr_alloc k s = (0, s') \<Longrightarrow> dma_live s' = dma_live s"
    "utr_alloc k s = (p, s') \<Longrightarrow> p \<noteq> 0 \<Longrightarrow> p \<notin> dma_live s \<and> dma_live s' = insert p (dma_live s)"
    using utr_alloc_ok[OF wf] by fastforce+
  assume "p \<in> dma_live s"
  then obtain j where j: "p = dma_block s j" "used_run (dma_unit_used s) j 1" using wf by (rule dma_liveE)
  show "mem_wf (free_utr p s)" by (rule free_utr_eq(2)[OF wf j])
  show "dma_live (free_utr p s) = dma_live s - {p}"
    unfolding free_utr_eq(1)[OF wf j] using dma_live_given_back[OF wf j(2), of "dma_given_back j 1 s"] j(1)
    by simp
qed

section \<open>Steps of the whole memory manager\<close>

text \<open>
  One rule per operation, for clients that ask for at least one byte and give back what they hold;
  blocks of several units, descriptors of the six kinds, devices, transfer requests and addresses
  interleave freely.
\<close>

inductive mem_step :: "usb_mem \<Rightarrow> usb_mem \<Rightarrow> bool" where
  step_alloc_mem: "0 < sz \<Longrightarrow> usbh_alloc_mem sz s = Inr (p, s') \<Longrightarrow> mem_step s s'"
| step_free_mem: "used_run (dma_unit_used s) k (units_for sz DMA_MEM_UNIT_SIZE) \<Longrightarrow> 0 < sz \<Longrightarrow>
    usbh_free_mem (dma_block s k) sz s = (r, s') \<Longrightarrow> mem_step s s'"
| step_alloc_device: "alloc_device s = Inr (p, s') \<Longrightarrow> mem_step s s'"
| step_free_device: "udev_chain (udev_heap s) (g_udev_list s) ps \<Longrightarrow> distinct ps \<Longrightarrow> dma_block s k \<in> set ps \<Longrightarrow>
    used_run (dma_unit_used s) k 1 \<Longrightarrow> udev_heap s (dma_block s k) = Some ob \<Longrightarrow>
    cfd_owned s k (ud_cfd_buff ob) \<Longrightarrow> free_device (dma_block s k) s = Some (Inr s') \<Longrightarrow> mem_step s s'"
| step_alloc_utr: "alloc_utr udev s = Inr (p, s') \<Longrightarrow> mem_step s s'"
| step_free_utr: "p \<in> dma_live s \<Longrightarrow> mem_step s (free_utr p s)"
| step_alloc_addr: "alloc_dev_address s = Some (a, s') \<Longrightarrow> mem_step s s'"
| step_free_addr: "free_dev_address a s = Inr s' \<Longrightarrow> mem_step s s'"
| step_alloc_ED: "alloc_ohci_ED s = (p, s') \<Longrightarrow> mem_step s s'"
| step_alloc_TD: "alloc_ohci_TD utr s = (p, s') \<Longrightarrow> mem_step s s'"
| step_alloc_QH: "alloc_ehci_QH s = Some (p, s') \<Longrightarrow> mem_step s s'"
| step_alloc_qTD: "alloc_ehci_qTD utr s = Some (p, s') \<Longrightarrow> mem_step s s'"
| step_alloc_iTD: "alloc_ehci_iTD s = Some (p, s') \<Longrightarrow> mem_step s s'"
| step_alloc_siTD: "alloc_ehci_siTD s = Some (p, s') \<Longrightarrow> mem_step s s'"
| step_free_ED: "p \<in> hw_live s \<Longrightarrow> mem_step s (free_ohci_ED p s)"
| step_free_TD: "p \<in> hw_live s \<Longrightarrow> mem_step s (free_ohci_TD p s)"
| step_free_QH: "p \<in> hw_live s \<Longrightarrow> mem_step s (free_ehci_QH p s)"
| step_free_qTD: "p \<in> hw_live s \<Longrightarrow> mem_step s (free_ehci_qTD p s)"
| step_free_iTD: "p \<in> hw_live s \<Longrightarrow> mem_step s (free_ehci_iTD p s)"
| step_free_siTD: "p \<in> hw_live s \<Longrightarrow> mem_step s (free_ehci_siTD p s)"

text \<open>The states after \<open>usbh_memory_init\<close> and any number of operations.\<close>

inductive mem_reachable :: "usb_mem \<Rightarrow> bool" where
  boot: "uint (hw_mem_pool s) + 65536 \<le> 2 ^ 32 \<Longrightarrow> uint (dma_mem_pool s) + 131072 \<le> 2 ^ 32 \<Longrightarrow>
    mem_reachable (usbh_memory_init s)"
| more: "mem_reachable s \<Longrightarrow> mem_step s s' \<Longrightarrow> mem_reachable s'"

lemma alloc_device_wf: "mem_wf s \<Longrightarrow> alloc_device s = Inr (p, s') \<Longrightarrow> mem_wf s'"
  using usbh_alloc_mem_wf[of s sizeof_UDEV_T] by (auto simp: alloc_device_def split: sum.splits if_splits)

lemma alloc_utr_wf: "mem_wf s \<Longrightarrow> alloc_utr udev s = Inr (p, s') \<Longrightarrow> mem_wf s'"
  using usbh_alloc_mem_wf[of s sizeof_UTR_T] by (auto simp: alloc_utr_def split: sum.splits if_splits)

lemma ehci_alloc_wf:
  assumes "mem_wf s"
  shows "alloc_ehci_QH s = Some (p, s') \<Longrightarrow> mem_wf s'" "alloc_ehci_qTD utr s = Some (p, s') \<Longrightarrow> mem_wf s'"
    "alloc_ehci_iTD s = Some (p, s') \<Longrightarrow> mem_wf s'" "alloc_ehci_siTD s = Some (p, s') \<Longrightarrow> mem_wf s'"
  using ehci_alloc_ok(1)[OF assms] ehci_alloc_ok(2)[OF assms, of utr]
    ehci_alloc_ok(3)[OF assms] ehci_alloc_ok(4)[OF assms]
  by (auto simp: hw_alloc_ok_def)

lemma mem_step_wf: "mem_step s s' \<Longrightarrow> mem_wf s \<Longrightarrow> mem_wf s'"
proof (induction rule: mem_step.induct)
  case (step_free_mem s k sz r s')
  then have "1 \<le> units_for sz DMA_MEM_UNIT_SIZE" using units_for_pos[of DMA_MEM_UNIT_SIZE sz] by simp
  then show ?case using usbh_free_mem_run[OF step_free_mem(4,1) _ refl] step_free_mem(3) by auto
next
  case (step_free_utr p s)
  then show ?case using dma_liveE[of p s] free_utr_eq(2)[of s p] by metis
next
  case (step_free_addr a s s')
  then show ?case by (auto simp: free_dev_address_def mem_wf_def split: if_splits)
next
  case (step_free_device s ps k ob s')
  then show ?case using free_device_chain[OF step_free_device(8,1-3) refl step_free_device(4-6)] by auto
next
  case (step_alloc_addr s a s')
  then show ?case using alloc_dev_address_wf by blast
next
  case (step_alloc_mem sz s p s')
  then show ?case by (blast intro: usbh_alloc_mem_wf)
next
  case (step_alloc_device s p s')
  then show ?case by (blast intro: alloc_device_wf)
next
  case (step_alloc_utr udev s p s')
  then show ?case by (blast intro: alloc_utr_wf)
next
  case (step_alloc_ED s p s')
  then show ?case by (blast intro: hw_pool.acquire_ok[of _ Kind_ED, simplified])
next
  case (step_alloc_TD utr s p s')
  then show ?case by (blast intro: hw_pool.acquire_ok[of _ "Kind_TD _", simplified])
next
  case (step_alloc_QH s p s')
  then show ?case by (blast intro: ehci_alloc_wf)
next
  case (step_alloc_qTD utr s p s')
  then show ?case by (blast intro: ehci_alloc_wf)
next
  case (step_alloc_iTD s p s')
  then show ?case by (blast intro: ehci_alloc_wf)
next
  case (step_alloc_siTD s p s')
  then show ?case by (blast intro: ehci_alloc_wf)
next
  case (step_free_ED p s)
  then show ?case by (blast intro: hw_pool.release_ok[of _ _ Kind_ED, simplified])
next
  case (step_free_TD p s)
  then show ?case by (blast intro: hw_pool.release_ok[of _ _ "Kind_TD _", simplified])
next
  case (step_free_QH p s)
  then show ?case by (blast intro: hw_pool.release_ok[of _ _ Kind_QH, simplified])
next
  case (step_free_qTD p s)
  then show ?case by (blast intro: hw_pool.release_ok[of _ _ "Kind_qTD _", simplified])
next
  case (step_free_iTD p s)
  then show ?case by (blast intro: hw_pool.release_ok[of _ _ Kind_iTD, simplified])
next
  case (step_free_siTD p s)
  then show ?case by (blast intro: hw_pool.release_ok[of _ _ Kind_siTD, simplified])
qed

lemma init_wf:
  "uint (hw_mem_pool s) + 65536 \<le> 2 ^ 32 \<Longrightarrow> uint (dma_mem_pool s) + 131072 \<le> 2 ^ 32 \<Longrightarrow>
     mem_wf (usbh_memory_init s)"
  by (simp add: mem_wf_def usbh_memory_init_def)

section \<open>Steps with arbitrary arguments\<close>

text \<open>
  The functions check the address that they are given and nothing else: a block or a descriptor that is not in use is given
  back like one that is, with a message on the console and a usage counter that is too small from then on. One rule per
  operation, with every address, every object and every size that is not negative.
\<close>

inductive mem_op :: "usb_mem \<Rightarrow> usb_mem \<Rightarrow> bool" where
  op_alloc_mem: "usbh_alloc_mem sz s = Inr (p, s') \<Longrightarrow> mem_op s s'"
| op_free_mem: "0 \<le> sz \<Longrightarrow> usbh_free_mem p sz s = (r, s') \<Longrightarrow> mem_op s s'"
| op_alloc_device: "alloc_device s = Inr (p, s') \<Longrightarrow> mem_op s s'"
| op_free_device: "free_device p s = Some (Inr s') \<Longrightarrow> mem_op s s'"
| op_alloc_utr: "alloc_utr udev s = Inr (p, s') \<Longrightarrow> mem_op s s'"
| op_free_utr: "mem_op s (free_utr p s)"
| op_alloc_addr: "alloc_dev_address s = Some (a, s') \<Longrightarrow> mem_op s s'"
| op_free_addr: "free_dev_address a s = Inr s' \<Longrightarrow> mem_op s s'"
| op_alloc_hw: "hw_alloc k s = (p, s') \<Longrightarrow> mem_op s s'"
| op_free_hw: "mem_op s (hw_free k p s)"

inductive mem_any :: "usb_mem \<Rightarrow> bool" where
  any_boot: "mem_any (usbh_memory_init s)"
| any_more: "mem_any s \<Longrightarrow> mem_op s s' \<Longrightarrow> mem_any s'"

text \<open>What holds nevertheless.\<close>

definition mem_shape :: "usb_mem \<Rightarrow> bool" where
  "mem_shape s \<longleftrightarrow> length (hw_unit_used s) = HW_MEM_UNIT_NUM \<and> length (dma_unit_used s) = nat DMA_MEM_UNIT_NUM \<and>
     length (dev_addr_pool s) = 128 \<and> sidx s < HW_MEM_UNIT_NUM \<and> 1 \<le> device_addr s \<and> device_addr s < 128 \<and>
     hw_mem_used_cnt s \<le> used_count (hw_unit_used s) \<and> dma_mem_used_cnt s \<le> used_count (dma_unit_used s)"

lemma used_count_clear: "used_count xs - int n \<le> used_count (fill lo n False xs)"
proof (induction lo n False xs rule: fill.induct)
  case (2 lo n xs)
  have "used_count xs - 1 \<le> used_count (xs[lo := False])"
    by (cases "lo < length xs") (simp_all add: used_count_update of_bool_def not_less list_update_beyond)
  then show ?case using 2 by simp
qed simp

lemma used_count_set: "used_count xs \<le> used_count (fill lo n True xs)"
proof (induction lo n True xs rule: fill.induct)
  case (2 lo n xs)
  have "used_count xs \<le> used_count (xs[lo := True])"
    by (cases "lo < length xs") (simp_all add: used_count_update of_bool_def not_less list_update_beyond)
  then show ?case using 2 by simp
qed simp

lemma shape_alloc_mem:
  assumes "mem_shape s" "usbh_alloc_mem sz s = Inr (p, s')"
  shows "mem_shape s'"
proof -
  let ?n = "units_for sz DMA_MEM_UNIT_SIZE"
  have len: "length (dma_unit_used s) = 128" using assms(1) by (simp add: mem_shape_def)
  obtain f st where scan: "dma_scan (dma_unit_used s) ?n 0 0 (- 1) = Inr (f, st)"
    using assms(2) by (auto simp: usbh_alloc_mem_def Let_def split: sum.splits)
  show ?thesis
  proof (cases "f < ?n")
    case True
    then show ?thesis using assms scan by (auto simp: usbh_alloc_mem_def Let_def)
  next
    case f: False
    then have n: "0 \<le> ?n" using assms(2) scan by (auto simp: usbh_alloc_mem_def Let_def split: if_splits)
    have cnt: "used_count (dma_unit_used s) + ?n \<le> used_count (fill (nat st) (nat f) True (dma_unit_used s))"
    proof (cases "1 \<le> ?n")
      case True
      then have run: "f = ?n \<and> 0 \<le> st \<and> st + 2 * ?n \<le> 129 \<and> free_run (dma_unit_used s) st ?n"
        using dma_scan_sound[OF scan True len] f by simp
      then have "used_count (fill (nat st) (nat f) True (dma_unit_used s)) = used_count (dma_unit_used s) + ?n"
        using free_runD[of "dma_unit_used s" st ?n] True by (subst used_count_fill) (auto simp: free_run_def)
      then show ?thesis by simp
    next
      case False
      then show ?thesis using used_count_set[of "dma_unit_used s" "nat st" "nat f"] n by simp
    qed
    have "s' = s\<lparr>dma_unit_used := fill (nat st) (nat f) True (dma_unit_used s), dma_mem_used_cnt := dma_mem_used_cnt s + ?n,
        dma_bytes := dma_bytes s'\<rparr>"
      using assms(2) scan f n by (auto simp: usbh_alloc_mem_def Let_def)
    then have "dma_unit_used s' = fill (nat st) (nat f) True (dma_unit_used s)" "dma_mem_used_cnt s' = dma_mem_used_cnt s + ?n"
      "hw_unit_used s' = hw_unit_used s" "hw_mem_used_cnt s' = hw_mem_used_cnt s" "dev_addr_pool s' = dev_addr_pool s"
      "sidx s' = sidx s" "device_addr s' = device_addr s"
      using assms(2) scan f n by (auto simp: usbh_alloc_mem_def Let_def)
    then show ?thesis using assms(1) cnt by (auto simp: mem_shape_def)
  qed
qed

lemma shape_free_mem:
  assumes "mem_shape s" "0 \<le> sz"
  shows "mem_shape (snd (usbh_free_mem p sz s))"
proof -
  let ?n = "units_for sz DMA_MEM_UNIT_SIZE"
  have n: "0 \<le> ?n" using assms(2) by (simp add: units_for_def c_div_def)
  have "snd (usbh_free_mem p sz s) = s \<or> (\<exists>st. snd (usbh_free_mem p sz s) =
      s\<lparr>dma_unit_used := fill st (nat ?n) False (dma_unit_used s), dma_mem_used_cnt := dma_mem_used_cnt s - ?n\<rparr>)"
    unfolding usbh_free_mem_def Let_def by (auto split: if_splits)
  moreover have "dma_mem_used_cnt s - ?n \<le> used_count (fill st (nat ?n) False (dma_unit_used s))" for st
    using used_count_clear[of "dma_unit_used s" "nat ?n" st] assms(1) n by (simp add: mem_shape_def)
  ultimately show ?thesis using assms(1) by (auto simp: mem_shape_def)
qed

lemma mem_shape_frame [simp]:
  "mem_shape (s\<lparr>udev_heap := h\<rparr>) = mem_shape s" "mem_shape (s\<lparr>utr_heap := u\<rparr>) = mem_shape s"
  "mem_shape (s\<lparr>g_udev_list := q\<rparr>) = mem_shape s" "mem_shape (s\<lparr>utr_used := x\<rparr>) = mem_shape s"
  "mem_shape (s\<lparr>ohci_ed_used := x\<rparr>) = mem_shape s" "mem_shape (s\<lparr>ohci_td_used := x\<rparr>) = mem_shape s"
  "mem_shape (s\<lparr>ehci_qh_used := x\<rparr>) = mem_shape s" "mem_shape (s\<lparr>ehci_qtd_used := x\<rparr>) = mem_shape s"
  "mem_shape (s\<lparr>ehci_itd_used := x\<rparr>) = mem_shape s" "mem_shape (s\<lparr>ehci_sitd_used := x\<rparr>) = mem_shape s"
  "mem_shape s \<Longrightarrow> k < HW_MEM_UNIT_NUM \<Longrightarrow> mem_shape (s\<lparr>sidx := k\<rparr>)"
  by (simp_all add: mem_shape_def)

lemma shape_hw_take: "mem_shape s \<Longrightarrow> i < HW_MEM_UNIT_NUM \<Longrightarrow> \<not> hw_unit_used s ! i \<Longrightarrow> mem_shape (hw_take i ob s)"
  by (simp add: mem_shape_def hw_take_def used_count_update)

lemma shape_hw_release: "mem_shape s \<Longrightarrow> mem_shape (hw_release i s)"
  by (cases "i < length (hw_unit_used s)") (auto simp: mem_shape_def hw_release_def used_count_update of_bool_def not_less list_update_beyond)

lemma map_sum_InrE:
  assumes "map_sum f g x = Inr y"
  obtains z where "x = Inr z" "y = g z"
  using assms by (cases x) auto

lemma shape_free_device:
  assumes "mem_shape s" "free_device p s = Some (Inr s')"
  shows "mem_shape s'"
proof (cases "udev_heap s p")
  case None
  then show ?thesis using assms by (simp add: free_device_def split: if_splits)
next
  case (Some ob)
  define s1 where "s1 = s\<lparr>udev_heap := (udev_heap s)(p \<mapsto> ob\<lparr>ud_cfd_buff := addr_s (ud_cfd_buff ob)\<rparr>)\<rparr>"
  define s2 where "s2 = (if addr_s (ud_cfd_buff ob) \<noteq> 0 then snd (usbh_free_mem (addr_s (ud_cfd_buff ob)) MAX_DESC_BUFF_SIZE s1) else s1)"
  have s2: "mem_shape s2" using assms(1) shape_free_mem[of s1] by (simp add: s1_def s2_def)
  define u where "u = (if g_udev_list s2 = p then Some (Inr (s2\<lparr>g_udev_list := ud_next ob\<rparr>))
    else map_option (map_sum id (\<lambda>h. s2\<lparr>udev_heap := h\<rparr>)) (unlink_udev p (ud_next ob) (g_udev_list s2) (udev_heap s2)))"
  have u: "mem_shape s3" if u3: "u = Some (Inr s3)" for s3
  proof -
    consider "s3 = s2\<lparr>g_udev_list := ud_next ob\<rparr>" | h where "s3 = s2\<lparr>udev_heap := h\<rparr>"
      using u3 by (auto simp: u_def split: if_splits elim!: map_sum_InrE)
    then show ?thesis using s2 by cases simp_all
  qed
  show ?thesis
  proof (cases "p = 0")
    case False
    then have "map_option (map_sum id (\<lambda>s3. let s4 = snd (usbh_free_mem p sizeof_UDEV_T s3)
        in s4\<lparr>udev_heap := (udev_heap s4)(p := None)\<rparr>)) u = Some (Inr s')"
      using assms(2) Some unfolding free_device_def Let_def u_def s2_def s1_def by simp
    then obtain s3 where "u = Some (Inr s3)"
      "s' = (snd (usbh_free_mem p sizeof_UDEV_T s3))\<lparr>udev_heap := (udev_heap (snd (usbh_free_mem p sizeof_UDEV_T s3)))(p := None)\<rparr>"
      by (auto simp: Let_def elim!: map_sum_InrE)
    then show ?thesis using u shape_free_mem[of s3 sizeof_UDEV_T p] by simp
  qed (use assms in \<open>simp add: free_device_def\<close>)
qed

lemma shape_hw_alloc:
  assumes "mem_shape s" "hw_alloc k s = (p, s')"
  shows "mem_shape s'"
proof -
  obtain e where e: "ehci_search s = Some e" "\<And>i. e = Some i \<Longrightarrow> i < HW_MEM_UNIT_NUM \<and> \<not> hw_unit_used s ! i"
    using ehci_search_spec[of s] assms(1) by (fastforce simp: mem_shape_def split: option.splits)
  show ?thesis
    using assms e hw_first_free_Some[of "hw_unit_used s" 0]
    by (cases k) (auto simp: ohci_alloc_defs ehci_alloc_defs shape_hw_take split: option.splits)
qed

lemma mem_op_shape: "mem_op s s' \<Longrightarrow> mem_shape s \<Longrightarrow> mem_shape s'"
proof (induction rule: mem_op.induct)
  case (op_free_mem sz p s r s')
  then show ?case using shape_free_mem[of s sz p] by simp
next
  case (op_alloc_device s p s')
  then show ?case using shape_alloc_mem[of s sizeof_UDEV_T] by (auto simp: alloc_device_def split: sum.splits if_splits)
next
  case (op_alloc_utr udev s p s')
  then show ?case using shape_alloc_mem[of s sizeof_UTR_T] by (auto simp: alloc_utr_def split: sum.splits if_splits)
next
  case (op_free_utr s p)
  then show ?case using shape_free_mem[of s sizeof_UTR_T p] by (simp add: free_utr_def Let_def)
next
  case (op_alloc_addr s a s')
  then show ?case using dev_addr_loop_range[of "dev_addr_pool s" "next_dev_addr (device_addr s)" a] next_dev_addr_range
    by (auto simp: alloc_dev_address_def mem_shape_def)
next
  case (op_free_addr a s s')
  then show ?case by (auto simp: free_dev_address_def mem_shape_def split: if_splits)
next
  case (op_free_hw s k p)
  then show ?case by (cases k) (auto simp: hw_free_defs shape_hw_release split: option.splits)
qed (auto intro: shape_alloc_mem shape_free_device shape_hw_alloc)

lemma mem_any_shape: "mem_any s \<Longrightarrow> mem_shape s"
proof (induction rule: mem_any.induct)
  case (any_boot s)
  then show ?case by (simp add: mem_shape_def usbh_memory_init_def)
qed (rule mem_op_shape)

lemma mem_reachable_wf: "mem_reachable s \<Longrightarrow> mem_wf s"
  by (induction rule: mem_reachable.induct) (auto intro: init_wf mem_step_wf)

text \<open>A concrete placement of the two pools.\<close>

definition boot_mem :: usb_mem where
  "boot_mem = usbh_memory_init \<lparr>hw_mem_pool = 0x80000000, hw_unit_used = [], hw_objs = (\<lambda>_. HW_raw),
     dma_mem_pool = 0x80100000, dma_unit_used = [], dma_bytes = (\<lambda>_. 0xA5), g_udev_list = 0,
     udev_heap = Map.empty, utr_heap = Map.empty, dev_addr_pool = [], device_addr = 0, sidx = 0,
     hw_mem_used_cnt = 0, dma_mem_used_cnt = 0, ehci_qh_used = 0, ehci_qtd_used = 0,
     ehci_itd_used = 0, ehci_sitd_used = 0, ohci_ed_used = 0, ohci_td_used = 0, utr_used = 0\<rparr>"

lemma boot_mem_wf: "mem_wf boot_mem"
  unfolding boot_mem_def by (rule init_wf) simp_all

lemma boot_mem_sel [simp]:
  "dma_unit_used boot_mem = replicate 128 False" "hw_unit_used boot_mem = replicate 512 False"
  "dev_addr_pool boot_mem = replicate 128 0" "device_addr boot_mem = 1" "sidx boot_mem = 0"
  "dma_mem_used_cnt boot_mem = 0" "g_udev_list boot_mem = 0" "udev_heap boot_mem = Map.empty"
  by (simp_all add: boot_mem_def usbh_memory_init_def)

end
