(* ===== verification/Usb_Mem_Props.thy ===== *)
theory Usb_Mem_Props
  imports Usb_Mem_Facts
begin

text \<open>
  The properties of the USB host memory manager, each a few steps over the lemmas of
  \<open>Usb_Mem_Facts\<close>, with a witness on the state after \<open>usbh_memory_init\<close>.
\<close>

lemma boot_alloc: "usbh_alloc_mem 100 boot_mem = Inr (dma_block boot_mem 0, dma_taken 0 1 boot_mem)"
  by (simp add: usbh_alloc_mem_def units_for_def c_div_def dma_scan.simps dma_taken_def)

section \<open>DMA blocks\<close>

text \<open>
  C1. Soundness of \<open>usbh_alloc_mem\<close>: a pointer it returns is the address of a run of units that
  were all free and in range, large enough for the request; afterwards exactly these units are
  marked used, the usage counter has grown by their number, the block is zeroed and no byte outside
  it is touched.
\<close>

theorem usbh_alloc_mem_sound:
  assumes "mem_wf s" "0 < sz" "usbh_alloc_mem sz s = Inr (p, s')" "p \<noteq> 0"
  shows "\<exists>k n. n = units_for sz DMA_MEM_UNIT_SIZE \<and> sz \<le> n * 1024 \<and> p = dma_block s k \<and>
    free_run (dma_unit_used s) k n \<and> used_run (dma_unit_used s') k n \<and>
    (\<forall>j<128. int j < k \<or> k + n \<le> int j \<longrightarrow> dma_unit_used s' ! j = dma_unit_used s ! j) \<and>
    dma_mem_used_cnt s' = dma_mem_used_cnt s + n \<and>
    (\<forall>b. dma_bytes s' b = (if k * 1024 \<le> b \<and> b < (k + n) * 1024 then 0 else dma_bytes s b)) \<and>
    mem_wf s'"
  using assms(1,2) refl
proof (cases rule: usbh_alloc_mem_cases)
  case (taken k)
  let ?n = "units_for sz DMA_MEM_UNIT_SIZE"
  have eq: "p = dma_block s k" "s' = dma_taken k ?n s" using assms(3) taken(1) by simp_all
  have k: "0 \<le> k" "k + ?n \<le> 128" using taken(2) assms(1) by (auto simp: free_run_def mem_wf_def)
  have len: "length (dma_unit_used s) = 128" using assms(1) by (simp add: mem_wf_def)
  have "used_run (dma_unit_used s') k ?n" using used_run_fill[of k ?n] k len taken(4) by (simp add: eq(2))
  moreover have "\<forall>j<128. int j < k \<or> k + ?n \<le> int j \<longrightarrow> dma_unit_used s' ! j = dma_unit_used s ! j"
    using k taken(4) len by (auto simp: eq(2))
  moreover have "\<forall>b. dma_bytes s' b = (if k * 1024 \<le> b \<and> b < (k + ?n) * 1024 then 0 else dma_bytes s b)"
    by (simp add: eq(2) dma_taken_def algebra_simps)
  moreover have "mem_wf s'" using mem_wf_dma_taken[OF assms(1) taken(2)] taken(4) by (simp add: eq(2))
  ultimately show ?thesis using eq taken(2) units_for_cover[OF assms(2), of DMA_MEM_UNIT_SIZE] by auto
qed (use assms in simp)

theorem usbh_alloc_mem_sound_witness:
  "\<exists>k n. n = units_for 100 DMA_MEM_UNIT_SIZE \<and> 100 \<le> n * 1024 \<and> dma_block boot_mem 0 = dma_block boot_mem k \<and>
    free_run (dma_unit_used boot_mem) k n \<and> used_run (dma_unit_used (dma_taken 0 1 boot_mem)) k n \<and>
    mem_wf (dma_taken 0 1 boot_mem)"
proof -
  have "dma_block boot_mem 0 \<noteq> 0" by (simp add: dma_block_def)
  then show ?thesis using usbh_alloc_mem_sound[OF boot_mem_wf _ boot_alloc] by fastforce
qed

text \<open>
  C2. When \<open>usbh_alloc_mem\<close> fails: for every request of at least one byte it returns without
  reading outside the map of units, and it returns NULL, changing nothing, exactly when no run of
  \<open>n\<close> free units starts at a unit \<open>k\<close> with \<open>k + 2 * n \<le> 129\<close>. (The loop bound
  \<open>DMA_MEM_UNIT_NUM - wanted + 1\<close> applies to the last unit of the run, not to its first.)
\<close>

theorem usbh_alloc_mem_fails_iff:
  assumes "mem_wf s" "0 < sz"
  shows "(usbh_alloc_mem sz s = Inr (0, s)) =
      (\<forall>k. k + 2 * units_for sz DMA_MEM_UNIT_SIZE \<le> 129 \<longrightarrow>
           \<not> free_run (dma_unit_used s) k (units_for sz DMA_MEM_UNIT_SIZE))
    \<and> (\<exists>p s'. usbh_alloc_mem sz s = Inr (p, s'))"
  using assms refl
proof (cases rule: usbh_alloc_mem_cases)
  case (taken k)
  moreover have "dma_block s k \<noteq> 0" by (simp add: dma_block_def)
  ultimately show ?thesis by auto
next
  case full
  moreover have "free_run used k n \<Longrightarrow> 0 \<le> k" for used k n by (simp add: free_run_def)
  ultimately show ?thesis by blast
qed

theorem usbh_alloc_mem_fails_iff_witness:
  "mem_wf boot_mem \<and>
   (usbh_alloc_mem 66000 boot_mem = Inr (0, boot_mem)) =
      (\<forall>k. k + 2 * units_for 66000 DMA_MEM_UNIT_SIZE \<le> 129 \<longrightarrow>
           \<not> free_run (dma_unit_used boot_mem) k (units_for 66000 DMA_MEM_UNIT_SIZE))
   \<and> (\<exists>p s'. usbh_alloc_mem 66000 boot_mem = Inr (p, s'))"
  using usbh_alloc_mem_fails_iff[OF boot_mem_wf, of 66000] boot_mem_wf by simp

text \<open>
  A consequence: the tail of the pool cannot hold a block of several units. With the first
  126 units taken, a request for 2048 bytes fails although units 126 and 127 are free.
\<close>

lemma usbh_alloc_mem_tail_unused:
  assumes "mem_wf s" "\<forall>j<126. dma_unit_used s ! j" "free_run (dma_unit_used s) 126 2"
  shows "usbh_alloc_mem 2048 s = Inr (0, s)"
proof -
  have n: "2 = units_for 2048 DMA_MEM_UNIT_SIZE" by (simp add: units_for_def c_div_def)
  have pos: "(0 :: int) < 2048" by simp
  show ?thesis
    using assms(1) pos n
  proof (cases rule: usbh_alloc_mem_cases)
    case (taken k)
    then have "0 \<le> k" "k < 126" by (auto simp: free_run_def)
    moreover from this have "\<not> dma_unit_used s ! nat k" using free_runD[OF taken(2), of "nat k"] by simp
    ultimately show ?thesis using assms(2) by (auto dest: spec[of _ "nat k"])
  qed
qed

text \<open>
  C3. Release undoes allocation: giving a block back with the size it was requested with succeeds
  and restores the map of used units and the usage counter.
\<close>

theorem usbh_free_mem_restores:
  assumes "mem_wf s" "0 < sz" "usbh_alloc_mem sz s = Inr (p, s')" "p \<noteq> 0"
  shows "\<exists>s''. usbh_free_mem p sz s' = (0, s'') \<and> dma_unit_used s'' = dma_unit_used s \<and>
    dma_mem_used_cnt s'' = dma_mem_used_cnt s \<and> mem_wf s''"
  using assms(1,2) refl
proof (cases rule: usbh_alloc_mem_cases)
  case (taken k)
  let ?n = "units_for sz DMA_MEM_UNIT_SIZE"
  have eq: "p = dma_block s' k" "s' = dma_taken k ?n s" using assms(3) taken(1) by auto
  have wf: "mem_wf s'" using mem_wf_dma_taken[OF assms(1) taken(2)] taken(4) eq(2) by simp
  have len: "length (dma_unit_used s) = 128" using assms(1) by (simp add: mem_wf_def)
  have k: "0 \<le> k" "k + ?n \<le> 128" using taken(2) len by (auto simp: free_run_def)
  have run: "used_run (dma_unit_used s') k ?n" using used_run_fill[of k ?n] k len taken(4) by (simp add: eq(2))
  have "fill (nat k) (nat ?n) False (dma_unit_used s') = dma_unit_used s"
  proof (rule nth_equalityI)
    fix j assume "j < length (fill (nat k) (nat ?n) False (dma_unit_used s'))"
    moreover have "k \<le> int j \<and> int j < k + ?n \<longleftrightarrow> nat k \<le> j \<and> j < nat k + nat ?n"
      using k taken(4) by linarith
    ultimately show "fill (nat k) (nat ?n) False (dma_unit_used s') ! j = dma_unit_used s ! j"
      using free_runD[OF taken(2), of j] by (auto simp: eq(2))
  qed (simp add: eq(2))
  then show ?thesis using usbh_free_mem_run[OF wf run taken(4) refl] eq by simp
qed (use assms in simp)

theorem usbh_free_mem_restores_witness:
  "\<exists>s''. usbh_free_mem (dma_block boot_mem 0) 100 (dma_taken 0 1 boot_mem) = (0, s'') \<and>
     dma_unit_used s'' = dma_unit_used boot_mem"
  using usbh_free_mem_restores[OF boot_mem_wf _ boot_alloc] by (auto simp: dma_block_def)

section \<open>Descriptors of the host controllers\<close>

text \<open>
  C4. Exclusive ownership in the pool that OHCI and EHCI share: for every interleaving of
  allocations and releases of the six kinds of descriptors, no unit is handed out twice, every descriptor
  held is a unit that is marked used and still contains the object of its kind as it was handed out, cleared and with its
  initial fields, and the usage counter equals the number of used units.
\<close>

theorem hw_descriptors_exclusive:
  assumes "mem_wf s" "serve hw_alloc hw_free 0 rs ([], s) = (held, s')"
  shows "distinct (map snd held) \<and>
    (\<forall>(kind, p) \<in> set held. \<exists>i < HW_MEM_UNIT_NUM. p = nc_addr64 (hw_unit_addr s' i) \<and> hw_unit_used s' ! i \<and>
       hw_objs s' i = hw_fresh kind) \<and>
    0 \<notin> snd ` set held \<and> hw_mem_used_cnt s' = used_count (hw_unit_used s')"
proof -
  have "hw_pool.owns [] s" using assms(1) by (simp add: hw_pool.owns_def)
  note own = hw_pool.serve_exclusive[OF this assms(2), unfolded hw_pool.owns_def]
    and cont = hw_pool.serve_contents[OF this _ assms(2)]
  have "\<exists>i < HW_MEM_UNIT_NUM. p = nc_addr64 (hw_unit_addr s' i) \<and> hw_unit_used s' ! i \<and> hw_objs s' i = hw_fresh kind"
    if "(kind, p) \<in> set held" for kind p
  proof -
    have "p \<in> hw_live s'" using own that by force
    then obtain i where "hw_unit_of p s' 0 = Some i" "i < HW_MEM_UNIT_NUM" "hw_unit_used s' ! i" "p = nc_addr64 (hw_unit_addr s' i)"
      using hw_liveE own by blast
    moreover have "hw_content s' p = hw_fresh kind" using cont that by auto
    ultimately show ?thesis by (auto simp: hw_content_def)
  qed
  then show ?thesis using own null_not_hw_live[of s'] by (auto simp: mem_wf_def)
qed

theorem hw_descriptors_exclusive_witness:
  "\<exists>held s'. serve hw_alloc hw_free 0 [Acquire Kind_ED, Acquire (Kind_TD 7)] ([], boot_mem) = (held, s') \<and>
     map fst held = [Kind_TD 7, Kind_ED] \<and> distinct (map snd held) \<and> hw_mem_used_cnt s' = 2"
proof -
  obtain held s' where r: "serve hw_alloc hw_free 0 [Acquire Kind_ED, Acquire (Kind_TD 7)] ([], boot_mem) = (held, s')"
    by (cases "serve hw_alloc hw_free 0 [Acquire Kind_ED, Acquire (Kind_TD 7)] ([], boot_mem)")
  moreover have "map fst held = [Kind_TD 7, Kind_ED]" "hw_mem_used_cnt s' = 2"
    using r by (auto simp: ohci_alloc_defs hw_first_free.simps hw_take_def boot_mem_def usbh_memory_init_def nth_list_update)
  ultimately show ?thesis using hw_descriptors_exclusive[OF boot_mem_wf r] by (intro exI[of _ held] exI[of _ s'] conjI) simp_all
qed

text \<open>
  The EHCI allocators always return, and a queue head allocation returns NULL, with the state
  unchanged, exactly when every unit other than \<open>_sidx\<close> is used: the unit allocated last is never
  tried, free or not. A queue head handed out is linked nowhere and halted.
\<close>

lemma alloc_ehci_QH_returns:
  assumes "mem_wf s"
  shows "\<exists>p s'. alloc_ehci_QH s = Some (p, s') \<and>
    (p = 0 \<longleftrightarrow> (\<forall>j<512. j \<noteq> sidx s \<longrightarrow> hw_unit_used s ! j)) \<and> (p = 0 \<longrightarrow> s' = s) \<and>
    (p \<noteq> 0 \<longrightarrow> sidx s' < 512 \<and> \<not> hw_unit_used s ! sidx s' \<and> hw_unit_used s' ! sidx s' \<and>
       p = nc_addr64 (hw_unit_addr s (sidx s')) \<and>
       hw_objs s' (sidx s') = HW_QH (QH_zero\<lparr>qh_Curr_qTD := 1, qh_OL_Next_qTD := 1,
         qh_OL_Alt_Next_qTD := 1, qh_OL_Token := 0x40\<rparr>))"
proof -
  obtain r where r: "ehci_search s = Some r" and
    spec: "case r of None \<Rightarrow> \<forall>j<HW_MEM_UNIT_NUM. j \<noteq> sidx s \<longrightarrow> hw_unit_used s ! j
      | Some k \<Rightarrow> k < HW_MEM_UNIT_NUM \<and> k \<noteq> sidx s \<and> \<not> hw_unit_used s ! k"
    using ehci_search_spec[of s] assms by (auto simp: mem_wf_def)
  show ?thesis
  proof (cases r)
    case None
    then show ?thesis using r spec by (simp add: alloc_ehci_QH_def)
  next
    case (Some k)
    then show ?thesis using r spec assms by (auto simp: alloc_ehci_QH_def mem_wf_def)
  qed
qed

section \<open>Device addresses and devices\<close>

text \<open>
  \<open>alloc_dev_address\<close> returns whenever one of the addresses 1..127 is free, with an address
  in that range that was free and is now taken, and leaves every other address as it was.
\<close>

lemma alloc_dev_address_returns:
  assumes "mem_wf s" "1 \<le> b" "b < 128" "dev_addr_pool s ! b = 0"
  shows "\<exists>a s'. alloc_dev_address s = Some (a, s') \<and> 1 \<le> a \<and> a < 128 \<and> dev_addr_pool s ! a = 0 \<and>
    dev_addr_pool s' ! a = 1 \<and> (\<forall>c. c \<noteq> a \<longrightarrow> dev_addr_pool s' ! c = dev_addr_pool s ! c) \<and> mem_wf s'"
proof -
  obtain a where a: "dev_addr_loop (dev_addr_pool s) (next_dev_addr (device_addr s)) = Some a"
    using dev_addr_loop_returns[OF _ _ assms(2-4)] next_dev_addr_range by blast
  then have eq: "alloc_dev_address s =
      Some (a, s\<lparr>device_addr := a, dev_addr_pool := (dev_addr_pool s)[a := 1]\<rparr>)"
    by (simp add: alloc_dev_address_def)
  show ?thesis using alloc_dev_address_wf[OF assms(1) eq] assms(1) eq by (auto simp: mem_wf_def)
qed

text \<open>
  \<open>alloc_device\<close> puts a zeroed device with \<open>cur_conf = -1\<close> in front of the chain. The chain
  stays free of repetitions as long as its devices are allocated blocks.
\<close>

lemma alloc_device_chain:
  assumes "mem_wf s" "alloc_device s = Inr (p, s')" "p \<noteq> 0"
    "udev_chain (udev_heap s) (g_udev_list s) ps" "distinct ps" "set ps \<subseteq> dma_live s"
  shows "udev_chain (udev_heap s') (g_udev_list s') (p # ps) \<and> distinct (p # ps) \<and>
    set (p # ps) \<subseteq> dma_live s' \<and> mem_wf s' \<and>
    udev_heap s' p = Some (UDEV_zero\<lparr>ud_cur_conf := - 1, ud_next := g_udev_list s\<rparr>)"
proof -
  have pos: "0 < sizeof_UDEV_T" by simp
  show ?thesis
    using assms(1) pos refl
  proof (cases rule: usbh_alloc_mem_cases)
    case (taken k)
    note one = taken[unfolded units_for_struct]
    let ?ob = "UDEV_zero\<lparr>ud_cur_conf := - 1, ud_next := g_udev_list s\<rparr>"
    have eq: "p = dma_block s k"
      "s' = (dma_taken k 1 s)\<lparr>udev_heap := (udev_heap s)(p \<mapsto> ?ob), g_udev_list := p\<rparr>"
      using assms(2) one(1) by (auto simp: alloc_device_def dma_block_def)
    have live: "p \<notin> dma_live s" "dma_live s' = insert p (dma_live s)"
      using dma_live_take[OF assms(1) one(2), of s'] by (simp_all add: eq)
    then have "p \<notin> set ps" using assms(6) by auto
    then show ?thesis
      using live assms(3-6) alloc_device_wf[OF assms(1,2)] by (auto simp: eq(2))
  qed (use assms in \<open>simp add: alloc_device_def\<close>)
qed

lemma boot_alloc_device:
  "alloc_device boot_mem = Inr (dma_block boot_mem 0, (dma_taken 0 1 boot_mem)
     \<lparr>udev_heap := [dma_block boot_mem 0 \<mapsto> UDEV_zero\<lparr>ud_cur_conf := - 1, ud_next := 0\<rparr>],
      g_udev_list := dma_block boot_mem 0\<rparr>)"
  by (simp add: alloc_device_def usbh_alloc_mem_def units_for_def c_div_def dma_scan.simps dma_taken_def
      dma_block_def)

text \<open>
  C5. The invariant of the manager. After \<open>usbh_memory_init\<close> and any sequence of operations with arbitrary addresses
  and objects and sizes that are not negative, the arrays have their lengths, the cursors are in range and the two
  usage counters are at most the number of used units: giving back what is not in use makes them too small. When clients give
  back only what they hold the counters are exact. \<open>usbh_memory_used\<close> reports units of 1024 bytes, not the bytes that its comment
  promises, and never more than 128.
\<close>

theorem mem_reachable_invariant:
  "(mem_any s \<longrightarrow> mem_shape s \<and> usbh_memory_used s \<le> used_count (dma_unit_used s) \<and> usbh_memory_used s \<le> 128 \<and>
      hw_mem_used_cnt s \<le> used_count (hw_unit_used s)) \<and>
   (mem_reachable s \<longrightarrow> mem_wf s \<and> usbh_memory_used s = used_count (dma_unit_used s) \<and>
      0 \<le> usbh_memory_used s \<and> usbh_memory_used s \<le> 128 \<and> hw_mem_used_cnt s = used_count (hw_unit_used s))"
proof (intro conjI impI)
  assume "mem_any s"
  then show "mem_shape s" by (rule mem_any_shape)
  then show "usbh_memory_used s \<le> used_count (dma_unit_used s)" "usbh_memory_used s \<le> 128"
    "hw_mem_used_cnt s \<le> used_count (hw_unit_used s)"
    using used_count_le[of "dma_unit_used s"] by (auto simp: mem_shape_def usbh_memory_used_def)
next
  assume "mem_reachable s"
  then show "mem_wf s" by (rule mem_reachable_wf)
  then show "usbh_memory_used s = used_count (dma_unit_used s)" "0 \<le> usbh_memory_used s" "usbh_memory_used s \<le> 128"
    "hw_mem_used_cnt s = used_count (hw_unit_used s)"
    using used_count_le[of "dma_unit_used s"] by (auto simp: mem_wf_def usbh_memory_used_def)
qed

text \<open>A block that is given back twice: the counter is \<open>-1\<close>. One that is allocated: it is 1.\<close>

theorem mem_reachable_invariant_witness:
  "\<exists>s. mem_any s \<and> usbh_memory_used s = - 1 \<and> mem_shape s \<and>
     mem_reachable (dma_taken 0 1 boot_mem) \<and> usbh_memory_used (dma_taken 0 1 boot_mem) = used_count (dma_unit_used (dma_taken 0 1 boot_mem))"
proof -
  let ?s = "snd (usbh_free_mem (dma_block boot_mem 0) 100 boot_mem)"
  have "mem_any boot_mem" unfolding boot_mem_def by (rule mem_any.any_boot)
  then have any: "mem_any ?s" by (rule mem_any.any_more) (rule mem_op.op_free_mem[OF _ prod.collapse[symmetric]], simp)
  have "units_for 100 DMA_MEM_UNIT_SIZE = 1" by (simp add: units_for_def c_div_def)
  then have cnt: "usbh_memory_used ?s = - 1"
    using usbh_free_mem_block[OF boot_mem_wf, of 0 1 100] by (simp add: usbh_memory_used_def)
  have "mem_reachable boot_mem" unfolding boot_mem_def by (rule mem_reachable.boot) simp_all
  then have "mem_reachable (dma_taken 0 1 boot_mem)"
    using mem_step.step_alloc_mem[OF _ boot_alloc] by (auto intro: mem_reachable.more)
  then show ?thesis
    using any cnt mem_reachable_invariant[of ?s] mem_reachable_invariant[of "dma_taken 0 1 boot_mem"] by blast
qed

end
