(* ===== verification/Usb_Desc.thy ===== *)
theory Usb_Desc
  imports Usb_Mem
begin

text \<open>
  The configuration descriptor parser of the USB host core, \<^verbatim>\<open>UsbHostLib/src_core/usb_core.c\<close>:
  \<open>usbh_parse_endpoint\<close> and the loops of \<open>usbh_parse_interface\<close> and
  \<open>usbh_parse_configuration\<close> that walk over the bytes a device sent.

  The bytes are those of the buffer \<open>udev->cfd_buff\<close> of \<open>MAX_DESC_BUFF_SIZE\<close> bytes; the
  pointers \<open>desc_buff\<close>, \<open>if_desc\<close>, \<open>ep_desc\<close> and \<open>hdr\<close> into it are offsets, and
  a null or uninitialised pointer is \<open>None\<close>. A read outside of the buffer, a store outside of
  \<open>iface->alt\<close> or \<open>alt->ep\<close> and the use of an uninitialised pointer are faults.
  Interface numbers and counters are small, so they are integers; descriptor bytes keep their width.
\<close>

section \<open>Constants and data\<close>

abbreviation USB_DT_CONFIGURATION :: u8 where "USB_DT_CONFIGURATION \<equiv> 2"
abbreviation USB_DT_INTERFACE :: u8 where "USB_DT_INTERFACE \<equiv> 4"
abbreviation USB_DT_ENDPOINT :: u8 where "USB_DT_ENDPOINT \<equiv> 5"
abbreviation MAX_ALT_PER_IFACE :: nat where "MAX_ALT_PER_IFACE \<equiv> 8"
abbreviation MAX_EP_PER_IFACE :: nat where "MAX_EP_PER_IFACE \<equiv> 6"
abbreviation USBH_ERR_MEMORY_OUT :: int where "USBH_ERR_MEMORY_OUT \<equiv> - 10"
abbreviation USBH_ERR_IF_ALT_LIMIT :: int where "USBH_ERR_IF_ALT_LIMIT \<equiv> - 11"
abbreviation USBH_ERR_IF_EP_LIMIT :: int where "USBH_ERR_IF_EP_LIMIT \<equiv> - 15"
abbreviation USBH_ERR_DESCRIPTOR :: int where "USBH_ERR_DESCRIPTOR \<equiv> - 137"

datatype core_fault = Mem_Fault mem_fault | Outside_Buffer | Uninit_Pointer | Null_Pointer | Uninit_Value | Bad_Shift

record ALT_IFACE_T =
  alt_ifd :: "int option"
  alt_ep :: "EP_INFO_T list"

definition EP_zero :: EP_INFO_T where
  "EP_zero = \<lparr>ep_bEndpointAddress = 0, ep_bmAttributes = 0, ep_bInterval = 0, ep_bToggle = 0,
     ep_wMaxPacketSize = 0, ep_hw_pipe = 0\<rparr>"

definition ALT_zero :: ALT_IFACE_T where
  "ALT_zero = \<lparr>alt_ifd = None, alt_ep = replicate MAX_EP_PER_IFACE EP_zero\<rparr>"

section \<open>Reading descriptors\<close>

type_synonym cfd = "int \<Rightarrow> u8"

definition rd8 :: "cfd \<Rightarrow> int \<Rightarrow> core_fault + u8" where
  "rd8 b i = (if 0 \<le> i \<and> i < MAX_DESC_BUFF_SIZE then Inr (b i) else Inl Outside_Buffer)"

text \<open>The packed \<open>uint16_t\<close> members, little endian.\<close>

definition rd16 :: "cfd \<Rightarrow> int \<Rightarrow> core_fault + u16" where
  "rd16 b i = sbind (rd8 b i) (\<lambda>lo. sbind (rd8 b (i + 1)) (\<lambda>hi.
     Inr (ucast lo OR push_bit 8 (ucast hi))))"

section \<open>Endpoints\<close>

text \<open>
  The search loop of \<open>usbh_parse_endpoint\<close>: an error code, or \<open>parsed_len\<close> and
  \<open>ep_desc\<close> on leaving the loop.
\<close>

function ep_find :: "cfd \<Rightarrow> int \<Rightarrow> int \<Rightarrow> int \<Rightarrow> int option \<Rightarrow> core_fault + (int + int \<times> int option)" where
  "ep_find b off len parsed ep_desc =
     (if 0 < len then
        sbind (rd8 b off) (\<lambda>bLength.
        if len < uint bLength \<or> uint bLength < 2 then Inr (Inl USBH_ERR_DESCRIPTOR)
        else sbind (rd8 b (off + 1)) (\<lambda>bDescriptorType.
        if bDescriptorType = USB_DT_ENDPOINT then Inr (Inr (parsed, Some off))
        else ep_find b (off + uint bLength) (len - uint bLength) (parsed + uint bLength) (Some off)))
      else Inr (Inr (parsed, ep_desc)))"
  by pat_completeness auto
termination by (relation "measure (\<lambda>(b, off, len, parsed, d). nat len)") auto

declare ep_find.simps [simp del]

text \<open>
  \<open>pksz = (pksz & 0x07ff) * (1 + ((pksz >> 11) & 3))\<close>: the product is at most \<open>8188\<close>, so it
  is computed in 16 bits.
\<close>

definition ep_packet_size :: "u16 \<Rightarrow> u16" where
  "ep_packet_size pksz = (pksz AND 0x07ff) * (1 + (drop_bit 11 pksz AND 3))"

text \<open>The result is the value returned and the alternative interface.\<close>

definition usbh_parse_endpoint ::
  "cfd \<Rightarrow> ALT_IFACE_T \<Rightarrow> nat \<Rightarrow> int \<Rightarrow> int \<Rightarrow> core_fault + int \<times> ALT_IFACE_T" where
  "usbh_parse_endpoint b alt ep_idx off len =
     sbind (ep_find b off len 0 None) (\<lambda>r. case r of
       Inl err \<Rightarrow> Inr (err, alt)
     | Inr (parsed_len, None) \<Rightarrow> Inl Uninit_Pointer
     | Inr (parsed_len, Some ep_desc) \<Rightarrow>
         sbind (rd8 b (ep_desc + 2)) (\<lambda>bEndpointAddress.
         sbind (rd8 b (ep_desc + 3)) (\<lambda>bmAttributes.
         sbind (rd8 b (ep_desc + 6)) (\<lambda>bInterval.
         sbind (rd16 b (ep_desc + 4)) (\<lambda>pksz.
         sbind (rd8 b ep_desc) (\<lambda>bLength.
         if length (alt_ep alt) \<le> ep_idx then Inl (Mem_Fault Index_Out_Of_Range)
         else Inr (parsed_len + uint bLength,
                alt\<lparr>alt_ep := (alt_ep alt)[ep_idx := (alt_ep alt ! ep_idx)\<lparr>
                  ep_bEndpointAddress := bEndpointAddress, ep_bmAttributes := bmAttributes,
                  ep_bInterval := bInterval, ep_wMaxPacketSize := ep_packet_size pksz,
                  ep_hw_pipe := 0\<rparr>]\<rparr>)))))))"

section \<open>Interfaces\<close>

text \<open>The local variables of \<open>usbh_parse_interface\<close> and the members of \<open>iface\<close> it fills.\<close>

record if_state =
  is_off :: int
  is_len :: int
  is_parsed :: int
  is_hdr :: "int option"
  is_alt :: "ALT_IFACE_T list"
  is_num_alt :: nat

definition step_over :: "int \<Rightarrow> if_state \<Rightarrow> if_state" where
  "step_over n st = st\<lparr>is_off := is_off st + n, is_len := is_len st - n, is_parsed := is_parsed st + n\<rparr>"

text \<open>How the parsing of an interface goes on: the labels \<open>err_out\<close> and \<open>parse_done\<close>, or the next round.\<close>

datatype if_next = Err_Out int | Parse_Done if_state | Next_Round if_state

text \<open>The loop over the descriptors that follow an interface descriptor.\<close>

function skip_unknown :: "cfd \<Rightarrow> if_state \<Rightarrow> core_fault + if_next" where
  "skip_unknown b st =
     (if 0 < is_len st then
        sbind (rd8 b (is_off st)) (\<lambda>bLength.
        if is_len st < uint bLength \<or> uint bLength < 2 then Inr (Err_Out USBH_ERR_DESCRIPTOR)
        else sbind (rd8 b (is_off st + 1)) (\<lambda>bDescriptorType.
        let st' = st\<lparr>is_hdr := Some (is_off st)\<rparr> in
        if bDescriptorType = USB_DT_CONFIGURATION then Inr (Parse_Done st')
        else if bDescriptorType = USB_DT_INTERFACE \<or> bDescriptorType = USB_DT_ENDPOINT
        then Inr (Next_Round st')
        else skip_unknown b (step_over (uint bLength) st')))
      else Inr (Next_Round st))"
  by pat_completeness auto
termination by (relation "measure (\<lambda>(b, st). nat (is_len st))") (auto simp: step_over_def)

declare skip_unknown.simps [simp del]

text \<open>The loop over the endpoints of the alternative interface added last: \<open>n\<close> endpoints from \<open>i\<close> on.\<close>

fun parse_endpoints :: "cfd \<Rightarrow> nat \<Rightarrow> nat \<Rightarrow> if_state \<Rightarrow> core_fault + if_next" where
  "parse_endpoints b 0 i st = Inr (Next_Round st)"
| "parse_endpoints b (Suc n) i st =
     sbind (usbh_parse_endpoint b (is_alt st ! (is_num_alt st - 1)) i (is_off st) (is_len st)) (\<lambda>(ret, alt).
       let st' = st\<lparr>is_alt := (is_alt st)[is_num_alt st - 1 := alt]\<rparr> in
       if ret < 0 then Inr (Err_Out ret)
       else parse_endpoints b n (Suc i) (step_over ret st'))"

text \<open>
  The end of a round of the outer loop: the interface descriptor at \<open>if_desc\<close> becomes an
  alternative interface, and its endpoints are parsed. The variable \<open>hdr\<close> keeps its value from one
  round to the next.
\<close>

definition add_alt :: "cfd \<Rightarrow> int \<Rightarrow> u8 \<Rightarrow> if_state \<Rightarrow> core_fault + if_next" where
  "add_alt b if_desc bNumEndpoints st =
     (if length (is_alt st) \<le> is_num_alt st then Inl (Mem_Fault Index_Out_Of_Range)
      else let st' = st\<lparr>is_alt := (is_alt st)[is_num_alt st :=
                            (is_alt st ! is_num_alt st)\<lparr>alt_ifd := Some if_desc\<rparr>],
                        is_num_alt := is_num_alt st + 1\<rparr> in
      if is_len st' = 0 then Inr (Parse_Done st')
      else case is_hdr st' of
        None \<Rightarrow> Inl Uninit_Pointer
      | Some hdr \<Rightarrow> sbind (rd8 b (hdr + 1)) (\<lambda>hdrType.
          if hdrType = USB_DT_INTERFACE then Inr (Next_Round st')
          else parse_endpoints b (unat bNumEndpoints) 0 st'))"

text \<open>One round of the outer loop of \<open>usbh_parse_interface\<close> for the interface number \<open>if_num\<close>.\<close>

definition alt_round :: "cfd \<Rightarrow> u8 \<Rightarrow> if_state \<Rightarrow> core_fault + if_next" where
  "alt_round b if_num st =
     (let if_desc = is_off st in
      sbind (rd8 b (if_desc + 1)) (\<lambda>bDescriptorType.
      sbind (rd8 b if_desc) (\<lambda>bLength.
      if bDescriptorType \<noteq> USB_DT_INTERFACE then Inr (Next_Round (step_over (uint bLength) st))
      else sbind (rd8 b (if_desc + 2)) (\<lambda>bInterfaceNumber.
      if bInterfaceNumber \<noteq> if_num then Inr (Parse_Done st)
      else sbind (rd8 b (if_desc + 4)) (\<lambda>bNumEndpoints.
      if int MAX_EP_PER_IFACE < uint bNumEndpoints then Inr (Err_Out USBH_ERR_IF_EP_LIMIT)
      else if MAX_ALT_PER_IFACE \<le> is_num_alt st then Inr (Err_Out USBH_ERR_IF_ALT_LIMIT)
      else sbind (skip_unknown b (step_over (uint bLength) st)) (\<lambda>r. case r of
        Err_Out err \<Rightarrow> Inr (Err_Out err)
      | Parse_Done st1 \<Rightarrow> Inr (Parse_Done st1)
      | Next_Round st1 \<Rightarrow> add_alt b if_desc bNumEndpoints st1))))))"

text \<open>
  The outer loop. It does not return when a descriptor of length \<open>0\<close> that is no interface descriptor
  is met: \<open>None\<close>. Otherwise the error code of \<open>err_out\<close>, or the variables at \<open>parse_done\<close>.
\<close>

partial_function (option) parse_alts :: "cfd \<Rightarrow> u8 \<Rightarrow> if_state \<Rightarrow> (core_fault + int + if_state) option" where
  "parse_alts b if_num st =
     (if 0 < is_len st then
        case alt_round b if_num st of
          Inl e \<Rightarrow> Some (Inl e)
        | Inr r \<Rightarrow> (case r of
            Err_Out err \<Rightarrow> Some (Inr (Inl err))
          | Parse_Done st' \<Rightarrow> Some (Inr (Inr st'))
          | Next_Round st' \<Rightarrow> parse_alts b if_num st')
      else Some (Inr (Inr st)))"

text \<open>
  What \<open>usbh_parse_interface\<close> does between the allocation of the zeroed \<open>iface\<close> and its two
  labels, with the interface number it stored.
\<close>

definition scan_interface :: "cfd \<Rightarrow> int \<Rightarrow> int \<Rightarrow> (core_fault + u8 \<times> (int + if_state)) option" where
  "scan_interface b off len =
     (case rd8 b (off + 2) of
        Inl e \<Rightarrow> Some (Inl e)
      | Inr if_num \<Rightarrow> map_option (map_sum id (Pair if_num)) (parse_alts b if_num
          \<lparr>is_off = off, is_len = len, is_parsed = 0, is_hdr = None,
           is_alt = replicate MAX_ALT_PER_IFACE ALT_zero, is_num_alt = 0\<rparr>))"

section \<open>Configurations\<close>

text \<open>
  The loop of \<open>usbh_parse_configuration\<close> that looks for the next interface descriptor. Its condition
  \<open>len >= sizeof(DESC_HDR_T)\<close> compares unsigned numbers, so that a negative \<open>len\<close> enters the loop.
\<close>

function cfg_find :: "cfd \<Rightarrow> int \<Rightarrow> int \<Rightarrow> core_fault + (int + int \<times> int)" where
  "cfg_find b off len =
     (if len < 0 \<or> 2 \<le> len then
        sbind (rd8 b off) (\<lambda>bLength.
        if len < uint bLength \<or> uint bLength < 2 then Inr (Inl USBH_ERR_DESCRIPTOR)
        else sbind (rd8 b (off + 1)) (\<lambda>bDescriptorType.
        if bDescriptorType = USB_DT_INTERFACE then Inr (Inr (off, len))
        else cfg_find b (off + uint bLength) (len - uint bLength)))
      else Inr (Inr (off, len)))"
  by pat_completeness auto
termination by (relation "measure (\<lambda>(b, off, len). nat len)") auto

declare cfg_find.simps [simp del]

end
