(* ===== verification/Usb_Core.thy ===== *)
theory Usb_Core
  imports Usb_Desc
begin

text \<open>
  The USB host core, \<^verbatim>\<open>UsbHostLib/src_core/usb_core.c\<close>: driver registration, control transfers,
  the standard requests, enumeration of a device and its removal, on top of the memory manager and
  the descriptor parser.

  The code calls out through function pointers: the host controller driver of a device
  (\<open>HC_DRV_T\<close>), the port reset of a hub, the \<open>probe\<close> and \<open>disconnect\<close> functions
  of the class drivers, and the callbacks of the application. They are fields of the record \<open>usb_env\<close>,
  functions of the pointer they are reached by, and may change the whole state; so are time
  and the interrupts that run while the core polls. The part of the state only they know is
  \<open>uc_world\<close>.

  Operations are state transformers that return, fault, or do not return (\<open>None\<close>). Debug
  output is left out; so are the power management functions \<open>usbh_suspend\<close> and
  \<open>usbh_resume\<close>, which only write controller registers.
\<close>

section \<open>State and environment\<close>

abbreviation USBH_ERR_NOT_MATCHED :: int where "USBH_ERR_NOT_MATCHED \<equiv> - 103"
abbreviation USBH_ERR_NOT_FOUND :: int where "USBH_ERR_NOT_FOUND \<equiv> - 106"
abbreviation USBH_ERR_SET_DEV_ADDR :: int where "USBH_ERR_SET_DEV_ADDR \<equiv> - 139"
abbreviation USBH_ERR_SET_CONFIG :: int where "USBH_ERR_SET_CONFIG \<equiv> - 151"
abbreviation USBH_ERR_TIMEOUT :: int where "USBH_ERR_TIMEOUT \<equiv> - 203"
abbreviation USBH_ERR_DATA_OVERRUN :: int where "USBH_ERR_DATA_OVERRUN \<equiv> - 288"
abbreviation MAX_UDEV_DRIVER :: nat where "MAX_UDEV_DRIVER \<equiv> 8"
abbreviation REQ_TYPE_IN :: u8 where "REQ_TYPE_IN \<equiv> 0x80"
abbreviation REQ_TYPE_OUT :: u8 where "REQ_TYPE_OUT \<equiv> 0"
abbreviation REQ_TYPE_CLASS_DEV :: u8 where "REQ_TYPE_CLASS_DEV \<equiv> 0x20"
abbreviation REQ_TYPE_TO_IFACE :: u8 where "REQ_TYPE_TO_IFACE \<equiv> 1"
abbreviation REQ_TYPE_TO_EP :: u8 where "REQ_TYPE_TO_EP \<equiv> 2"
abbreviation USB_REQ_CLEAR_FEATURE :: u8 where "USB_REQ_CLEAR_FEATURE \<equiv> 1"
abbreviation USB_REQ_SET_FEATURE :: u8 where "USB_REQ_SET_FEATURE \<equiv> 3"
abbreviation USB_REQ_SET_ADDRESS :: u8 where "USB_REQ_SET_ADDRESS \<equiv> 5"
abbreviation USB_REQ_GET_DESCRIPTOR :: u8 where "USB_REQ_GET_DESCRIPTOR \<equiv> 6"
abbreviation USB_REQ_SET_CONFIGURATION :: u8 where "USB_REQ_SET_CONFIGURATION \<equiv> 9"
abbreviation USB_REQ_SET_INTERFACE :: u8 where "USB_REQ_SET_INTERFACE \<equiv> 11"

text \<open>
  \<open>aif\<close> is the index of the active setting in \<open>alt\<close>. On LP64 an \<open>ALT_IFACE_T\<close> has 104
  bytes and an \<open>IFACE_T\<close> 880; \<open>ep0\<close> is at offset 48 of a \<open>UDEV_T\<close>, the descriptor at 0.
\<close>

abbreviation sizeof_IFACE_T :: int where "sizeof_IFACE_T \<equiv> 880"

record IFACE_T =
  if_udev :: u64
  if_if_num :: u8
  if_num_alt :: nat
  if_aif :: nat
  if_alt :: "ALT_IFACE_T list"
  if_driver :: u64
  if_context :: u64
  if_next :: u64

text \<open>The address of an endpoint of a setting.\<close>

definition aif_ep_addr :: "u64 \<Rightarrow> nat \<Rightarrow> nat \<Rightarrow> u64" where
  "aif_ep_addr iface aif i = iface + 24 + 104 * word_of_nat aif + 8 + 16 * word_of_nat i"

record 'w ucore =
  uc_mem :: usb_mem
  uc_ifaces :: "u64 \<rightharpoonup> IFACE_T"
  uc_drivers :: "u64 list"
  uc_conn_func :: u64
  uc_disconn_func :: u64
  uc_world :: 'w

record 'w usb_env =
  ue_ctrl_xfer :: "u64 \<Rightarrow> u64 \<Rightarrow> 'w ucore \<Rightarrow> int \<times> 'w ucore"
  ue_bulk_xfer :: "u64 \<Rightarrow> u64 \<Rightarrow> 'w ucore \<Rightarrow> int \<times> 'w ucore"
  ue_int_xfer :: "u64 \<Rightarrow> u64 \<Rightarrow> 'w ucore \<Rightarrow> int \<times> 'w ucore"
  ue_iso_xfer :: "u64 \<Rightarrow> (u64 \<Rightarrow> 'w ucore \<Rightarrow> int \<times> 'w ucore) option"
  ue_quit_xfer :: "u64 \<Rightarrow> u64 \<Rightarrow> u64 \<Rightarrow> 'w ucore \<Rightarrow> int \<times> 'w ucore"
  ue_rthub_port_reset :: "u64 \<Rightarrow> int \<Rightarrow> 'w ucore \<Rightarrow> int \<times> 'w ucore"
  ue_hub_port_reset :: "u64 \<Rightarrow> int \<Rightarrow> 'w ucore \<Rightarrow> int \<times> 'w ucore"
  ue_probe :: "u64 \<Rightarrow> u64 \<Rightarrow> 'w ucore \<Rightarrow> int \<times> 'w ucore"
  ue_disconnect :: "u64 \<Rightarrow> u64 \<Rightarrow> 'w ucore \<Rightarrow> 'w ucore"
  ue_callback :: "u64 \<Rightarrow> u64 \<Rightarrow> int \<Rightarrow> 'w ucore \<Rightarrow> 'w ucore"
  ue_hub_driver :: u64
  ue_hub_init :: "'w ucore \<Rightarrow> 'w ucore"
  ue_hc_init :: "'w ucore \<Rightarrow> 'w ucore"
  ue_pooling_hubs :: "'w ucore \<Rightarrow> 'w ucore"
  ue_poll :: "'w ucore \<Rightarrow> 'w ucore"
  ue_delay_us :: "int \<Rightarrow> 'w ucore \<Rightarrow> 'w ucore"
  ue_ticks :: "'w ucore \<Rightarrow> u32"

section \<open>State transformers\<close>

type_synonym ('w, 'a) comp = "'w ucore \<Rightarrow> (core_fault + 'a \<times> 'w ucore) option"

definition retC :: "'a \<Rightarrow> ('w, 'a) comp" where
  "retC a s = Some (Inr (a, s))"

definition failC :: "core_fault \<Rightarrow> ('w, 'a) comp" where
  "failC e s = Some (Inl e)"

definition bindC :: "('w, 'a) comp \<Rightarrow> ('a \<Rightarrow> ('w, 'b) comp) \<Rightarrow> ('w, 'b) comp" where
  "bindC m f s = (case m s of
     None \<Rightarrow> None
   | Some (Inl e) \<Rightarrow> Some (Inl e)
   | Some (Inr (a, s')) \<Rightarrow> f a s')"

definition thenC :: "('w, 'a) comp \<Rightarrow> ('w, 'b) comp \<Rightarrow> ('w, 'b) comp" where
  "thenC m k = bindC m (\<lambda>_. k)"

definition getC :: "('w ucore \<Rightarrow> 'a) \<Rightarrow> ('w, 'a) comp" where
  "getC f s = Some (Inr (f s, s))"

text \<open>A call that returns a value, and one that does not.\<close>

definition callC :: "('w ucore \<Rightarrow> 'a \<times> 'w ucore) \<Rightarrow> ('w, 'a) comp" where
  "callC f s = Some (Inr (f s))"

definition execC :: "('w ucore \<Rightarrow> 'w ucore) \<Rightarrow> ('w, unit) comp" where
  "execC f s = Some (Inr ((), f s))"

text \<open>A read of the configuration descriptor.\<close>

definition sumC :: "core_fault + 'a \<Rightarrow> ('w, 'a) comp" where
  "sumC r s = Some (case r of Inl e \<Rightarrow> Inl e | Inr a \<Rightarrow> Inr (a, s))"

text \<open>The operations of the memory manager.\<close>

definition memC :: "(usb_mem \<Rightarrow> mem_fault + 'a \<times> usb_mem) \<Rightarrow> ('w, 'a) comp" where
  "memC f s = (case f (uc_mem s) of
     Inl e \<Rightarrow> Some (Inl (Mem_Fault e))
   | Inr (a, m) \<Rightarrow> Some (Inr (a, s\<lparr>uc_mem := m\<rparr>)))"

definition mem_optC :: "(usb_mem \<Rightarrow> (mem_fault + usb_mem) option) \<Rightarrow> ('w, unit) comp" where
  "mem_optC f s = (case f (uc_mem s) of
     None \<Rightarrow> None
   | Some (Inl e) \<Rightarrow> Some (Inl (Mem_Fault e))
   | Some (Inr m) \<Rightarrow> Some (Inr ((), s\<lparr>uc_mem := m\<rparr>)))"

definition mem_doC :: "(usb_mem \<Rightarrow> usb_mem) \<Rightarrow> ('w, unit) comp" where
  "mem_doC f s = Some (Inr ((), s\<lparr>uc_mem := f (uc_mem s)\<rparr>))"

text \<open>Members of the objects behind pointers.\<close>

definition get_udev :: "u64 \<Rightarrow> ('w, UDEV_T) comp" where
  "get_udev p s = (case udev_heap (uc_mem s) p of
     None \<Rightarrow> Some (Inl (Mem_Fault Dangling_Pointer))
   | Some d \<Rightarrow> Some (Inr (d, s)))"

definition upd_udev :: "u64 \<Rightarrow> (UDEV_T \<Rightarrow> UDEV_T) \<Rightarrow> ('w, unit) comp" where
  "upd_udev p f = bindC (get_udev p) (\<lambda>d. mem_doC (\<lambda>m. m\<lparr>udev_heap := (udev_heap m)(p \<mapsto> f d)\<rparr>))"

definition get_utr :: "u64 \<Rightarrow> ('w, UTR_T) comp" where
  "get_utr p s = (case utr_heap (uc_mem s) p of
     None \<Rightarrow> Some (Inl (Mem_Fault Dangling_Pointer))
   | Some u \<Rightarrow> Some (Inr (u, s)))"

definition upd_utr :: "u64 \<Rightarrow> (UTR_T \<Rightarrow> UTR_T) \<Rightarrow> ('w, unit) comp" where
  "upd_utr p f = bindC (get_utr p) (\<lambda>u. mem_doC (\<lambda>m. m\<lparr>utr_heap := (utr_heap m)(p \<mapsto> f u)\<rparr>))"

definition get_iface :: "u64 \<Rightarrow> ('w, IFACE_T) comp" where
  "get_iface p s = (case uc_ifaces s p of
     None \<Rightarrow> Some (Inl (Mem_Fault Dangling_Pointer))
   | Some f \<Rightarrow> Some (Inr (f, s)))"

definition put_iface :: "u64 \<Rightarrow> IFACE_T \<Rightarrow> ('w, unit) comp" where
  "put_iface p f = execC (\<lambda>s. s\<lparr>uc_ifaces := (uc_ifaces s)(p \<mapsto> f)\<rparr>)"

definition free_iface :: "u64 \<Rightarrow> ('w, unit) comp" where
  "free_iface p = thenC (mem_doC (\<lambda>m. snd (usbh_free_mem p sizeof_IFACE_T m)))
     (execC (\<lambda>s. s\<lparr>uc_ifaces := (uc_ifaces s)(p := None)\<rparr>))"

text \<open>The host controller driver of a device; a null pointer is not called.\<close>

definition hc_of :: "u64 \<Rightarrow> ('w, u64) comp" where
  "hc_of udev = bindC (get_udev udev) (\<lambda>d.
     if ud_hc_driver d = 0 then failC Null_Pointer else retC (ud_hc_driver d))"

text \<open>The bytes of the buffer at \<open>buf\<close>.\<close>

definition cfd_view :: "usb_mem \<Rightarrow> u64 \<Rightarrow> cfd" where
  "cfd_view m buf i = dma_bytes m (uint (addr_s buf - addr_s (dma_mem_pool m)) + i)"

definition cfd_rd8 :: "u64 \<Rightarrow> int \<Rightarrow> ('w, u8) comp" where
  "cfd_rd8 buf i = bindC (getC (\<lambda>s. cfd_view (uc_mem s) buf)) (\<lambda>b. sumC (rd8 b i))"

definition cfd_rd16 :: "u64 \<Rightarrow> int \<Rightarrow> ('w, u16) comp" where
  "cfd_rd16 buf i = bindC (getC (\<lambda>s. cfd_view (uc_mem s) buf)) (\<lambda>b. sumC (rd16 b i))"

section \<open>Initialisation and drivers\<close>

fun register_at :: "u64 \<Rightarrow> u64 list \<Rightarrow> u64 list option" where
  "register_at udrv [] = None"
| "register_at udrv (d # ds) =
     (if d = udrv then Some (d # ds)
      else if d = 0 then Some (udrv # ds)
      else map_option (Cons d) (register_at udrv ds))"

definition usbh_register_driver :: "u64 \<Rightarrow> 'w ucore \<Rightarrow> int \<times> 'w ucore" where
  "usbh_register_driver udrv s = (case register_at udrv (uc_drivers s) of
     None \<Rightarrow> (USBH_ERR_MEMORY_OUT, s)
   | Some ds \<Rightarrow> (0, s\<lparr>uc_drivers := ds\<rparr>))"

definition usbh_hub_init :: "'w usb_env \<Rightarrow> 'w ucore \<Rightarrow> 'w ucore" where
  "usbh_hub_init E s = snd (usbh_register_driver (ue_hub_driver E) (ue_hub_init E s))"

definition usbh_core_init :: "'w usb_env \<Rightarrow> 'w ucore \<Rightarrow> 'w ucore" where
  "usbh_core_init E s = ue_hc_init E (usbh_hub_init E
     (s\<lparr>uc_drivers := replicate MAX_UDEV_DRIVER 0, uc_conn_func := 0, uc_disconn_func := 0,
        uc_mem := usbh_memory_init (uc_mem s)\<rparr>))"

definition usbh_install_conn_callback :: "u64 \<Rightarrow> u64 \<Rightarrow> 'w ucore \<Rightarrow> 'w ucore" where
  "usbh_install_conn_callback conn_func disconn_func s =
     s\<lparr>uc_conn_func := conn_func, uc_disconn_func := disconn_func\<rparr>"

definition reset_device :: "'w usb_env \<Rightarrow> u64 \<Rightarrow> ('w, int) comp" where
  "reset_device E udev = bindC (get_udev udev) (\<lambda>d.
     if ud_parent d = 0 then
       if ud_hc_driver d \<noteq> 0 then callC (ue_rthub_port_reset E (ud_hc_driver d) (uint (ud_port_num d) - 1))
       else retC USBH_ERR_NOT_FOUND
     else callC (ue_hub_port_reset E (ud_parent d) (uint (ud_port_num d))))"

section \<open>Transfers\<close>

definition usbh_bulk_xfer :: "'w usb_env \<Rightarrow> u64 \<Rightarrow> ('w, int) comp" where
  "usbh_bulk_xfer E utr = bindC (get_utr utr) (\<lambda>u. bindC (hc_of (utr_udev u)) (\<lambda>hc.
     callC (ue_bulk_xfer E hc utr)))"

definition usbh_int_xfer :: "'w usb_env \<Rightarrow> u64 \<Rightarrow> ('w, int) comp" where
  "usbh_int_xfer E utr = bindC (get_utr utr) (\<lambda>u. bindC (hc_of (utr_udev u)) (\<lambda>hc.
     callC (ue_int_xfer E hc utr)))"

definition usbh_iso_xfer :: "'w usb_env \<Rightarrow> u64 \<Rightarrow> ('w, int) comp" where
  "usbh_iso_xfer E utr = bindC (get_utr utr) (\<lambda>u. bindC (get_udev (utr_udev u)) (\<lambda>d.
     if ud_hc_driver d = 0 then retC (- 1)
     else case ue_iso_xfer E (ud_hc_driver d) of
       None \<Rightarrow> retC (- 1)
     | Some iso_xfer \<Rightarrow> callC (iso_xfer utr)))"

definition usbh_quit_utr :: "'w usb_env \<Rightarrow> u64 \<Rightarrow> ('w, int) comp" where
  "usbh_quit_utr E utr =
     (if utr = 0 then retC USBH_ERR_NOT_FOUND
      else bindC (get_utr utr) (\<lambda>u.
        if utr_udev u = 0 then retC USBH_ERR_NOT_FOUND
        else bindC (hc_of (utr_udev u)) (\<lambda>hc. callC (ue_quit_xfer E hc utr 0))))"

definition usbh_quit_xfer :: "'w usb_env \<Rightarrow> u64 \<Rightarrow> u64 \<Rightarrow> ('w, int) comp" where
  "usbh_quit_xfer E udev ep = bindC (hc_of udev) (\<lambda>hc. callC (ue_quit_xfer E hc 0 ep))"

text \<open>
  The polling loop of a transfer. Before every read of \<open>bIsTransferDone\<close> time passes and interrupts
  run. The result tells whether the transfer is done; otherwise the time is over.
\<close>

partial_function (option) utr_wait ::
  "'w usb_env \<Rightarrow> u64 \<Rightarrow> u32 \<Rightarrow> u32 \<Rightarrow> 'w ucore \<Rightarrow> (core_fault + bool \<times> 'w ucore) option" where
  "utr_wait E utr t0 timeout s =
     (case utr_heap (uc_mem (ue_poll E s)) utr of
        None \<Rightarrow> Some (Inl (Mem_Fault Dangling_Pointer))
      | Some u \<Rightarrow>
          if utr_bIsTransferDone u \<noteq> 0 then Some (Inr (True, ue_poll E s))
          else if timeout < ue_ticks E (ue_poll E s) - t0 then Some (Inr (False, ue_poll E s))
          else utr_wait E utr t0 timeout (ue_poll E s))"

text \<open>The packed \<open>DEV_REQ_T\<close>.\<close>

definition setup_packet :: "u8 \<Rightarrow> u8 \<Rightarrow> u16 \<Rightarrow> u16 \<Rightarrow> u16 \<Rightarrow> u8 list" where
  "setup_packet bmRequestType bRequest wValue wIndex wLength =
     [bmRequestType, bRequest, ucast wValue, ucast (drop_bit 8 wValue), ucast wIndex,
      ucast (drop_bit 8 wIndex), ucast wLength, ucast (drop_bit 8 wLength)]"

definition forget_ep0_pipe :: "u64 \<Rightarrow> ('w, unit) comp" where
  "forget_ep0_pipe udev = upd_udev udev (\<lambda>d. d\<lparr>ud_ep0 := (ud_ep0 d)\<lparr>ep_hw_pipe := 0\<rparr>\<rparr>)"

text \<open>The wait for the end of a control transfer that is submitted, from \<open>t0 = get_ticks()\<close> on.\<close>

definition ctrl_xfer_await :: "'w usb_env \<Rightarrow> u64 \<Rightarrow> u64 \<Rightarrow> u32 \<Rightarrow> ('w, int \<times> u32) comp" where
  "ctrl_xfer_await E udev utr timeout =
     bindC (getC (ue_ticks E)) (\<lambda>t0.
     bindC (utr_wait E utr t0 timeout) (\<lambda>finished.
     if \<not> finished then
       thenC (usbh_quit_utr E utr) (thenC (mem_doC (free_utr utr))
         (thenC (forget_ep0_pipe udev) (retC (USBH_ERR_TIMEOUT, 0))))
     else bindC (get_utr utr) (\<lambda>u.
       thenC (mem_doC (free_utr utr))
         (retC (utr_status u, if utr_status u = 0 then utr_xfer_len u else 0)))))"

text \<open>The result is the status returned and \<open>*xfer_len\<close>.\<close>

definition usbh_ctrl_xfer ::
  "'w usb_env \<Rightarrow> u64 \<Rightarrow> u8 \<Rightarrow> u8 \<Rightarrow> u16 \<Rightarrow> u16 \<Rightarrow> u16 \<Rightarrow> u64 \<Rightarrow> u32 \<Rightarrow> ('w, int \<times> u32) comp" where
  "usbh_ctrl_xfer E udev bmRequestType bRequest wValue wIndex wLength buff timeout =
     bindC (memC (alloc_utr udev)) (\<lambda>utr.
     if utr = 0 then retC (USBH_ERR_MEMORY_OUT, 0)
     else thenC (upd_utr utr (\<lambda>u. u\<lparr>
            utr_setup := setup_packet bmRequestType bRequest wValue wIndex wLength,
            utr_buff := buff, utr_data_len := ucast wLength, utr_bIsTransferDone := 0\<rparr>))
     (bindC (hc_of udev) (\<lambda>hc.
     bindC (callC (ue_ctrl_xfer E hc utr)) (\<lambda>status.
     if status < 0 then
       thenC (forget_ep0_pipe udev) (thenC (mem_doC (free_utr utr)) (retC (status, 0)))
     else ctrl_xfer_await E udev utr timeout))))"

section \<open>Standard requests\<close>

definition alloc_dev_addressC :: "('w, nat) comp" where
  "alloc_dev_addressC s = (case alloc_dev_address (uc_mem s) of
     None \<Rightarrow> None
   | Some (a, m) \<Rightarrow> Some (Inr (a, s\<lparr>uc_mem := m\<rparr>)))"

definition free_dev_addressC :: "int \<Rightarrow> ('w, unit) comp" where
  "free_dev_addressC a = memC (\<lambda>m. map_sum id (Pair ()) (free_dev_address a m))"

definition usbh_set_address :: "'w usb_env \<Rightarrow> u64 \<Rightarrow> ('w, int) comp" where
  "usbh_set_address E udev = bindC (get_udev udev) (\<lambda>d.
     if ud_dev_num d \<noteq> 0 then retC USBH_ERR_SET_DEV_ADDR
     else bindC alloc_dev_addressC (\<lambda>dev_num.
     bindC (usbh_ctrl_xfer E udev REQ_TYPE_OUT USB_REQ_SET_ADDRESS (word_of_nat dev_num) 0 0 0 1000) (\<lambda>(ret, read_len).
     if ret < 0 then thenC (free_dev_addressC (int dev_num)) (retC ret)
     else thenC (upd_udev udev (\<lambda>d. d\<lparr>ud_dev_num := word_of_nat dev_num\<rparr>)) (retC 0))))"

definition usbh_set_configuration :: "'w usb_env \<Rightarrow> u64 \<Rightarrow> u8 \<Rightarrow> ('w, int) comp" where
  "usbh_set_configuration E udev conf_val = bindC (get_udev udev) (\<lambda>d.
     if ud_cur_conf d \<noteq> - 1 then retC USBH_ERR_SET_CONFIG
     else bindC (usbh_ctrl_xfer E udev REQ_TYPE_OUT USB_REQ_SET_CONFIGURATION (ucast conf_val) 0 0 0 2000) (\<lambda>(ret, read_len).
     if ret < 0 then retC ret
     else thenC (upd_udev udev (\<lambda>d. d\<lparr>ud_cur_conf := sint conf_val\<rparr>)) (retC 0)))"

text \<open>The device descriptor is the first member of \<open>UDEV_T\<close>. At most three tries.\<close>

fun device_descriptor_tries :: "'w usb_env \<Rightarrow> u64 \<Rightarrow> nat \<Rightarrow> int \<Rightarrow> ('w, int) comp" where
  "device_descriptor_tries E udev 0 ret = retC ret"
| "device_descriptor_tries E udev (Suc n) ret =
     bindC (usbh_ctrl_xfer E udev REQ_TYPE_IN USB_REQ_GET_DESCRIPTOR 0x100 0 18 udev 1000) (\<lambda>(ret', read_len).
       if ret' = 0 then retC 0 else device_descriptor_tries E udev n ret')"

definition usbh_get_device_descriptor :: "'w usb_env \<Rightarrow> u64 \<Rightarrow> ('w, int) comp" where
  "usbh_get_device_descriptor E udev = device_descriptor_tries E udev 3 0"

definition usbh_get_config_descriptor :: "'w usb_env \<Rightarrow> u64 \<Rightarrow> u64 \<Rightarrow> int \<Rightarrow> ('w, int) comp" where
  "usbh_get_config_descriptor E udev desc_buff buff_len =
     bindC (usbh_ctrl_xfer E udev REQ_TYPE_IN USB_REQ_GET_DESCRIPTOR 0x200 0 9 desc_buff 1000) (\<lambda>(ret, read_len).
     if ret < 0 then retC ret
     else bindC (cfd_rd16 desc_buff 2) (\<lambda>wTotalLength.
     if buff_len < uint wTotalLength then retC USBH_ERR_DATA_OVERRUN
     else bindC (usbh_ctrl_xfer E udev REQ_TYPE_IN USB_REQ_GET_DESCRIPTOR 0x200 0 wTotalLength desc_buff 1000) (\<lambda>(ret, read_len).
     if ret < 0 then retC ret else retC 0)))"

definition usbh_get_string_descriptor :: "'w usb_env \<Rightarrow> u64 \<Rightarrow> int \<Rightarrow> u64 \<Rightarrow> int \<Rightarrow> ('w, int) comp" where
  "usbh_get_string_descriptor E udev index desc_buff buff_len =
     bindC (usbh_ctrl_xfer E udev REQ_TYPE_IN USB_REQ_GET_DESCRIPTOR (word_of_int (0x300 OR index)) 0x0409
       (word_of_int buff_len) desc_buff 1000) (\<lambda>(ret, read_len). retC ret)"

definition usbh_clear_halt :: "'w usb_env \<Rightarrow> u64 \<Rightarrow> u16 \<Rightarrow> ('w, int) comp" where
  "usbh_clear_halt E udev ep_addr =
     bindC (usbh_ctrl_xfer E udev (REQ_TYPE_OUT OR REQ_TYPE_TO_EP) USB_REQ_CLEAR_FEATURE 0 ep_addr 0 0 1000)
       (\<lambda>(ret, read_len). retC ret)"

text \<open>A member of the interface descriptor \<open>alt->ifd\<close> of a device.\<close>

definition ifd_rd8 :: "u64 \<Rightarrow> ALT_IFACE_T \<Rightarrow> int \<Rightarrow> ('w, u8) comp" where
  "ifd_rd8 udev alt i = (case alt_ifd alt of
     None \<Rightarrow> failC Null_Pointer
   | Some ifd \<Rightarrow> bindC (get_udev udev) (\<lambda>d. cfd_rd8 (ud_cfd_buff d) (ifd + i)))"

definition nthC :: "'a list \<Rightarrow> nat \<Rightarrow> ('w, 'a) comp" where
  "nthC xs i = (if i < length xs then retC (xs ! i) else failC (Mem_Fault Index_Out_Of_Range))"

fun find_alt :: "u64 \<Rightarrow> ALT_IFACE_T list \<Rightarrow> u16 \<Rightarrow> nat \<Rightarrow> nat \<Rightarrow> ('w, nat option) comp" where
  "find_alt udev alts alt_setting 0 i = retC None"
| "find_alt udev alts alt_setting (Suc n) i =
     bindC (nthC alts i) (\<lambda>alt. bindC (ifd_rd8 udev alt 3) (\<lambda>bAlternateSetting.
       if ucast bAlternateSetting = alt_setting then retC (Some i)
       else find_alt udev alts alt_setting n (Suc i)))"

definition usbh_set_interface :: "'w usb_env \<Rightarrow> u64 \<Rightarrow> u16 \<Rightarrow> ('w, int) comp" where
  "usbh_set_interface E iface alt_setting = bindC (get_iface iface) (\<lambda>f.
     bindC (find_alt (if_udev f) (if_alt f) alt_setting (if_num_alt f) 0) (\<lambda>aif. case aif of
       None \<Rightarrow> retC USBH_ERR_NOT_FOUND
     | Some i \<Rightarrow>
         bindC (usbh_ctrl_xfer E (if_udev f) (REQ_TYPE_OUT OR REQ_TYPE_TO_IFACE) USB_REQ_SET_INTERFACE
           alt_setting (ucast (if_if_num f)) 0 0 1000) (\<lambda>(ret, xfer_len).
         if ret = 0 then bindC (get_iface iface) (\<lambda>f'. thenC (put_iface iface (f'\<lparr>if_aif := i\<rparr>)) (retC ret))
         else retC ret)))"

text \<open>The endpoint found, as its index in \<open>aif->ep\<close>.\<close>

fun find_ep :: "(EP_INFO_T \<Rightarrow> bool) \<Rightarrow> EP_INFO_T list \<Rightarrow> nat \<Rightarrow> nat \<Rightarrow> ('w, nat option) comp" where
  "find_ep P eps 0 i = retC None"
| "find_ep P eps (Suc n) i = bindC (nthC eps i) (\<lambda>ep.
     if P ep then retC (Some i) else find_ep P eps n (Suc i))"

definition usbh_iface_find_ep :: "u64 \<Rightarrow> u8 \<Rightarrow> u8 \<Rightarrow> ('w, nat option) comp" where
  "usbh_iface_find_ep iface ep_addr dir_type = bindC (get_iface iface) (\<lambda>f.
     bindC (nthC (if_alt f) (if_aif f)) (\<lambda>aif.
     bindC (ifd_rd8 (if_udev f) aif 4) (\<lambda>bNumEndpoints.
     find_ep (\<lambda>ep. if ep_addr = 0
       then ep_bEndpointAddress ep AND 0x80 = dir_type AND 0x80 \<and> ep_bmAttributes ep AND 3 = dir_type AND 3
       else ep_bEndpointAddress ep = ep_addr) (alt_ep aif) (unat bNumEndpoints) 0)))"

section \<open>Interfaces and configurations\<close>

text \<open>The loop that offers an interface to the drivers; the result is the index of the driver that took it.\<close>

fun probe_drivers :: "'w usb_env \<Rightarrow> u64 \<Rightarrow> nat \<Rightarrow> nat \<Rightarrow> ('w, nat option) comp" where
  "probe_drivers E iface 0 i = retC None"
| "probe_drivers E iface (Suc n) i =
     bindC (getC uc_drivers) (\<lambda>ds. bindC (nthC ds i) (\<lambda>d.
     if d = 0 then probe_drivers E iface n (Suc i)
     else bindC (callC (ue_probe E d iface)) (\<lambda>ret.
       if ret = 0 then retC (Some i) else probe_drivers E iface n (Suc i))))"

text \<open>From the label \<open>parse_done\<close> on.\<close>

definition offer_interface :: "'w usb_env \<Rightarrow> u64 \<Rightarrow> u64 \<Rightarrow> int \<Rightarrow> ('w, int) comp" where
  "offer_interface E udev iface parsed_len =
     bindC (probe_drivers E iface MAX_UDEV_DRIVER 0) (\<lambda>matched. case matched of
       Some i \<Rightarrow>
         bindC (getC uc_drivers) (\<lambda>ds. bindC (nthC ds i) (\<lambda>driver.
         bindC (get_udev udev) (\<lambda>d. bindC (get_iface iface) (\<lambda>f.
         thenC (put_iface iface (f\<lparr>if_driver := driver, if_next := ud_iface_list d\<rparr>))
         (thenC (upd_udev udev (\<lambda>d. d\<lparr>ud_iface_list := iface\<rparr>)) (retC parsed_len))))))
     | None \<Rightarrow> thenC (free_iface iface) (retC parsed_len))"

definition usbh_parse_interface :: "'w usb_env \<Rightarrow> u64 \<Rightarrow> u64 \<Rightarrow> int \<Rightarrow> int \<Rightarrow> ('w, int) comp" where
  "usbh_parse_interface E udev buf off len =
     bindC (memC (usbh_alloc_mem sizeof_IFACE_T)) (\<lambda>iface.
     if iface = 0 then retC USBH_ERR_MEMORY_OUT
     else bindC (getC (\<lambda>s. cfd_view (uc_mem s) buf)) (\<lambda>b.
     bindC (case scan_interface b off len of None \<Rightarrow> (\<lambda>s. None) | Some r \<Rightarrow> sumC r) (\<lambda>(if_num, r). case r of
       Inl err \<Rightarrow> thenC (free_iface iface) (retC err)
     | Inr st \<Rightarrow>
         thenC (put_iface iface \<lparr>if_udev = udev, if_if_num = if_num, if_num_alt = is_num_alt st,
           if_aif = 0, if_alt = is_alt st, if_driver = 0, if_context = 0, if_next = 0\<rparr>)
         (offer_interface E udev iface (is_parsed st)))))"

text \<open>
  One round of the loop over the interfaces: an error code, or the offset and length for the next
  round.
\<close>

definition config_round :: "'w usb_env \<Rightarrow> u64 \<Rightarrow> u64 \<Rightarrow> int \<Rightarrow> int \<Rightarrow> ('w, int + int \<times> int) comp" where
  "config_round E udev buf off len =
     bindC (getC (\<lambda>s. cfd_view (uc_mem s) buf)) (\<lambda>b.
     bindC (sumC (cfg_find b off len)) (\<lambda>r. case r of
       Inl err \<Rightarrow> retC (Inl err)
     | Inr (off', len') \<Rightarrow>
         bindC (usbh_parse_interface E udev buf off' len') (\<lambda>ret.
         if ret < 0 then retC (Inl ret) else retC (Inr (off' + ret, len' - ret)))))"

partial_function (option) config_loop ::
  "'w usb_env \<Rightarrow> u64 \<Rightarrow> u64 \<Rightarrow> int \<Rightarrow> int \<Rightarrow> int \<Rightarrow> 'w ucore \<Rightarrow> (core_fault + int \<times> 'w ucore) option" where
  "config_loop E udev buf i off len s =
     (if i < uint (cfd_view (uc_mem s) buf 4) then
        case config_round E udev buf off len s of
          None \<Rightarrow> None
        | Some (Inl e) \<Rightarrow> Some (Inl e)
        | Some (Inr (Inl err, s')) \<Rightarrow> Some (Inr (err, s'))
        | Some (Inr (Inr (off', len'), s')) \<Rightarrow> config_loop E udev buf (i + 1) off' len' s'
      else if 0 < len then Some (Inr (USBH_ERR_DESCRIPTOR, s))
      else Some (Inr (len, s)))"

definition usbh_parse_configuration :: "'w usb_env \<Rightarrow> u64 \<Rightarrow> u64 \<Rightarrow> ('w, int) comp" where
  "usbh_parse_configuration E udev buf =
     bindC (cfd_rd16 buf 2) (\<lambda>wTotalLength. bindC (cfd_rd8 buf 0) (\<lambda>bLength.
       config_loop E udev buf 0 (uint bLength) (uint wTotalLength - uint bLength)))"

section \<open>Connecting and disconnecting\<close>

text \<open>A callback of the application, when one is installed.\<close>

definition notify :: "'w usb_env \<Rightarrow> ('w ucore \<Rightarrow> u64) \<Rightarrow> u64 \<Rightarrow> ('w, unit) comp" where
  "notify E func udev = bindC (getC func) (\<lambda>p. if p = 0 then retC () else execC (ue_callback E p udev 0))"

text \<open>\<open>free_dev_address(udev->dev_num); return ret;\<close>\<close>

definition connect_failed :: "u64 \<Rightarrow> int \<Rightarrow> ('w, int) comp" where
  "connect_failed udev ret = bindC (get_udev udev) (\<lambda>d.
     thenC (free_dev_addressC (uint (ud_dev_num d))) (retC ret))"

definition enable_remote_wakeup :: "'w usb_env \<Rightarrow> u64 \<Rightarrow> ('w, int \<times> u32) comp" where
  "enable_remote_wakeup E udev = usbh_ctrl_xfer E udev REQ_TYPE_OUT USB_REQ_SET_FEATURE 1 0 0 0 1000"

text \<open>The second half of \<open>connect_device\<close>, with the buffer \<open>conf\<close> allocated.\<close>

definition connect_configure :: "'w usb_env \<Rightarrow> u64 \<Rightarrow> u64 \<Rightarrow> ('w, int) comp" where
  "connect_configure E udev conf =
     thenC (upd_udev udev (\<lambda>d. d\<lparr>ud_cfd_buff := conf\<rparr>))
     (bindC (usbh_get_config_descriptor E udev conf MAX_DESC_BUFF_SIZE) (\<lambda>ret.
     if ret < 0 then connect_failed udev ret
     else bindC (cfd_rd8 conf 5) (\<lambda>bConfigurationValue.
     bindC (usbh_set_configuration E udev bConfigurationValue) (\<lambda>ret.
     if ret < 0 then connect_failed udev ret
     else bindC (usbh_parse_configuration E udev conf) (\<lambda>ret.
     if ret < 0 then connect_failed udev ret
     else bindC (cfd_rd8 conf 7) (\<lambda>bmAttributes.
     thenC (if bmAttributes AND 0x20 \<noteq> 0 then enable_remote_wakeup E udev else retC (0, 0))
     (thenC (notify E uc_conn_func udev) (retC ret))))))))"

definition connect_device :: "'w usb_env \<Rightarrow> u64 \<Rightarrow> ('w, int) comp" where
  "connect_device E udev =
     thenC (execC (ue_delay_us E 100000))
     (thenC (usbh_get_device_descriptor E udev)
     (thenC (reset_device E udev)
     (thenC (execC (ue_delay_us E 100000))
     (bindC (usbh_set_address E udev) (\<lambda>ret.
     if ret < 0 then retC ret
     else thenC (execC (ue_delay_us E 100000))
     (bindC (usbh_get_device_descriptor E udev) (\<lambda>ret.
     if ret < 0 then connect_failed udev ret
     else bindC (memC (usbh_alloc_mem MAX_DESC_BUFF_SIZE)) (\<lambda>conf.
     if conf = 0 then connect_failed udev USBH_ERR_MEMORY_OUT
     else connect_configure E udev conf))))))))"

text \<open>
  The loop that tells the drivers of a device that it is gone, and frees its interfaces. It ends
  with the list \<open>udev->iface_list\<close>.
\<close>

definition drop_interface :: "'w usb_env \<Rightarrow> u64 \<Rightarrow> u64 \<Rightarrow> ('w, unit) comp" where
  "drop_interface E udev iface = bindC (get_iface iface) (\<lambda>f.
     thenC (upd_udev udev (\<lambda>d. d\<lparr>ud_iface_list := if_next f\<rparr>))
     (thenC (execC (ue_disconnect E (if_driver f) iface)) (free_iface iface)))"

partial_function (option) drop_interfaces ::
  "'w usb_env \<Rightarrow> u64 \<Rightarrow> 'w ucore \<Rightarrow> (core_fault + unit \<times> 'w ucore) option" where
  "drop_interfaces E udev s =
     (case udev_heap (uc_mem s) udev of
        None \<Rightarrow> Some (Inl (Mem_Fault Dangling_Pointer))
      | Some d \<Rightarrow>
          if ud_iface_list d = 0 then Some (Inr ((), s))
          else case drop_interface E udev (ud_iface_list d) s of
            None \<Rightarrow> None
          | Some (Inl e) \<Rightarrow> Some (Inl e)
          | Some (Inr (u, s')) \<Rightarrow> drop_interfaces E udev s')"

definition ep0_addr :: "u64 \<Rightarrow> u64" where
  "ep0_addr udev = udev + 48"

text \<open>The part of \<open>usbh_reset_device\<close> after the device has its address again.\<close>

definition reset_configure :: "'w usb_env \<Rightarrow> u64 \<Rightarrow> ('w, int) comp" where
  "reset_configure E udev =
     bindC (usbh_get_device_descriptor E udev) (\<lambda>ret.
     if ret < 0 then retC ret
     else bindC (get_udev udev) (\<lambda>d. let conf = ud_cfd_buff d in
     bindC (usbh_get_config_descriptor E udev conf MAX_DESC_BUFF_SIZE) (\<lambda>ret.
     if ret < 0 then retC ret
     else thenC (upd_udev udev (\<lambda>d. d\<lparr>ud_cur_conf := - 1\<rparr>))
     (bindC (cfd_rd8 conf 5) (\<lambda>bConfigurationValue.
     bindC (usbh_set_configuration E udev bConfigurationValue) (\<lambda>ret.
     if ret < 0 then retC ret
     else bindC (usbh_parse_configuration E udev conf) (\<lambda>ret.
     if ret < 0 then retC ret
     else thenC (enable_remote_wakeup E udev)
     (thenC (notify E uc_conn_func udev) (retC ret)))))))))"

definition usbh_reset_device :: "'w usb_env \<Rightarrow> u64 \<Rightarrow> ('w, int) comp" where
  "usbh_reset_device E udev =
     thenC (execC (ue_pooling_hubs E))
     (thenC (notify E uc_disconn_func udev)
     (thenC (usbh_quit_xfer E udev (ep0_addr udev))
     (thenC (drop_interfaces E udev)
     (thenC (reset_device E udev)
     (thenC (execC (ue_delay_us E 100000))
     (bindC (get_udev udev) (\<lambda>d. let dev_num = ud_dev_num d in
     thenC (upd_udev udev (\<lambda>d. d\<lparr>ud_dev_num := 0\<rparr>))
     (bindC (usbh_ctrl_xfer E udev REQ_TYPE_OUT USB_REQ_SET_ADDRESS (ucast dev_num) 0 0 0 1000) (\<lambda>(ret, read_len).
     thenC (upd_udev udev (\<lambda>d. d\<lparr>ud_dev_num := dev_num\<rparr>))
     (if ret < 0 then retC ret
      else thenC (execC (ue_delay_us E 100000)) (reset_configure E udev)))))))))))"

definition disconnect_device :: "'w usb_env \<Rightarrow> u64 \<Rightarrow> ('w, unit) comp" where
  "disconnect_device E udev =
     thenC (notify E uc_disconn_func udev)
     (thenC (usbh_quit_xfer E udev (ep0_addr udev))
     (thenC (drop_interfaces E udev)
     (bindC (get_udev udev) (\<lambda>d.
     thenC (free_dev_addressC (uint (ud_dev_num d))) (mem_optC (free_device udev))))))"

end
