(* ===== verification/Usb_Desc_Facts.thy ===== *)
theory Usb_Desc_Facts
  imports Usb_Desc
begin

text \<open>
  What the descriptor parser does on arbitrary bytes: where it reads, how far it advances, when
  it returns, and which faults are possible.
\<close>

section \<open>Results\<close>

text \<open>
  The fault of a computation is at most the use of an uninitialised pointer, and its result satisfies
  \<open>Q\<close>.
\<close>

definition reads_ok :: "core_fault + 'a \<Rightarrow> ('a \<Rightarrow> bool) \<Rightarrow> bool" where
  "reads_ok r Q = (case r of Inl e \<Rightarrow> e = Uninit_Pointer | Inr a \<Rightarrow> Q a)"

lemma reads_ok_simps [simp]:
  "reads_ok (Inr a) Q = Q a"
  "reads_ok (Inl e) Q \<longleftrightarrow> e = Uninit_Pointer"
  by (simp_all add: reads_ok_def)

lemma reads_ok_sbind: "reads_ok (sbind m f) Q \<longleftrightarrow> reads_ok m (\<lambda>a. reads_ok (f a) Q)"
  by (cases m) (auto simp: reads_ok_def)

lemma reads_ok_mono: "reads_ok m Q \<Longrightarrow> (\<And>a. Q a \<Longrightarrow> R a) \<Longrightarrow> reads_ok m R"
  by (auto simp: reads_ok_def split: sum.splits)

lemma rd8_in [simp]: "0 \<le> i \<Longrightarrow> i < MAX_DESC_BUFF_SIZE \<Longrightarrow> rd8 b i = Inr (b i)"
  by (simp add: rd8_def)

lemma rd16_in [simp]:
  "0 \<le> i \<Longrightarrow> i + 1 < MAX_DESC_BUFF_SIZE \<Longrightarrow> rd16 b i = Inr (ucast (b i) OR push_bit 8 (ucast (b (i + 1))))"
  by (simp add: rd16_def)

lemma uint_u8_less: "uint (x :: u8) < 256"
  using uint_bounded[of x] by simp

lemma byte_add_nonneg [simp]: "0 \<le> p \<Longrightarrow> \<not> p + uint (x :: u8) < 0"
  by (simp add: not_less)

lemma byte_add_le: "p \<le> m \<Longrightarrow> p + uint (x :: u8) \<le> m + 255"
  using uint_u8_less[of x] by linarith

lemma step_over_sel [simp]:
  "is_off (step_over n st) = is_off st + n" "is_len (step_over n st) = is_len st - n"
  "is_parsed (step_over n st) = is_parsed st + n" "is_hdr (step_over n st) = is_hdr st"
  "is_alt (step_over n st) = is_alt st" "is_num_alt (step_over n st) = is_num_alt st"
  by (simp_all add: step_over_def)

lemma step_over_0 [simp]: "step_over 0 st = st"
  by (simp add: step_over_def)

lemma step_over_step_over [simp]: "step_over m (step_over n st) = step_over (n + m) st"
  by (simp add: step_over_def algebra_simps)

section \<open>Endpoints\<close>

text \<open>An optional pointer to a descriptor whose first seven bytes are in the buffer.\<close>

definition readable :: "int option \<Rightarrow> bool" where
  "readable d \<longleftrightarrow> (\<forall>d'. d = Some d' \<longrightarrow> 0 \<le> d' \<and> d' + 6 < MAX_DESC_BUFF_SIZE)"

lemma readable_simps [simp]: "readable None" "readable (Some d) \<longleftrightarrow> 0 \<le> d \<and> d + 6 < MAX_DESC_BUFF_SIZE"
  by (simp_all add: readable_def)

text \<open>
  The search stops at a descriptor inside of the remaining bytes; when it finds no endpoint
  descriptor it ends after all of them, at the last one it skipped.
\<close>

lemma ep_find_ok:
  assumes "0 \<le> off" "off + len + 6 \<le> MAX_DESC_BUFF_SIZE" "readable ep_desc" "0 \<le> parsed"
  shows "reads_ok (ep_find b off len parsed ep_desc) (\<lambda>r. case r of
           Inl err \<Rightarrow> err = USBH_ERR_DESCRIPTOR
         | Inr (p, d) \<Rightarrow> parsed \<le> p \<and> p \<le> parsed + max 0 len \<and> readable d)"
  using assms
proof (induction b off len parsed ep_desc rule: ep_find.induct)
  case (1 b off len parsed ep_desc)
  show ?case
  proof (cases "0 < len \<and> \<not> (len < uint (b off) \<or> uint (b off) < 2) \<and> b (off + 1) \<noteq> USB_DT_ENDPOINT")
    case False
    then show ?thesis using 1(2-5) by (subst ep_find.simps) (auto simp: reads_ok_sbind)
  next
    case True
    let ?l = "uint (b off)"
    have rd: "rd8 b off = Inr (b off)" "rd8 b (off + 1) = Inr (b (off + 1))"
      using True 1(2,3) by simp_all
    have eq: "ep_find b off len parsed ep_desc = ep_find b (off + ?l) (len - ?l) (parsed + ?l) (Some off)"
      using True rd by (subst ep_find.simps) simp
    have "reads_ok (ep_find b (off + ?l) (len - ?l) (parsed + ?l) (Some off)) (\<lambda>r. case r of
           Inl err \<Rightarrow> err = USBH_ERR_DESCRIPTOR
         | Inr (p, d) \<Rightarrow> parsed + ?l \<le> p \<and> p \<le> parsed + ?l + max 0 (len - ?l) \<and> readable d)"
      by (rule "1.IH") (use True rd 1(2-5) in auto)
    then show ?thesis unfolding eq
      by (rule reads_ok_mono) (use True in \<open>auto split: sum.splits prod.splits\<close>)
  qed
qed

text \<open>
  Every outcome of an endpoint: an error, or a number of bytes that may exceed what is left by less than
  256.
\<close>

lemma usbh_parse_endpoint_ok:
  assumes "0 \<le> off" "off + len + 6 \<le> MAX_DESC_BUFF_SIZE" "i < length (alt_ep alt)"
  shows "reads_ok (usbh_parse_endpoint b alt i off len) (\<lambda>(ret, alt').
           length (alt_ep alt') = length (alt_ep alt) \<and> alt_ifd alt' = alt_ifd alt \<and>
           (ret < 0 \<longrightarrow> ret = USBH_ERR_DESCRIPTOR) \<and> ret \<le> max 0 len + 255)"
proof -
  have "reads_ok (ep_find b off len 0 None) (\<lambda>r. case r of
           Inl err \<Rightarrow> err = USBH_ERR_DESCRIPTOR
         | Inr (p, d) \<Rightarrow> 0 \<le> p \<and> p \<le> 0 + max 0 len \<and> readable d)"
    by (rule ep_find_ok) (use assms in auto)
  then show ?thesis
    unfolding usbh_parse_endpoint_def reads_ok_sbind
    by (elim reads_ok_mono) (use assms in \<open>auto simp: reads_ok_sbind split: sum.splits option.splits intro: byte_add_le\<close>)
qed

lemma usbh_parse_endpoint_no_bytes: "len \<le> 0 \<Longrightarrow> usbh_parse_endpoint b alt i off len = Inl Uninit_Pointer"
  by (simp add: usbh_parse_endpoint_def ep_find.simps)

section \<open>Interfaces\<close>

text \<open>
  What every round keeps: the end \<open>T\<close> of the descriptors, the sizes of the arrays, the limits, and
  how far the parser can be beyond the end.
\<close>

definition if_inv :: "int \<Rightarrow> if_state \<Rightarrow> bool" where
  "if_inv T st \<longleftrightarrow> is_off st + is_len st = T \<and> T + 6 \<le> MAX_DESC_BUFF_SIZE \<and> 0 \<le> is_off st \<and>
     - 256 < is_len st \<and> length (is_alt st) = MAX_ALT_PER_IFACE \<and>
     (\<forall>a \<in> set (is_alt st). length (alt_ep a) = MAX_EP_PER_IFACE) \<and>
     is_num_alt st \<le> MAX_ALT_PER_IFACE \<and> readable (is_hdr st)"

text \<open>A round leads to such a state again, with no more bytes left, or to one of two labels.\<close>

definition round_ok :: "int \<Rightarrow> if_state \<Rightarrow> if_next \<Rightarrow> bool" where
  "round_ok T st r = (case r of
     Err_Out err \<Rightarrow> err \<in> {USBH_ERR_DESCRIPTOR, USBH_ERR_IF_EP_LIMIT, USBH_ERR_IF_ALT_LIMIT}
   | Parse_Done st' \<Rightarrow> if_inv T st' \<and> is_len st' \<le> is_len st \<and> is_off st' - is_parsed st' = is_off st - is_parsed st
   | Next_Round st' \<Rightarrow> if_inv T st' \<and> is_len st' \<le> is_len st \<and> is_off st' - is_parsed st' = is_off st - is_parsed st)"

lemma round_ok_trans:
  assumes "round_ok T st' r" "is_len st' \<le> is_len st"
    "is_off st' - is_parsed st' = is_off st - is_parsed st"
  shows "round_ok T st r"
  using assms by (auto simp: round_ok_def split: if_next.splits)

lemma skip_unknown_ok:
  "if_inv T st \<Longrightarrow> reads_ok (skip_unknown b st) (\<lambda>r. round_ok T st r \<and>
     (\<forall>st'. r = Next_Round st' \<or> r = Parse_Done st' \<longrightarrow> is_num_alt st' = is_num_alt st))"
proof (induction b st rule: skip_unknown.induct)
  case (1 b st)
  let ?l = "uint (b (is_off st))"
  let ?st' = "st\<lparr>is_hdr := Some (is_off st)\<rparr>"
  have rd: "rd8 b (is_off st) = Inr (b (is_off st))" "rd8 b (is_off st + 1) = Inr (b (is_off st + 1))"
    if "0 < is_len st" using "1.prems" that by (auto simp: if_inv_def)
  have hdr: "0 < is_len st \<Longrightarrow> if_inv T ?st'" using "1.prems" by (auto simp: if_inv_def)
  show ?case
  proof (cases "0 < is_len st \<and> \<not> (is_len st < ?l \<or> ?l < 2) \<and>
      b (is_off st + 1) \<notin> {USB_DT_CONFIGURATION, USB_DT_INTERFACE, USB_DT_ENDPOINT}")
    case False
    then show ?thesis using rd hdr "1.prems"
      by (subst skip_unknown.simps) (auto simp: reads_ok_sbind round_ok_def Let_def)
  next
    case True
    have inv: "if_inv T (step_over ?l ?st')" using hdr True by (auto simp: if_inv_def)
    have eq: "skip_unknown b st = skip_unknown b (step_over ?l ?st')"
      using True rd by (subst skip_unknown.simps) (simp add: Let_def)
    have "reads_ok (skip_unknown b (step_over ?l ?st')) (\<lambda>r. round_ok T (step_over ?l ?st') r \<and>
       (\<forall>st'. r = Next_Round st' \<or> r = Parse_Done st' \<longrightarrow> is_num_alt st' = is_num_alt (step_over ?l ?st')))"
      by (rule "1.IH") (use True rd inv in auto)
    then show ?thesis unfolding eq
      by (rule reads_ok_mono) (use inv True in \<open>auto elim!: round_ok_trans\<close>)
  qed
qed

lemma if_inv_alt:
  assumes "if_inv T st" "length (alt_ep a) = MAX_EP_PER_IFACE"
  shows "if_inv T (st\<lparr>is_alt := (is_alt st)[k := a]\<rparr>)"
  using assms by (auto simp: if_inv_def dest: set_update_subset_insert[THEN subsetD])

lemma parse_endpoints_ok:
  assumes "if_inv T st" "1 \<le> is_num_alt st" "i + n \<le> MAX_EP_PER_IFACE"
  shows "reads_ok (parse_endpoints b n i st) (round_ok T st)"
  using assms
proof (induction n arbitrary: i st)
  case 0
  then show ?case by (simp add: round_ok_def)
next
  case (Suc n)
  show ?case
  proof (cases "0 < is_len st")
    case False
    then show ?thesis by (simp add: usbh_parse_endpoint_no_bytes)
  next
    case True
    let ?a = "is_alt st ! (is_num_alt st - 1)"
    have a: "length (alt_ep ?a) = MAX_EP_PER_IFACE" using Suc.prems by (auto simp: if_inv_def)
    have "reads_ok (usbh_parse_endpoint b ?a i (is_off st) (is_len st)) (\<lambda>(ret, alt').
           length (alt_ep alt') = length (alt_ep ?a) \<and> alt_ifd alt' = alt_ifd ?a \<and>
           (ret < 0 \<longrightarrow> ret = USBH_ERR_DESCRIPTOR) \<and> ret \<le> max 0 (is_len st) + 255)"
      by (rule usbh_parse_endpoint_ok) (use Suc.prems a in \<open>auto simp: if_inv_def\<close>)
    then show ?thesis unfolding parse_endpoints.simps reads_ok_sbind
    proof (rule reads_ok_mono, clarify)
      fix ret and alt :: ALT_IFACE_T
      assume r: "length (alt_ep alt) = length (alt_ep ?a)" "ret < 0 \<longrightarrow> ret = USBH_ERR_DESCRIPTOR"
        "ret \<le> max 0 (is_len st) + 255"
      let ?st = "step_over ret (st\<lparr>is_alt := (is_alt st)[is_num_alt st - 1 := alt]\<rparr>)"
      have inv: "if_inv T (st\<lparr>is_alt := (is_alt st)[is_num_alt st - 1 := alt]\<rparr>)"
        by (rule if_inv_alt) (use Suc.prems a r in auto)
      have "if_inv T ?st" if "0 \<le> ret" using inv that r(3) True by (auto simp: if_inv_def)
      then show "reads_ok (let st' = st\<lparr>is_alt := (is_alt st)[is_num_alt st - 1 := alt]\<rparr> in
          if ret < 0 then Inr (Err_Out ret) else parse_endpoints b n (Suc i) (step_over ret st')) (round_ok T st)"
        using Suc.IH[of ?st "Suc i"] Suc.prems r(2) inv
        by (auto simp: Let_def round_ok_def not_less elim!: reads_ok_mono split: if_next.splits)
    qed
  qed
qed

lemma add_alt_ok:
  assumes "if_inv T st" "is_num_alt st < MAX_ALT_PER_IFACE" "uint n \<le> int MAX_EP_PER_IFACE"
  shows "reads_ok (add_alt b d n st) (round_ok T st)"
proof -
  define st2 where "st2 = st\<lparr>is_alt := (is_alt st)[is_num_alt st :=
      (is_alt st ! is_num_alt st)\<lparr>alt_ifd := Some d\<rparr>], is_num_alt := is_num_alt st + 1\<rparr>"
  have "if_inv T (st\<lparr>is_alt := (is_alt st)[is_num_alt st :=
      (is_alt st ! is_num_alt st)\<lparr>alt_ifd := Some d\<rparr>]\<rparr>)"
    by (rule if_inv_alt) (use assms in \<open>auto simp: if_inv_def\<close>)
  then have inv: "if_inv T st2" using assms(2) by (auto simp: if_inv_def st2_def)
  have sel: "is_len st2 = is_len st" "is_off st2 = is_off st" "is_parsed st2 = is_parsed st"
    "is_hdr st2 = is_hdr st" "1 \<le> is_num_alt st2" by (simp_all add: st2_def)
  have le: "length (is_alt st) \<le> is_num_alt st \<longleftrightarrow> False" using assms by (simp add: if_inv_def)
  have "0 + unat n \<le> MAX_EP_PER_IFACE" using assms(3) by (simp flip: nat_uint_eq)
  then have "reads_ok (parse_endpoints b (unat n) 0 st2) (round_ok T st2)"
    by (rule parse_endpoints_ok[OF inv sel(5)])
  moreover have "round_ok T st2 = round_ok T st" by (simp add: round_ok_def sel fun_eq_iff split: if_next.splits)
  moreover have "readable (is_hdr st)" using assms(1) by (simp add: if_inv_def)
  ultimately show ?thesis
    unfolding add_alt_def le if_False st2_def[symmetric] Let_def sel
    using inv by (auto simp: round_ok_def sel reads_ok_sbind split: option.splits)
qed

lemma alt_round_ok:
  assumes "if_inv T st" "0 < is_len st"
  shows "reads_ok (alt_round b if_num st) (round_ok T st)"
proof -
  let ?o = "is_off st"
  let ?l = "uint (b ?o)"
  let ?st = "step_over ?l st"
  have rd: "rd8 b ?o = Inr (b ?o)" "rd8 b (?o + 1) = Inr (b (?o + 1))" "rd8 b (?o + 2) = Inr (b (?o + 2))"
    "rd8 b (?o + 4) = Inr (b (?o + 4))" using assms by (auto simp: if_inv_def)
  have step: "if_inv T ?st" using assms uint_u8_less[of "b ?o"] by (auto simp: if_inv_def)
  have tr: "round_ok T ?st r \<Longrightarrow> round_ok T st r" for r
    by (erule round_ok_trans) (use step in auto)
  have "reads_ok (sbind (skip_unknown b ?st) (\<lambda>r. case r of
        Err_Out err \<Rightarrow> Inr (Err_Out err) | Parse_Done st1 \<Rightarrow> Inr (Parse_Done st1)
      | Next_Round st1 \<Rightarrow> add_alt b ?o n st1)) (round_ok T st)"
    if lim: "is_num_alt st < MAX_ALT_PER_IFACE" "uint n \<le> int MAX_EP_PER_IFACE" for n
    unfolding reads_ok_sbind
  proof (rule reads_ok_mono[OF skip_unknown_ok[OF step]], elim conjE)
    fix r
    assume r: "round_ok T ?st r"
      "\<forall>st'. r = Next_Round st' \<or> r = Parse_Done st' \<longrightarrow> is_num_alt st' = is_num_alt ?st"
    show "reads_ok (case r of Err_Out err \<Rightarrow> Inr (Err_Out err) | Parse_Done st1 \<Rightarrow> Inr (Parse_Done st1)
      | Next_Round st1 \<Rightarrow> add_alt b ?o n st1) (round_ok T st)"
    proof (cases r)
      case (Next_Round st1)
      then have st1: "if_inv T st1" "is_num_alt st1 < MAX_ALT_PER_IFACE" "is_len st1 \<le> is_len st"
        "is_off st1 - is_parsed st1 = is_off st - is_parsed st"
        using r lim by (auto simp: round_ok_def intro: order_trans)
      have "reads_ok (add_alt b ?o n st1) (round_ok T st1)" by (rule add_alt_ok[OF st1(1,2) lim(2)])
      then show ?thesis using Next_Round
        by (auto elim!: reads_ok_mono round_ok_trans intro: st1)
    qed (use r tr in auto)
  qed
  moreover have "round_ok T st (Next_Round ?st)" "round_ok T st (Parse_Done st)"
    using step assms by (auto simp: round_ok_def)
  ultimately show ?thesis
    by (auto simp: alt_round_def rd Let_def round_ok_def not_less not_le)
qed

text \<open>The outer loop, when it returns.\<close>

lemma parse_alts_ok:
  assumes "parse_alts b if_num st = Some r" "if_inv T st"
  shows "reads_ok r (\<lambda>x. round_ok T st (case x of Inl err \<Rightarrow> Err_Out err | Inr st' \<Rightarrow> Parse_Done st'))"
    (is "?Q st r")
proof -
  have "if_inv T st \<longrightarrow> ?Q st r"
  proof (rule parse_alts.raw_induct[where P = "\<lambda>b n st r. if_inv T st \<longrightarrow> ?Q st r", OF _ assms(1)], intro impI)
    fix f b n st r
    assume IH: "\<And>b n st r. f b n st = Some r \<Longrightarrow> if_inv T st \<longrightarrow> ?Q st r"
      and eq: "(if 0 < is_len st then case alt_round b n st of Inl e \<Rightarrow> Some (Inl e)
          | Inr (Err_Out err) \<Rightarrow> Some (Inr (Inl err)) | Inr (Parse_Done st') \<Rightarrow> Some (Inr (Inr st'))
          | Inr (Next_Round st') \<Rightarrow> f b n st' else Some (Inr (Inr st))) = Some r"
      and inv: "if_inv T st"
    show "?Q st r"
    proof (cases "\<exists>st'. 0 < is_len st \<and> alt_round b n st = Inr (Next_Round st')")
      case False
      then show ?thesis using eq inv alt_round_ok[OF inv, of b n]
        by (auto simp: round_ok_def split: if_splits sum.splits if_next.splits)
    next
      case True
      then obtain st' where st': "0 < is_len st" "alt_round b n st = Inr (Next_Round st')" by blast
      then have ok: "round_ok T st (Next_Round st')" using alt_round_ok[OF inv, of b n] by simp
      then have "?Q st' r" using IH[of b n st' r] eq st' by (simp add: round_ok_def)
      then show ?thesis
        by (rule reads_ok_mono) (use ok in \<open>auto simp: round_ok_def split: sum.splits\<close>)
    qed
  qed
  with assms(2) show ?thesis by blast
qed

section \<open>Where a pointer without a value is used\<close>

text \<open>
  The search behind an interface descriptor that fits into the remaining bytes does not fault, and sets the pointer
  \<open>hdr\<close> when bytes are left.
\<close>

lemma skip_unknown_hdr:
  "if_inv T st \<Longrightarrow> 0 \<le> is_len st \<Longrightarrow> \<exists>r. skip_unknown b st = Inr r \<and>
     (\<forall>st'. r = Next_Round st' \<longrightarrow> is_len st' = 0 \<or> is_hdr st' \<noteq> None)"
proof (induction b st rule: skip_unknown.induct)
  case (1 b st)
  let ?l = "uint (b (is_off st))"
  let ?st' = "st\<lparr>is_hdr := Some (is_off st)\<rparr>"
  have rd: "rd8 b (is_off st) = Inr (b (is_off st))" "rd8 b (is_off st + 1) = Inr (b (is_off st + 1))"
    if "0 < is_len st" using "1.prems"(1) that by (auto simp: if_inv_def)
  show ?case
  proof (cases "0 < is_len st \<and> \<not> (is_len st < ?l \<or> ?l < 2) \<and>
      b (is_off st + 1) \<notin> {USB_DT_CONFIGURATION, USB_DT_INTERFACE, USB_DT_ENDPOINT}")
    case False
    then show ?thesis using rd "1.prems"(2) by (subst (1) skip_unknown.simps) (auto simp: Let_def)
  next
    case True
    have "skip_unknown b st = skip_unknown b (step_over ?l ?st')"
      using True rd by (subst skip_unknown.simps) (simp add: Let_def)
    moreover have "if_inv T (step_over ?l ?st')" using "1.prems"(1) True by (auto simp: if_inv_def)
    ultimately show ?thesis using "1.IH"[OF _ _ _ _ refl, of "b (is_off st)" "b (is_off st + 1)"] True rd by simp
  qed
qed

text \<open>An interface descriptor that announces endpoints or is longer than the bytes that are left.\<close>

definition risky_desc :: "cfd \<Rightarrow> u8 \<Rightarrow> int \<Rightarrow> int \<Rightarrow> bool" where
  "risky_desc b if_num T k \<longleftrightarrow> b (k + 1) = USB_DT_INTERFACE \<and> b (k + 2) = if_num \<and> (T < k + uint (b k) \<or> 0 < b (k + 4))"

lemma alt_round_fault:
  assumes "if_inv T st" "0 < is_len st" "alt_round b if_num st = Inl e"
  shows "risky_desc b if_num T (is_off st)"
proof (rule ccontr)
  assume no: "\<not> risky_desc b if_num T (is_off st)"
  let ?o = "is_off st"
  let ?st = "step_over (uint (b ?o)) st"
  have rd: "rd8 b ?o = Inr (b ?o)" "rd8 b (?o + 1) = Inr (b (?o + 1))" "rd8 b (?o + 2) = Inr (b (?o + 2))"
    "rd8 b (?o + 4) = Inr (b (?o + 4))" using assms(1,2) by (auto simp: if_inv_def)
  have desc: "b (?o + 1) = USB_DT_INTERFACE" "b (?o + 2) = if_num"
    using assms(3) by (auto simp: alt_round_def rd Let_def split: if_splits)
  then have left: "uint (b ?o) \<le> is_len st" "b (?o + 4) = 0"
    using no assms(1) by (auto simp: risky_desc_def if_inv_def word_gt_0)
  have inv: "if_inv T ?st" using assms(1,2) uint_u8_less[of "b ?o"] by (auto simp: if_inv_def)
  obtain r where r: "skip_unknown b ?st = Inr r" "\<forall>st'. r = Next_Round st' \<longrightarrow> is_len st' = 0 \<or> is_hdr st' \<noteq> None"
    using skip_unknown_hdr[OF inv, of b] left(1) by auto
  have ok: "round_ok T ?st r" "\<forall>st'. r = Next_Round st' \<longrightarrow> is_num_alt st' = is_num_alt ?st"
    using skip_unknown_ok[OF inv, of b] r(1) by auto
  have "add_alt b ?o 0 st1 \<noteq> Inl e" if "r = Next_Round st1" "is_num_alt st < MAX_ALT_PER_IFACE" for st1
  proof -
    have "if_inv T st1" using ok(1) that(1) by (simp add: round_ok_def)
    then show ?thesis using r(2) ok(2) that
      by (auto simp: add_alt_def Let_def if_inv_def split: option.splits if_splits)
  qed
  then show False using assms(3) r(1) by (auto simp: alt_round_def rd desc left(2) Let_def split: if_splits if_next.splits)
qed

lemma parse_alts_fault:
  assumes "parse_alts b if_num st = Some (Inl e)" "if_inv T st"
  shows "\<exists>k. is_off st \<le> k \<and> k < T \<and> risky_desc b if_num T k"
proof -
  have "r = Inl e \<longrightarrow> if_inv T st \<longrightarrow> (\<exists>k. is_off st \<le> k \<and> k < T \<and> risky_desc b if_num T k)"
    if "parse_alts b if_num st = Some r" for r
  proof (rule parse_alts.raw_induct[where P = "\<lambda>b n st r. r = Inl e \<longrightarrow> if_inv T st \<longrightarrow>
      (\<exists>k. is_off st \<le> k \<and> k < T \<and> risky_desc b n T k)", OF _ that], intro impI)
    fix f b n st r
    assume IH: "\<And>b n st r. f b n st = Some r \<Longrightarrow> r = Inl e \<longrightarrow> if_inv T st \<longrightarrow>
        (\<exists>k. is_off st \<le> k \<and> k < T \<and> risky_desc b n T k)"
      and eq: "(if 0 < is_len st then case alt_round b n st of Inl e \<Rightarrow> Some (Inl e)
          | Inr (Err_Out err) \<Rightarrow> Some (Inr (Inl err)) | Inr (Parse_Done st') \<Rightarrow> Some (Inr (Inr st'))
          | Inr (Next_Round st') \<Rightarrow> f b n st' else Some (Inr (Inr st))) = Some r"
      and e: "r = Inl e" and inv: "if_inv T st"
    have len: "0 < is_len st" using eq e by (simp split: if_splits)
    show "\<exists>k. is_off st \<le> k \<and> k < T \<and> risky_desc b n T k"
    proof (cases "alt_round b n st")
      case (Inl e')
      then show ?thesis using alt_round_fault[OF inv len Inl] inv len by (intro exI[of _ "is_off st"]) (auto simp: if_inv_def)
    next
      case (Inr x)
      then obtain st' where x: "x = Next_Round st'" "f b n st' = Some (Inl e)" using eq len e by (cases x) auto
      have "if_inv T st'" "is_len st' \<le> is_len st" using alt_round_ok[OF inv len, of b n] Inr x(1) by (simp_all add: round_ok_def)
      then have "is_off st \<le> is_off st'" using inv by (auto simp: if_inv_def)
      moreover obtain k where "is_off st' \<le> k" "k < T" "risky_desc b n T k" using IH[OF x(2)] \<open>if_inv T st'\<close> by blast
      ultimately show ?thesis by (intro exI[of _ k]) simp
    qed
  qed
  then show ?thesis using assms by blast
qed

section \<open>Termination\<close>

text \<open>A descriptor of length zero that is no interface descriptor.\<close>

definition zero_desc :: "cfd \<Rightarrow> int \<Rightarrow> bool" where
  "zero_desc b o' \<longleftrightarrow> b o' = 0 \<and> b (o' + 1) \<noteq> USB_DT_INTERFACE"

text \<open>The outer loop does not return from there.\<close>

lemma parse_alts_hangs:
  assumes "0 < is_len st" "0 \<le> is_off st" "is_off st + 1 < MAX_DESC_BUFF_SIZE" "zero_desc b (is_off st)"
  shows "parse_alts b if_num st = None"
proof (rule ccontr)
  assume "parse_alts b if_num st \<noteq> None"
  then obtain r where r: "parse_alts b if_num st = Some r" by blast
  define stuck where "stuck b st \<longleftrightarrow> 0 < is_len st \<and> 0 \<le> is_off st \<and> is_off st + 1 < MAX_DESC_BUFF_SIZE \<and>
    zero_desc b (is_off st)" for b and st :: if_state
  have "\<not> stuck b st"
  proof (rule parse_alts.raw_induct[where P = "\<lambda>b n st r. \<not> stuck b st", OF _ r])
    fix f b n st r
    assume IH: "\<And>b n st r. f b n st = Some r \<Longrightarrow> \<not> stuck b st"
      and eq: "(if 0 < is_len st then case alt_round b n st of Inl e \<Rightarrow> Some (Inl e)
          | Inr (Err_Out err) \<Rightarrow> Some (Inr (Inl err)) | Inr (Parse_Done st') \<Rightarrow> Some (Inr (Inr st'))
          | Inr (Next_Round st') \<Rightarrow> f b n st' else Some (Inr (Inr st))) = Some r"
    show "\<not> stuck b st"
    proof
      assume s: "stuck b st"
      then have "alt_round b n st = Inr (Next_Round st)"
        by (simp add: stuck_def zero_desc_def alt_round_def)
      with s eq IH[of b n st r] show False by (simp add: stuck_def)
    qed
  qed
  with assms show False by (simp add: stuck_def)
qed

text \<open>Everywhere else a round of the outer loop consumes bytes, so the loop returns.\<close>

lemma skip_unknown_zero: "0 < is_len st \<Longrightarrow> b (is_off st) = 0 \<Longrightarrow> skip_unknown b st \<noteq> Inr (Next_Round st')"
  by (subst skip_unknown.simps) (auto simp: rd8_def)

lemma next_round_iff:
  "(case r of Err_Out e \<Rightarrow> Inr (Err_Out e) | Parse_Done s \<Rightarrow> Inr (Parse_Done s) | Next_Round s \<Rightarrow> f s)
     = Inr (Next_Round st') \<longleftrightarrow> (\<exists>s. r = Next_Round s \<and> f s = Inr (Next_Round st'))"
  by (cases r) auto

lemma alt_round_progress:
  assumes "alt_round b if_num st = Inr (Next_Round st')" "if_inv T st" "0 < is_len st" "\<not> zero_desc b (is_off st)"
  shows "is_len st' < is_len st"
proof -
  let ?o = "is_off st"
  let ?st = "step_over (uint (b ?o)) st"
  have rd: "rd8 b ?o = Inr (b ?o)" "rd8 b (?o + 1) = Inr (b (?o + 1))" using assms by (auto simp: if_inv_def)
  have pos: "b w \<noteq> 0 \<Longrightarrow> 0 < uint (b w)" for w by (simp add: word_neq_0_conv word_less_def)
  show ?thesis
  proof (cases "b (?o + 1) = USB_DT_INTERFACE")
    case False
    then have "b ?o \<noteq> 0" using assms(4) by (simp add: zero_desc_def)
    then show ?thesis using assms(1) False rd pos by (auto simp: alt_round_def)
  next
    case True
    from assms(1) True rd obtain st1 n where st1: "skip_unknown b ?st = Inr (Next_Round st1)"
      "add_alt b ?o n st1 = Inr (Next_Round st')" "is_num_alt st < MAX_ALT_PER_IFACE" "uint n \<le> int MAX_EP_PER_IFACE"
      by (auto simp: alt_round_def Let_def sbind_eq_Inr_iff not_le not_less next_round_iff split: if_split_asm)
    have step: "if_inv T ?st" using assms(2,3) uint_u8_less[of "b ?o"] by (auto simp: if_inv_def)
    have 1: "if_inv T st1" "is_len st1 \<le> is_len ?st" "is_num_alt st1 = is_num_alt st"
      using skip_unknown_ok[OF step, of b] st1(1) by (auto simp: round_ok_def)
    have "is_len st' \<le> is_len st1"
      using add_alt_ok[OF 1(1), of n b ?o] st1 1(3) by (simp add: round_ok_def)
    moreover have "b ?o \<noteq> 0" using skip_unknown_zero[of st b st1] st1(1) assms(3) by auto
    ultimately show ?thesis using 1(2) pos[of ?o] by simp
  qed
qed

lemma parse_alts_returns:
  assumes "if_inv T st" "\<And>k. is_off st \<le> k \<Longrightarrow> k < T \<Longrightarrow> \<not> zero_desc b k"
  shows "\<exists>r. parse_alts b if_num st = Some r"
  using assms
proof (induction "nat (is_len st)" arbitrary: st rule: less_induct)
  case less
  show ?case
  proof (cases "\<exists>st'. 0 < is_len st \<and> alt_round b if_num st = Inr (Next_Round st')")
    case False
    then show ?thesis by (subst parse_alts.simps) (auto split: sum.splits if_next.splits)
  next
    case True
    then obtain st' where st': "0 < is_len st" "alt_round b if_num st = Inr (Next_Round st')" by blast
    have inv: "if_inv T st'" using alt_round_ok[OF less.prems(1) st'(1), of b if_num] st'(2) by (simp add: round_ok_def)
    have nz: "\<not> zero_desc b (is_off st)" using less.prems st'(1) by (auto simp: if_inv_def)
    have lt: "is_len st' < is_len st" by (rule alt_round_progress[OF st'(2) less.prems(1) st'(1) nz])
    then have le: "is_off st \<le> is_off st'" using inv less.prems(1) by (auto simp: if_inv_def)
    from lt st'(1) have "nat (is_len st') < nat (is_len st)" by simp
    then have "\<exists>r. parse_alts b if_num st' = Some r"
      by (rule less.hyps[OF _ inv]) (rule less.prems(2), use le in auto)
    then show ?thesis using st' by (subst parse_alts.simps) simp
  qed
qed

end
