(* ===== verification/Usb_Desc_Spec.thy ===== *)
theory Usb_Desc_Spec
  imports Usb_Desc_Facts
begin

text \<open>
  What the descriptor parser is for: the standard descriptors of an interface as a tree, their encoding in
  bytes, and the proof that the parser finds the tree again. Class specific descriptors may
  precede every endpoint and end every alternative setting.
\<close>

section \<open>Descriptor trees\<close>

record ep_spec =
  sp_pre :: "u8 list list"
  sp_bEndpointAddress :: u8
  sp_bmAttributes :: u8
  sp_wMaxPacketSize :: u16
  sp_bInterval :: u8
  sp_tail :: "u8 list"

record alt_spec =
  sa_bInterfaceNumber :: u8
  sa_bAlternateSetting :: u8
  sa_class :: "u8 list"
  sa_eps :: "ep_spec list"
  sa_post :: "u8 list list"

definition enc_ep_desc :: "ep_spec \<Rightarrow> u8 list" where
  "enc_ep_desc e = [word_of_nat (7 + length (sp_tail e)), USB_DT_ENDPOINT, sp_bEndpointAddress e,
     sp_bmAttributes e, ucast (sp_wMaxPacketSize e), ucast (drop_bit 8 (sp_wMaxPacketSize e)),
     sp_bInterval e] @ sp_tail e"

definition enc_ep :: "ep_spec \<Rightarrow> u8 list" where
  "enc_ep e = concat (sp_pre e) @ enc_ep_desc e"

definition enc_if_desc :: "alt_spec \<Rightarrow> u8 list" where
  "enc_if_desc a = [9, USB_DT_INTERFACE, sa_bInterfaceNumber a, sa_bAlternateSetting a,
     word_of_nat (length (sa_eps a))] @ sa_class a"

definition enc_alt :: "alt_spec \<Rightarrow> u8 list" where
  "enc_alt a = enc_if_desc a @ concat (map enc_ep (sa_eps a)) @ concat (sa_post a)"

definition enc_iface :: "alt_spec list \<Rightarrow> u8 list" where
  "enc_iface as = concat (map enc_alt as)"

text \<open>A class specific descriptor, and the limits of the driver.\<close>

definition class_desc :: "u8 list \<Rightarrow> bool" where
  "class_desc d \<longleftrightarrow> 2 \<le> length d \<and> length d < 256 \<and> d ! 0 = word_of_nat (length d) \<and>
     d ! 1 \<notin> {USB_DT_CONFIGURATION, USB_DT_INTERFACE, USB_DT_ENDPOINT}"

definition wf_ep :: "ep_spec \<Rightarrow> bool" where
  "wf_ep e \<longleftrightarrow> list_all class_desc (sp_pre e) \<and> length (sp_tail e) < 249"

definition wf_alt :: "alt_spec \<Rightarrow> bool" where
  "wf_alt a \<longleftrightarrow> length (sa_class a) = 4 \<and> length (sa_eps a) \<le> MAX_EP_PER_IFACE \<and>
     list_all wf_ep (sa_eps a) \<and> list_all class_desc (sa_post a)"

definition wf_iface :: "u8 \<Rightarrow> alt_spec list \<Rightarrow> bool" where
  "wf_iface n as \<longleftrightarrow> as \<noteq> [] \<and> length as \<le> MAX_ALT_PER_IFACE \<and>
     list_all (\<lambda>a. wf_alt a \<and> sa_bInterfaceNumber a = n) as"

text \<open>What the driver keeps of an endpoint, and of an alternative setting whose descriptor is at \<open>off\<close>.\<close>

definition ep_info :: "ep_spec \<Rightarrow> EP_INFO_T" where
  "ep_info e = EP_zero\<lparr>ep_bEndpointAddress := sp_bEndpointAddress e, ep_bmAttributes := sp_bmAttributes e,
     ep_bInterval := sp_bInterval e, ep_wMaxPacketSize := ep_packet_size (sp_wMaxPacketSize e)\<rparr>"

definition ep_array :: "ep_spec list \<Rightarrow> EP_INFO_T list" where
  "ep_array es = map ep_info es @ replicate (MAX_EP_PER_IFACE - length es) EP_zero"

definition alt_image :: "int \<Rightarrow> alt_spec \<Rightarrow> ALT_IFACE_T" where
  "alt_image off a = \<lparr>alt_ifd = Some off, alt_ep = ep_array (sa_eps a)\<rparr>"

fun alt_images :: "int \<Rightarrow> alt_spec list \<Rightarrow> ALT_IFACE_T list" where
  "alt_images off [] = []"
| "alt_images off (a # as) = alt_image off a # alt_images (off + int (length (enc_alt a))) as"

definition alt_array :: "ALT_IFACE_T list \<Rightarrow> ALT_IFACE_T list" where
  "alt_array as = as @ replicate (MAX_ALT_PER_IFACE - length as) ALT_zero"

section \<open>Bytes in the buffer\<close>

fun holds :: "cfd \<Rightarrow> int \<Rightarrow> u8 list \<Rightarrow> bool" where
  "holds b off [] = True"
| "holds b off (x # xs) \<longleftrightarrow> b off = x \<and> holds b (off + 1) xs"

lemma holds_append [simp]: "holds b off (xs @ ys) \<longleftrightarrow> holds b off xs \<and> holds b (off + int (length xs)) ys"
  by (induction xs arbitrary: off) (auto simp: algebra_simps)

lemma holds_nth: "holds b off xs \<Longrightarrow> i < length xs \<Longrightarrow> b (off + int i) = xs ! i"
proof (induction xs arbitrary: off i)
  case (Cons x xs)
  then show ?case using Cons.IH[of "off + 1" "i - 1"] by (cases i) (auto simp: add.assoc)
qed simp

lemma uint_length_byte: "n < 256 \<Longrightarrow> uint (word_of_nat n :: u8) = int n"
  by (simp add: unsigned_of_nat take_bit_nat_eq_self)

lemma unat_length_byte: "n < 256 \<Longrightarrow> unat (word_of_nat n :: u8) = n"
  by (simp add: unsigned_of_nat take_bit_nat_eq_self)

text \<open>What the loops look at in a class specific descriptor.\<close>

lemma class_descD:
  assumes "class_desc d" "holds b off d"
  shows "uint (b off) = int (length d)" "2 \<le> int (length d)"
    "b (off + 1) \<notin> {USB_DT_CONFIGURATION, USB_DT_INTERFACE, USB_DT_ENDPOINT}"
  using assms holds_nth[OF assms(2), of 0] holds_nth[OF assms(2), of 1]
  by (fastforce simp: class_desc_def uint_length_byte)+

lemma bytes_of_u16: "ucast (ucast x :: u8) OR push_bit 8 (ucast (ucast (drop_bit 8 x) :: u8)) = x" for x :: u16
proof (rule bit_word_eqI)
  fix n :: nat
  assume "n < LENGTH(16)"
  then show "bit (ucast (ucast x :: u8) OR push_bit 8 (ucast (ucast (drop_bit 8 x) :: u8)) :: u16) n \<longleftrightarrow> bit x n"
    by (cases "n < 8") (auto simp: bit_simps)
qed

section \<open>Endpoints\<close>

lemma ep_descD:
  assumes "holds b off (enc_ep_desc e)" "wf_ep e"
  shows "uint (b off) = int (length (enc_ep_desc e))" "7 \<le> length (enc_ep_desc e)" "b (off + 1) = USB_DT_ENDPOINT"
    "b (off + 2) = sp_bEndpointAddress e" "b (off + 3) = sp_bmAttributes e" "b (off + 6) = sp_bInterval e"
    "ucast (b (off + 4)) OR push_bit 8 (ucast (b (off + 5))) = sp_wMaxPacketSize e"
  using assms uint_length_byte[of "7 + length (sp_tail e)"]
  by (simp_all add: enc_ep_desc_def wf_ep_def bytes_of_u16 add.assoc)

lemma ep_find_enc:
  assumes "list_all class_desc ds" "holds b off (concat ds @ enc_ep_desc e)" "wf_ep e" "0 \<le> off"
    "int (length (concat ds @ enc_ep_desc e)) \<le> len" "off + len \<le> MAX_DESC_BUFF_SIZE"
  shows "ep_find b off len p d = Inr (Inr (p + int (length (concat ds)), Some (off + int (length (concat ds)))))"
  using assms
proof (induction ds arbitrary: off len p d)
  case Nil
  then show ?case using ep_descD[of b off e] by (subst ep_find.simps) simp
next
  case (Cons x ds)
  have x: "class_desc x" "holds b off x" using Cons.prems by auto
  note cd = class_descD[OF x]
  have "ep_find b off len p d = ep_find b (off + int (length x)) (len - int (length x)) (p + int (length x)) (Some off)"
    using Cons.prems cd by (subst ep_find.simps) auto
  also have "\<dots> = Inr (Inr (p + int (length x) + int (length (concat ds)), Some (off + int (length x) + int (length (concat ds)))))"
    by (rule Cons.IH) (use Cons.prems in auto)
  finally show ?case by simp
qed

lemma usbh_parse_endpoint_enc:
  assumes "wf_ep e" "holds b off (enc_ep e)" "0 \<le> off" "int (length (enc_ep e)) \<le> len"
    "off + len \<le> MAX_DESC_BUFF_SIZE" "i < length (alt_ep alt)" "alt_ep alt ! i = EP_zero"
  shows "usbh_parse_endpoint b alt i off len = Inr (int (length (enc_ep e)),
           alt\<lparr>alt_ep := (alt_ep alt)[i := ep_info e]\<rparr>)"
proof -
  let ?d = "off + int (length (concat (sp_pre e)))"
  have f: "ep_find b off len 0 None = Inr (Inr (0 + int (length (concat (sp_pre e))), Some ?d))"
    by (rule ep_find_enc) (use assms in \<open>auto simp: enc_ep_def wf_ep_def\<close>)
  have h: "holds b ?d (enc_ep_desc e)" using assms(2) by (simp add: enc_ep_def)
  note ed = ep_descD[OF h assms(1)]
  have r: "?d + 6 < MAX_DESC_BUFF_SIZE" using assms(4,5) ed(2) by (simp add: enc_ep_def)
  show ?thesis
    using assms f r ed
    by (simp add: usbh_parse_endpoint_def ep_info_def enc_ep_def EP_zero_def add.assoc)
qed

text \<open>The loop over the endpoints, the first \<open>es\<close> of which are done.\<close>

lemma ep_array_update:
  "length es < MAX_EP_PER_IFACE \<Longrightarrow> (ep_array es)[length es := ep_info e] = ep_array (es @ [e])"
  by (simp add: ep_array_def list_update_append nth_append del: replicate.simps)
     (cases "MAX_EP_PER_IFACE - length es"; simp)

lemma parse_endpoints_enc:
  assumes "list_all wf_ep rest" "holds b (is_off st) (concat (map enc_ep rest))" "0 \<le> is_off st"
    "int (length (concat (map enc_ep rest))) \<le> is_len st" "is_off st + is_len st \<le> MAX_DESC_BUFF_SIZE"
    "is_num_alt st = Suc k" "k < length (is_alt st)" "alt_ep (is_alt st ! k) = ep_array es"
    "length es + length rest \<le> MAX_EP_PER_IFACE"
  shows "parse_endpoints b (length rest) (length es) st =
    Inr (Next_Round (step_over (int (length (concat (map enc_ep rest))))
      (st\<lparr>is_alt := (is_alt st)[k := (is_alt st ! k)\<lparr>alt_ep := ep_array (es @ rest)\<rparr>]\<rparr>)))"
  using assms
proof (induction rest arbitrary: st es)
  case Nil
  have "(is_alt st ! k)\<lparr>alt_ep := ep_array es\<rparr> = is_alt st ! k" using Nil(8)[symmetric] by simp
  then show ?case by simp
next
  case (Cons e rest)
  let ?a = "is_alt st ! k"
  let ?n = "int (length (enc_ep e))"
  let ?st = "step_over ?n (st\<lparr>is_alt := (is_alt st)[k := ?a\<lparr>alt_ep := ep_array (es @ [e])\<rparr>]\<rparr>)"
  have len: "length es < length (ep_array es)" "ep_array es ! length es = EP_zero"
    using Cons.prems by (simp_all add: ep_array_def nth_append)
  have "usbh_parse_endpoint b ?a (length es) (is_off st) (is_len st) =
      Inr (?n, ?a\<lparr>alt_ep := (alt_ep ?a)[length es := ep_info e]\<rparr>)"
    by (rule usbh_parse_endpoint_enc) (use Cons.prems len in auto)
  then have "parse_endpoints b (length (e # rest)) (length es) st = parse_endpoints b (length rest) (length (es @ [e])) ?st"
    using Cons.prems by (simp add: Let_def ep_array_update)
  also have "\<dots> = Inr (Next_Round (step_over (int (length (concat (map enc_ep rest))))
      (?st\<lparr>is_alt := (is_alt ?st)[k := (is_alt ?st ! k)\<lparr>alt_ep := ep_array ((es @ [e]) @ rest)\<rparr>]\<rparr>)))"
    by (rule Cons.IH) (use Cons.prems in auto)
  finally show ?case using Cons.prems by (simp add: step_over_def)
qed

section \<open>Alternative settings\<close>

text \<open>What follows at \<open>q\<close>: nothing, or another interface descriptor.\<close>

definition next_ok :: "cfd \<Rightarrow> int \<Rightarrow> int \<Rightarrow> bool" where
  "next_ok b q T \<longleftrightarrow> q = T \<or> q + 9 \<le> T \<and> b q = 9 \<and> b (q + 1) = USB_DT_INTERFACE"

lemma skip_unknown_enc:
  assumes "list_all class_desc ds" "holds b (is_off st) (concat ds)" "0 \<le> is_off st"
    "is_off st + is_len st \<le> MAX_DESC_BUFF_SIZE" "q = is_off st + int (length (concat ds))"
    "q \<le> is_off st + is_len st"
    "q < is_off st + is_len st \<Longrightarrow> 2 \<le> uint (b q) \<and> q + uint (b q) \<le> is_off st + is_len st \<and>
       b (q + 1) \<in> {USB_DT_INTERFACE, USB_DT_ENDPOINT}"
  shows "\<exists>h. skip_unknown b st = Inr (Next_Round (step_over (int (length (concat ds))) (st\<lparr>is_hdr := h\<rparr>))) \<and>
    (q < is_off st + is_len st \<longrightarrow> h = Some q)"
  using assms
proof (induction ds arbitrary: st)
  case Nil
  show ?case
  proof (cases "0 < is_len st")
    case True
    then show ?thesis using Nil by (subst skip_unknown.simps) (auto simp: Let_def)
  next
    case False
    then have "skip_unknown b st = Inr (Next_Round (st\<lparr>is_hdr := is_hdr st\<rparr>))"
      by (subst skip_unknown.simps) simp
    with False Nil show ?thesis by (intro exI[of _ "is_hdr st"]) simp
  qed
next
  case (Cons x ds)
  let ?st = "step_over (int (length x)) (st\<lparr>is_hdr := Some (is_off st)\<rparr>)"
  have x: "class_desc x" "holds b (is_off st) x" using Cons.prems by auto
  note cd = class_descD[OF x]
  have "skip_unknown b st = skip_unknown b ?st"
    using Cons.prems cd by (subst skip_unknown.simps) (auto simp: Let_def)
  moreover have "\<exists>h. skip_unknown b ?st = Inr (Next_Round (step_over (int (length (concat ds))) (?st\<lparr>is_hdr := h\<rparr>))) \<and>
    (q < is_off ?st + is_len ?st \<longrightarrow> h = Some q)"
    by (rule Cons.IH) (use Cons.prems in auto)
  ultimately show ?case by (simp add: step_over_def add.assoc diff_diff_eq)
qed

text \<open>The outer loop steps over class specific descriptors.\<close>

lemma parse_alts_skip:
  assumes "list_all class_desc ds" "holds b (is_off st) (concat ds)" "0 \<le> is_off st"
    "is_off st + is_len st \<le> MAX_DESC_BUFF_SIZE" "int (length (concat ds)) \<le> is_len st"
  shows "parse_alts b n st = parse_alts b n (step_over (int (length (concat ds))) st)"
  using assms
proof (induction ds arbitrary: st)
  case (Cons x ds)
  let ?st = "step_over (int (length x)) st"
  have x: "class_desc x" "holds b (is_off st) x" using Cons.prems by auto
  note cd = class_descD[OF x]
  have "alt_round b n st = Inr (Next_Round ?st)" using Cons.prems cd by (auto simp: alt_round_def)
  then have "parse_alts b n st = parse_alts b n ?st" using Cons.prems cd(2) by (subst parse_alts.simps) simp
  also have "\<dots> = parse_alts b n (step_over (int (length (concat ds))) ?st)"
    by (rule Cons.IH) (use Cons.prems in auto)
  finally show ?case by simp
qed simp

text \<open>Between two rounds: the settings \<open>as\<close> found so far, the position \<open>p\<close>, the end \<open>T\<close>.\<close>

definition at_state :: "int \<Rightarrow> int \<Rightarrow> int \<Rightarrow> ALT_IFACE_T list \<Rightarrow> if_state \<Rightarrow> bool" where
  "at_state off T p as st \<longleftrightarrow> is_off st = p \<and> is_len st = T - p \<and> is_parsed st = p - off \<and>
     is_num_alt st = length as \<and> is_alt st = alt_array as"

lemma alt_array_facts:
  assumes "length as < MAX_ALT_PER_IFACE"
  shows "length as < length (alt_array as)" "alt_array as ! length as = ALT_zero"
    "(alt_array as)[length as := x] = alt_array (as @ [x])"
proof -
  show "length as < length (alt_array as)" "alt_array as ! length as = ALT_zero"
    using assms by (simp_all add: alt_array_def nth_append)
  show "(alt_array as)[length as := x] = alt_array (as @ [x])"
    using assms by (cases "MAX_ALT_PER_IFACE - length as") (simp_all add: alt_array_def list_update_append)
qed

lemma ALT_zero_ep: "alt_ep ALT_zero = ep_array []"
  by (simp add: ALT_zero_def ep_array_def)

text \<open>The interface descriptor of a setting, up to where the search for endpoints begins.\<close>

lemma alt_round_if_desc:
  assumes "wf_alt a" "holds b (is_off st) (enc_if_desc a)" "0 \<le> is_off st" "9 \<le> is_len st"
    "is_off st + is_len st \<le> MAX_DESC_BUFF_SIZE" "is_num_alt st < MAX_ALT_PER_IFACE"
  shows "alt_round b (sa_bInterfaceNumber a) st = sbind (skip_unknown b (step_over 9 st)) (\<lambda>r. case r of
        Err_Out err \<Rightarrow> Inr (Err_Out err)
      | Parse_Done st1 \<Rightarrow> Inr (Parse_Done st1)
      | Next_Round st1 \<Rightarrow> add_alt b (is_off st) (word_of_nat (length (sa_eps a))) st1)"
proof -
  have n: "uint (word_of_nat (length (sa_eps a)) :: u8) = int (length (sa_eps a))"
    using assms(1) by (intro uint_length_byte) (simp add: wf_alt_def)
  have "b (is_off st) = 9" "b (is_off st + 1) = USB_DT_INTERFACE" "b (is_off st + 2) = sa_bInterfaceNumber a"
    "b (is_off st + 4) = word_of_nat (length (sa_eps a))"
    using assms(2) by (simp_all add: enc_if_desc_def add.assoc)
  then show ?thesis using assms n by (simp add: alt_round_def wf_alt_def)
qed

lemma length_enc_if_desc: "wf_alt a \<Longrightarrow> length (enc_if_desc a) = 9"
  by (simp add: enc_if_desc_def wf_alt_def)

text \<open>A setting without endpoints.\<close>

lemma parse_alts_no_eps:
  assumes "at_state off T p as st" "wf_alt a" "holds b p (enc_alt a)" "length as < MAX_ALT_PER_IFACE" "0 \<le> p"
    "T \<le> MAX_DESC_BUFF_SIZE" "q = p + int (length (enc_alt a))" "q \<le> T" "next_ok b q T" "sa_eps a = []"
  shows "\<exists>st'. at_state off T q (as @ [alt_image p a]) st' \<and>
    parse_alts b (sa_bInterfaceNumber a) st = parse_alts b (sa_bInterfaceNumber a) st'"
proof -
  let ?n = "int (length (concat (sa_post a)))"
  note st = assms(1)[unfolded at_state_def] and l9 = length_enc_if_desc[OF assms(2)]
  have q: "q = p + 9 + ?n" using assms(7,10) l9 by (simp add: enc_alt_def)
  have "\<exists>h. skip_unknown b (step_over 9 st) = Inr (Next_Round (step_over ?n ((step_over 9 st)\<lparr>is_hdr := h\<rparr>))) \<and>
    (q < is_off (step_over 9 st) + is_len (step_over 9 st) \<longrightarrow> h = Some q)"
    by (rule skip_unknown_enc) (use assms st l9 q in \<open>auto simp: enc_alt_def wf_alt_def next_ok_def\<close>)
  then obtain h where sk: "skip_unknown b (step_over 9 st) = Inr (Next_Round (step_over ?n ((step_over 9 st)\<lparr>is_hdr := h\<rparr>)))"
    and h: "q < T \<Longrightarrow> h = Some q" using st by auto
  define st1 where "st1 = step_over ?n ((step_over 9 st)\<lparr>is_hdr := h\<rparr>)"
  define st2 where "st2 = st1\<lparr>is_alt := (is_alt st1)[is_num_alt st1 :=
      (is_alt st1 ! is_num_alt st1)\<lparr>alt_ifd := Some p\<rparr>], is_num_alt := is_num_alt st1 + 1\<rparr>"
  have at2: "at_state off T q (as @ [alt_image p a]) st2"
    using st q alt_array_facts[OF assms(4)] assms(10) ALT_zero_ep
    by (auto simp: at_state_def st1_def st2_def alt_image_def ALT_zero_def ep_array_def)
  have "alt_round b (sa_bInterfaceNumber a) st = sbind (skip_unknown b (step_over 9 st)) (\<lambda>r. case r of
        Err_Out err \<Rightarrow> Inr (Err_Out err) | Parse_Done st1 \<Rightarrow> Inr (Parse_Done st1)
      | Next_Round st1 \<Rightarrow> add_alt b (is_off st) (word_of_nat (length (sa_eps a))) st1)"
    by (rule alt_round_if_desc) (use assms st q in \<open>auto simp: enc_alt_def\<close>)
  then have rnd: "alt_round b (sa_bInterfaceNumber a) st = add_alt b p 0 st1"
    using sk st assms(10) by (simp add: st1_def)
  have add: "add_alt b p 0 st1 = (if q = T then Inr (Parse_Done st2) else Inr (Next_Round st2))"
    using st q h alt_array_facts(1)[OF assms(4)] assms(5,6,8,9)
    by (auto simp: add_alt_def st1_def st2_def next_ok_def)
  have len: "0 < is_len st" using st q assms(8) by simp
  have "parse_alts b (sa_bInterfaceNumber a) st = parse_alts b (sa_bInterfaceNumber a) st2"
  proof (cases "q = T")
    case True
    then have "parse_alts b (sa_bInterfaceNumber a) st = Some (Inr (Inr st2))"
      using rnd add len by (subst parse_alts.simps) simp
    moreover have "parse_alts b (sa_bInterfaceNumber a) st2 = Some (Inr (Inr st2))"
      using at2 True by (subst parse_alts.simps) (simp add: at_state_def)
    ultimately show ?thesis by simp
  next
    case False
    then show ?thesis using rnd add len by (subst parse_alts.simps) simp
  qed
  with at2 show ?thesis by blast
qed

text \<open>A setting with endpoints.\<close>

lemma ep_array_pre: "ep_array (e\<lparr>sp_pre := ds\<rparr> # es) = ep_array (e # es)"
  by (simp add: ep_array_def ep_info_def)

lemma parse_alts_eps:
  assumes "at_state off T p as st" "wf_alt a" "holds b p (enc_alt a)" "length as < MAX_ALT_PER_IFACE" "0 \<le> p"
    "T \<le> MAX_DESC_BUFF_SIZE" "q = p + int (length (enc_alt a))" "q \<le> T" "sa_eps a = e # es"
  shows "\<exists>st'. at_state off T q (as @ [alt_image p a]) st' \<and>
    parse_alts b (sa_bInterfaceNumber a) st = parse_alts b (sa_bInterfaceNumber a) st'"
proof -
  let ?n = "int (length (concat (sp_pre e)))"
  let ?e = "e\<lparr>sp_pre := []\<rparr>"
  let ?m = "int (length (concat (map enc_ep (?e # es))))"
  let ?k = "int (length (concat (sa_post a)))"
  note st = assms(1)[unfolded at_state_def] and l9 = length_enc_if_desc[OF assms(2)]
  have e: "enc_ep e = concat (sp_pre e) @ enc_ep ?e" by (simp add: enc_ep_def enc_ep_desc_def)
  have q: "q = p + 9 + ?n + ?m + ?k" using assms(7,9) l9 by (simp add: enc_alt_def enc_ep_def enc_ep_desc_def)
  have hold: "holds b (p + 9) (concat (sp_pre e))" "holds b (p + 9 + ?n) (concat (map enc_ep (?e # es)))"
    "holds b (p + 9 + ?n + ?m) (concat (sa_post a))"
    using assms(3,9) l9 by (auto simp: enc_alt_def e add.assoc)
  have wf: "wf_ep ?e" "list_all wf_ep es" "list_all class_desc (sp_pre e)" "list_all class_desc (sa_post a)"
    "length es < MAX_EP_PER_IFACE" using assms(2,9) by (auto simp: wf_alt_def wf_ep_def)
  have d: "holds b (p + 9 + ?n) (enc_ep_desc ?e)" using hold(2) by (simp add: enc_ep_def)
  note ed = ep_descD[OF d wf(1)]
  have m: "int (length (enc_ep_desc ?e)) \<le> ?m" by (simp add: enc_ep_def)
  have "\<exists>h. skip_unknown b (step_over 9 st) = Inr (Next_Round (step_over ?n ((step_over 9 st)\<lparr>is_hdr := h\<rparr>))) \<and>
    (p + 9 + ?n < is_off (step_over 9 st) + is_len (step_over 9 st) \<longrightarrow> h = Some (p + 9 + ?n))"
    by (rule skip_unknown_enc) (use assms(5,6,8) st q hold(1) wf(3) ed(1-3) m in auto)
  then obtain h where sk: "skip_unknown b (step_over 9 st) = Inr (Next_Round (step_over ?n ((step_over 9 st)\<lparr>is_hdr := h\<rparr>)))"
    and h: "h = Some (p + 9 + ?n)" using st q assms(8) ed(2) m by auto
  define st1 where "st1 = step_over ?n ((step_over 9 st)\<lparr>is_hdr := h\<rparr>)"
  define st2 where "st2 = st1\<lparr>is_alt := (is_alt st1)[is_num_alt st1 :=
      (is_alt st1 ! is_num_alt st1)\<lparr>alt_ifd := Some p\<rparr>], is_num_alt := is_num_alt st1 + 1\<rparr>"
  define st3 where "st3 = step_over ?m (st2\<lparr>is_alt := (is_alt st2)[length as :=
      (is_alt st2 ! length as)\<lparr>alt_ep := ep_array ([] @ ?e # es)\<rparr>]\<rparr>)"
  have len: "0 < is_len st" "is_len st1 \<noteq> 0" using st q assms(8) ed(2) m by (auto simp: st1_def)
  have "alt_round b (sa_bInterfaceNumber a) st = sbind (skip_unknown b (step_over 9 st)) (\<lambda>r. case r of
        Err_Out err \<Rightarrow> Inr (Err_Out err) | Parse_Done st1 \<Rightarrow> Inr (Parse_Done st1)
      | Next_Round st1 \<Rightarrow> add_alt b (is_off st) (word_of_nat (length (sa_eps a))) st1)"
    by (rule alt_round_if_desc) (use assms st q in \<open>auto simp: enc_alt_def\<close>)
  moreover have "add_alt b p (word_of_nat (length (sa_eps a))) st1 = parse_endpoints b (length (sa_eps a)) 0 st2"
  proof -
    have u: "unat (word_of_nat (length (sa_eps a)) :: u8) = length (sa_eps a)"
      by (rule unat_length_byte) (use wf(5) assms(9) in simp)
    have r: "p + 9 + ?n + 1 < MAX_DESC_BUFF_SIZE" using q assms(6,8) ed(2) m by linarith
    show ?thesis
      using st h len u r ed(3) alt_array_facts(1)[OF assms(4)] assms(5)
      by (simp add: add_alt_def st1_def st2_def)
  qed
  moreover have "parse_endpoints b (length (?e # es)) (length ([] :: ep_spec list)) st2 = Inr (Next_Round st3)"
    unfolding st3_def
    by (rule parse_endpoints_enc)
       (use st q hold(2) wf assms(5,6,8) alt_array_facts(1,2)[OF assms(4)] ALT_zero_ep in \<open>auto simp: st1_def st2_def\<close>)
  ultimately have "alt_round b (sa_bInterfaceNumber a) st = Inr (Next_Round st3)"
    using sk st assms(9) by (simp add: st1_def)
  then have "parse_alts b (sa_bInterfaceNumber a) st = parse_alts b (sa_bInterfaceNumber a) st3"
    using len by (subst parse_alts.simps) simp
  also have "\<dots> = parse_alts b (sa_bInterfaceNumber a) (step_over ?k st3)"
    by (rule parse_alts_skip) (use st q hold(3) wf assms(5,6,8) in \<open>auto simp: st1_def st2_def st3_def\<close>)
  finally have "parse_alts b (sa_bInterfaceNumber a) st = parse_alts b (sa_bInterfaceNumber a) (step_over ?k st3)" .
  moreover have "at_state off T q (as @ [alt_image p a]) (step_over ?k st3)"
    using st q alt_array_facts(1,2)[OF assms(4)] assms(9)
    by (auto simp: at_state_def st1_def st2_def st3_def alt_image_def ALT_zero_def ep_array_pre
        alt_array_facts(3)[OF assms(4), symmetric])
  ultimately show ?thesis by blast
qed

section \<open>Interfaces\<close>

lemma parse_alts_alt:
  assumes "at_state off T p as st" "wf_alt a" "holds b p (enc_alt a)" "length as < MAX_ALT_PER_IFACE" "0 \<le> p"
    "T \<le> MAX_DESC_BUFF_SIZE" "q = p + int (length (enc_alt a))" "q \<le> T" "next_ok b q T"
  shows "\<exists>st'. at_state off T q (as @ [alt_image p a]) st' \<and>
    parse_alts b (sa_bInterfaceNumber a) st = parse_alts b (sa_bInterfaceNumber a) st'"
proof (cases "sa_eps a")
  case Nil
  show ?thesis by (rule parse_alts_no_eps) (use assms Nil in auto)
next
  case (Cons e es)
  show ?thesis by (rule parse_alts_eps) (use assms Cons in auto)
qed

lemma enc_alt_head: "wf_alt a \<Longrightarrow> holds b p (enc_alt a) \<Longrightarrow> b p = 9 \<and> b (p + 1) = USB_DT_INTERFACE \<and> 9 \<le> length (enc_alt a)"
  by (auto simp: enc_alt_def enc_if_desc_def wf_alt_def)

lemma parse_alts_enc:
  assumes "at_state off T p done' st" "list_all (\<lambda>a. wf_alt a \<and> sa_bInterfaceNumber a = n) as"
    "holds b p (enc_iface as)" "length done' + length as \<le> MAX_ALT_PER_IFACE" "0 \<le> p"
    "T \<le> MAX_DESC_BUFF_SIZE" "q = p + int (length (enc_iface as))" "q \<le> T" "next_ok b q T"
  shows "\<exists>st'. at_state off T q (done' @ alt_images p as) st' \<and> parse_alts b n st = parse_alts b n st'"
  using assms
proof (induction as arbitrary: p done' st)
  case Nil
  then show ?case by (auto simp: enc_iface_def)
next
  case (Cons a as)
  let ?p = "p + int (length (enc_alt a))"
  have h: "holds b p (enc_alt a)" "holds b ?p (enc_iface as)" using Cons.prems by (auto simp: enc_iface_def)
  have a: "wf_alt a" "sa_bInterfaceNumber a = n" using Cons.prems by auto
  have q: "q = ?p + int (length (enc_iface as))" using Cons.prems by (simp add: enc_iface_def)
  have nxt: "next_ok b ?p T"
  proof (cases as)
    case Nil
    with Cons.prems q show ?thesis by (simp add: enc_iface_def)
  next
    case (Cons a' as')
    then show ?thesis using enc_alt_head[of a' b ?p] Cons.prems h(2) q
      by (auto simp: next_ok_def enc_iface_def)
  qed
  have "\<exists>st'. at_state off T ?p (done' @ [alt_image p a]) st' \<and>
      parse_alts b (sa_bInterfaceNumber a) st = parse_alts b (sa_bInterfaceNumber a) st'"
    by (rule parse_alts_alt) (use Cons.prems h a q nxt in auto)
  then obtain st1 where st1: "at_state off T ?p (done' @ [alt_image p a]) st1" "parse_alts b n st = parse_alts b n st1"
    using a by blast
  have "\<exists>st'. at_state off T q ((done' @ [alt_image p a]) @ alt_images ?p as) st' \<and> parse_alts b n st1 = parse_alts b n st'"
    by (rule Cons.IH) (use Cons.prems h q st1 in auto)
  then show ?case using st1 by auto
qed

text \<open>
  The bytes of an interface, at \<open>off\<close> with \<open>len\<close> bytes left, followed by another interface
  or by nothing: the settings, and the number of bytes consumed.
\<close>

definition ends_iface :: "cfd \<Rightarrow> u8 \<Rightarrow> int \<Rightarrow> int \<Rightarrow> bool" where
  "ends_iface b n q T \<longleftrightarrow> next_ok b q T \<and> (q < T \<longrightarrow> b (q + 2) \<noteq> n)"

lemma scan_interface_enc:
  assumes "wf_iface n as" "holds b off (enc_iface as)" "0 \<le> off" "int (length (enc_iface as)) \<le> len"
    "off + len \<le> MAX_DESC_BUFF_SIZE" "ends_iface b n (off + int (length (enc_iface as))) (off + len)"
  shows "\<exists>st. scan_interface b off len = Some (Inr (n, Inr st)) \<and> is_parsed st = int (length (enc_iface as)) \<and>
    is_num_alt st = length as \<and> is_alt st = alt_array (alt_images off as)"
proof -
  let ?T = "off + len"
  let ?q = "off + int (length (enc_iface as))"
  define st0 where "st0 = \<lparr>is_off = off, is_len = len, is_parsed = 0, is_hdr = None,
    is_alt = replicate MAX_ALT_PER_IFACE ALT_zero, is_num_alt = 0\<rparr>"
  obtain a as' where as: "as = a # as'" using assms(1) by (cases as) (auto simp: wf_iface_def)
  have a: "wf_alt a" "sa_bInterfaceNumber a = n" "holds b off (enc_alt a)"
    using assms(1,2) as by (auto simp: wf_iface_def enc_iface_def)
  have n: "b (off + 2) = n" using a by (simp add: enc_alt_def enc_if_desc_def add.assoc)
  have L: "9 \<le> length (enc_iface as)" using enc_alt_head[OF a(1,3)] as by (simp add: enc_iface_def)
  have "\<exists>st'. at_state off ?T ?q ([] @ alt_images off as) st' \<and> parse_alts b n st0 = parse_alts b n st'"
    by (rule parse_alts_enc)
       (use assms in \<open>auto simp: wf_iface_def ends_iface_def at_state_def st0_def alt_array_def\<close>)
  then obtain st where st: "at_state off ?T ?q (alt_images off as) st" "parse_alts b n st0 = parse_alts b n st"
    by auto
  have "parse_alts b n st = Some (Inr (Inr st))"
  proof (cases "?q = ?T")
    case True
    then show ?thesis using st(1) by (subst parse_alts.simps) (simp add: at_state_def)
  next
    case False
    then have "alt_round b n st = Inr (Parse_Done st)"
      using assms(3-6) st(1) by (auto simp: alt_round_def at_state_def ends_iface_def next_ok_def)
    then show ?thesis using False st(1) assms(4) by (subst parse_alts.simps) (simp add: at_state_def)
  qed
  moreover have "length (alt_images k xs) = length xs" for k xs by (induction xs arbitrary: k) auto
  moreover have "scan_interface b off len = map_option (map_sum id (Pair n)) (parse_alts b n st0)"
    using n L assms(3-5) by (simp add: scan_interface_def st0_def)
  ultimately show ?thesis using st by (auto simp: at_state_def)
qed

end
