(* ===== verification/Usb_Core_Facts.thy ===== *)
theory Usb_Core_Facts
  imports Usb_Core Usb_Desc_Spec Usb_Mem_Facts
begin

text \<open>
  Reasoning about the operations of the USB core: what a computation keeps of the state
  (\<open>keeps\<close>), that it returns with a postcondition (\<open>run_ok\<close>), and the lemmas about transfers,
  addresses, interfaces and the configuration buffer that the properties use.
\<close>

section \<open>Calculus\<close>

named_theorems comp_simps \<open>how the combinators run\<close>

lemma comp_run [comp_simps]:
  "retC a s = Some (Inr (a, s))" "failC e s = Some (Inl e)" "getC f s = Some (Inr (f s, s))"
  "callC g s = Some (Inr (g s))" "execC h s = Some (Inr ((), h s))"
  "mem_doC k s = Some (Inr ((), s\<lparr>uc_mem := k (uc_mem s)\<rparr>))"
  by (simp_all add: retC_def failC_def getC_def callC_def execC_def mem_doC_def)

lemma bindC_run [comp_simps]:
  "m s = Some (Inr (a, s')) \<Longrightarrow> bindC m f s = f a s'" "m s = Some (Inl e) \<Longrightarrow> bindC m f s = Some (Inl e)"
  "m s = None \<Longrightarrow> bindC m f s = None"
  by (simp_all add: bindC_def)

lemma bindC_Inr_iff:
  "bindC m f s = Some (Inr r) \<longleftrightarrow> (\<exists>a s'. m s = Some (Inr (a, s')) \<and> f a s' = Some (Inr r))"
  by (auto simp: bindC_def split: option.splits sum.splits)

lemma thenC_Inr_iff: "thenC m k s = Some (Inr r) \<longleftrightarrow> (\<exists>a s'. m s = Some (Inr (a, s')) \<and> k s' = Some (Inr r))"
  by (simp add: thenC_def bindC_Inr_iff)

lemma thenC_run [comp_simps]:
  "m s = Some (Inr (a, s')) \<Longrightarrow> thenC m k s = k s'" "m s = Some (Inl e) \<Longrightarrow> thenC m k s = Some (Inl e)"
  "m s = None \<Longrightarrow> thenC m k s = None"
  by (simp_all add: thenC_def bindC_run)

text \<open>The computation returns, and its result satisfies \<open>Q\<close>.\<close>

definition run_ok :: "('w, 'a) comp \<Rightarrow> ('a \<Rightarrow> 'w ucore \<Rightarrow> bool) \<Rightarrow> 'w ucore \<Rightarrow> bool" where
  "run_ok m Q s \<longleftrightarrow> (\<exists>a s'. m s = Some (Inr (a, s')) \<and> Q a s')"

lemma run_ok_bind [simp]: "run_ok (bindC m f) Q s \<longleftrightarrow> run_ok m (\<lambda>a. run_ok (f a) Q) s"
  by (auto simp: run_ok_def bindC_Inr_iff)

lemma run_ok_then [simp]: "run_ok (thenC m k) Q s \<longleftrightarrow> run_ok m (\<lambda>a. run_ok k Q) s"
  by (simp add: thenC_def)

lemma run_ok_basic [simp]:
  "run_ok (retC a) Q s = Q a s" "run_ok (getC f) Q s = Q (f s) s" "run_ok (callC g) Q s = Q (fst (g s)) (snd (g s))"
  "run_ok (execC h) Qu s = Qu () (h s)" "run_ok (mem_doC k) Qu s = Qu () (s\<lparr>uc_mem := k (uc_mem s)\<rparr>)"
  "run_ok (failC e) Q s = False"
proof -
  show "run_ok (callC g) Q s = Q (fst (g s)) (snd (g s))" by (cases "g s") (simp add: run_ok_def comp_run)
qed (auto simp: run_ok_def comp_run)

lemma run_ok_ret_fun [simp]: "run_ok (retC a) Q = Q a"
  by (rule ext) simp

lemma run_ok_mono: "run_ok m Q s \<Longrightarrow> (\<And>a s'. Q a s' \<Longrightarrow> Q' a s') \<Longrightarrow> run_ok m Q' s"
  by (auto simp: run_ok_def)

text \<open>Relations between the states before and after, kept by every step of a computation.\<close>

definition keeps :: "('w ucore \<Rightarrow> 'w ucore \<Rightarrow> bool) \<Rightarrow> ('w, 'a) comp \<Rightarrow> bool" where
  "keeps R m \<longleftrightarrow> (\<forall>s a s'. m s = Some (Inr (a, s')) \<longrightarrow> R s s')"

lemma keepsD: "keeps R m \<Longrightarrow> m s = Some (Inr (a, s')) \<Longrightarrow> R s s'"
  by (simp add: keeps_def)

locale frame_relation =
  fixes R :: "'w ucore \<Rightarrow> 'w ucore \<Rightarrow> bool"
  assumes refl: "R s s"
    and trans: "R s t \<Longrightarrow> R t u \<Longrightarrow> R s u"
begin

lemma keeps_pure [simp]:
  "keeps R (retC a)" "keeps R (failC e)" "keeps R (getC f)" "keeps R (sumC r)" "keeps R (get_udev p)"
  "keeps R (get_utr p)" "keeps R (get_iface p)"
  by (auto simp: keeps_def comp_run sumC_def get_udev_def get_utr_def get_iface_def refl
      split: sum.splits option.splits)

lemma keeps_nth [simp]: "keeps R (nthC xs i)"
  by (simp add: nthC_def)

lemma keeps_bind: "keeps R m \<Longrightarrow> (\<And>a. keeps R (f a)) \<Longrightarrow> keeps R (bindC m f)"
  unfolding keeps_def bindC_Inr_iff by (blast intro: trans)

lemma keeps_then: "keeps R m \<Longrightarrow> keeps R k \<Longrightarrow> keeps R (thenC m k)"
  by (simp add: thenC_def keeps_bind)

lemma keeps_cfd [simp]: "keeps R (cfd_rd8 buf i)" "keeps R (cfd_rd16 buf i)" "keeps R (hc_of udev)"
  by (simp_all add: cfd_rd8_def cfd_rd16_def hc_of_def keeps_bind)

lemma keeps_ifd [simp]: "keeps R (ifd_rd8 udev alt i)"
  by (simp add: ifd_rd8_def keeps_bind split: option.splits)

lemma keeps_call: "(\<And>s. R s (snd (g s))) \<Longrightarrow> keeps R (callC g)"
  by (simp add: keeps_def comp_run) (metis snd_conv)

lemma keeps_exec: "(\<And>s. R s (h s)) \<Longrightarrow> keeps R (execC h)"
  by (simp add: keeps_def comp_run)

lemma keeps_mem_do: "(\<And>s. R s (s\<lparr>uc_mem := k (uc_mem s)\<rparr>)) \<Longrightarrow> keeps R (mem_doC k)"
  by (simp add: keeps_def comp_run)

lemma keeps_mem: "(\<And>s a m. g (uc_mem s) = Inr (a, m) \<Longrightarrow> R s (s\<lparr>uc_mem := m\<rparr>)) \<Longrightarrow> keeps R (memC g)"
  by (auto simp: keeps_def memC_def split: sum.splits prod.splits)

lemma keeps_upd_udev:
  "(\<And>s d. udev_heap (uc_mem s) p = Some d \<Longrightarrow>
     R s (s\<lparr>uc_mem := (uc_mem s)\<lparr>udev_heap := (udev_heap (uc_mem s))(p \<mapsto> f d)\<rparr>\<rparr>)) \<Longrightarrow> keeps R (upd_udev p f)"
  by (auto simp: keeps_def upd_udev_def bindC_Inr_iff get_udev_def comp_run split: option.splits)

lemma keeps_upd_utr:
  "(\<And>s u. utr_heap (uc_mem s) p = Some u \<Longrightarrow>
     R s (s\<lparr>uc_mem := (uc_mem s)\<lparr>utr_heap := (utr_heap (uc_mem s))(p \<mapsto> f u)\<rparr>\<rparr>)) \<Longrightarrow> keeps R (upd_utr p f)"
  by (auto simp: keeps_def upd_utr_def bindC_Inr_iff get_utr_def comp_run split: option.splits)

lemma keeps_utr_wait:
  assumes "\<And>s. R s (ue_poll E s)"
  shows "keeps R (utr_wait E utr t0 timeout)"
  unfolding keeps_def
proof (intro allI impI)
  fix s a s'
  assume r: "utr_wait E utr t0 timeout s = Some (Inr (a, s'))"
  have "(\<forall>s. R s (ue_poll E s)) \<longrightarrow> (\<forall>x t. Inr (a, s') = (Inr (x, t) :: core_fault + bool \<times> 'w ucore) \<longrightarrow> R s t)"
  proof (rule utr_wait.raw_induct[where P = "\<lambda>E utr t0 timeout s r. (\<forall>s. R s (ue_poll E s)) \<longrightarrow>
      (\<forall>x t. r = Inr (x, t) \<longrightarrow> R s t)", OF _ r], intro impI allI)
    fix f :: "'w usb_env \<Rightarrow> u64 \<Rightarrow> u32 \<Rightarrow> u32 \<Rightarrow> 'w ucore \<Rightarrow> (core_fault + bool \<times> 'w ucore) option"
      and E utr t0 timeout s r x t
    assume IH: "\<And>E utr t0 timeout s r. f E utr t0 timeout s = Some r \<Longrightarrow> (\<forall>s. R s (ue_poll E s)) \<longrightarrow>
        (\<forall>x t. r = Inr (x, t) \<longrightarrow> R s t)"
      and eq: "(case utr_heap (uc_mem (ue_poll E s)) utr of
        None \<Rightarrow> Some (Inl (Mem_Fault Dangling_Pointer))
      | Some u \<Rightarrow> if utr_bIsTransferDone u \<noteq> 0 then Some (Inr (True, ue_poll E s))
          else if timeout < ue_ticks E (ue_poll E s) - t0 then Some (Inr (False, ue_poll E s))
          else f E utr t0 timeout (ue_poll E s)) = Some r"
      and p: "\<forall>s. R s (ue_poll E s)" "r = Inr (x, t)"
    show "R s t"
      using eq p IH[of E utr t0 timeout "ue_poll E s" r] by (auto split: option.splits if_splits intro: trans)
  qed
  then show "R s s'" using assms by simp
qed

text \<open>Everything but the interrupts of a control transfer, in terms of the memory manager.\<close>

lemma keeps_quit_utr: "(\<And>hc utr ep s. R s (snd (ue_quit_xfer E hc utr ep s))) \<Longrightarrow> keeps R (usbh_quit_utr E utr)"
  by (auto simp: usbh_quit_utr_def intro!: keeps_bind keeps_call)

lemma keeps_quit_xfer: "(\<And>hc utr ep s. R s (snd (ue_quit_xfer E hc utr ep s))) \<Longrightarrow> keeps R (usbh_quit_xfer E udev ep)"
  by (auto simp: usbh_quit_xfer_def intro!: keeps_bind keeps_call)

end

text \<open>The calls of the core into its environment that keep a relation.\<close>

definition env_keeps :: "('w ucore \<Rightarrow> 'w ucore \<Rightarrow> bool) \<Rightarrow> 'w usb_env \<Rightarrow> bool" where
  "env_keeps R E \<longleftrightarrow> (\<forall>hc utr s. R s (snd (ue_ctrl_xfer E hc utr s))) \<and>
     (\<forall>hc utr ep s. R s (snd (ue_quit_xfer E hc utr ep s))) \<and>
     (\<forall>hc port s. R s (snd (ue_rthub_port_reset E hc port s))) \<and>
     (\<forall>hub port s. R s (snd (ue_hub_port_reset E hub port s))) \<and>
     (\<forall>drv iface s. R s (snd (ue_probe E drv iface s))) \<and>
     (\<forall>fp udev x s. R s (ue_callback E fp udev x s)) \<and>
     (\<forall>s. R s (ue_poll E s)) \<and> (\<forall>us s. R s (ue_delay_us E us s))"

text \<open>The calls of a control transfer alone.\<close>

definition xfer_keeps :: "('w ucore \<Rightarrow> 'w ucore \<Rightarrow> bool) \<Rightarrow> 'w usb_env \<Rightarrow> bool" where
  "xfer_keeps R E \<longleftrightarrow> (\<forall>hc utr s. R s (snd (ue_ctrl_xfer E hc utr s))) \<and>
     (\<forall>hc utr ep s. R s (snd (ue_quit_xfer E hc utr ep s))) \<and> (\<forall>s. R s (ue_poll E s))"

lemma env_keeps_xfer: "env_keeps R E \<Longrightarrow> xfer_keeps R E"
  by (simp add: env_keeps_def xfer_keeps_def)

text \<open>
  Relations that allocations, releases and the stores of the core keep: every operation between the
  allocation of an address and the end of the enumeration keeps them.
\<close>

definition core_store :: "(UDEV_T \<Rightarrow> UDEV_T) \<Rightarrow> bool" where
  "core_store f \<longleftrightarrow> (\<forall>d. ud_dev_num (f d) = ud_dev_num d)"

locale memory_frame = frame_relation R for R :: "'w ucore \<Rightarrow> 'w ucore \<Rightarrow> bool" +
  assumes alloc: "usbh_alloc_mem sz (uc_mem s) = Inr (p, m) \<Longrightarrow> R s (s\<lparr>uc_mem := m\<rparr>)"
    and release: "R s (s\<lparr>uc_mem := snd (usbh_free_mem p sz (uc_mem s))\<rparr>)"
    and alloc_req: "alloc_utr udev (uc_mem s) = Inr (p, m) \<Longrightarrow> R s (s\<lparr>uc_mem := m\<rparr>)"
    and free_req: "R s (s\<lparr>uc_mem := free_utr p (uc_mem s)\<rparr>)"
    and utr_store: "R s (s\<lparr>uc_mem := (uc_mem s)\<lparr>utr_heap := h\<rparr>\<rparr>)"
    and udev_store: "udev_heap (uc_mem s) p = Some d \<Longrightarrow> core_store g \<Longrightarrow>
      R s (s\<lparr>uc_mem := (uc_mem s)\<lparr>udev_heap := (udev_heap (uc_mem s))(p \<mapsto> g d)\<rparr>\<rparr>)"
    and iface_store: "R s (s\<lparr>uc_ifaces := i\<rparr>)"
begin

lemma keeps_udev_store [simp]: "core_store g \<Longrightarrow> keeps R (upd_udev p g)"
  by (rule keeps_upd_udev) (rule udev_store)

lemma keeps_forget [simp]: "keeps R (forget_ep0_pipe udev)"
  by (simp add: forget_ep0_pipe_def core_store_def)

lemma keeps_free_utr [simp]: "keeps R (mem_doC (free_utr p))"
  by (rule keeps_mem_do) (rule free_req)

lemma keeps_ifaces [simp]: "keeps R (put_iface p x)" "keeps R (free_iface p)"
  by (auto simp: put_iface_def free_iface_def intro!: keeps_then keeps_exec keeps_mem_do release iface_store)

lemma keeps_ctrl_xfer_only: "xfer_keeps R E \<Longrightarrow> keeps R (usbh_ctrl_xfer E udev t r v i l buff timeout)"
  unfolding usbh_ctrl_xfer_def ctrl_xfer_await_def xfer_keeps_def
  by (auto intro!: keeps_bind keeps_then keeps_mem alloc_req keeps_upd_utr utr_store keeps_call
      keeps_utr_wait keeps_quit_utr)

lemma keeps_ctrl_xfer [simp]: "env_keeps R E \<Longrightarrow> keeps R (usbh_ctrl_xfer E udev t r v i l buff timeout)"
  by (rule keeps_ctrl_xfer_only[OF env_keeps_xfer])

lemma keeps_device_descriptor [simp]: "env_keeps R E \<Longrightarrow> keeps R (device_descriptor_tries E udev n ret)"
  by (induction n arbitrary: ret) (auto intro!: keeps_bind)

lemma keeps_get_descriptors [simp]:
  assumes "env_keeps R E"
  shows "keeps R (usbh_get_device_descriptor E udev)" "keeps R (usbh_get_config_descriptor E udev buf n)"
    "keeps R (enable_remote_wakeup E udev)" "keeps R (usbh_set_configuration E udev c)"
  using assms
  by (auto simp: usbh_get_device_descriptor_def usbh_get_config_descriptor_def enable_remote_wakeup_def
      usbh_set_configuration_def core_store_def intro!: keeps_bind keeps_then)

lemma keeps_reset_device [simp]: "env_keeps R E \<Longrightarrow> keeps R (reset_device E udev)"
  by (auto simp: reset_device_def env_keeps_def intro!: keeps_bind keeps_call)

lemma keeps_delay [simp]: "env_keeps R E \<Longrightarrow> keeps R (execC (ue_delay_us E us))"
  by (auto simp: env_keeps_def intro!: keeps_exec)

lemma keeps_notify [simp]: "env_keeps R E \<Longrightarrow> keeps R (notify E func udev)"
  by (auto simp: notify_def env_keeps_def intro!: keeps_bind keeps_exec)

lemma keeps_probe [simp]: "env_keeps R E \<Longrightarrow> keeps R (probe_drivers E iface n i)"
  by (induction n arbitrary: i) (auto simp: env_keeps_def intro!: keeps_bind keeps_call)

lemma keeps_offer [simp]: "env_keeps R E \<Longrightarrow> keeps R (offer_interface E udev iface n)"
  unfolding offer_interface_def
  by (auto simp: core_store_def intro!: keeps_bind keeps_then split: option.splits)

lemma keeps_scan [simp]: "keeps R (case r of None \<Rightarrow> (\<lambda>s. None) | Some r \<Rightarrow> sumC r)"
  by (cases r) (simp_all add: keeps_def sumC_def refl split: sum.splits)

lemma keeps_parse_interface [simp]: "env_keeps R E \<Longrightarrow> keeps R (usbh_parse_interface E udev buf off len)"
  unfolding usbh_parse_interface_def
  by (auto intro!: keeps_bind keeps_then keeps_mem alloc split: sum.splits)

lemma keeps_config_round [simp]: "env_keeps R E \<Longrightarrow> keeps R (config_round E udev buf off len)"
  unfolding config_round_def by (auto intro!: keeps_bind split: sum.splits)

lemma keeps_config_loop [simp]:
  assumes "env_keeps R E"
  shows "keeps R (config_loop E udev buf i off len)"
  unfolding keeps_def
proof (intro allI impI)
  fix s a s'
  assume r: "config_loop E udev buf i off len s = Some (Inr (a, s'))"
  have "env_keeps R E \<longrightarrow> (\<forall>x t. Inr (a, s') = (Inr (x, t) :: core_fault + int \<times> 'w ucore) \<longrightarrow> R s t)"
  proof (rule config_loop.raw_induct[where P = "\<lambda>E udev buf i off len s r. env_keeps R E \<longrightarrow>
      (\<forall>x t. r = Inr (x, t) \<longrightarrow> R s t)", OF _ r], intro impI allI)
    fix f :: "'w usb_env \<Rightarrow> u64 \<Rightarrow> u64 \<Rightarrow> int \<Rightarrow> int \<Rightarrow> int \<Rightarrow> 'w ucore \<Rightarrow> (core_fault + int \<times> 'w ucore) option"
      and E udev buf i off len s r x t
    assume IH: "\<And>E udev buf i off len s r. f E udev buf i off len s = Some r \<Longrightarrow> env_keeps R E \<longrightarrow>
        (\<forall>x t. r = Inr (x, t) \<longrightarrow> R s t)"
      and eq: "(if i < uint (cfd_view (uc_mem s) buf 4) then
        case config_round E udev buf off len s of
          None \<Rightarrow> None
        | Some (Inl e) \<Rightarrow> Some (Inl e)
        | Some (Inr (Inl err, s')) \<Rightarrow> Some (Inr (err, s'))
        | Some (Inr (Inr (off', len'), s')) \<Rightarrow> f E udev buf (i + 1) off' len' s'
      else if 0 < len then Some (Inr (USBH_ERR_DESCRIPTOR, s))
      else Some (Inr (len, s))) = Some r"
      and p: "env_keeps R E" "r = Inr (x, t)"
    have k: "config_round E udev buf off len s = Some (Inr (y, u)) \<Longrightarrow> R s u" for y u
      using keeps_config_round[OF p(1)] by (rule keepsD)
    show "R s t"
      using eq p IH k by (auto simp: refl split: if_splits option.splits sum.splits prod.splits) (metis trans)
  qed
  then show "R s s'" using assms by simp
qed

lemma keeps_parse_configuration [simp]: "env_keeps R E \<Longrightarrow> keeps R (usbh_parse_configuration E udev buf)"
  unfolding usbh_parse_configuration_def by (auto intro!: keeps_bind)

end

text \<open>A relation on what only the environment knows: no operation of the memory manager takes part in it.\<close>

locale world_relation =
  fixes W :: "'w \<Rightarrow> 'w \<Rightarrow> bool"
  assumes world_refl: "W w w"
    and world_trans: "W u v \<Longrightarrow> W v w \<Longrightarrow> W u w"

sublocale world_relation \<subseteq> memory_frame "\<lambda>s s'. W (uc_world s) (uc_world s')"
  by unfold_locales (auto intro: world_refl world_trans)

section \<open>Device addresses during enumeration\<close>

text \<open>The addresses taken, and the address of a device.\<close>

definition addr_kept :: "u64 \<Rightarrow> 'w ucore \<Rightarrow> 'w ucore \<Rightarrow> bool" where
  "addr_kept udev s s' \<longleftrightarrow> dev_addr_pool (uc_mem s') = dev_addr_pool (uc_mem s) \<and>
     map_option ud_dev_num (udev_heap (uc_mem s') udev) = map_option ud_dev_num (udev_heap (uc_mem s) udev)"

lemma usbh_alloc_mem_frame:
  "usbh_alloc_mem sz m = Inr (p, m') \<Longrightarrow> dev_addr_pool m' = dev_addr_pool m \<and> udev_heap m' = udev_heap m"
  by (auto simp: usbh_alloc_mem_def Let_def split: sum.splits prod.splits if_splits)

lemma usbh_free_mem_frame:
  "dev_addr_pool (snd (usbh_free_mem p sz m)) = dev_addr_pool m"
  "udev_heap (snd (usbh_free_mem p sz m)) = udev_heap m"
  by (auto simp: usbh_free_mem_def Let_def)

interpretation addr_frame: memory_frame "addr_kept udev" for udev :: u64
proof
  fix s :: "'a ucore" and m p sz
  show "usbh_alloc_mem sz (uc_mem s) = Inr (p, m) \<Longrightarrow> addr_kept udev s (s\<lparr>uc_mem := m\<rparr>)"
    by (auto simp: addr_kept_def dest: usbh_alloc_mem_frame)
  show "addr_kept udev s (s\<lparr>uc_mem := snd (usbh_free_mem p sz (uc_mem s))\<rparr>)"
    by (simp add: addr_kept_def usbh_free_mem_frame)
  show "addr_kept udev s (s\<lparr>uc_mem := free_utr p (uc_mem s)\<rparr>)"
    by (simp add: addr_kept_def free_utr_def Let_def usbh_free_mem_frame)
next
  fix s :: "'a ucore" and m p q
  show "alloc_utr q (uc_mem s) = Inr (p, m) \<Longrightarrow> addr_kept udev s (s\<lparr>uc_mem := m\<rparr>)"
    using usbh_alloc_mem_frame[of sizeof_UTR_T "uc_mem s"]
    by (auto simp: addr_kept_def alloc_utr_def split: sum.splits if_splits)
qed (auto simp: addr_kept_def core_store_def)

text \<open>The device has the address \<open>a\<close>, which was free in \<open>P\<close>.\<close>

definition addr_mid :: "u64 \<Rightarrow> u8 list \<Rightarrow> nat \<Rightarrow> 'w ucore \<Rightarrow> bool" where
  "addr_mid udev P a s \<longleftrightarrow> P ! a = 0 \<and> a < 128 \<and> dev_addr_pool (uc_mem s) = P[a := 1] \<and>
     map_option ud_dev_num (udev_heap (uc_mem s) udev) = Some (word_of_nat a)"

text \<open>A computation that gives the address back exactly when it returns an error.\<close>

definition settles :: "u64 \<Rightarrow> u8 list \<Rightarrow> nat \<Rightarrow> ('w, int) comp \<Rightarrow> bool" where
  "settles udev P a m \<longleftrightarrow> (\<forall>s ret s'. addr_mid udev P a s \<longrightarrow> m s = Some (Inr (ret, s')) \<longrightarrow>
     (if ret < 0 then dev_addr_pool (uc_mem s') = P else addr_mid udev P a s'))"

lemma settles_bind:
  assumes "keeps (addr_kept udev) m" "\<And>x. settles udev P a (f x)"
  shows "settles udev P a (bindC m f)"
proof (unfold settles_def bindC_Inr_iff, intro allI impI, elim exE conjE)
  fix s ret s' x t
  assume mid: "addr_mid udev P a s" and m: "m s = Some (Inr (x, t))" and k: "f x t = Some (Inr (ret, s'))"
  have "addr_mid udev P a t" using keepsD[OF assms(1) m] mid by (simp add: addr_mid_def addr_kept_def)
  then show "if ret < 0 then dev_addr_pool (uc_mem s') = P else addr_mid udev P a s'"
    using assms(2)[of x] k unfolding settles_def by blast
qed

lemma settles_then: "keeps (addr_kept udev) m \<Longrightarrow> settles udev P a k \<Longrightarrow> settles udev P a (thenC m k)"
  by (simp add: thenC_def settles_bind)

lemma settles_ret: "0 \<le> r \<Longrightarrow> settles udev P a (retC r)"
  by (simp add: settles_def comp_run)

lemma settles_failed: "r < 0 \<Longrightarrow> settles udev P a (connect_failed udev r)"
proof (unfold settles_def, intro allI impI)
  fix s ret s'
  assume r: "r < 0" and mid: "addr_mid udev P a s" and run: "connect_failed udev r s = Some (Inr (ret, s'))"
  obtain d where d: "udev_heap (uc_mem s) udev = Some d" "ud_dev_num d = word_of_nat a"
    using mid by (auto simp: addr_mid_def)
  have "uint (ud_dev_num d) = int a" using d mid by (simp add: addr_mid_def uint_length_byte)
  moreover have "P[a := 0] = P" using mid list_update_id[of P a] by (simp add: addr_mid_def)
  ultimately show "if ret < 0 then dev_addr_pool (uc_mem s') = P else addr_mid udev P a s'"
    using run d(1) mid r
    by (auto simp: connect_failed_def bindC_Inr_iff thenC_Inr_iff get_udev_def free_dev_addressC_def memC_def
        free_dev_address_def comp_run addr_mid_def split: if_splits)
qed

lemma connect_configure_settles:
  assumes "env_keeps (addr_kept udev) E"
  shows "settles udev P a (connect_configure E udev conf)"
proof -
  have e: "settles udev P a (if r < 0 then connect_failed udev r else k)" if "\<not> r < 0 \<Longrightarrow> settles udev P a k" for r k
    using that settles_failed by auto
  have w: "keeps (addr_kept udev) (if b then enable_remote_wakeup E udev else retC (0, 0))" for b
    using assms by simp
  show ?thesis unfolding connect_configure_def
    by (intro settles_then settles_bind e settles_ret w addr_frame.keeps_udev_store
        addr_frame.keeps_get_descriptors addr_frame.keeps_cfd addr_frame.keeps_parse_configuration
        addr_frame.keeps_notify assms) (auto simp: core_store_def)
qed

text \<open>An address is taken for the device, or none is.\<close>

lemma usbh_set_address_cases:
  assumes "env_keeps (addr_kept udev) E" "usbh_set_address E udev s = Some (Inr (ret, s'))"
  shows "ret < 0 \<and> dev_addr_pool (uc_mem s') = dev_addr_pool (uc_mem s) \<or>
    (ret = 0 \<and> (\<exists>a. 1 \<le> a \<and> addr_mid udev (dev_addr_pool (uc_mem s)) a s'))"
proof -
  let ?P = "dev_addr_pool (uc_mem s)"
  obtain d where d: "udev_heap (uc_mem s) udev = Some d"
    using assms(2) by (auto simp: usbh_set_address_def bindC_Inr_iff get_udev_def split: option.splits)
  show ?thesis
  proof (cases "ud_dev_num d = 0")
    case False
    then show ?thesis using assms(2) d
      by (auto simp: usbh_set_address_def bindC_Inr_iff get_udev_def comp_run)
  next
    case True
    then obtain a m r n s2 where a: "alloc_dev_address (uc_mem s) = Some (a, m)"
      and x: "usbh_ctrl_xfer E udev REQ_TYPE_OUT USB_REQ_SET_ADDRESS (word_of_nat a) 0 0 0 1000 (s\<lparr>uc_mem := m\<rparr>)
        = Some (Inr ((r, n), s2))"
      and k: "(if r < 0 then thenC (free_dev_addressC (int a)) (retC r)
        else thenC (upd_udev udev (\<lambda>d. d\<lparr>ud_dev_num := word_of_nat a\<rparr>)) (retC 0)) s2 = Some (Inr (ret, s'))"
      using assms(2) d
      by (auto simp: usbh_set_address_def bindC_Inr_iff get_udev_def alloc_dev_addressC_def
          split: option.splits if_splits)
    have l: "dev_addr_loop ?P (next_dev_addr (device_addr (uc_mem s))) = Some a"
      and m: "m = (uc_mem s)\<lparr>device_addr := a, dev_addr_pool := ?P[a := 1]\<rparr>"
      using a by (auto simp: alloc_dev_address_def)
    have rng: "1 \<le> a" "a < 128" "?P ! a = 0"
      using dev_addr_loop_range[OF l] next_dev_addr_range dev_addr_loop_Some_free[OF l] by auto
    have kept: "addr_kept udev (s\<lparr>uc_mem := m\<rparr>) s2"
      using addr_frame.keeps_ctrl_xfer[OF assms(1)] x by (rule keepsD)
    have P: "?P[a := 1, a := 0] = ?P" using rng list_update_id[of ?P a] by simp
    show ?thesis
      using k kept rng P m d
      by (auto simp: addr_kept_def addr_mid_def thenC_Inr_iff upd_udev_def bindC_Inr_iff get_udev_def comp_run
          free_dev_addressC_def memC_def free_dev_address_def split: if_splits option.splits)
  qed
qed

section \<open>Control transfers\<close>

text \<open>
  What a host controller driver leaves alone: the blocks that are handed out, the transfer requests
  behind them, the addresses, the interfaces and the devices except for their descriptor and
  the pipe of endpoint 0. The data buffers, the state of a request and the controller's own
  descriptors may change.
\<close>

definition ud_core :: "UDEV_T \<Rightarrow> UDEV_T" where
  "ud_core d = d\<lparr>ud_descriptor := [], ud_ep0 := EP_zero\<rparr>"

definition quiet :: "'w ucore \<Rightarrow> 'w ucore \<Rightarrow> bool" where
  "quiet s s' \<longleftrightarrow> (mem_wf (uc_mem s) \<longrightarrow> mem_wf (uc_mem s')) \<and>
     dma_unit_used (uc_mem s') = dma_unit_used (uc_mem s) \<and> dma_mem_pool (uc_mem s') = dma_mem_pool (uc_mem s) \<and>
     (\<forall>p \<in> dma_live (uc_mem s). map_option utr_udev (utr_heap (uc_mem s') p) = map_option utr_udev (utr_heap (uc_mem s) p)) \<and>
     (\<forall>p. map_option ud_core (udev_heap (uc_mem s') p) = map_option ud_core (udev_heap (uc_mem s) p)) \<and>
     dev_addr_pool (uc_mem s') = dev_addr_pool (uc_mem s) \<and> utr_used (uc_mem s') = utr_used (uc_mem s) \<and>
     uc_ifaces s' = uc_ifaces s \<and> uc_drivers s' = uc_drivers s"

lemma quiet_live: "quiet s s' \<Longrightarrow> dma_live (uc_mem s') = dma_live (uc_mem s)"
  by (simp add: quiet_def dma_live_def dma_block_def)

interpretation quiet: frame_relation quiet
proof
  fix s t u :: "'a ucore"
  show "quiet s s" by (simp add: quiet_def)
  assume 1: "quiet s t" and 2: "quiet t u"
  show "quiet s u" using 1 2 quiet_live[OF 1] unfolding quiet_def by auto
qed

lemma quiet_wf: "quiet s s' \<Longrightarrow> mem_wf (uc_mem s) \<Longrightarrow> mem_wf (uc_mem s')"
  by (simp add: quiet_def)

lemma quiet_udev:
  assumes "quiet s s'" "udev_heap (uc_mem s) p = Some d"
  obtains d' where "udev_heap (uc_mem s') p = Some d'" "ud_core d' = ud_core d"
proof -
  have "map_option ud_core (udev_heap (uc_mem s') p) = Some (ud_core d)" using assms by (simp add: quiet_def)
  then show ?thesis using that by auto
qed

lemma ud_core_hc: "ud_core d' = ud_core d \<Longrightarrow> ud_hc_driver d' = ud_hc_driver d"
  by (drule arg_cong[where f = ud_hc_driver]) (simp add: ud_core_def)

lemma quiet_utr:
  assumes "quiet s s'" "p \<in> dma_live (uc_mem s)" "utr_heap (uc_mem s) p = Some u"
  obtains u' where "utr_heap (uc_mem s') p = Some u'" "utr_udev u' = utr_udev u"
proof -
  have "map_option utr_udev (utr_heap (uc_mem s') p) = Some (utr_udev u)" using assms by (simp add: quiet_def)
  then show ?thesis using that by auto
qed

text \<open>The stores of the core that are quiet.\<close>

lemma quiet_utr_store:
  assumes "utr_heap (uc_mem s) p = Some u" "utr_udev u' = utr_udev u"
  shows "quiet s (s\<lparr>uc_mem := (uc_mem s)\<lparr>utr_heap := (utr_heap (uc_mem s))(p \<mapsto> u')\<rparr>\<rparr>)"
  using assms by (simp add: quiet_def)

lemma quiet_udev_store:
  assumes "udev_heap (uc_mem s) p = Some d" "ud_core d' = ud_core d"
  shows "quiet s (s\<lparr>uc_mem := (uc_mem s)\<lparr>udev_heap := (udev_heap (uc_mem s))(p \<mapsto> d')\<rparr>\<rparr>)"
  using assms by (simp add: quiet_def)

text \<open>A request that is allocated, used quietly and freed leaves no trace.\<close>

lemma alloc_utr_cases:
  assumes "mem_wf m"
  obtains (taken) k where "alloc_utr udev m = Inr (dma_block m k, (dma_taken k 1 m)\<lparr>
      utr_heap := (utr_heap m)(dma_block m k \<mapsto> UTR_zero\<lparr>utr_udev := udev\<rparr>), utr_used := utr_used m + 1\<rparr>)"
      "free_run (dma_unit_used m) k 1"
    | (full) "alloc_utr udev m = Inr (0, m)"
proof -
  have pos: "0 < sizeof_UTR_T" by simp
  show ?thesis
    using assms pos refl
  proof (cases rule: usbh_alloc_mem_cases)
    case (taken k)
    then show ?thesis using that(1)[of k] unfolding units_for_struct
      by (simp add: alloc_utr_def dma_block_def)
  next
    case full
    then show ?thesis using that(2) by (simp add: alloc_utr_def)
  qed
qed

lemma utr_bracket:
  assumes wf: "mem_wf (uc_mem s)" and k: "free_run (dma_unit_used (uc_mem s)) k 1"
    and p: "p = dma_block (uc_mem s) k"
    and m1: "m1 = (dma_taken k 1 (uc_mem s))\<lparr>utr_used := utr_used (uc_mem s) + 1, utr_heap := (utr_heap (uc_mem s))(p \<mapsto> u)\<rparr>"
    and q: "quiet (s\<lparr>uc_mem := m1\<rparr>) s2"
  shows "quiet s (s2\<lparr>uc_mem := free_utr p (uc_mem s2)\<rparr>)" "p \<in> dma_live m1" "mem_wf m1"
proof -
  let ?U = "dma_unit_used (uc_mem s)"
  have run: "used_run (fill (nat k) (nat 1) True ?U) k 1"
    by (rule used_run_fill) (use k in \<open>auto simp: free_run_def\<close>)
  show wf1: "mem_wf m1" unfolding m1 using mem_wf_dma_taken[OF wf k] by simp
  show "p \<in> dma_live m1" unfolding m1 p using dma_live_take(2)[OF wf k, of "dma_taken k 1 (uc_mem s)"] by simp
  have u2: "dma_unit_used (uc_mem s2) = fill (nat k) (nat 1) True ?U" "dma_mem_pool (uc_mem s2) = dma_mem_pool (uc_mem s)"
    "utr_used (uc_mem s2) = utr_used (uc_mem s) + 1" using q by (simp_all add: quiet_def m1)
  have wf2: "mem_wf (uc_mem s2)" using quiet_wf[OF q] wf1 by simp
  have p2: "p = dma_block (uc_mem s2) k" unfolding p using u2(2) by (simp add: dma_block_def)
  have run2: "used_run (dma_unit_used (uc_mem s2)) k 1" using run by (simp add: u2)
  note fr = free_utr_eq[OF wf2 p2 run2]
  have unit_back: "fill (nat k) (nat 1) False (fill (nat k) (nat 1) True ?U) = ?U"
  proof (rule nth_equalityI)
    fix j
    assume "j < length (fill (nat k) (nat 1) False (fill (nat k) (nat 1) True ?U))"
    then show "fill (nat k) (nat 1) False (fill (nat k) (nat 1) True ?U) ! j = ?U ! j"
      using free_runD[OF k, of j] k by (cases "j = nat k") (auto simp: free_run_def nth_list_update)
  qed simp
  have live: "p \<notin> dma_live (uc_mem s)" "dma_live m1 = insert p (dma_live (uc_mem s))"
    unfolding m1 p using dma_live_take[OF wf k, of "dma_taken k 1 (uc_mem s)"] by simp_all
  have "map_option utr_udev (utr_heap (uc_mem s2) q') = map_option utr_udev (utr_heap (uc_mem s) q')"
    if "q' \<in> dma_live (uc_mem s)" for q'
    using q live that by (auto simp: quiet_def m1 split: if_splits)
  then show "quiet s (s2\<lparr>uc_mem := free_utr p (uc_mem s2)\<rparr>)"
    using q live fr(2) unfolding quiet_def by (auto simp: fr(1) u2 unit_back[simplified] m1)
qed

text \<open>
  The environment of a transfer: the controller is quiet, and time passes.
\<close>

definition xfer_env :: "'w usb_env \<Rightarrow> bool" where
  "xfer_env E \<longleftrightarrow> (\<forall>hc utr s. quiet s (snd (ue_ctrl_xfer E hc utr s))) \<and>
     (\<forall>hc utr ep s. quiet s (snd (ue_quit_xfer E hc utr ep s))) \<and> (\<forall>s. quiet s (ue_poll E s))"

definition clock_runs :: "'w usb_env \<Rightarrow> bool" where
  "clock_runs E \<longleftrightarrow> (\<forall>s t. t \<le> 2000 \<longrightarrow> (\<exists>n. t < ue_ticks E ((ue_poll E ^^ Suc n) s) - ue_ticks E s))"

lemma utr_wait_returns:
  assumes "xfer_env E" "p \<in> dma_live (uc_mem s)" "utr_heap (uc_mem s) p = Some u"
    "timeout < ue_ticks E ((ue_poll E ^^ Suc n) s) - t0"
  shows "run_ok (utr_wait E p t0 timeout) (\<lambda>b s'. quiet s s') s"
  using assms
proof (induction n arbitrary: s u)
  case 0
  have q: "quiet s (ue_poll E s)" using assms(1) by (simp add: xfer_env_def)
  obtain u' where u': "utr_heap (uc_mem (ue_poll E s)) p = Some u'" using quiet_utr[OF q 0(2,3)] by blast
  show ?case using 0 q u' unfolding run_ok_def by (subst utr_wait.simps) auto
next
  case (Suc n)
  let ?s = "ue_poll E s"
  have q: "quiet s ?s" using assms(1) by (simp add: xfer_env_def)
  obtain u' where u': "utr_heap (uc_mem ?s) p = Some u'" using quiet_utr[OF q Suc.prems(2,3)] by blast
  have "run_ok (utr_wait E p t0 timeout) (\<lambda>b s'. quiet ?s s') ?s"
    by (rule Suc.IH[OF assms(1) _ u'])
       (use Suc.prems quiet_live[OF q] in \<open>auto simp: funpow_swap1\<close>)
  then show ?case using q u' unfolding run_ok_def
    by (subst utr_wait.simps) (auto intro: quiet.trans)
qed

lemma run_ok_get [simp]:
  "udev_heap (uc_mem s) p = Some d \<Longrightarrow> run_ok (get_udev p) Q s = Q d s"
  "utr_heap (uc_mem s) p = Some u \<Longrightarrow> run_ok (get_utr p) Q' s = Q' u s"
  "uc_ifaces s p = Some x \<Longrightarrow> run_ok (get_iface p) Q'' s = Q'' x s"
  by (simp_all add: run_ok_def get_udev_def get_utr_def get_iface_def)

lemma forget_ep0_pipe_ok:
  assumes "udev_heap (uc_mem s) udev = Some d"
  shows "run_ok (forget_ep0_pipe udev) (\<lambda>x s'. quiet s s') s"
  using assms by (simp add: forget_ep0_pipe_def upd_udev_def ud_core_def quiet_udev_store)

lemma usbh_quit_utr_ok:
  assumes "xfer_env E" "utr_heap (uc_mem s) p = Some u" "udev_heap (uc_mem s) (utr_udev u) = Some d" "ud_hc_driver d \<noteq> 0"
  shows "run_ok (usbh_quit_utr E p) (\<lambda>x s'. quiet s s') s"
  using assms by (auto simp: usbh_quit_utr_def hc_of_def xfer_env_def quiet.refl)

text \<open>From the submission of a request until it is given back; \<open>s0\<close> is the state before its allocation.\<close>

lemma ctrl_xfer_await_ok:
  assumes env: "xfer_env E" "clock_runs E" "timeout \<le> 2000"
    and p: "p \<in> dma_live (uc_mem s)" "utr_heap (uc_mem s) p = Some u" "utr_udev u = udev"
    and d: "udev_heap (uc_mem s) udev = Some d" "ud_hc_driver d \<noteq> 0"
    and rel: "\<And>s2. quiet s s2 \<Longrightarrow> quiet s0 (s2\<lparr>uc_mem := free_utr p (uc_mem s2)\<rparr>)"
  shows "run_ok (ctrl_xfer_await E udev p timeout) (\<lambda>(ret, n) s'. quiet s0 s' \<and> (ret \<noteq> 0 \<longrightarrow> n = 0)) s"
proof -
  obtain n where "timeout < ue_ticks E ((ue_poll E ^^ Suc n) s) - ue_ticks E s"
    using env(2,3) unfolding clock_runs_def by blast
  then have w: "run_ok (utr_wait E p (ue_ticks E s) timeout) (\<lambda>b s'. quiet s s') s"
    by (rule utr_wait_returns[OF env(1) p(1,2)])
  show ?thesis unfolding ctrl_xfer_await_def run_ok_bind run_ok_basic
  proof (rule run_ok_mono[OF w])
    fix b s3
    assume q: "quiet s s3"
    obtain u' where u': "utr_heap (uc_mem s3) p = Some u'" "utr_udev u' = udev"
      using quiet_utr[OF q p(1,2)] p(3) by metis
    obtain d' where d': "udev_heap (uc_mem s3) udev = Some d'" "ud_hc_driver d' \<noteq> 0"
      using quiet_udev[OF q d(1)] d(2) ud_core_hc by metis
    have quit: "run_ok (usbh_quit_utr E p) (\<lambda>x s'. quiet s3 s') s3"
      by (rule usbh_quit_utr_ok[OF env(1) u'(1)]) (use d' u' in auto)
    have free: "run_ok (forget_ep0_pipe udev) (\<lambda>a s'. quiet s0 s') (s4\<lparr>uc_mem := free_utr p (uc_mem s4)\<rparr>)"
      if q4: "quiet s3 s4" for s4
    proof -
      obtain d4 where d4: "udev_heap (uc_mem s4) udev = Some d4" using quiet_udev[OF q4 d'(1)] by blast
      have "udev_heap (free_utr p (uc_mem s4)) = udev_heap (uc_mem s4)"
        by (simp add: free_utr_def Let_def usbh_free_mem_frame)
      then have "run_ok (forget_ep0_pipe udev) (\<lambda>a s'. quiet (s4\<lparr>uc_mem := free_utr p (uc_mem s4)\<rparr>) s')
          (s4\<lparr>uc_mem := free_utr p (uc_mem s4)\<rparr>)" using d4 by (intro forget_ep0_pipe_ok) simp
      then show ?thesis
        by (rule run_ok_mono) (use rel[OF quiet.trans[OF q q4]] in \<open>auto intro: quiet.trans\<close>)
    qed
    show "run_ok (if \<not> b then thenC (usbh_quit_utr E p) (thenC (mem_doC (free_utr p))
         (thenC (forget_ep0_pipe udev) (retC (USBH_ERR_TIMEOUT, 0))))
       else bindC (get_utr p) (\<lambda>u. thenC (mem_doC (free_utr p))
         (retC (utr_status u, if utr_status u = 0 then utr_xfer_len u else 0))))
       (\<lambda>(ret, n) s'. quiet s0 s' \<and> (ret \<noteq> 0 \<longrightarrow> n = 0)) s3"
      using u' rel[OF q] quit free by (auto elim!: run_ok_mono)
  qed
qed

text \<open>
  A control transfer returns, with the state as before except for what the controller may change; it
  fails when the controller refuses every transfer.
\<close>

definition refusing :: "'w usb_env \<Rightarrow> bool" where
  "refusing E \<longleftrightarrow> (\<forall>hc utr s. fst (ue_ctrl_xfer E hc utr s) < 0)"

lemma usbh_ctrl_xfer_total:
  assumes env: "xfer_env E" "clock_runs E" "timeout \<le> 2000" and wf: "mem_wf (uc_mem s)"
    and d: "udev_heap (uc_mem s) udev = Some d" "ud_hc_driver d \<noteq> 0"
  shows "run_ok (usbh_ctrl_xfer E udev t r v i l buff timeout) (\<lambda>(ret, n) s'. quiet s s' \<and> (ret \<noteq> 0 \<longrightarrow> n = 0) \<and>
    (refusing E \<longrightarrow> ret < 0)) s" (is "run_ok _ ?Q s")
  using wf
proof (cases rule: alloc_utr_cases[where udev = udev])
  case full
  then have "memC (alloc_utr udev) s = Some (Inr (0, s))" by (simp add: memC_def)
  then show ?thesis by (simp add: usbh_ctrl_xfer_def run_ok_def comp_simps quiet.refl)
next
  case (taken k)
  let ?p = "dma_block (uc_mem s) k"
  define u where "u = UTR_zero\<lparr>utr_udev := udev, utr_setup := setup_packet t r v i l, utr_buff := buff,
    utr_data_len := ucast l, utr_bIsTransferDone := 0\<rparr>"
  define m1 where "m1 = (dma_taken k 1 (uc_mem s))\<lparr>utr_used := utr_used (uc_mem s) + 1,
    utr_heap := (utr_heap (uc_mem s))(?p \<mapsto> u)\<rparr>"
  let ?s = "s\<lparr>uc_mem := m1\<rparr>"
  let ?c = "ue_ctrl_xfer E (ud_hc_driver d) ?p ?s"
  note br = utr_bracket[OF wf taken(2) refl m1_def]
  have p: "?p \<noteq> 0" "?p \<in> dma_live (uc_mem ?s)" "utr_heap (uc_mem ?s) ?p = Some u" "utr_udev u = udev"
    using br(2)[OF quiet.refl] by (simp_all add: m1_def u_def) (simp_all add: dma_block_def)
  have d1: "udev_heap (uc_mem ?s) udev = Some d" using d by (simp add: m1_def)
  have q: "quiet ?s (snd ?c)" using env(1) by (simp add: xfer_env_def)
  obtain u' where u': "utr_heap (uc_mem (snd ?c)) ?p = Some u'" "utr_udev u' = udev"
    using quiet_utr[OF q p(2,3)] p(4) by metis
  obtain d' where d': "udev_heap (uc_mem (snd ?c)) udev = Some d'" "ud_hc_driver d' \<noteq> 0"
    using quiet_udev[OF q d1] d(2) ud_core_hc by metis
  have rel: "quiet s (s3\<lparr>uc_mem := free_utr ?p (uc_mem s3)\<rparr>)" if "quiet (snd ?c) s3" for s3
    by (rule br(1)[OF quiet.trans[OF q that]])
  have live: "?p \<in> dma_live (uc_mem (snd ?c))" using quiet_live[OF q] p(2) by simp
  note await = ctrl_xfer_await_ok[OF env live u' d' rel]
  have ref: "fst ?c < 0" if "refusing E" using that by (simp add: refusing_def)
  have "run_ok (forget_ep0_pipe udev) (\<lambda>x s'. quiet (snd ?c) s') (snd ?c)" by (rule forget_ep0_pipe_ok[OF d'(1)])
  then have "run_ok (if fst ?c < 0 then
       thenC (forget_ep0_pipe udev) (thenC (mem_doC (free_utr ?p)) (retC (fst ?c, 0)))
     else ctrl_xfer_await E udev ?p timeout) ?Q (snd ?c)"
    using await ref by (auto elim!: run_ok_mono intro: rel)
  moreover have "memC (alloc_utr udev) s = Some (Inr (?p, s\<lparr>uc_mem := (dma_taken k 1 (uc_mem s))\<lparr>
      utr_heap := (utr_heap (uc_mem s))(?p \<mapsto> UTR_zero\<lparr>utr_udev := udev\<rparr>), utr_used := utr_used (uc_mem s) + 1\<rparr>\<rparr>))"
    using taken(1) by (simp add: memC_def)
  then have "usbh_ctrl_xfer E udev t r v i l buff timeout s =
      (if fst ?c < 0 then
       thenC (forget_ep0_pipe udev) (thenC (mem_doC (free_utr ?p)) (retC (fst ?c, 0)))
     else ctrl_xfer_await E udev ?p timeout) (snd ?c)"
    using p(1) d d1 unfolding usbh_ctrl_xfer_def
    by (cases ?c) (simp add: comp_simps upd_utr_def get_utr_def hc_of_def get_udev_def m1_def u_def)
  ultimately show ?thesis by (simp add: run_ok_def)
qed

end
