(* ===== verification/Usb_Core_Config.thy ===== *)
theory Usb_Core_Config
  imports Usb_Core_Facts
begin

text \<open>
  Enumeration of the interfaces of a configuration: on the encoding of a descriptor tree
  \<open>usbh_parse_configuration\<close> offers every interface of the tree, in order, to the
  registered drivers, with its settings and endpoints in the \<open>IFACE_T\<close> the drivers see.
\<close>

section \<open>Configurations\<close>

record config_spec =
  sc_bConfigurationValue :: u8
  sc_iConfiguration :: u8
  sc_bmAttributes :: u8
  sc_MaxPower :: u8
  sc_ifaces :: "(u8 \<times> alt_spec list) list"

definition enc_ifaces :: "(u8 \<times> alt_spec list) list \<Rightarrow> u8 list" where
  "enc_ifaces ifs = concat (map (enc_iface \<circ> snd) ifs)"

definition config_length :: "config_spec \<Rightarrow> nat" where
  "config_length c = 9 + length (enc_ifaces (sc_ifaces c))"

definition enc_config :: "config_spec \<Rightarrow> u8 list" where
  "enc_config c = [9, USB_DT_CONFIGURATION, word_of_nat (config_length c), word_of_nat (config_length c div 256),
     word_of_nat (length (sc_ifaces c)), sc_bConfigurationValue c, sc_iConfiguration c, sc_bmAttributes c,
     sc_MaxPower c] @ enc_ifaces (sc_ifaces c)"

definition wf_config :: "config_spec \<Rightarrow> bool" where
  "wf_config c \<longleftrightarrow> length (sc_ifaces c) < 256 \<and> config_length c \<le> 4096 \<and>
     list_all (\<lambda>(n, as). wf_iface n as) (sc_ifaces c) \<and> distinct (map fst (sc_ifaces c))"

text \<open>What the drivers see of an interface whose first descriptor is at \<open>off\<close>, and the offers of them all.\<close>

definition iface_image :: "u64 \<Rightarrow> int \<Rightarrow> u8 \<Rightarrow> alt_spec list \<Rightarrow> IFACE_T" where
  "iface_image udev off n as = \<lparr>if_udev = udev, if_if_num = n, if_num_alt = length as, if_aif = 0,
     if_alt = alt_array (alt_images off as), if_driver = 0, if_context = 0, if_next = 0\<rparr>"

fun offer_all :: "'w usb_env \<Rightarrow> u64 \<Rightarrow> int \<Rightarrow> (u8 \<times> alt_spec list) list \<Rightarrow> ('w, int) comp" where
  "offer_all E udev off [] = retC 0"
| "offer_all E udev off ((n, as) # ifs) =
     bindC (memC (usbh_alloc_mem sizeof_IFACE_T)) (\<lambda>iface.
     if iface = 0 then retC USBH_ERR_MEMORY_OUT
     else thenC (put_iface iface (iface_image udev off n as))
       (thenC (offer_interface E udev iface 0)
         (offer_all E udev (off + int (length (enc_iface as))) ifs)))"

section \<open>The buffer of the configuration descriptor\<close>

text \<open>The buffer at \<open>buf\<close> is the block of four units from \<open>c\<close> on and begins with \<open>bs\<close>.\<close>

definition cfd_held :: "u64 \<Rightarrow> int \<Rightarrow> u8 list \<Rightarrow> 'w ucore \<Rightarrow> bool" where
  "cfd_held buf c bs s \<longleftrightarrow> mem_wf (uc_mem s) \<and> 0 \<le> c \<and> c \<le> 124 \<and> buf = dma_block (uc_mem s) c \<and>
     used_run (dma_unit_used (uc_mem s)) c 4 \<and> length bs \<le> 4096 \<and> holds (cfd_view (uc_mem s) buf) 0 bs"

text \<open>What a driver keeps when it looks at an interface: it frees no block of others and does not write the buffer.\<close>

definition blocks_kept :: "u64 \<Rightarrow> 'w ucore \<Rightarrow> 'w ucore \<Rightarrow> bool" where
  "blocks_kept buf s s' \<longleftrightarrow> (mem_wf (uc_mem s) \<longrightarrow> mem_wf (uc_mem s')) \<and>
     dma_mem_pool (uc_mem s') = dma_mem_pool (uc_mem s) \<and>
     (\<forall>k < 128. dma_unit_used (uc_mem s) ! k \<longrightarrow> dma_unit_used (uc_mem s') ! k) \<and>
     (\<forall>i \<in> {0..<MAX_DESC_BUFF_SIZE}. cfd_view (uc_mem s') buf i = cfd_view (uc_mem s) buf i)"

interpretation blocks: frame_relation "blocks_kept buf" for buf :: u64
  by unfold_locales (auto simp: blocks_kept_def)

definition probe_env :: "u64 \<Rightarrow> 'w usb_env \<Rightarrow> bool" where
  "probe_env buf E \<longleftrightarrow> (\<forall>drv iface s. blocks_kept buf s (snd (ue_probe E drv iface s)))"

lemma holds_cong:
  "holds b off bs \<Longrightarrow> (\<And>i. off \<le> i \<Longrightarrow> i < off + int (length bs) \<Longrightarrow> b' i = b i) \<Longrightarrow> holds b' off bs"
  by (induction bs arbitrary: off) auto

lemma cfd_view_block:
  assumes "mem_wf m" "0 \<le> c" "c < DMA_MEM_UNIT_NUM"
  shows "cfd_view m (dma_block m c) i = dma_bytes m (c * 1024 + i)"
proof -
  let ?a = "dma_mem_pool m + word_of_int (c * DMA_MEM_UNIT_SIZE)"
  have u: "uint ?a = uint (dma_mem_pool m) + c * 1024" "uint (dma_mem_pool m) + c * 1024 < 2 ^ 32"
    using uint_dma_unit[OF assms] by auto
  have "uint (addr_s ?a) = uint (dma_mem_pool m) + c * 1024" "uint (addr_s (dma_mem_pool m)) = uint (dma_mem_pool m)"
    using u assms(2) by (simp_all add: uint_addr_s mod_pos_pos_trivial)
  then have "uint (addr_s (dma_block m c) - addr_s (dma_mem_pool m)) = c * 1024"
    using assms(2,3) by (simp add: dma_block_def uint_sub_if')
  then show ?thesis by (simp add: cfd_view_def)
qed

lemma used_run_4_mono:
  assumes "used_run U c 4" "\<forall>k < 128. U ! k \<longrightarrow> U' ! k" "length U = 128" "length U' = 128"
  shows "used_run U' c 4"
  using assms by (auto simp: used_run_def)

lemma cfd_held_kept:
  assumes "cfd_held buf c bs s" "blocks_kept buf s s'"
  shows "cfd_held buf c bs s'"
proof -
  have "dma_block (uc_mem s') c = dma_block (uc_mem s) c" using assms(2) by (simp add: blocks_kept_def dma_block_def)
  moreover have "used_run (dma_unit_used (uc_mem s')) c 4"
    by (rule used_run_4_mono) (use assms in \<open>auto simp: cfd_held_def blocks_kept_def mem_wf_def\<close>)
  moreover have "holds (cfd_view (uc_mem s') buf) 0 bs"
    by (rule holds_cong) (use assms in \<open>auto simp: cfd_held_def blocks_kept_def\<close>)
  ultimately show ?thesis using assms by (simp add: cfd_held_def blocks_kept_def)
qed

text \<open>The allocation of an interface and its release keep the buffer.\<close>

lemma iface_units: "units_for sizeof_IFACE_T DMA_MEM_UNIT_SIZE = 1"
  by (simp add: units_for_def c_div_def)

lemma cfd_held_outside:
  assumes "cfd_held buf c bs s" "\<not> dma_unit_used (uc_mem s) ! nat k" "0 \<le> k"
  shows "k \<notin> {c..<c + 4}"
proof
  assume "k \<in> {c..<c + 4}"
  then have "dma_unit_used (uc_mem s) ! nat k" using assms(1) by (auto simp: cfd_held_def used_run_def)
  with assms(2) show False by simp
qed

lemma alloc_iface_cases:
  assumes "cfd_held buf c bs s"
  obtains (taken) k s1 where "memC (usbh_alloc_mem sizeof_IFACE_T) s = Some (Inr (dma_block (uc_mem s) k, s1))"
      "cfd_held buf c bs s1" "used_run (dma_unit_used (uc_mem s1)) k 1" "k \<notin> {c..<c + 4}"
      "dma_block (uc_mem s1) k = dma_block (uc_mem s) k" "dma_block (uc_mem s) k \<noteq> 0"
    | (full) "memC (usbh_alloc_mem sizeof_IFACE_T) s = Some (Inr (0, s))"
proof -
  have wf: "mem_wf (uc_mem s)" and pos: "0 < sizeof_IFACE_T" using assms by (simp_all add: cfd_held_def)
  show ?thesis
    using wf pos refl
  proof (cases rule: usbh_alloc_mem_cases)
    case (taken k)
    note t = taken[unfolded iface_units]
    let ?s = "s\<lparr>uc_mem := dma_taken k 1 (uc_mem s)\<rparr>"
    have k: "0 \<le> k" "\<not> dma_unit_used (uc_mem s) ! nat k" "k < 128"
      using t(2) wf by (auto simp: free_run_def mem_wf_def)
    have out: "k \<notin> {c..<c + 4}" using cfd_held_outside[OF assms k(2,1)] .
    have cr: "0 \<le> c" "c < DMA_MEM_UNIT_NUM" "buf = dma_block (uc_mem s) c" using assms by (auto simp: cfd_held_def)
    have wf1: "mem_wf (dma_taken k 1 (uc_mem s))" by (rule mem_wf_dma_taken[OF wf t(2)]) simp
    have v: "cfd_view (dma_taken k 1 (uc_mem s)) buf i = dma_bytes (dma_taken k 1 (uc_mem s)) (c * 1024 + i)" for i
      using cfd_view_block[OF wf1 cr(1,2)] cr(3) by simp
    have same: "dma_bytes (dma_taken k 1 (uc_mem s)) (c * 1024 + i) = dma_bytes (uc_mem s) (c * 1024 + i)"
      if "0 \<le> i" "i < 4096" for i using out that by (auto simp: dma_taken_def)
    have "blocks_kept buf s ?s"
      unfolding blocks_kept_def
    proof (intro conjI ballI)
      fix i
      assume "i \<in> {0..<MAX_DESC_BUFF_SIZE}"
      then show "cfd_view (uc_mem ?s) buf i = cfd_view (uc_mem s) buf i"
        using same[of i] v[of i] cfd_view_block[OF wf cr(1,2), of i] cr(3) by simp
    qed (use wf wf1 k in \<open>auto simp: mem_wf_def nth_list_update\<close>)
    then have held: "cfd_held buf c bs ?s" by (rule cfd_held_kept[OF assms])
    have "used_run (dma_unit_used (uc_mem ?s)) k 1" using used_run_fill[of k 1] k wf by (simp add: mem_wf_def)
    then show ?thesis
      by (intro that(1)[of k ?s]) (use t held out in \<open>simp_all add: memC_def dma_block_def\<close>)
  next
    case full
    then show ?thesis using that(2) by (simp add: memC_def)
  qed
qed

lemma free_iface_held:
  assumes "cfd_held buf c bs s" "used_run (dma_unit_used (uc_mem s)) k 1" "k \<notin> {c..<c + 4}"
    "p = dma_block (uc_mem s) k"
  shows "run_ok (free_iface p) (\<lambda>x s'. cfd_held buf c bs s') s"
proof -
  let ?m = "dma_given_back k 1 (uc_mem s)"
  let ?U = "dma_unit_used (uc_mem s)"
  have wf: "mem_wf (uc_mem s)" and c: "0 \<le> c" "c + 4 \<le> int (length ?U)" "\<And>j. j \<in> {c..<c + 4} \<Longrightarrow> ?U ! nat j"
    using assms(1) by (auto simp: cfd_held_def used_run_def)
  have fm: "usbh_free_mem p sizeof_IFACE_T (uc_mem s) = (0, ?m)" "mem_wf ?m"
    unfolding assms(4) using usbh_free_mem_run[OF wf assms(2), of sizeof_IFACE_T] by (simp_all add: iface_units)
  have k: "0 \<le> k" using assms(2) by (simp add: used_run_1)
  have "used_run (dma_unit_used ?m) c 4"
    unfolding used_run_def
  proof (intro conjI ballI)
    fix j
    assume j: "j \<in> {c..<c + 4}"
    then have "nat j \<noteq> nat k" "nat j < length ?U" using assms(3) k c by auto
    then show "dma_unit_used ?m ! nat j" using c(3)[OF j] by simp
  qed (use c in simp_all)
  moreover have "cfd_view ?m buf = cfd_view (uc_mem s) buf" by (simp add: cfd_view_def fun_eq_iff)
  ultimately show ?thesis using assms(1) fm by (auto simp: free_iface_def cfd_held_def)
qed

section \<open>Offers\<close>

lemma probe_drivers_kept: "probe_env buf E \<Longrightarrow> keeps (blocks_kept buf) (probe_drivers E iface n i)"
  by (induction n arbitrary: i) (auto simp: probe_env_def intro!: blocks.keeps_bind blocks.keeps_call)

lemma offer_interface_value:
  "offer_interface E udev iface n s = bindC (offer_interface E udev iface 0) (\<lambda>x. retC n) s"
  by (auto simp: offer_interface_def bindC_def thenC_def comp_run split: option.splits sum.splits prod.splits)

lemma offer_interface_held:
  assumes "probe_env buf E" "cfd_held buf c bs s" "used_run (dma_unit_used (uc_mem s)) k 1" "k \<notin> {c..<c + 4}"
    "iface = dma_block (uc_mem s) k" "offer_interface E udev iface n s = Some (Inr (r, s'))"
  shows "cfd_held buf c bs s' \<and> r = n"
proof -
  obtain x s1 where x: "probe_drivers E iface MAX_UDEV_DRIVER 0 s = Some (Inr (x, s1))"
    using assms(6) by (auto simp: offer_interface_def bindC_Inr_iff)
  have kept: "blocks_kept buf s s1" using probe_drivers_kept[OF assms(1)] x by (rule keepsD)
  have held: "cfd_held buf c bs s1" by (rule cfd_held_kept[OF assms(2) kept])
  show ?thesis
  proof (cases x)
    case None
    have "iface = dma_block (uc_mem s1) k" using assms(5) kept by (simp add: blocks_kept_def dma_block_def)
    moreover have "used_run (dma_unit_used (uc_mem s1)) k 1"
      using assms(2,3) held kept by (auto simp: used_run_1 blocks_kept_def cfd_held_def mem_wf_def)
    ultimately have "run_ok (free_iface iface) (\<lambda>x s'. cfd_held buf c bs s') s1"
      using free_iface_held[OF held _ assms(4)] by blast
    then show ?thesis using assms(6) x None
      by (auto simp: offer_interface_def bindC_Inr_iff thenC_Inr_iff run_ok_def comp_run)
  next
    case (Some i)
    have store: "cfd_held buf c bs s3"
      if "uc_mem s3 = (uc_mem s1)\<lparr>udev_heap := h\<rparr>" for s3 :: "'a ucore" and h
    proof -
      have "cfd_view (uc_mem s3) buf = cfd_view (uc_mem s1) buf" by (simp add: that cfd_view_def fun_eq_iff)
      then show ?thesis using held that by (auto simp: cfd_held_def)
    qed
    show ?thesis using assms(6) x Some
      by (auto simp: offer_interface_def bindC_Inr_iff thenC_Inr_iff comp_run nthC_def get_udev_def get_iface_def
          put_iface_def upd_udev_def intro!: store split: if_splits option.splits)
  qed
qed

section \<open>Interfaces\<close>

lemma holds_prefix: "holds b off (xs @ ys) \<Longrightarrow> holds b (off + int (length xs)) ys"
  by simp

lemma enc_iface_head:
  assumes "wf_iface n as" "holds b off (enc_iface as)"
  shows "b off = 9 \<and> b (off + 1) = USB_DT_INTERFACE \<and> b (off + 2) = n \<and> 9 \<le> length (enc_iface as)"
proof -
  obtain a as' where as: "as = a # as'" using assms(1) by (cases as) (auto simp: wf_iface_def)
  have a: "wf_alt a" "sa_bInterfaceNumber a = n" "holds b off (enc_alt a)"
    using assms as by (auto simp: wf_iface_def enc_iface_def)
  then have "b (off + 2) = n" by (simp add: enc_alt_def enc_if_desc_def add.assoc)
  then show ?thesis using enc_alt_head[OF a(1,3)] as by (simp add: enc_iface_def)
qed

lemma usbh_parse_interface_enc:
  assumes "cfd_held buf c bs s" "bs = xs @ enc_iface as @ ys" "off = int (length xs)" "len = int (length (enc_iface as @ ys))"
    "wf_iface n as" "ends_iface (cfd_view (uc_mem s) buf) n (off + int (length (enc_iface as))) (off + len)"
  shows "usbh_parse_interface E udev buf off len s =
    bindC (memC (usbh_alloc_mem sizeof_IFACE_T)) (\<lambda>iface.
     if iface = 0 then retC USBH_ERR_MEMORY_OUT
     else thenC (put_iface iface (iface_image udev off n as))
       (offer_interface E udev iface (int (length (enc_iface as))))) s"
  using assms(1)
proof (cases rule: alloc_iface_cases)
  case full
  then show ?thesis by (simp add: usbh_parse_interface_def comp_simps)
next
  case (taken k s1)
  let ?b = "cfd_view (uc_mem s1) buf"
  have h: "holds (cfd_view (uc_mem s) buf) 0 bs" "holds ?b 0 bs" "length bs \<le> 4096"
    using assms(1) taken(2) by (auto simp: cfd_held_def)
  have same: "?b i = cfd_view (uc_mem s) buf i" if "0 \<le> i" "i < int (length bs)" for i
    using holds_nth[OF h(1), of "nat i"] holds_nth[OF h(2), of "nat i"] that by simp
  have hb: "holds ?b off (enc_iface as)" using h(2) assms(2,3) by simp
  have T: "off + len = int (length bs)" using assms(2-4) by simp
  have "ends_iface ?b n (off + int (length (enc_iface as))) (off + len)"
    using assms(6) same T unfolding ends_iface_def next_ok_def by (auto simp: assms(3))
  then have "\<exists>st. scan_interface ?b off len = Some (Inr (n, Inr st)) \<and> is_parsed st = int (length (enc_iface as)) \<and>
      is_num_alt st = length as \<and> is_alt st = alt_array (alt_images off as)"
    by (intro scan_interface_enc[OF assms(5) hb]) (use assms(3,4) T h(3) in auto)
  then show ?thesis using taken(1,6)
    by (auto simp: usbh_parse_interface_def comp_simps sumC_def iface_image_def)
qed

section \<open>The loop over the interfaces\<close>

lemma cfg_find_enc:
  assumes "b off = 9" "b (off + 1) = USB_DT_INTERFACE" "9 \<le> len" "0 \<le> off" "off + len \<le> MAX_DESC_BUFF_SIZE"
  shows "cfg_find b off len = Inr (Inr (off, len))"
  using assms by (subst cfg_find.simps) simp

lemma ends_iface_enc:
  assumes "holds b off (enc_iface as @ enc_ifaces ifs)" "q = off + int (length (enc_iface as))"
    "T = q + int (length (enc_ifaces ifs))" "list_all (\<lambda>(n, as). wf_iface n as) ifs" "n \<notin> fst ` set ifs"
  shows "ends_iface b n q T"
proof (cases ifs)
  case Nil
  then show ?thesis using assms by (simp add: ends_iface_def next_ok_def enc_ifaces_def)
next
  case (Cons x ifs')
  obtain n' as' where x: "x = (n', as')" by (cases x)
  have "wf_iface n' as'" "holds b q (enc_iface as')" "n' \<noteq> n"
    using assms Cons x by (auto simp: enc_ifaces_def)
  then show ?thesis using enc_iface_head[of n' as' b q] assms(3) Cons x
    by (auto simp: ends_iface_def next_ok_def enc_ifaces_def)
qed

lemma cfd_held_put_iface: "cfd_held buf c bs (s\<lparr>uc_ifaces := h\<rparr>) = cfd_held buf c bs s"
  by (simp add: cfd_held_def)

lemma config_loop_enc:
  assumes "probe_env buf E" "cfd_held buf c bs s" "bs = xs @ enc_ifaces ifs" "5 \<le> length xs"
    "bs ! 4 = word_of_nat N" "N < 256" "i + length ifs = N" "list_all (\<lambda>(n, as). wf_iface n as) ifs"
    "distinct (map fst ifs)"
  shows "config_loop E udev buf (int i) (int (length xs)) (int (length (enc_ifaces ifs))) s
    = offer_all E udev (int (length xs)) ifs s"
  using assms
proof (induction ifs arbitrary: xs i s)
  case Nil
  have "holds (cfd_view (uc_mem s) buf) 0 bs" using Nil.prems(2) by (auto simp: cfd_held_def)
  from holds_nth[OF this, of 4] have "uint (cfd_view (uc_mem s) buf 4) = int N"
    using Nil.prems by (simp add: uint_length_byte)
  then show ?case using Nil.prems by (subst config_loop.simps) (simp add: enc_ifaces_def comp_run)
next
  case (Cons x ifs)
  obtain n as where x: "x = (n, as)" by (cases x)
  let ?b = "cfd_view (uc_mem s) buf"
  let ?off = "int (length xs)"
  let ?L = "int (length (enc_iface as))"
  let ?len = "int (length (enc_ifaces (x # ifs)))"
  have h: "holds ?b 0 bs" "length bs \<le> 4096" using Cons.prems(2) by (auto simp: cfd_held_def)
  have bs: "bs = xs @ enc_iface as @ enc_ifaces ifs" using Cons.prems(3) x by (simp add: enc_ifaces_def)
  have len: "?len = ?L + int (length (enc_ifaces ifs))" using x by (simp add: enc_ifaces_def)
  have wf: "wf_iface n as" using Cons.prems(8) x by simp
  have N: "uint (?b 4) = int N" using holds_nth[OF h(1), of 4] Cons.prems by (simp add: uint_length_byte)
  have hd: "holds ?b ?off (enc_iface as)" using h(1) bs by simp
  note hds = enc_iface_head[OF wf hd]
  have find: "cfg_find ?b ?off ?len = Inr (Inr (?off, ?len))"
    by (rule cfg_find_enc) (use hds len h(2) bs in auto)
  have ends: "ends_iface ?b n (?off + ?L) (?off + ?len)"
    by (rule ends_iface_enc[where as = as and ifs = ifs and off = ?off])
       (use h(1) bs len Cons.prems(8,9) x in auto)
  have parse: "usbh_parse_interface E udev buf ?off ?len s = bindC (memC (usbh_alloc_mem sizeof_IFACE_T)) (\<lambda>iface.
     if iface = 0 then retC USBH_ERR_MEMORY_OUT
     else thenC (put_iface iface (iface_image udev ?off n as)) (offer_interface E udev iface ?L)) s"
    by (rule usbh_parse_interface_enc[OF Cons.prems(2) bs refl _ wf ends]) (simp add: len)
  have rnd: "config_round E udev buf ?off ?len s = bindC (usbh_parse_interface E udev buf ?off ?len) (\<lambda>ret.
      if ret < 0 then retC (Inl ret) else retC (Inr (?off + ret, ?len - ret))) s"
    using find by (simp add: config_round_def comp_simps sumC_def)
  have i: "int i < uint (?b 4)" using N Cons.prems(7) by simp
  from Cons.prems(2) show ?case
  proof (cases rule: alloc_iface_cases)
    case full
    then have "config_round E udev buf ?off ?len s = Some (Inr (Inl USBH_ERR_MEMORY_OUT, s))"
      unfolding rnd by (simp add: bindC_def parse retC_def)
    then show ?thesis using full i x by (subst config_loop.simps) (simp add: comp_simps)
  next
    case (taken k s1)
    let ?p = "dma_block (uc_mem s) k"
    let ?s2 = "s1\<lparr>uc_ifaces := (uc_ifaces s1)(?p \<mapsto> iface_image udev ?off n as)\<rparr>"
    have p: "?p = dma_block (uc_mem ?s2) k" "used_run (dma_unit_used (uc_mem ?s2)) k 1" using taken by simp_all
    have all: "offer_all E udev ?off (x # ifs) s = thenC (offer_interface E udev ?p 0) (offer_all E udev (?off + ?L) ifs) ?s2"
      using taken x by (simp add: comp_simps put_iface_def)
    have round: "config_round E udev buf ?off ?len s = bindC (offer_interface E udev ?p ?L) (\<lambda>ret.
      if ret < 0 then retC (Inl ret) else retC (Inr (?off + ret, ?len - ret))) ?s2"
      unfolding rnd using taken by (simp add: bindC_def parse thenC_def put_iface_def execC_def)
    note val = offer_interface_value[of E udev ?p ?L ?s2]
    show ?thesis
    proof (cases "offer_interface E udev ?p 0 ?s2")
      case None
      then show ?thesis using all round val i by (subst config_loop.simps) (simp add: comp_simps)
    next
      case (Some r)
      show ?thesis
      proof (cases r)
        case (Inl e)
        then show ?thesis using Some all round val i by (subst config_loop.simps) (simp add: comp_simps)
      next
        case (Inr y)
        obtain z s3 where y: "y = (z, s3)" by (cases y)
        have o: "offer_interface E udev ?p 0 ?s2 = Some (Inr (z, s3))" using Some Inr y by simp
        have held: "cfd_held buf c bs s3"
          using offer_interface_held[OF Cons.prems(1) _ p(2) taken(4) p(1) o] taken(2) by (simp add: cfd_held_put_iface)
        have "config_loop E udev buf (int (Suc i)) (int (length (xs @ enc_iface as))) (int (length (enc_ifaces ifs))) s3
            = offer_all E udev (int (length (xs @ enc_iface as))) ifs s3"
          by (rule Cons.IH[OF Cons.prems(1) held]) (use Cons.prems(4-9) bs x in auto)
        moreover have "config_round E udev buf ?off ?len s = Some (Inr (Inr (?off + ?L, int (length (enc_ifaces ifs))), s3))"
          using round val o len by (simp add: comp_simps)
        ultimately show ?thesis using all o i
          by (subst config_loop.simps) (simp add: comp_simps add.commute)
      qed
    qed
  qed
qed

lemma usbh_parse_configuration_enc:
  assumes "wf_config cfg" "cfd_held buf c (enc_config cfg) s" "probe_env buf E"
  shows "usbh_parse_configuration E udev buf s = offer_all E udev 9 (sc_ifaces cfg) s"
proof -
  let ?b = "cfd_view (uc_mem s) buf"
  let ?n = "config_length cfg"
  define xs where "xs = take 9 (enc_config cfg)"
  have xs: "enc_config cfg = xs @ enc_ifaces (sc_ifaces cfg)" "length xs = 9"
    by (simp_all add: xs_def enc_config_def)
  have h: "holds ?b 0 (enc_config cfg)" using assms(2) by (auto simp: cfd_held_def)
  have n: "?n < 2 ^ 16" using assms(1) by (simp add: wf_config_def)
  have bytes: "?b 0 = 9" "?b 2 = word_of_nat ?n" "?b 3 = word_of_nat (?n div 256)"
    using h by (simp_all add: enc_config_def)
  have "ucast (word_of_nat ?n :: u8) OR push_bit 8 (ucast (word_of_nat (?n div 256) :: u8)) = (word_of_nat ?n :: u16)"
    (is "?l = ?r")
  proof (rule bit_word_eqI)
    fix k :: nat
    assume "k < LENGTH(16)"
    then show "bit ?l k \<longleftrightarrow> bit ?r k"
      unfolding drop_bit_eq_div[of 8 ?n, simplified, symmetric] by (cases "k < 8") (auto simp: bit_simps)
  qed
  then have "rd16 ?b 2 = Inr (word_of_nat ?n)" using bytes by simp
  moreover have "uint (word_of_nat ?n :: u16) = int ?n" using n by (simp add: unsigned_of_nat take_bit_nat_eq_self)
  ultimately have "usbh_parse_configuration E udev buf s = config_loop E udev buf 0 9 (int ?n - 9) s"
    using bytes by (simp add: usbh_parse_configuration_def cfd_rd16_def cfd_rd8_def comp_simps sumC_def)
  also have "\<dots> = config_loop E udev buf (int 0) (int (length xs)) (int (length (enc_ifaces (sc_ifaces cfg)))) s"
    by (simp add: xs config_length_def)
  also have "\<dots> = offer_all E udev (int (length xs)) (sc_ifaces cfg) s"
    by (rule config_loop_enc[OF assms(3,2) xs(1)])
       (use assms(1) xs(2) in \<open>auto simp: wf_config_def enc_config_def\<close>)
  finally show ?thesis by (simp add: xs)
qed

end
