(* ===== verification/Usb_Core_Remove.thy ===== *)
theory Usb_Core_Remove
  imports Usb_Core_Facts
begin

text \<open>
  Removal of a device: \<open>disconnect_device\<close> tells the driver of every interface, frees the
  interfaces, gives the address back and takes the device out of the chain.
\<close>

section \<open>What the drivers keep\<close>

text \<open>The links of a device, and the units \<open>K\<close> of the pool that are neither given back nor taken.\<close>

definition ud_links :: "UDEV_T \<Rightarrow> UDEV_T" where
  "ud_links d = d\<lparr>ud_descriptor := [], ud_ep0 := EP_zero, ud_iface_list := 0\<rparr>"

definition disc_rel :: "nat set \<Rightarrow> 'w ucore \<Rightarrow> 'w ucore \<Rightarrow> bool" where
  "disc_rel K s s' \<longleftrightarrow> (mem_wf (uc_mem s) \<longrightarrow> mem_wf (uc_mem s')) \<and>
     dma_mem_pool (uc_mem s') = dma_mem_pool (uc_mem s) \<and> g_udev_list (uc_mem s') = g_udev_list (uc_mem s) \<and>
     dev_addr_pool (uc_mem s') = dev_addr_pool (uc_mem s) \<and>
     (\<forall>p. map_option ud_links (udev_heap (uc_mem s') p) = map_option ud_links (udev_heap (uc_mem s) p)) \<and>
     (\<forall>k \<in> K. k < 128 \<longrightarrow> dma_unit_used (uc_mem s') ! k = dma_unit_used (uc_mem s) ! k)"

interpretation disc: frame_relation "disc_rel K" for K :: "nat set"
  by unfold_locales (auto simp: disc_rel_def)

definition disc_call :: "nat set \<Rightarrow> 'w ucore \<Rightarrow> 'w ucore \<Rightarrow> bool" where
  "disc_call K s s' \<longleftrightarrow> disc_rel K s s' \<and> uc_ifaces s' = uc_ifaces s \<and>
     (\<forall>p. map_option ud_iface_list (udev_heap (uc_mem s') p) = map_option ud_iface_list (udev_heap (uc_mem s) p))"

text \<open>
  The drivers \<open>D\<close>, the controller and the callback of the application leave the units of \<open>K\<close> and the objects of the core alone. (The
  hub driver is not such a driver: it removes the devices below the hub. A device with drivers of \<open>D\<close> only is no hub.)
\<close>

definition disc_env :: "u64 set \<Rightarrow> nat set \<Rightarrow> 'w usb_env \<Rightarrow> bool" where
  "disc_env D K E \<longleftrightarrow> (\<forall>drv \<in> D. \<forall>iface s. disc_call K s (ue_disconnect E drv iface s)) \<and>
     (\<forall>hc utr ep s. disc_call K s (snd (ue_quit_xfer E hc utr ep s))) \<and>
     (\<forall>fp udev x s. disc_call K s (ue_callback E fp udev x s))"

lemma disc_rel_subset: "disc_rel K s s' \<Longrightarrow> K' \<subseteq> K \<Longrightarrow> disc_rel K' s s'"
  by (auto simp: disc_rel_def)

lemma disc_rel_wf: "disc_rel K s s' \<Longrightarrow> mem_wf (uc_mem s) \<Longrightarrow> mem_wf (uc_mem s')"
  by (simp add: disc_rel_def)

lemma disc_rel_block: "disc_rel K s s' \<Longrightarrow> dma_block (uc_mem s') k = dma_block (uc_mem s) k"
  by (simp add: disc_rel_def dma_block_def)

lemma disc_udev:
  assumes "disc_rel K s s'" "udev_heap (uc_mem s) p = Some d"
  obtains d' where "udev_heap (uc_mem s') p = Some d'" "ud_links d' = ud_links d"
proof -
  have "map_option ud_links (udev_heap (uc_mem s') p) = Some (ud_links d)" using assms by (simp add: disc_rel_def)
  then show ?thesis using that by auto
qed

lemma ud_links_sel:
  assumes "ud_links d' = ud_links d"
  shows "ud_next d' = ud_next d" "ud_dev_num d' = ud_dev_num d" "ud_cfd_buff d' = ud_cfd_buff d"
    "ud_hc_driver d' = ud_hc_driver d"
  using arg_cong[OF assms, of ud_next] arg_cong[OF assms, of ud_dev_num] arg_cong[OF assms, of ud_cfd_buff]
    arg_cong[OF assms, of ud_hc_driver] by (simp_all add: ud_links_def)

lemma udev_chain_links:
  assumes "\<And>p. map_option ud_links (h' p) = map_option ud_links (h p)"
  shows "udev_chain h' q ps = udev_chain h q ps"
proof (induction ps arbitrary: q)
  case (Cons p ps)
  show ?case
  proof (cases "h p")
    case None
    then have "h' p = None" using assms[of p] by simp
    then show ?thesis using None by simp
  next
    case (Some d)
    then obtain d' where d': "h' p = Some d'" "ud_links d' = ud_links d" using assms[of p] by auto
    then show ?thesis using Some Cons ud_links_sel(1)[OF d'(2)] by simp
  qed
qed simp

section \<open>The list of interfaces of a device\<close>

primrec iface_chain :: "(u64 \<rightharpoonup> IFACE_T) \<Rightarrow> u64 \<Rightarrow> u64 list \<Rightarrow> bool" where
  "iface_chain h p [] = (p = 0)"
| "iface_chain h p (q # qs) = (p = q \<and> q \<noteq> 0 \<and> (case h q of None \<Rightarrow> False | Some f \<Rightarrow> iface_chain h (if_next f) qs))"

lemma iface_chain_upd: "q \<notin> set ps \<Longrightarrow> iface_chain (h(q := x)) p ps = iface_chain h p ps"
  by (induction ps arbitrary: p) (auto split: option.splits)

text \<open>The units behind blocks.\<close>

definition unit_of :: "'w ucore \<Rightarrow> u64 \<Rightarrow> nat \<Rightarrow> bool" where
  "unit_of s p k \<longleftrightarrow> k < 128 \<and> p = dma_block (uc_mem s) (int k) \<and> dma_unit_used (uc_mem s) ! k"

lemma unit_of_kept: "unit_of s p k \<Longrightarrow> disc_rel K s s' \<Longrightarrow> k \<in> K \<Longrightarrow> unit_of s' p k"
  by (auto simp: unit_of_def disc_rel_def dma_block_def)

lemma unit_of_inj: "mem_wf (uc_mem s) \<Longrightarrow> unit_of s p k \<Longrightarrow> unit_of s q k' \<Longrightarrow> (p = q) = (k = k')"
  using dma_block_inj[of "uc_mem s" "int k" "int k'"] by (auto simp: unit_of_def)

text \<open>Giving back a block of one unit.\<close>

lemma free_iface_disc:
  assumes "mem_wf (uc_mem s)" "unit_of s p k"
  shows "run_ok (free_iface p) (\<lambda>x s'. disc_rel (- {k}) s s' \<and> \<not> dma_unit_used (uc_mem s') ! k \<and>
    uc_ifaces s' = (uc_ifaces s)(p := None) \<and> udev_heap (uc_mem s') = udev_heap (uc_mem s)) s"
proof -
  let ?m = "dma_given_back (int k) 1 (uc_mem s)"
  have run: "used_run (dma_unit_used (uc_mem s)) (int k) 1" and p: "p = dma_block (uc_mem s) (int k)"
    using assms by (auto simp: used_run_1 unit_of_def mem_wf_def)
  have n: "1 = units_for sizeof_IFACE_T DMA_MEM_UNIT_SIZE" by (simp add: units_for_def c_div_def)
  have fm: "usbh_free_mem p sizeof_IFACE_T (uc_mem s) = (0, ?m)" "mem_wf ?m"
    unfolding p using usbh_free_mem_run[OF assms(1) run _ n] by simp_all
  moreover have "k < length (dma_unit_used (uc_mem s))" using assms by (simp add: unit_of_def mem_wf_def)
  ultimately show ?thesis by (auto simp: free_iface_def disc_rel_def)
qed

lemma drop_interface_ok:
  assumes "disc_env D K E" "mem_wf (uc_mem s)" "udev_heap (uc_mem s) udev = Some d" "uc_ifaces s p = Some f"
    "unit_of s p k" "k \<in> K" "if_driver f \<in> D"
  shows "run_ok (drop_interface E udev p) (\<lambda>x s'. disc_rel (K - {k}) s s' \<and> \<not> dma_unit_used (uc_mem s') ! k \<and>
    uc_ifaces s' = (uc_ifaces s)(p := None) \<and> map_option ud_iface_list (udev_heap (uc_mem s') udev) = Some (if_next f)) s"
proof -
  let ?d = "d\<lparr>ud_iface_list := if_next f\<rparr>"
  define s1 where "s1 = s\<lparr>uc_mem := (uc_mem s)\<lparr>udev_heap := (udev_heap (uc_mem s))(udev \<mapsto> ?d)\<rparr>\<rparr>"
  define s2 where "s2 = ue_disconnect E (if_driver f) p s1"
  have r1: "disc_rel K s s1" using assms(3) by (simp add: s1_def disc_rel_def ud_links_def)
  have c2: "disc_call K s1 s2" using assms(1,7) by (simp add: disc_env_def s2_def)
  have r2: "disc_rel K s s2" using disc.trans[OF r1] c2 by (simp add: disc_call_def)
  have u2: "unit_of s2 p k" by (rule unit_of_kept[OF assms(5) r2 assms(6)])
  have "run_ok (free_iface p) (\<lambda>x s'. disc_rel (- {k}) s2 s' \<and> \<not> dma_unit_used (uc_mem s') ! k \<and>
      uc_ifaces s' = (uc_ifaces s2)(p := None) \<and> udev_heap (uc_mem s') = udev_heap (uc_mem s2)) s2"
    by (rule free_iface_disc[OF disc_rel_wf[OF r2 assms(2)] u2])
  moreover have "disc_rel (K - {k}) s s'" if "disc_rel (- {k}) s2 s'" for s'
    by (rule disc.trans[OF disc_rel_subset[OF r2] disc_rel_subset[OF that]]) auto
  moreover have "uc_ifaces s2 = uc_ifaces s" "map_option ud_iface_list (udev_heap (uc_mem s2) udev) = Some (if_next f)"
    using c2 by (simp_all add: disc_call_def s1_def)
  ultimately show ?thesis
    using assms(3,4) by (auto simp: drop_interface_def upd_udev_def s1_def[symmetric] s2_def[symmetric] elim!: run_ok_mono)
qed

text \<open>The units of the blocks of one unit at the addresses \<open>ps\<close>.\<close>

definition units_at :: "usb_mem \<Rightarrow> u64 set \<Rightarrow> nat set" where
  "units_at m ps = {k. k < 128 \<and> dma_block m (int k) \<in> ps}"

lemma units_at_insert:
  assumes "mem_wf (uc_mem s)" "unit_of s p k"
  shows "units_at (uc_mem s) (insert p ps) = insert k (units_at (uc_mem s) ps)"
  using assms dma_block_inj[OF assms(1), of "int _" "int k"] by (auto simp: units_at_def unit_of_def)

lemma units_at_kept: "disc_rel K s s' \<Longrightarrow> units_at (uc_mem s') ps = units_at (uc_mem s) ps"
  by (simp add: units_at_def disc_rel_block)

lemma drop_interfaces_ok:
  assumes "disc_env D K E" "mem_wf (uc_mem s)" "map_option ud_iface_list (udev_heap (uc_mem s) udev) = Some h"
    "iface_chain (uc_ifaces s) h fs" "distinct fs" "\<forall>p \<in> set fs. \<exists>k \<in> K. unit_of s p k"
    "\<forall>p \<in> set fs. \<forall>f. uc_ifaces s p = Some f \<longrightarrow> if_driver f \<in> D"
  shows "run_ok (drop_interfaces E udev) (\<lambda>x s'. disc_rel (K - units_at (uc_mem s) (set fs)) s s' \<and>
    (\<forall>k \<in> units_at (uc_mem s) (set fs). \<not> dma_unit_used (uc_mem s') ! k) \<and>
    uc_ifaces s' = (\<lambda>p. if p \<in> set fs then None else uc_ifaces s p)) s"
  using assms
proof (induction fs arbitrary: s h)
  case Nil
  then obtain d where "udev_heap (uc_mem s) udev = Some d" "ud_iface_list d = 0" by auto
  then show ?case unfolding run_ok_def by (subst drop_interfaces.simps) (simp add: disc.refl units_at_def)
next
  case (Cons p fs)
  let ?U = "units_at (uc_mem s) (set fs)"
  obtain d where d: "udev_heap (uc_mem s) udev = Some d" "ud_iface_list d = p" using Cons.prems(3,4) by auto
  obtain f where f: "uc_ifaces s p = Some f" "p \<noteq> 0" "iface_chain (uc_ifaces s) (if_next f) fs"
    using Cons.prems(4) by (auto split: option.splits)
  have drv: "if_driver f \<in> D" using Cons.prems(7) f(1) by simp
  obtain k where k: "k \<in> K" "unit_of s p k" using Cons.prems(6) by auto
  have other: "j \<noteq> k" if "q \<in> set fs" "unit_of s q j" for q j
    using unit_of_inj[OF Cons.prems(2) that(2) k(2)] that(1) Cons.prems(5) by auto
  from drop_interface_ok[OF Cons.prems(1,2) d(1) f(1) k(2,1) drv]
  obtain s1 where run: "drop_interface E udev p s = Some (Inr ((), s1))"
    and s1: "disc_rel (K - {k}) s s1" "uc_ifaces s1 = (uc_ifaces s)(p := None)" "\<not> dma_unit_used (uc_mem s1) ! k"
      "map_option ud_iface_list (udev_heap (uc_mem s1) udev) = Some (if_next f)" by (auto simp: run_ok_def)
  have units: "\<forall>q \<in> set fs. \<exists>k \<in> K. unit_of s1 q k"
    using Cons.prems(6) other unit_of_kept[OF _ s1(1)] by (metis Diff_iff list.set_intros(2) singletonD)
  have chain: "iface_chain (uc_ifaces s1) (if_next f) fs" "distinct fs"
    using f(3) Cons.prems(5) by (simp_all add: s1(2) iface_chain_upd)
  have drvs: "\<forall>q \<in> set fs. \<forall>f. uc_ifaces s1 q = Some f \<longrightarrow> if_driver f \<in> D" using Cons.prems(5,7) by (simp add: s1(2))
  obtain s2 where s2: "drop_interfaces E udev s1 = Some (Inr ((), s2))" "disc_rel (K - ?U) s1 s2"
    "\<forall>k \<in> ?U. \<not> dma_unit_used (uc_mem s2) ! k" "uc_ifaces s2 = (\<lambda>q. if q \<in> set fs then None else uc_ifaces s1 q)"
    using Cons.IH[OF Cons.prems(1) disc_rel_wf[OF s1(1) Cons.prems(2)] s1(4) chain units drvs]
    by (auto simp: run_ok_def units_at_kept[OF s1(1)])
  have U: "units_at (uc_mem s) (set (p # fs)) = insert k ?U" using units_at_insert[OF Cons.prems(2) k(2)] by simp
  have "k \<notin> ?U" using other k(2) Cons.prems(5) by (auto simp: units_at_def unit_of_def)
  then have "\<not> dma_unit_used (uc_mem s2) ! k" using s1(3) s2(2) k by (auto simp: disc_rel_def unit_of_def)
  moreover have "disc_rel (K - insert k ?U) s s2"
    by (rule disc.trans[OF disc_rel_subset[OF s1(1)] disc_rel_subset[OF s2(2)]]) auto
  moreover have "drop_interfaces E udev s = Some (Inr ((), s2))"
    using d f(2) run s2(1) by (subst drop_interfaces.simps) simp
  ultimately show ?case using s2 s1(2) Cons.prems(5) unfolding U by (auto simp: run_ok_def fun_eq_iff)
qed

section \<open>The device\<close>

lemma free_device_addrs:
  assumes "free_device udev m = Some (Inr m')"
  shows "dev_addr_pool m' = dev_addr_pool m"
  using assms
  by (auto simp: free_device_def Let_def usbh_free_mem_frame map_sum_def split: option.splits if_splits sum.splits)

lemma notify_ok: "disc_env D K E \<Longrightarrow> run_ok (notify E func udev) (\<lambda>x s'. disc_call K s s') s"
  by (simp add: notify_def disc_env_def disc_call_def disc.refl)

lemma quit_xfer_ok:
  assumes "disc_env D K E" "udev_heap (uc_mem s) udev = Some d" "ud_hc_driver d \<noteq> 0"
  shows "run_ok (usbh_quit_xfer E udev ep) (\<lambda>x s'. disc_call K s s') s"
  using assms by (simp add: usbh_quit_xfer_def hc_of_def disc_env_def)

lemma disc_call_trans: "disc_call K s t \<Longrightarrow> disc_call K t u \<Longrightarrow> disc_call K s u"
  unfolding disc_call_def by (auto intro: disc.trans)

text \<open>The configuration buffer and the block of the device are among the units that are kept.\<close>

lemma cfd_units_kept: "disc_rel K s s' \<Longrightarrow> cfd_units (uc_mem s') cfd = cfd_units (uc_mem s) cfd"
  by (simp add: cfd_units_def disc_rel_block)

lemma cfd_owned_kept:
  assumes "cfd_owned (uc_mem s) k cfd" "disc_rel K s s'" "mem_wf (uc_mem s)" "cfd_units (uc_mem s) cfd \<subseteq> K"
  shows "cfd_owned (uc_mem s') k cfd"
proof (cases "addr_s cfd = 0")
  case False
  then obtain c where c: "c \<in> {0..124}" "addr_s cfd = addr_s (dma_block (uc_mem s) c)"
    "used_run (dma_unit_used (uc_mem s)) c 4" "k \<notin> {c..<c + 4}" using assms(1) by (auto simp: cfd_owned_def)
  have K: "nat j \<in> K" if "j \<in> {c..<c + 4}" for j
    using that c(1) assms(4) cfd_units_block[OF assms(3) c(1,2) False, of "nat j"] by auto
  have "dma_unit_used (uc_mem s') ! nat j" if "j \<in> {c..<c + 4}" for j
    using K[OF that] that c(1,3) assms(2) by (auto simp: used_run_def disc_rel_def)
  then have "used_run (dma_unit_used (uc_mem s')) c 4"
    using c(1,3) disc_rel_wf[OF assms(2,3)] assms(3) by (auto simp: used_run_def mem_wf_def)
  moreover have "addr_s cfd = addr_s (dma_block (uc_mem s') c)" using c(2) disc_rel_block[OF assms(2)] by simp
  ultimately show ?thesis using c(1,4) unfolding cfd_owned_def by blast
qed (simp add: cfd_owned_def)

text \<open>
  A device that is connected: in the chain \<open>ps\<close> of all devices, with a controller, an address
  and the interfaces \<open>fs\<close>, which are bound to drivers of \<open>D\<close>. Its units are those of the device, of its interfaces and of its
  configuration buffer; they are all different, and among the units \<open>K\<close> that the drivers leave alone.
\<close>

definition device_units :: "usb_mem \<Rightarrow> u64 \<Rightarrow> u64 list \<Rightarrow> UDEV_T \<Rightarrow> nat set" where
  "device_units m udev fs d = units_at m (set (udev # fs)) \<union> cfd_units m (ud_cfd_buff d)"

definition connected :: "u64 set \<Rightarrow> nat set \<Rightarrow> u64 \<Rightarrow> u64 list \<Rightarrow> u64 list \<Rightarrow> UDEV_T \<Rightarrow> 'w ucore \<Rightarrow> bool" where
  "connected D K udev ps fs d s \<longleftrightarrow> mem_wf (uc_mem s) \<and>
     udev_chain (udev_heap (uc_mem s)) (g_udev_list (uc_mem s)) ps \<and> distinct ps \<and> udev \<in> set ps \<and>
     udev_heap (uc_mem s) udev = Some d \<and> ud_hc_driver d \<noteq> 0 \<and> uint (ud_dev_num d) < 128 \<and>
     (\<exists>k. unit_of s udev k \<and> cfd_owned (uc_mem s) (int k) (ud_cfd_buff d)) \<and>
     iface_chain (uc_ifaces s) (ud_iface_list d) fs \<and> distinct (udev # fs) \<and> (\<forall>p \<in> set fs. \<exists>k. unit_of s p k) \<and>
     units_at (uc_mem s) (set fs) \<inter> cfd_units (uc_mem s) (ud_cfd_buff d) = {} \<and>
     device_units (uc_mem s) udev fs d \<subseteq> K \<and>
     (\<forall>p \<in> set fs. \<forall>f. uc_ifaces s p = Some f \<longrightarrow> if_driver f \<in> D)"

lemma unit_of_at: "unit_of s p k \<Longrightarrow> p \<in> ps \<Longrightarrow> k \<in> units_at (uc_mem s) ps"
  by (auto simp: unit_of_def units_at_def)

text \<open>What is left of it after the drivers and the interfaces are gone.\<close>

lemma free_device_disc:
  assumes "disc_rel (K - units_at (uc_mem s) (set fs)) s s3" "connected D K udev ps fs d s" "length A = 128"
  obtains d' k m where "udev_heap (uc_mem s3) udev = Some d'" "ud_dev_num d' = ud_dev_num d" "unit_of s udev k"
    "free_device udev ((uc_mem s3)\<lparr>dev_addr_pool := A\<rparr>) = Some (Inr m)" "mem_wf m"
    "udev_chain (udev_heap m) (g_udev_list m) (remove1 udev ps)" "udev_heap m udev = None" "dev_addr_pool m = A"
    "\<forall>j < 128. dma_unit_used m ! j \<longleftrightarrow> dma_unit_used (uc_mem s3) ! j \<and> j \<noteq> k \<and> j \<notin> cfd_units (uc_mem s) (ud_cfd_buff d)"
proof -
  note c = assms(2)[unfolded connected_def]
  let ?F = "units_at (uc_mem s) (set fs)"
  obtain k where k: "unit_of s udev k" "cfd_owned (uc_mem s) (int k) (ud_cfd_buff d)" using c by blast
  have wf3: "mem_wf (uc_mem s3)" using disc_rel_wf[OF assms(1)] c by blast
  have kF: "k \<in> K - ?F"
    using c unit_of_at[OF k(1), of "set (udev # fs)"] k(1) by (auto simp: device_units_def units_at_def unit_of_def)
  have cK: "cfd_units (uc_mem s) (ud_cfd_buff d) \<subseteq> K - ?F" using c by (auto simp: device_units_def)
  obtain d' where d': "udev_heap (uc_mem s3) udev = Some d'" "ud_links d' = ud_links d"
    using disc_udev[OF assms(1)] c by blast
  note sel = ud_links_sel[OF d'(2)]
  have u3: "unit_of s3 udev k" by (rule unit_of_kept[OF k(1) assms(1) kF])
  have chain: "udev_chain (udev_heap (uc_mem s3)) (g_udev_list (uc_mem s3)) ps"
    using c assms(1) udev_chain_links[of "udev_heap (uc_mem s3)" "udev_heap (uc_mem s)"] by (simp add: disc_rel_def)
  have own: "cfd_owned (uc_mem s3) (int k) (ud_cfd_buff d')"
    unfolding sel(3) by (rule cfd_owned_kept[OF k(2) assms(1)]) (use c cK in auto)
  define x where "x = (uc_mem s3)\<lparr>dev_addr_pool := A\<rparr>"
  have cu: "cfd_units x (ud_cfd_buff d') = cfd_units (uc_mem s) (ud_cfd_buff d)"
    using cfd_units_kept[OF assms(1)] sel(3) by (simp add: x_def cfd_units_def dma_block_def)
  have "\<exists>m. free_device udev x = Some (Inr m) \<and> mem_wf m \<and>
    udev_chain (udev_heap m) (g_udev_list m) (remove1 udev ps) \<and> udev_heap m udev = None \<and>
    \<not> dma_unit_used m ! nat (int k) \<and>
    dma_mem_used_cnt m = dma_mem_used_cnt x - (if addr_s (ud_cfd_buff d') = 0 then 1 else 5) \<and>
    (\<forall>j < 128. dma_unit_used m ! j \<longleftrightarrow> dma_unit_used x ! j \<and> j \<noteq> nat (int k) \<and> j \<notin> cfd_units x (ud_cfd_buff d'))"
    by (rule free_device_chain)
       (use c wf3 chain assms(3) d'(1) own u3 in \<open>auto simp: x_def mem_wf_def unit_of_def used_run_1 dma_block_def cfd_owned_def\<close>)
  then obtain m where m: "free_device udev x = Some (Inr m)" "mem_wf m"
    "udev_chain (udev_heap m) (g_udev_list m) (remove1 udev ps)" "udev_heap m udev = None"
    "\<forall>j < 128. dma_unit_used m ! j \<longleftrightarrow> dma_unit_used x ! j \<and> j \<noteq> k \<and> j \<notin> cfd_units (uc_mem s) (ud_cfd_buff d)"
    unfolding cu nat_int by blast
  moreover have "dev_addr_pool m = A" using free_device_addrs[OF m(1)] by (simp add: x_def)
  ultimately show ?thesis using that[OF d'(1) sel(2) k(1), of m] by (simp add: x_def)
qed

lemma disconnect_device_ok:
  assumes "disc_env D K E" "connected D K udev ps fs d s"
  shows "run_ok (disconnect_device E udev) (\<lambda>x s'. mem_wf (uc_mem s') \<and>
    udev_chain (udev_heap (uc_mem s')) (g_udev_list (uc_mem s')) (remove1 udev ps) \<and> udev_heap (uc_mem s') udev = None \<and>
    dev_addr_pool (uc_mem s') = (dev_addr_pool (uc_mem s))[unat (ud_dev_num d) := 0] \<and>
    uc_ifaces s' = (\<lambda>p. if p \<in> set fs then None else uc_ifaces s p) \<and>
    (\<forall>k \<in> K. k < 128 \<longrightarrow> (dma_unit_used (uc_mem s') ! k \<longleftrightarrow>
      dma_unit_used (uc_mem s) ! k \<and> k \<notin> device_units (uc_mem s) udev fs d))) s"
proof -
  note c = assms(2)[unfolded connected_def]
  let ?F = "units_at (uc_mem s) (set fs)"
  obtain s1 where s1: "notify E uc_disconn_func udev s = Some (Inr ((), s1))" "disc_call K s s1"
    using notify_ok[OF assms(1), of uc_disconn_func udev s] by (auto simp: run_ok_def)
  obtain d1 where d1: "udev_heap (uc_mem s1) udev = Some d1" "ud_links d1 = ud_links d"
    using disc_udev[of K s s1 udev d] s1(2) c by (auto simp: disc_call_def)
  obtain x s2 where s2: "usbh_quit_xfer E udev (ep0_addr udev) s1 = Some (Inr (x, s2))" "disc_call K s1 s2"
    using quit_xfer_ok[OF assms(1) d1(1), of "ep0_addr udev"] ud_links_sel(4)[OF d1(2)] c by (auto simp: run_ok_def)
  have c2: "disc_call K s s2" by (rule disc_call_trans[OF s1(2) s2(2)])
  then have r2: "disc_rel K s s2" "uc_ifaces s2 = uc_ifaces s"
    "map_option ud_iface_list (udev_heap (uc_mem s2) udev) = Some (ud_iface_list d)"
    using c by (auto simp: disc_call_def)
  have FK: "?F \<subseteq> K" using c by (auto simp: device_units_def units_at_def)
  have "\<exists>k \<in> K. unit_of s2 p k" if "p \<in> set fs" for p
    using c that unit_of_kept[OF _ r2(1)] unit_of_at[OF _ that] FK by blast
  then obtain s3 where s3: "drop_interfaces E udev s2 = Some (Inr ((), s3))" "disc_rel (K - ?F) s2 s3"
    "\<forall>k \<in> ?F. \<not> dma_unit_used (uc_mem s3) ! k" "uc_ifaces s3 = (\<lambda>p. if p \<in> set fs then None else uc_ifaces s2 p)"
    using drop_interfaces_ok[OF assms(1) disc_rel_wf[OF r2(1)] r2(3), of fs] c r2(2)
    by (auto simp: run_ok_def units_at_kept[OF r2(1)])
  have r3: "disc_rel (K - ?F) s s3"
    by (rule disc.trans[OF disc_rel_subset[OF r2(1)] s3(2)]) auto
  let ?A = "(dev_addr_pool (uc_mem s3))[nat (uint (ud_dev_num d)) := 0]"
  have A: "?A = (dev_addr_pool (uc_mem s))[unat (ud_dev_num d) := 0]" "length ?A = 128"
    using r3 disc_rel_wf[OF r3] c by (auto simp: disc_rel_def mem_wf_def)
  obtain d' k m where d': "udev_heap (uc_mem s3) udev = Some d'" "ud_dev_num d' = ud_dev_num d" "unit_of s udev k"
    and m: "free_device udev ((uc_mem s3)\<lparr>dev_addr_pool := ?A\<rparr>) = Some (Inr m)" "mem_wf m"
      "udev_chain (udev_heap m) (g_udev_list m) (remove1 udev ps)" "udev_heap m udev = None" "dev_addr_pool m = ?A"
      "\<forall>j < 128. dma_unit_used m ! j \<longleftrightarrow> dma_unit_used (uc_mem s3) ! j \<and> j \<noteq> k \<and> j \<notin> cfd_units (uc_mem s) (ud_cfd_buff d)"
    by (rule free_device_disc[OF r3 assms(2) A(2)])
  have "disconnect_device E udev s = Some (Inr ((), s3\<lparr>uc_mem := m\<rparr>))"
    using s1(1) s2(1) s3(1) d' m(1) c
    by (simp add: disconnect_device_def comp_simps get_udev_def free_dev_addressC_def memC_def free_dev_address_def
        mem_optC_def)
  moreover have "device_units (uc_mem s) udev fs d = insert k ?F \<union> cfd_units (uc_mem s) (ud_cfd_buff d)"
    using units_at_insert[OF _ d'(3)] c by (simp add: device_units_def)
  then have "\<forall>k \<in> K. k < 128 \<longrightarrow> (dma_unit_used m ! k \<longleftrightarrow> dma_unit_used (uc_mem s) ! k \<and> k \<notin> device_units (uc_mem s) udev fs d)"
    using m(6) s3(3) r3 by (auto simp: disc_rel_def)
  ultimately show ?thesis using m A(1) s3(4)[unfolded r2(2)] by (simp add: run_ok_def)
qed

end
