(* ===== verification/Usb_Core_Props.thy ===== *)
theory Usb_Core_Props
  imports Usb_Core_Config Usb_Core_Remove
begin

text \<open>
  The properties of the USB host core: the descriptor parser, transfers, enumeration, the lookup of
  endpoints, registration of drivers and removal. The witnesses run in the environment \<open>idle_env\<close>, where
  no callback does anything, the controller refuses transfers and a clock ticks with every poll.
\<close>

section \<open>A concrete environment\<close>

definition base_env :: "(u64 \<Rightarrow> 'w ucore \<Rightarrow> int \<times> 'w ucore) \<Rightarrow> (u64 \<Rightarrow> 'w ucore \<Rightarrow> int \<times> 'w ucore) \<Rightarrow>
    ('w ucore \<Rightarrow> 'w ucore) \<Rightarrow> ('w ucore \<Rightarrow> nat) \<Rightarrow> 'w usb_env" where
  "base_env ctrl bulk poll now = \<lparr>ue_ctrl_xfer = (\<lambda>hc. ctrl), ue_bulk_xfer = (\<lambda>hc. bulk),
     ue_int_xfer = (\<lambda>hc utr s. (- 1, s)), ue_iso_xfer = (\<lambda>hc. None), ue_quit_xfer = (\<lambda>hc utr ep s. (0, s)),
     ue_rthub_port_reset = (\<lambda>hc port s. (0, s)), ue_hub_port_reset = (\<lambda>hub port s. (0, s)),
     ue_probe = (\<lambda>drv iface s. (0, s)), ue_disconnect = (\<lambda>drv iface s. s), ue_callback = (\<lambda>fp udev x s. s),
     ue_hub_driver = 0x1000, ue_hub_init = (\<lambda>s. s), ue_hc_init = (\<lambda>s. s), ue_pooling_hubs = (\<lambda>s. s),
     ue_poll = poll, ue_delay_us = (\<lambda>us s. s), ue_ticks = (\<lambda>s. word_of_nat (now s))\<rparr>"

lemma base_env_sel [simp]:
  "ue_ctrl_xfer (base_env ctrl bulk poll now) = (\<lambda>hc. ctrl)" "ue_bulk_xfer (base_env ctrl bulk poll now) = (\<lambda>hc. bulk)"
  "ue_quit_xfer (base_env ctrl bulk poll now) = (\<lambda>hc utr ep s. (0, s))"
  "ue_rthub_port_reset (base_env ctrl bulk poll now) = (\<lambda>hc port s. (0, s))"
  "ue_hub_port_reset (base_env ctrl bulk poll now) = (\<lambda>hub port s. (0, s))"
  "ue_probe (base_env ctrl bulk poll now) = (\<lambda>drv iface s. (0, s))" "ue_disconnect (base_env ctrl bulk poll now) = (\<lambda>drv iface s. s)"
  "ue_callback (base_env ctrl bulk poll now) = (\<lambda>fp udev x s. s)" "ue_hub_driver (base_env ctrl bulk poll now) = 0x1000"
  "ue_hub_init (base_env ctrl bulk poll now) = (\<lambda>s. s)" "ue_hc_init (base_env ctrl bulk poll now) = (\<lambda>s. s)"
  "ue_poll (base_env ctrl bulk poll now) = poll" "ue_delay_us (base_env ctrl bulk poll now) = (\<lambda>us s. s)"
  "ue_ticks (base_env ctrl bulk poll now) = (\<lambda>s. word_of_nat (now s))"
  by (simp_all add: base_env_def)

lemma base_clock:
  assumes "\<And>s. now (poll s) = Suc (now s)"
  shows "clock_runs (base_env ctrl bulk poll now)"
  unfolding clock_runs_def base_env_sel
proof (intro allI impI)
  fix s and t :: u32
  assume t: "t \<le> 2000"
  have "now ((poll ^^ n) s) = now s + n" for n by (induction n) (simp_all add: assms)
  then have "word_of_nat (now ((poll ^^ Suc (unat t)) s)) - word_of_nat (now s) = (word_of_nat (Suc (unat t)) :: u32)"
    by (simp del: funpow.simps)
  moreover have "unat t \<le> 2000" using t by (simp add: word_le_nat_alt)
  then have "unat (word_of_nat (Suc (unat t)) :: u32) = Suc (unat t)"
    by (simp add: unsigned_of_nat take_bit_nat_eq_self del: of_nat_Suc)
  then have "t < word_of_nat (Suc (unat t))" unfolding word_less_nat_alt by (simp del: of_nat_Suc)
  ultimately show "\<exists>n. t < word_of_nat (now ((poll ^^ Suc n) s)) - word_of_nat (now s)" by metis
qed

definition idle_env :: "nat usb_env" where
  "idle_env = base_env (\<lambda>utr s. (- 1, s)) (\<lambda>utr s. (- 1, s)) (\<lambda>s. s\<lparr>uc_world := uc_world s + 1\<rparr>) uc_world"

lemma idle_env_sel [simp]:
  "ue_ctrl_xfer idle_env = (\<lambda>hc utr s. (- 1, s))" "ue_quit_xfer idle_env = (\<lambda>hc utr ep s. (0, s))"
  "ue_rthub_port_reset idle_env = (\<lambda>hc port s. (0, s))" "ue_hub_port_reset idle_env = (\<lambda>hub port s. (0, s))"
  "ue_probe idle_env = (\<lambda>drv iface s. (0, s))" "ue_disconnect idle_env = (\<lambda>drv iface s. s)"
  "ue_callback idle_env = (\<lambda>fp udev x s. s)" "ue_hub_driver idle_env = 0x1000" "ue_hub_init idle_env = (\<lambda>s. s)"
  "ue_hc_init idle_env = (\<lambda>s. s)" "ue_poll idle_env = (\<lambda>s. s\<lparr>uc_world := uc_world s + 1\<rparr>)"
  "ue_delay_us idle_env = (\<lambda>us s. s)" "ue_ticks idle_env = (\<lambda>s. word_of_nat (uc_world s))"
  by (simp_all add: idle_env_def)

lemma idle_clock: "clock_runs idle_env"
  unfolding idle_env_def by (rule base_clock) simp

lemma idle_envs: "xfer_env idle_env" "refusing idle_env" "env_keeps (addr_kept udev) idle_env" "probe_env buf idle_env"
  "disc_env D K idle_env"
  by (simp_all add: xfer_env_def refusing_def env_keeps_def addr_kept_def probe_env_def disc_env_def disc_call_def
      disc.refl blocks.refl quiet_def)

text \<open>One device behind a controller, its configuration not read yet.\<close>

abbreviation idle_dev :: u64 where "idle_dev \<equiv> dma_block boot_mem 0"

definition idle_udev :: UDEV_T where
  "idle_udev = UDEV_zero\<lparr>ud_cur_conf := - 1, ud_hc_driver := 0x2000\<rparr>"

definition idle_core :: "nat ucore" where
  "idle_core = \<lparr>uc_mem = (dma_taken 0 1 boot_mem)\<lparr>udev_heap := [idle_dev \<mapsto> idle_udev], g_udev_list := idle_dev\<rparr>,
     uc_ifaces = Map.empty, uc_drivers = 0x1000 # replicate 7 0, uc_conn_func = 0, uc_disconn_func = 0, uc_world = 0\<rparr>"

lemma idle_taken_wf: "0 < n \<Longrightarrow> n \<le> 128 \<Longrightarrow> mem_wf (dma_taken 0 n boot_mem)"
proof -
  assume n: "0 < n" "n \<le> 128"
  have "free_run (dma_unit_used boot_mem) 0 n" using n by (auto simp: free_run_def)
  then show ?thesis by (rule mem_wf_dma_taken[OF boot_mem_wf]) (use n in simp)
qed

lemma idle_core_facts [simp]:
  "mem_wf (uc_mem idle_core)" "udev_heap (uc_mem idle_core) idle_dev = Some idle_udev"
  "dev_addr_pool (uc_mem idle_core) = replicate 128 0"
  using idle_taken_wf[of 1] by (simp_all add: idle_core_def)

section \<open>The descriptor parser\<close>

text \<open>
  C6. On the bytes of a well-formed configuration descriptor \<open>usbh_parse_configuration\<close> does what the
  tree of descriptors says: every interface in turn is allocated, gets its number, its alternative
  settings and their endpoints, and is offered to the registered drivers; class specific
  descriptors between and after the endpoints do not matter. The drivers may do anything but free
  blocks of others and write the descriptor.
\<close>

theorem usbh_parse_configuration_offers:
  assumes "wf_config cfg" "cfd_held buf c (enc_config cfg) s" "probe_env buf E"
  shows "usbh_parse_configuration E udev buf s = offer_all E udev 9 (sc_ifaces cfg) s"
  by (rule usbh_parse_configuration_enc[OF assms])

definition keyboard_config :: config_spec where
  "keyboard_config = \<lparr>sc_bConfigurationValue = 1, sc_iConfiguration = 0, sc_bmAttributes = 0xA0, sc_MaxPower = 50,
     sc_ifaces = [(0, [\<lparr>sa_bInterfaceNumber = 0, sa_bAlternateSetting = 0, sa_class = [3, 1, 1, 0],
       sa_eps = [\<lparr>sp_pre = [[9, 0x21, 0x10, 1, 0, 1, 0x22, 65, 0]], sp_bEndpointAddress = 0x81, sp_bmAttributes = 3,
         sp_wMaxPacketSize = 8, sp_bInterval = 10, sp_tail = []\<rparr>], sa_post = []\<rparr>])]\<rparr>"

lemma keyboard_config_wf: "wf_config keyboard_config"
  by (simp add: wf_config_def keyboard_config_def config_length_def enc_ifaces_def enc_iface_def enc_alt_def
      enc_if_desc_def enc_ep_def enc_ep_desc_def wf_iface_def wf_alt_def wf_ep_def class_desc_def)

definition keyboard_core :: "nat ucore" where
  "keyboard_core = idle_core\<lparr>uc_mem := (dma_taken 0 4 boot_mem)\<lparr>dma_bytes :=
     (\<lambda>i. if 0 \<le> i \<and> i < 34 then enc_config keyboard_config ! nat i else 0)\<rparr>\<rparr>"

lemma holds_nthI: "(\<And>i. i < length xs \<Longrightarrow> b (off + int i) = xs ! i) \<Longrightarrow> holds b off xs"
proof (induction xs arbitrary: off)
  case (Cons x xs)
  have "holds b (off + 1) xs" using Cons.prems[of "Suc _"] by (intro Cons.IH) (simp add: add.assoc)
  then show ?case using Cons.prems[of 0] by simp
qed simp

lemma keyboard_held: "cfd_held idle_dev 0 (enc_config keyboard_config) keyboard_core"
proof -
  have wf: "mem_wf (uc_mem keyboard_core)" using idle_taken_wf[of 4] by (simp add: keyboard_core_def mem_wf_def)
  have len: "length (enc_config keyboard_config) = 34"
    by (simp add: keyboard_config_def enc_config_def enc_ifaces_def enc_iface_def enc_alt_def enc_if_desc_def
        enc_ep_def enc_ep_desc_def)
  have blk: "dma_block (uc_mem keyboard_core) 0 = idle_dev" by (simp add: keyboard_core_def dma_block_def)
  have "cfd_view (uc_mem keyboard_core) idle_dev i = dma_bytes (uc_mem keyboard_core) i" for i
    using cfd_view_block[OF wf, of 0 i] blk by simp
  then have "holds (cfd_view (uc_mem keyboard_core) idle_dev) 0 (enc_config keyboard_config)"
    using len by (intro holds_nthI) (simp add: keyboard_core_def)
  moreover have "used_run (dma_unit_used (uc_mem keyboard_core)) 0 4"
    using used_run_fill[of 0 4 "dma_unit_used boot_mem"] by (simp add: keyboard_core_def)
  ultimately show ?thesis using wf len blk by (simp add: cfd_held_def)
qed

theorem usbh_parse_configuration_offers_witness:
  "wf_config keyboard_config \<and> cfd_held idle_dev 0 (enc_config keyboard_config) keyboard_core \<and>
   usbh_parse_configuration idle_env 0 idle_dev keyboard_core = offer_all idle_env 0 9 (sc_ifaces keyboard_config) keyboard_core"
  using usbh_parse_configuration_offers[OF keyboard_config_wf keyboard_held idle_envs(4)] keyboard_config_wf keyboard_held
  by blast



text \<open>
  C8. A device can stop the host: when the descriptors of a setting with endpoints are
  followed by a descriptor whose length byte is 0 and that is no interface descriptor, the parser of the
  interface does not return.
\<close>

theorem scan_interface_hangs:
  assumes "wf_alt a" "sa_eps a \<noteq> []" "holds b off (enc_alt a @ [0, t])" "t \<noteq> USB_DT_INTERFACE" "0 \<le> off"
    "int (length (enc_alt a @ [0, t])) \<le> len" "off + len \<le> MAX_DESC_BUFF_SIZE"
  shows "scan_interface b off len = None"
proof -
  let ?q = "off + int (length (enc_alt a))"
  let ?n = "sa_bInterfaceNumber a"
  define st0 where "st0 = \<lparr>is_off = off, is_len = len, is_parsed = 0, is_hdr = None,
    is_alt = replicate MAX_ALT_PER_IFACE ALT_zero, is_num_alt = 0\<rparr>"
  obtain e es where e: "sa_eps a = e # es" using assms(2) by (cases "sa_eps a") auto
  have h: "holds b off (enc_alt a)" "b ?q = 0" "b (?q + 1) = t" using assms(3) by auto
  have n: "b (off + 2) = ?n" using h(1) by (simp add: enc_alt_def enc_if_desc_def add.assoc)
  have "\<exists>st'. at_state off (off + len) ?q ([] @ [alt_image off a]) st' \<and> parse_alts b ?n st0 = parse_alts b ?n st'"
    by (rule parse_alts_eps[OF _ assms(1) h(1) _ assms(5) assms(7) refl _ e])
       (use assms in \<open>auto simp: at_state_def st0_def alt_array_def\<close>)
  then obtain st where st: "at_state off (off + len) ?q [alt_image off a] st" "parse_alts b ?n st0 = parse_alts b ?n st"
    by auto
  have "parse_alts b ?n st = None"
    by (rule parse_alts_hangs) (use st(1) h assms in \<open>auto simp: at_state_def zero_desc_def\<close>)
  then show ?thesis using st(2) n assms(5-7) enc_alt_head[OF assms(1) h(1)] by (simp add: scan_interface_def st0_def)
qed

abbreviation keyboard_alt :: alt_spec where "keyboard_alt \<equiv> hd (snd (hd (sc_ifaces keyboard_config)))"

theorem scan_interface_hangs_witness:
  "scan_interface (\<lambda>i. (enc_alt keyboard_alt @ [0, 0]) ! nat i) 0 27 = None"
proof -
  have "holds (\<lambda>i. (enc_alt keyboard_alt @ [0, 0]) ! nat i) 0 (enc_alt keyboard_alt @ [0, 0])" by (rule holds_nthI) simp
  then show ?thesis using keyboard_config_wf
    by (intro scan_interface_hangs[of keyboard_alt _ 0 0 27])
       (simp_all add: wf_config_def wf_iface_def keyboard_config_def enc_alt_def enc_if_desc_def enc_ep_def enc_ep_desc_def)
qed

section \<open>Transfers\<close>

text \<open>
  C9. A control transfer returns, whatever the device does, when the clock runs: the request it
  allocates is given back on every path (refused, completed, timed out), so that afterwards the same
  blocks, requests, addresses, interfaces and devices exist as before; a length is only reported for
  a transfer that succeeded, and a controller that refuses transfers is reported by a negative
  status.
\<close>

theorem usbh_ctrl_xfer_returns:
  assumes "xfer_env E" "clock_runs E" "timeout \<le> 2000" "mem_wf (uc_mem s)" "udev_heap (uc_mem s) udev = Some d"
    "ud_hc_driver d \<noteq> 0"
  shows "\<exists>ret n s'. usbh_ctrl_xfer E udev bmRequestType bRequest wValue wIndex wLength buff timeout s = Some (Inr ((ret, n), s')) \<and>
    quiet s s' \<and> (ret \<noteq> 0 \<longrightarrow> n = 0) \<and> (refusing E \<longrightarrow> ret < 0)"
  using usbh_ctrl_xfer_total[OF assms] unfolding run_ok_def by fast

theorem usbh_ctrl_xfer_returns_witness:
  "\<exists>ret n s'. usbh_ctrl_xfer idle_env idle_dev REQ_TYPE_IN USB_REQ_GET_DESCRIPTOR 0x100 0 18 idle_dev 1000 idle_core =
     Some (Inr ((ret, n), s')) \<and> quiet idle_core s' \<and> ret < 0 \<and> n = 0"
proof -
  have "\<exists>ret n s'. usbh_ctrl_xfer idle_env idle_dev REQ_TYPE_IN USB_REQ_GET_DESCRIPTOR 0x100 0 18 idle_dev 1000 idle_core =
     Some (Inr ((ret, n), s')) \<and> quiet idle_core s' \<and> (ret \<noteq> 0 \<longrightarrow> n = 0) \<and> (refusing idle_env \<longrightarrow> ret < 0)"
    by (rule usbh_ctrl_xfer_returns[OF idle_envs(1) idle_clock, where d = idle_udev]) (simp_all add: idle_udev_def)
  then show ?thesis using idle_envs(2) by fastforce
qed

section \<open>Enumeration\<close>

lemma connect_rest_settles:
  assumes "env_keeps (addr_kept udev) E"
  shows "settles udev P a (thenC (execC (ue_delay_us E 100000))
     (bindC (usbh_get_device_descriptor E udev) (\<lambda>ret.
     if ret < 0 then connect_failed udev ret
     else bindC (memC (usbh_alloc_mem MAX_DESC_BUFF_SIZE)) (\<lambda>conf.
     if conf = 0 then connect_failed udev USBH_ERR_MEMORY_OUT
     else connect_configure E udev conf))))"
proof -
  have e: "settles udev P a (if b then connect_failed udev r else k)" if "b \<Longrightarrow> r < 0" "settles udev P a k" for b r k
    using that settles_failed by auto
  show ?thesis
    by (intro settles_then settles_bind e connect_configure_settles addr_frame.keeps_delay
        addr_frame.keeps_get_descriptors addr_frame.keeps_mem addr_frame.alloc assms) simp_all
qed

text \<open>
  C10. The address of a device: an enumeration that ends with an error leaves the table of addresses as
  it was, whatever step failed; one that succeeds has taken exactly one address of 1..127 that was
  free, and stored it in the device. (The callbacks may do anything but change addresses.)
\<close>

theorem connect_device_address:
  assumes "env_keeps (addr_kept udev) E" "connect_device E udev s = Some (Inr (ret, s'))"
  shows "if ret < 0 then dev_addr_pool (uc_mem s') = dev_addr_pool (uc_mem s)
    else \<exists>a. 1 \<le> a \<and> a < 128 \<and> dev_addr_pool (uc_mem s) ! a = 0 \<and>
      dev_addr_pool (uc_mem s') = (dev_addr_pool (uc_mem s))[a := 1] \<and>
      map_option ud_dev_num (udev_heap (uc_mem s') udev) = Some (word_of_nat a)"
proof -
  let ?K = "addr_kept udev"
  define rest where "rest = thenC (execC (ue_delay_us E 100000))
     (bindC (usbh_get_device_descriptor E udev) (\<lambda>ret.
     if ret < 0 then connect_failed udev ret
     else bindC (memC (usbh_alloc_mem MAX_DESC_BUFF_SIZE)) (\<lambda>conf.
     if conf = 0 then connect_failed udev USBH_ERR_MEMORY_OUT
     else connect_configure E udev conf)))"
  have "connect_device E udev = thenC (execC (ue_delay_us E 100000)) (thenC (usbh_get_device_descriptor E udev)
     (thenC (reset_device E udev) (thenC (execC (ue_delay_us E 100000))
     (bindC (usbh_set_address E udev) (\<lambda>ret. if ret < 0 then retC ret else rest)))))"
    unfolding connect_device_def rest_def ..
  then obtain u1 s1 x2 s2 x3 s3 u4 s4 r s5 where
    run: "execC (ue_delay_us E 100000) s = Some (Inr (u1, s1))" "usbh_get_device_descriptor E udev s1 = Some (Inr (x2, s2))"
      "reset_device E udev s2 = Some (Inr (x3, s3))" "execC (ue_delay_us E 100000) s3 = Some (Inr (u4, s4))"
    and set: "usbh_set_address E udev s4 = Some (Inr (r, s5))"
    and fin: "(if r < 0 then retC r else rest) s5 = Some (Inr (ret, s'))"
    using assms(2) by (auto simp: thenC_Inr_iff bindC_Inr_iff)
  have "?K s s1" "?K s1 s2" "?K s2 s3" "?K s3 s4"
    using keepsD[OF addr_frame.keeps_delay[OF assms(1)] run(1)] keepsD[OF addr_frame.keeps_get_descriptors(1)[OF assms(1)] run(2)]
      keepsD[OF addr_frame.keeps_reset_device[OF assms(1)] run(3)] keepsD[OF addr_frame.keeps_delay[OF assms(1)] run(4)]
    by simp_all
  then have P: "dev_addr_pool (uc_mem s4) = dev_addr_pool (uc_mem s)" by (simp add: addr_kept_def)
  from usbh_set_address_cases[OF assms(1) set, unfolded P] show ?thesis
  proof (elim disjE conjE exE)
    assume "r < 0" "dev_addr_pool (uc_mem s5) = dev_addr_pool (uc_mem s)"
    then show ?thesis using fin by (simp add: comp_run)
  next
    fix a
    assume r: "r = 0" and a: "1 \<le> a" "addr_mid udev (dev_addr_pool (uc_mem s)) a s5"
    have fin': "rest s5 = Some (Inr (ret, s'))" using fin r by simp
    have "settles udev (dev_addr_pool (uc_mem s)) a rest" unfolding rest_def by (rule connect_rest_settles[OF assms(1)])
    then have "if ret < 0 then dev_addr_pool (uc_mem s') = dev_addr_pool (uc_mem s)
        else addr_mid udev (dev_addr_pool (uc_mem s)) a s'"
      using a(2) fin' unfolding settles_def by blast
    then show ?thesis using a by (auto simp: addr_mid_def)
  qed
qed

text \<open>A device that does not answer: \<open>connect_device\<close> returns an error.\<close>

lemma device_descriptor_total:
  assumes "xfer_env E" "clock_runs E" "mem_wf (uc_mem s)" "udev_heap (uc_mem s) udev = Some d" "ud_hc_driver d \<noteq> 0"
  shows "run_ok (device_descriptor_tries E udev n ret) (\<lambda>x s'. quiet s s') s"
  using assms(3-5)
proof (induction n arbitrary: s d ret)
  case 0
  then show ?case by (simp add: quiet.refl)
next
  case (Suc n)
  have t: "(1000 :: u32) \<le> 2000" by simp
  have "run_ok (device_descriptor_tries E udev n r) (\<lambda>x s''. quiet s s'') s'" if q: "quiet s s'" for r s'
  proof -
    obtain d' where d': "udev_heap (uc_mem s') udev = Some d'" "ud_core d' = ud_core d"
      using quiet_udev[OF q Suc.prems(2)] by blast
    have "run_ok (device_descriptor_tries E udev n r) (\<lambda>x s''. quiet s' s'') s'"
      by (rule Suc.IH[OF quiet_wf[OF q Suc.prems(1)] d'(1)]) (use ud_core_hc[OF d'(2)] Suc.prems(3) in simp)
    then show ?thesis by (rule run_ok_mono) (rule quiet.trans[OF q])
  qed
  then show ?case
    unfolding device_descriptor_tries.simps run_ok_bind
    by (intro run_ok_mono[OF usbh_ctrl_xfer_total[OF assms(1,2) t Suc.prems]]) auto
qed

lemma usbh_set_address_refused:
  assumes "xfer_env E" "clock_runs E" "refusing E" "mem_wf (uc_mem s)" "udev_heap (uc_mem s) udev = Some d"
    "ud_hc_driver d \<noteq> 0" "dev_addr_pool (uc_mem s) ! b = 0" "1 \<le> b" "b < 128"
  shows "run_ok (usbh_set_address E udev) (\<lambda>ret s'. ret < 0) s"
proof (cases "ud_dev_num d = 0")
  case True
  obtain a where "dev_addr_loop (dev_addr_pool (uc_mem s)) (next_dev_addr (device_addr (uc_mem s))) = Some a"
    using dev_addr_loop_returns[OF _ _ assms(8,9,7)] next_dev_addr_range by blast
  then have a: "alloc_dev_address (uc_mem s) = Some (a, (uc_mem s)\<lparr>device_addr := a,
      dev_addr_pool := (dev_addr_pool (uc_mem s))[a := 1]\<rparr>)" (is "_ = Some (a, ?m)")
    by (simp add: alloc_dev_address_def)
  let ?s = "s\<lparr>uc_mem := ?m\<rparr>"
  note wf = alloc_dev_address_wf[OF assms(4) a]
  have t: "(1000 :: u32) \<le> 2000" by simp
  obtain ret n s' where x: "usbh_ctrl_xfer E udev REQ_TYPE_OUT USB_REQ_SET_ADDRESS (word_of_nat a) 0 0 0 1000 ?s
      = Some (Inr ((ret, n), s'))" "quiet ?s s'" "ret < 0"
    using usbh_ctrl_xfer_total[OF assms(1,2) t, of ?s udev d] wf assms(3,5,6) by (fastforce simp: run_ok_def)
  have "a < 128" using wf by simp
  then show ?thesis using True assms(5) a x
    by (simp add: usbh_set_address_def run_ok_def comp_simps get_udev_def alloc_dev_addressC_def
        free_dev_addressC_def memC_def free_dev_address_def)
qed (use assms(5) in \<open>simp add: usbh_set_address_def\<close>)

lemma idle_connect: "run_ok (connect_device idle_env idle_dev) (\<lambda>ret s'. ret < 0) idle_core"
proof -
  have hc: "ud_hc_driver idle_udev \<noteq> 0" by (simp add: idle_udev_def)
  have desc: "run_ok (device_descriptor_tries idle_env idle_dev 3 0) (\<lambda>x s'. quiet idle_core s') idle_core"
    by (rule device_descriptor_total[OF idle_envs(1) idle_clock _ _ hc]) simp_all
  have after: "run_ok (thenC (reset_device idle_env idle_dev) (thenC (execC (ue_delay_us idle_env 100000))
      (bindC (usbh_set_address idle_env idle_dev) (\<lambda>ret. if ret < 0 then retC ret else rest)))) (\<lambda>ret s'. ret < 0) s1"
    if q: "quiet idle_core s1" for s1 rest
  proof -
    obtain d where d: "udev_heap (uc_mem s1) idle_dev = Some d" "ud_core d = ud_core idle_udev"
      using quiet_udev[OF q] idle_core_facts(2) by blast
    have "run_ok (usbh_set_address idle_env idle_dev) (\<lambda>ret s'. ret < 0) s1"
      by (rule usbh_set_address_refused[OF idle_envs(1) idle_clock idle_envs(2) quiet_wf[OF q] d(1), of 5])
         (use ud_core_hc[OF d(2)] hc q in \<open>simp_all add: quiet_def\<close>)
    then show ?thesis using d(1) by (auto simp: reset_device_def elim!: run_ok_mono)
  qed
  show ?thesis
    unfolding connect_device_def run_ok_then[where s = idle_core] run_ok_basic(4)[where s = idle_core]
      idle_env_sel(12) usbh_get_device_descriptor_def
    by (rule run_ok_mono[OF desc]) (rule after[unfolded idle_env_sel(12)])
qed

theorem connect_device_address_witness:
  "\<exists>ret s'. connect_device idle_env idle_dev idle_core = Some (Inr (ret, s')) \<and> ret < 0 \<and>
     dev_addr_pool (uc_mem s') = replicate 128 0"
proof -
  obtain ret s' where r: "connect_device idle_env idle_dev idle_core = Some (Inr (ret, s'))" "ret < 0"
    using idle_connect by (auto simp: run_ok_def)
  then show ?thesis using connect_device_address[OF idle_envs(3) r(1)] by simp
qed

section \<open>Removal\<close>


text \<open>The device of the witness has one interface and the address 2.\<close>

definition attached_udev :: "u64 \<Rightarrow> u8 \<Rightarrow> UDEV_T" where
  "attached_udev parent port = idle_udev\<lparr>ud_dev_num := 2, ud_iface_list := dma_block boot_mem 1, ud_parent := parent, ud_port_num := port\<rparr>"

definition attached_core :: "u64 \<Rightarrow> u8 \<Rightarrow> 'w \<Rightarrow> 'w ucore" where
  "attached_core parent port w = \<lparr>uc_mem = (dma_taken 0 2 boot_mem)\<lparr>udev_heap := [idle_dev \<mapsto> attached_udev parent port],
     g_udev_list := idle_dev, dev_addr_pool := (replicate 128 0)[2 := 1]\<rparr>,
     uc_ifaces = [dma_block boot_mem 1 \<mapsto> iface_image idle_dev 9 0 []], uc_drivers = 0x1000 # replicate 7 0,
     uc_conn_func = 0, uc_disconn_func = 0, uc_world = w\<rparr>"

lemma pool_addr_s: "c \<in> {0..124} \<Longrightarrow> addr_s (dma_block boot_mem c) \<noteq> 0"
proof -
  assume that: "c \<in> {0..124}"
  let ?a = "dma_mem_pool boot_mem + word_of_int (c * DMA_MEM_UNIT_SIZE)"
  have "uint (dma_mem_pool boot_mem) = 0x80100000" by (simp add: boot_mem_def usbh_memory_init_def)
  then have "uint (addr_s ?a) \<noteq> 0"
    using that uint_dma_unit[OF boot_mem_wf, of c] unfolding uint_addr_s by (auto simp: mod_pos_pos_trivial)
  then show ?thesis by (auto simp: dma_block_def)
qed

lemma attached_units: "device_units (uc_mem (attached_core parent port w)) idle_dev [dma_block boot_mem 1] (attached_udev parent port) = {0, 1}"
  (is "device_units (uc_mem ?s) _ _ ?d = _")
proof -
  have wf: "mem_wf (uc_mem ?s)" using idle_taken_wf[of 2] by (simp add: attached_core_def mem_wf_def)
  have "unit_of ?s idle_dev 0" "unit_of ?s (dma_block boot_mem 1) 1"
    by (simp_all add: unit_of_def attached_core_def dma_block_def)
  then have "units_at (uc_mem ?s) {idle_dev, dma_block boot_mem 1} = {0, 1}"
    using units_at_insert[OF wf, of idle_dev 0 "{dma_block boot_mem 1}"] units_at_insert[OF wf, of "dma_block boot_mem 1" 1 "{}"]
    by (simp add: units_at_def[of _ "{}"])
  then show ?thesis
    by (simp add: device_units_def cfd_units_def attached_udev_def idle_udev_def UDEV_zero_def addr_s_def)
qed

lemma attached_connected:
  assumes "{0, 1} \<subseteq> K"
  shows "connected {0} K idle_dev [idle_dev] [dma_block boot_mem 1] (attached_udev parent port) (attached_core parent port w)"
  (is "connected _ _ _ _ _ ?d ?s")
proof -
  have nz: "dma_block boot_mem k \<noteq> 0" for k by (simp add: dma_block_def)
  have blk: "dma_block (uc_mem ?s) k = dma_block boot_mem k" for k
    by (simp add: attached_core_def dma_block_def)
  have wf: "mem_wf (uc_mem ?s)" using idle_taken_wf[of 2] by (simp add: attached_core_def mem_wf_def)
  have cfd: "addr_s (ud_cfd_buff ?d) = 0" by (simp add: attached_udev_def idle_udev_def UDEV_zero_def addr_s_def)
  have u: "unit_of ?s idle_dev 0" "unit_of ?s (dma_block boot_mem 1) 1"
    using blk by (simp_all add: unit_of_def attached_core_def)
  have "idle_dev \<noteq> dma_block boot_mem 1" using unit_of_inj[OF wf u] by simp
  moreover have "\<exists>k. unit_of ?s idle_dev k \<and> cfd_owned (uc_mem ?s) (int k) (ud_cfd_buff ?d)"
    using u(1) cfd by (auto simp: cfd_owned_def)
  moreover have "cfd_units (uc_mem ?s) (ud_cfd_buff ?d) = {}" using cfd by (simp add: cfd_units_def)
  moreover have "device_units (uc_mem ?s) idle_dev [dma_block boot_mem 1] ?d \<subseteq> K" unfolding attached_units by (rule assms)
  moreover have "udev_heap (uc_mem ?s) = [idle_dev \<mapsto> ?d]" "g_udev_list (uc_mem ?s) = idle_dev"
    "uc_ifaces ?s = [dma_block boot_mem 1 \<mapsto> iface_image idle_dev 9 0 []]"
    by (simp_all add: attached_core_def)
  moreover have "ud_next ?d = 0" "ud_hc_driver ?d \<noteq> 0" "uint (ud_dev_num ?d) < 128"
    "ud_iface_list ?d = dma_block boot_mem 1"
    by (simp_all add: attached_udev_def idle_udev_def UDEV_zero_def)
  ultimately show ?thesis unfolding connected_def using wf nz u(2) by (auto simp: iface_image_def)
qed


section \<open>Endpoints of an interface\<close>

definition first_index :: "('a \<Rightarrow> bool) \<Rightarrow> 'a list \<Rightarrow> nat option" where
  "first_index P xs = (case filter (\<lambda>i. P (xs ! i)) [0..<length xs] of [] \<Rightarrow> None | i # _ \<Rightarrow> Some i)"

lemma find_ep_filter:
  "i + n \<le> length eps \<Longrightarrow> find_ep P eps n i s =
    Some (Inr ((case filter (\<lambda>j. P (eps ! j)) [i..<i + n] of [] \<Rightarrow> None | j # _ \<Rightarrow> Some j), s))"
proof (induction n arbitrary: i)
  case (Suc n)
  have "[i..<i + Suc n] = i # [Suc i..<Suc i + n]" by (simp add: upt_conv_Cons)
  then show ?case using Suc.IH[of "Suc i"] Suc.prems by (simp add: comp_simps nthC_def)
qed (simp add: comp_run)

lemma alt_images_nth:
  "k < length as \<Longrightarrow> alt_images off as ! k = alt_image (off + int (length (enc_iface (take k as)))) (as ! k)"
proof (induction as arbitrary: off k)
  case (Cons a as)
  then show ?case by (cases k) (simp_all add: enc_iface_def add.assoc)
qed simp

lemma length_alt_images [simp]: "length (alt_images off as) = length as"
  by (induction as arbitrary: off) simp_all

lemma enc_iface_alt: "k < length as \<Longrightarrow> enc_iface as = enc_iface (take k as) @ enc_alt (as ! k) @ enc_iface (drop (Suc k) as)"
  unfolding enc_iface_def by (subst id_take_nth_drop[of k as]) simp_all

text \<open>What the caller asks for: an endpoint by its address, or by direction and type.\<close>

definition ep_wanted :: "u8 \<Rightarrow> u8 \<Rightarrow> ep_spec \<Rightarrow> bool" where
  "ep_wanted ep_addr dir_type e = (if ep_addr = 0
     then sp_bEndpointAddress e AND 0x80 = dir_type AND 0x80 \<and> sp_bmAttributes e AND 3 = dir_type AND 3
     else sp_bEndpointAddress e = ep_addr)"

text \<open>
  On an interface that the parser built from well-formed descriptors, \<open>usbh_iface_find_ep\<close> returns the
  first endpoint of the active setting in the order of the descriptors that has the wanted address, or
  the wanted direction and type, and NULL when there is none; it changes nothing.
\<close>

lemma usbh_iface_find_ep_first:
  assumes "uc_ifaces s iface = Some f" "if_alt f = alt_array (alt_images off as)" "if_aif f < length as" "wf_iface n as"
    "udev_heap (uc_mem s) (if_udev f) = Some d" "holds (cfd_view (uc_mem s) (ud_cfd_buff d)) off (enc_iface as)"
    "0 \<le> off" "off + int (length (enc_iface as)) \<le> MAX_DESC_BUFF_SIZE"
  shows "usbh_iface_find_ep iface ep_addr dir_type s =
    Some (Inr (first_index (ep_wanted ep_addr dir_type) (sa_eps (as ! if_aif f)), s))"
proof -
  let ?b = "cfd_view (uc_mem s) (ud_cfd_buff d)"
  let ?k = "if_aif f"
  let ?a = "as ! ?k"
  let ?o = "off + int (length (enc_iface (take ?k as)))"
  let ?P = "\<lambda>ep. if ep_addr = 0 then ep_bEndpointAddress ep AND 0x80 = dir_type AND 0x80 \<and>
    ep_bmAttributes ep AND 3 = dir_type AND 3 else ep_bEndpointAddress ep = ep_addr"
  have a: "wf_alt ?a" using assms(3,4) by (auto simp: wf_iface_def list_all_length)
  have h: "holds ?b ?o (enc_alt ?a)" using assms(6) enc_iface_alt[OF assms(3)] by (metis holds_append)
  have "length (enc_iface as) = length (enc_iface (take ?k as)) + length (enc_alt ?a) + length (enc_iface (drop (Suc ?k) as))"
    using arg_cong[OF enc_iface_alt[OF assms(3)], of length] by simp
  then have rng: "0 \<le> ?o + 4" "?o + 4 < MAX_DESC_BUFF_SIZE" using enc_alt_head[OF a h] assms(7,8) by linarith+
  have len: "length (sa_eps ?a) \<le> MAX_EP_PER_IFACE" using a by (simp add: wf_alt_def)
  have nb: "unat (?b (?o + 4)) = length (sa_eps ?a)"
    using h len by (simp add: enc_alt_def enc_if_desc_def unat_length_byte add.assoc)
  have alt: "if_alt f ! ?k = alt_image ?o ?a" "?k < length (if_alt f)"
    using assms(2,3) by (simp_all add: alt_array_def nth_append alt_images_nth)
  have "filter (\<lambda>j. ?P (ep_array (sa_eps ?a) ! j)) [0..<0 + length (sa_eps ?a)] =
      filter (\<lambda>j. ep_wanted ep_addr dir_type (sa_eps ?a ! j)) [0..<length (sa_eps ?a)]"
    by (rule filter_cong) (auto simp: ep_array_def nth_append ep_info_def ep_wanted_def)
  then show ?thesis
    using assms(1,5) alt rng nb len find_ep_filter[of 0 "length (sa_eps ?a)" "ep_array (sa_eps ?a)" ?P s]
    by (simp add: usbh_iface_find_ep_def comp_simps get_iface_def nthC_def ifd_rd8_def alt_image_def get_udev_def
        cfd_rd8_def sumC_def first_index_def ep_array_def)
qed

definition keyboard_attached :: "nat ucore" where
  "keyboard_attached = keyboard_core\<lparr>uc_mem := (uc_mem keyboard_core)\<lparr>udev_heap := [0x3000 \<mapsto> idle_udev\<lparr>ud_cfd_buff := idle_dev\<rparr>]\<rparr>,
     uc_ifaces := [0x4000 \<mapsto> iface_image 0x3000 9 0 [keyboard_alt]]\<rparr>"

section \<open>Drivers\<close>

lemma register_at_table:
  assumes "0 \<notin> set ds" "udrv \<noteq> 0"
  shows "register_at udrv (ds @ replicate n 0) = (if udrv \<in> set ds then Some (ds @ replicate n 0)
    else if 0 < n then Some (ds @ udrv # replicate (n - 1) 0) else None)"
  using assms by (induction ds) (cases n; auto)+

text \<open>
  The table of drivers: \<open>usbh_core_init\<close> forgets every driver that was registered before it,
  and the drivers registered afterwards follow the hub driver in the order of their registration, up to
  seven of them.
\<close>

lemma drivers_registered_after_init:
  assumes "\<And>s. uc_drivers (ue_hub_init E s) = uc_drivers s" "\<And>s. uc_drivers (ue_hc_init E s) = uc_drivers s"
    "distinct (ue_hub_driver E # ds)" "0 \<notin> set (ue_hub_driver E # ds)"
  shows "uc_drivers (fold (\<lambda>d s. snd (usbh_register_driver d s)) ds (usbh_core_init E s)) =
    take MAX_UDEV_DRIVER (ue_hub_driver E # ds @ replicate MAX_UDEV_DRIVER 0)"
proof -
  have tab: "uc_drivers (fold (\<lambda>d s. snd (usbh_register_driver d s)) ds t) = take MAX_UDEV_DRIVER (rs @ ds @ replicate MAX_UDEV_DRIVER 0)"
    if "uc_drivers t = take MAX_UDEV_DRIVER (rs @ replicate MAX_UDEV_DRIVER 0)" "distinct (rs @ ds)" "0 \<notin> set (rs @ ds)" for ds rs t
    using that
  proof (induction ds arbitrary: rs t)
    case (Cons d ds)
    let ?t = "snd (usbh_register_driver d t)"
    have "uc_drivers t = take MAX_UDEV_DRIVER rs @ replicate (MAX_UDEV_DRIVER - length rs) 0"
      using Cons.prems(1) by simp
    moreover have "0 \<notin> set (take MAX_UDEV_DRIVER rs)" "d \<notin> set (take MAX_UDEV_DRIVER rs)" "d \<noteq> 0"
      using Cons.prems(2,3) by (auto dest: in_set_takeD)
    ultimately have "uc_drivers ?t = take MAX_UDEV_DRIVER ((rs @ [d]) @ replicate MAX_UDEV_DRIVER 0)"
      by (auto simp: usbh_register_driver_def register_at_table take_Cons')
    from Cons.IH[OF this] Cons.prems(2,3) show ?case by simp
  qed simp
  have "uc_drivers (usbh_core_init E s) = take MAX_UDEV_DRIVER ([ue_hub_driver E] @ replicate MAX_UDEV_DRIVER 0)"
    using assms(1,2,4) register_at_table[of "[]" "ue_hub_driver E" MAX_UDEV_DRIVER]
    by (simp add: usbh_core_init_def usbh_hub_init_def usbh_register_driver_def)
  from tab[OF this, of ds] assms(3,4) show ?thesis by simp
qed

end
