(* ===== verification/Usb_Power.thy ===== *)
theory Usb_Power
  imports MA35_Prelude
begin

text \<open>
  Suspend and resume of the USB host controllers (\<open>usbh_suspend\<close>, \<open>usbh_resume\<close> of \<open>src_core/usb_core.c\<close>).

  The functions only access registers of the four controllers. The state is the sequence of these accesses, and the hardware is an
  argument: what a read returns may depend on all accesses before it. A register is a controller and a byte
  offset, so that an index beyond the array of a register is a definite word.
\<close>

datatype hc = OHCI0 | OHCI1 | EHCI0 | EHCI1

datatype hc_access = Rd hc nat | Wr hc nat u32 | Wait nat

type_synonym hc_hw = "hc_access list \<Rightarrow> hc \<Rightarrow> nat \<Rightarrow> u32"

record power =
  accesses :: "hc_access list"
  ehci0_UCMDR :: u32
  ehci1_UCMDR :: u32

text \<open>The result is \<open>None\<close> when the code does not return.\<close>

type_synonym 'a pcomp = "power \<Rightarrow> ('a \<times> power) option"

definition retP :: "'a \<Rightarrow> 'a pcomp" where
  "retP a s = Some (a, s)"

definition bindP :: "'a pcomp \<Rightarrow> ('a \<Rightarrow> 'b pcomp) \<Rightarrow> 'b pcomp" where
  "bindP m f s = (case m s of None \<Rightarrow> None | Some (a, s') \<Rightarrow> f a s')"

definition thenP :: "'a pcomp \<Rightarrow> 'b pcomp \<Rightarrow> 'b pcomp" where
  "thenP m k = bindP m (\<lambda>_. k)"

definition emit :: "hc_access \<Rightarrow> unit pcomp" where
  "emit a s = Some ((), s\<lparr>accesses := accesses s @ [a]\<rparr>)"

section \<open>Registers\<close>

abbreviation HcControl :: nat where "HcControl \<equiv> 0x04"
abbreviation HcInterruptEnable :: nat where "HcInterruptEnable \<equiv> 0x10"
abbreviation HcRhStatus :: nat where "HcRhStatus \<equiv> 0x50"
abbreviation UCMDR :: nat where "UCMDR \<equiv> 0x10"
abbreviation USTSR :: nat where "USTSR \<equiv> 0x14"

text \<open>Each controller has one port: \<open>HcRhPortStatus\<close> and \<open>UPSCR\<close> are arrays of one word.\<close>

definition HcRhPortStatus :: "nat \<Rightarrow> nat" where "HcRhPortStatus i = 0x54 + 4 * i"

definition UPSCR :: "nat \<Rightarrow> nat" where "UPSCR i = 0x54 + 4 * i"

abbreviation USBH_HcRhPortStatus_CCS_Msk :: u32 where "USBH_HcRhPortStatus_CCS_Msk \<equiv> 1"
abbreviation USBH_HcRhPortStatus_PSS_Msk :: u32 where "USBH_HcRhPortStatus_PSS_Msk \<equiv> 4"
abbreviation USBH_HcRhPortStatus_POCI_Msk :: u32 where "USBH_HcRhPortStatus_POCI_Msk \<equiv> 8"
abbreviation USBH_HcRhStatus_DRWE_Msk :: u32 where "USBH_HcRhStatus_DRWE_Msk \<equiv> 0x8000"
abbreviation USBH_HcInterruptEnable_RD_Msk :: u32 where "USBH_HcInterruptEnable_RD_Msk \<equiv> 8"
abbreviation USBH_HcInterruptEnable_RHSC_Msk :: u32 where "USBH_HcInterruptEnable_RHSC_Msk \<equiv> 0x40"
abbreviation HSUSBH_UCMDR_RUN_Msk :: u32 where "HSUSBH_UCMDR_RUN_Msk \<equiv> 1"
abbreviation HSUSBH_UCMDR_PSEN_Msk :: u32 where "HSUSBH_UCMDR_PSEN_Msk \<equiv> 0x10"
abbreviation HSUSBH_UCMDR_ASEN_Msk :: u32 where "HSUSBH_UCMDR_ASEN_Msk \<equiv> 0x20"
abbreviation HSUSBH_USTSR_HCHalted_Msk :: u32 where "HSUSBH_USTSR_HCHalted_Msk \<equiv> 0x1000"
abbreviation HSUSBH_UPSCR_PE_Msk :: u32 where "HSUSBH_UPSCR_PE_Msk \<equiv> 4"
abbreviation HSUSBH_UPSCR_FPR_Msk :: u32 where "HSUSBH_UPSCR_FPR_Msk \<equiv> 0x40"
abbreviation HSUSBH_UPSCR_SUSPEND_Msk :: u32 where "HSUSBH_UPSCR_SUSPEND_Msk \<equiv> 0x80"

definition readP :: "hc_hw \<Rightarrow> hc \<Rightarrow> nat \<Rightarrow> u32 pcomp" where
  "readP hw c r s = Some (hw (accesses s) c r, s\<lparr>accesses := accesses s @ [Rd c r]\<rparr>)"

definition writeP :: "hc \<Rightarrow> nat \<Rightarrow> u32 \<Rightarrow> unit pcomp" where
  "writeP c r v = emit (Wr c r v)"

text \<open>A read-modify-write, as in \<open>reg |= v\<close>.\<close>

definition modifyP :: "hc_hw \<Rightarrow> hc \<Rightarrow> nat \<Rightarrow> (u32 \<Rightarrow> u32) \<Rightarrow> unit pcomp" where
  "modifyP hw c r f = bindP (readP hw c r) (\<lambda>v. writeP c r (f v))"

definition delay_us :: "nat \<Rightarrow> unit pcomp" where
  "delay_us n = emit (Wait n)"

text \<open>The functional state of an OHCI controller: \<open>HcControl = (HcControl & ~HCFS) | (st << HCFS_Pos)\<close>.\<close>

definition set_HCFS :: "hc_hw \<Rightarrow> hc \<Rightarrow> u32 \<Rightarrow> unit pcomp" where
  "set_HCFS hw c st = modifyP hw c HcControl (put_field 3 6 st)"

section \<open>Suspend\<close>

definition suspend_ohci :: "hc_hw \<Rightarrow> hc \<Rightarrow> nat \<Rightarrow> unit pcomp" where
  "suspend_ohci hw c port =
     thenP (bindP (readP hw c (HcRhPortStatus port)) (\<lambda>v.
       if v AND USBH_HcRhPortStatus_CCS_Msk \<noteq> 0 then writeP c (HcRhPortStatus port) USBH_HcRhPortStatus_PSS_Msk else retP ()))
     (thenP (modifyP hw c HcRhStatus (\<lambda>v. v OR USBH_HcRhStatus_DRWE_Msk))
     (thenP (writeP c HcInterruptEnable (USBH_HcInterruptEnable_RHSC_Msk OR USBH_HcInterruptEnable_RD_Msk))
     (set_HCFS hw c 3)))"

text \<open>
  The loop until the controller has halted. Its condition \<open>time_out > 0\<close> always holds, since the
  loop does not change the variable.
\<close>

partial_function (option) halt_wait :: "hc_hw \<Rightarrow> hc \<Rightarrow> unit pcomp" where
  "halt_wait hw c s = (case readP hw c UCMDR s of
       None \<Rightarrow> None
     | Some (v, s1) \<Rightarrow>
         if v AND HSUSBH_UCMDR_RUN_Msk \<noteq> 0 then halt_wait hw c s1
         else (case readP hw c USTSR s1 of
             None \<Rightarrow> None
           | Some (w, s2) \<Rightarrow> if w AND HSUSBH_USTSR_HCHalted_Msk \<noteq> 0 then Some ((), s2) else halt_wait hw c s2))"

definition suspend_port :: "hc_hw \<Rightarrow> hc \<Rightarrow> nat \<Rightarrow> unit pcomp" where
  "suspend_port hw c port = bindP (readP hw c (UPSCR port)) (\<lambda>v.
     if v AND HSUSBH_UPSCR_PE_Msk \<noteq> 0
     then thenP (modifyP hw c (UPSCR port) (\<lambda>v. v OR HSUSBH_UPSCR_SUSPEND_Msk)) (delay_us 2000)
     else retP ())"

definition suspend_ehci :: "hc_hw \<Rightarrow> hc \<Rightarrow> nat \<Rightarrow> (u32 \<Rightarrow> power \<Rightarrow> power) \<Rightarrow> unit pcomp" where
  "suspend_ehci hw c port save =
     thenP (bindP (readP hw c UCMDR) (\<lambda>v s. Some ((), save v s)))
     (thenP (suspend_port hw c port)
     (thenP (modifyP hw c UCMDR (\<lambda>v. v AND NOT (HSUSBH_UCMDR_PSEN_Msk OR HSUSBH_UCMDR_ASEN_Msk OR HSUSBH_UCMDR_RUN_Msk)))
     (thenP (halt_wait hw c)
     (delay_us 100))))"

text \<open>All four controllers are enabled in \<open>usbh_config.h\<close>.\<close>

definition usbh_suspend :: "hc_hw \<Rightarrow> unit pcomp" where
  "usbh_suspend hw =
     thenP (suspend_ohci hw OHCI0 0)
     (thenP (suspend_ohci hw OHCI1 1)
     (thenP (suspend_ehci hw EHCI0 0 (\<lambda>v s. s\<lparr>ehci0_UCMDR := v\<rparr>))
     (suspend_ehci hw EHCI1 1 (\<lambda>v s. s\<lparr>ehci1_UCMDR := v\<rparr>))))"

section \<open>Resume\<close>

definition resume_ohci :: "hc_hw \<Rightarrow> hc \<Rightarrow> nat \<Rightarrow> unit pcomp" where
  "resume_ohci hw c port =
     thenP (set_HCFS hw c 1)
     (thenP (bindP (readP hw c (HcRhPortStatus port)) (\<lambda>v.
       if v AND USBH_HcRhPortStatus_PSS_Msk \<noteq> 0 then writeP c (HcRhPortStatus port) USBH_HcRhPortStatus_POCI_Msk else retP ()))
     (thenP (delay_us 30000)
     (set_HCFS hw c 2)))"

definition resume_ehci :: "hc_hw \<Rightarrow> hc \<Rightarrow> nat \<Rightarrow> (power \<Rightarrow> u32) \<Rightarrow> unit pcomp" where
  "resume_ehci hw c port saved =
     thenP (\<lambda>s. writeP c UCMDR (saved s) s)
     (thenP (bindP (readP hw c (UPSCR port)) (\<lambda>v.
       if v AND HSUSBH_UPSCR_PE_Msk \<noteq> 0
       then thenP (modifyP hw c (UPSCR port) (\<lambda>v. v OR HSUSBH_UPSCR_FPR_Msk))
         (thenP (delay_us 20000) (modifyP hw c (UPSCR port) (\<lambda>v. v AND NOT HSUSBH_UPSCR_FPR_Msk)))
       else retP ()))
     (delay_us 1000))"

definition usbh_resume :: "hc_hw \<Rightarrow> unit pcomp" where
  "usbh_resume hw =
     thenP (resume_ohci hw OHCI0 0)
     (thenP (resume_ohci hw OHCI1 1)
     (thenP (resume_ehci hw EHCI0 0 ehci0_UCMDR)
     (resume_ehci hw EHCI1 0 ehci1_UCMDR)))"

end
