(* ===== verification/Usb_Power_Props.thy ===== *)
theory Usb_Power_Props
  imports Usb_Power
begin

text \<open>
  The properties of suspend and resume: when they return, which ports they leave out, and that the command registers
  get their value back. The locale \<open>write_property\<close> lifts a property of single writes to all
  accesses of a computation.
\<close>

section \<open>Runs\<close>

lemmas pcomp_run = retP_def bindP_def thenP_def emit_def readP_def writeP_def modifyP_def delay_us_def set_HCFS_def

lemma bindP_Some_iff: "bindP m f s = Some (b, s') \<longleftrightarrow> (\<exists>a s1. m s = Some (a, s1) \<and> f a s1 = Some (b, s'))"
  by (auto simp: bindP_def split: option.splits)

lemma thenP_Some_iff: "thenP m k s = Some (b, s') \<longleftrightarrow> (\<exists>a s1. m s = Some (a, s1) \<and> k s1 = Some (b, s'))"
  by (simp add: thenP_def bindP_Some_iff)

lemma thenP_None: "(\<And>s. k s = None) \<Longrightarrow> thenP m k s = None" "m s = None \<Longrightarrow> thenP m k s = None"
  by (auto simp: thenP_def bindP_def split: option.splits)

text \<open>Every computation but the wait returns.\<close>

definition always :: "'a pcomp \<Rightarrow> bool" where
  "always m \<longleftrightarrow> (\<forall>s. \<exists>a s'. m s = Some (a, s'))"

lemma always_basic:
  "always (retP a)" "always (readP hw c r)" "always (writeP c r v)" "always (\<lambda>s. writeP c r (f s) s)" "always (delay_us n)"
  by (simp_all add: always_def pcomp_run)

lemma always_bind: "always m \<Longrightarrow> (\<And>a. always (f a)) \<Longrightarrow> always (bindP m f)"
  unfolding always_def bindP_Some_iff by meson

lemma always_then: "always m \<Longrightarrow> always k \<Longrightarrow> always (thenP m k)"
  by (simp add: thenP_def always_bind)

lemma always_if: "always m \<Longrightarrow> always k \<Longrightarrow> always (if b then m else k)"
  by simp

lemmas always_rules = always_basic always_bind always_then always_if

lemma always_ops: "always (modifyP hw c r f)" "always (set_HCFS hw c st)"
  "always (suspend_ohci hw c p)" "always (suspend_port hw c p)" "always (resume_ohci hw c p)" "always (resume_ehci hw c p g)"
  unfolding modifyP_def set_HCFS_def suspend_ohci_def suspend_port_def resume_ohci_def resume_ehci_def
  by (intro always_rules)+

section \<open>What a computation accesses\<close>

definition emits :: "(hc_access \<Rightarrow> bool) \<Rightarrow> 'a pcomp \<Rightarrow> bool" where
  "emits P m \<longleftrightarrow> (\<forall>s a s'. m s = Some (a, s') \<longrightarrow> (\<exists>new. s' = s\<lparr>accesses := accesses s @ new\<rparr> \<and> list_all P new))"

lemma emitsD: "emits P m \<Longrightarrow> m s = Some (a, s') \<Longrightarrow> \<exists>new. s' = s\<lparr>accesses := accesses s @ new\<rparr> \<and> list_all P new"
  unfolding emits_def by blast

locale write_property =
  fixes P :: "hc_access \<Rightarrow> bool"
  assumes reads: "P (Rd c r)" and waits: "P (Wait n)"
begin

lemma emits_ret: "emits P (retP a)"
  unfolding emits_def retP_def by (auto intro!: exI[of _ "[]"])

lemma emits_basic: "emits P (delay_us n)" "emits P (readP hw c r)" "P (Wr c r v) \<Longrightarrow> emits P (writeP c r v)"
  "(\<And>s. P (Wr c r (f s))) \<Longrightarrow> emits P (\<lambda>s. writeP c r (f s) s)"
  by (auto simp: emits_def pcomp_run reads waits)

lemma emits_bind: "emits P m \<Longrightarrow> (\<And>a. emits P (f a)) \<Longrightarrow> emits P (bindP m f)"
proof -
  assume m: "emits P m" and f: "\<And>a. emits P (f a)"
  show ?thesis unfolding emits_def bindP_Some_iff
  proof clarify
    fix s b s' a s1
    assume 1: "m s = Some (a, s1)" "f a s1 = Some (b, s')"
    obtain x where x: "s1 = s\<lparr>accesses := accesses s @ x\<rparr>" "list_all P x" using emitsD[OF m 1(1)] by blast
    obtain y where "s' = s1\<lparr>accesses := accesses s1 @ y\<rparr>" "list_all P y" using emitsD[OF f 1(2)] by blast
    with x show "\<exists>new. s' = s\<lparr>accesses := accesses s @ new\<rparr> \<and> list_all P new" by (intro exI[of _ "x @ y"]) simp
  qed
qed

lemma emits_then: "emits P m \<Longrightarrow> emits P k \<Longrightarrow> emits P (thenP m k)"
  by (simp add: thenP_def emits_bind)

lemma emits_if: "emits P m \<Longrightarrow> emits P k \<Longrightarrow> emits P (if b then m else k)"
  by simp

lemmas emits_rules = emits_ret emits_basic emits_bind emits_then emits_if

lemma emits_modify: "(\<And>v. P (Wr c r v)) \<Longrightarrow> emits P (modifyP hw c r f)"
  unfolding modifyP_def by (intro emits_rules) auto

lemma emits_halt_wait: "emits P (halt_wait hw c)"
proof -
  have "\<exists>new. snd y = s\<lparr>accesses := accesses s @ new\<rparr> \<and> list_all P new" if "halt_wait hw c s = Some y" for s y
  proof (rule halt_wait.raw_induct[OF _ that, of "\<lambda>hw c s y. \<exists>new. snd y = s\<lparr>accesses := accesses s @ new\<rparr> \<and> list_all P new"])
    fix self :: "hc_hw \<Rightarrow> hc \<Rightarrow> unit pcomp" and hw c s y
    assume IH: "\<And>hw c s y. self hw c s = Some y \<Longrightarrow> \<exists>new. snd y = s\<lparr>accesses := accesses s @ new\<rparr> \<and> list_all P new"
      and run: "(case readP hw c UCMDR s of None \<Rightarrow> None | Some (v, s1) \<Rightarrow> if v AND HSUSBH_UCMDR_RUN_Msk \<noteq> 0 then self hw c s1
         else (case readP hw c USTSR s1 of None \<Rightarrow> None
           | Some (w, s2) \<Rightarrow> if w AND HSUSBH_USTSR_HCHalted_Msk \<noteq> 0 then Some ((), s2) else self hw c s2)) = Some y"
    let ?s1 = "s\<lparr>accesses := accesses s @ [Rd c UCMDR]\<rparr>" and ?s2 = "s\<lparr>accesses := accesses s @ [Rd c UCMDR, Rd c USTSR]\<rparr>"
    have "y = ((), ?s2) \<or> self hw c ?s1 = Some y \<or> self hw c ?s2 = Some y"
      using run by (auto simp: readP_def split: if_splits)
    then show "\<exists>new. snd y = s\<lparr>accesses := accesses s @ new\<rparr> \<and> list_all P new"
      using IH[of hw c ?s1 y] IH[of hw c ?s2 y] reads by fastforce
  qed
  then show ?thesis by (force simp: emits_def)
qed

lemmas emits_all = emits_rules emits_modify emits_halt_wait

end

section \<open>Halting\<close>

text \<open>
  What the controllers promise: once the run bit has been cleared by a write to the command register and \<open>n\<close> further
  accesses have passed, the command register shows it cleared and the status register shows the controller halted.
\<close>

definition halts_after :: "nat \<Rightarrow> hc_hw \<Rightarrow> bool" where
  "halts_after n hw \<longleftrightarrow> (\<forall>pre c v suf. v AND HSUSBH_UCMDR_RUN_Msk = 0 \<and> n \<le> length suf \<and> (\<forall>x. Wr c UCMDR x \<notin> set suf) \<longrightarrow>
     hw (pre @ Wr c UCMDR v # suf) c UCMDR AND HSUSBH_UCMDR_RUN_Msk = 0 \<and>
     hw (pre @ Wr c UCMDR v # suf) c USTSR AND HSUSBH_USTSR_HCHalted_Msk \<noteq> 0)"

lemma halt_wait_returns:
  assumes "halts_after n hw" "v AND HSUSBH_UCMDR_RUN_Msk = 0"
  shows "accesses s = pre @ Wr c UCMDR v # suf \<Longrightarrow> \<forall>x. Wr c UCMDR x \<notin> set suf \<Longrightarrow> n - length suf = d \<Longrightarrow> \<exists>s'. halt_wait hw c s = Some ((), s')"
proof (induction d arbitrary: s suf rule: less_induct)
  case (less d)
  let ?s1 = "s\<lparr>accesses := accesses s @ [Rd c UCMDR]\<rparr>" and ?s2 = "s\<lparr>accesses := accesses s @ [Rd c UCMDR, Rd c USTSR]\<rparr>"
  have a: "accesses ?s1 = pre @ Wr c UCMDR v # (suf @ [Rd c UCMDR])" "accesses ?s2 = pre @ Wr c UCMDR v # (suf @ [Rd c UCMDR, Rd c USTSR])"
    using less.prems(1) by simp_all
  show ?case
  proof (cases d)
    case 0
    then have "n \<le> length suf" using less.prems(3) by simp
    then have "hw (accesses s) c UCMDR AND HSUSBH_UCMDR_RUN_Msk = 0" "hw (accesses ?s1) c USTSR AND HSUSBH_USTSR_HCHalted_Msk \<noteq> 0"
      using assms less.prems(1,2) unfolding halts_after_def a by (auto simp del: append_assoc)
    then show ?thesis by (subst halt_wait.simps) (simp add: readP_def)
  next
    case (Suc k)
    have "\<exists>s'. halt_wait hw c ?s1 = Some ((), s')"
      by (rule less.IH[OF _ a(1) _ refl]) (use less.prems(2,3) Suc in auto)
    moreover have "\<exists>s'. halt_wait hw c ?s2 = Some ((), s')"
      by (rule less.IH[OF _ a(2) _ refl]) (use less.prems(2,3) Suc in auto)
    ultimately show ?thesis by (subst halt_wait.simps) (simp add: readP_def)
  qed
qed

lemma halt_wait_hangs:
  assumes "\<And>tr. hw tr c USTSR AND HSUSBH_USTSR_HCHalted_Msk = 0"
  shows "halt_wait hw c s = None"
proof (rule ccontr)
  assume "halt_wait hw c s \<noteq> None"
  then obtain y where "halt_wait hw c s = Some y" by blast
  then have "\<exists>tr. hw tr c USTSR AND HSUSBH_USTSR_HCHalted_Msk \<noteq> 0"
    by (rule halt_wait.raw_induct[rotated, of _ _ _ _ "\<lambda>hw c s y. \<exists>tr. hw tr c USTSR AND HSUSBH_USTSR_HCHalted_Msk \<noteq> 0"])
       (auto simp: readP_def split: if_splits)
  with assms show False by blast
qed

lemma suspend_ehci_returns:
  assumes "halts_after n hw" "\<And>v s. accesses (save v s) = accesses s"
  shows "\<exists>s'. suspend_ehci hw c p save s = Some ((), s')"
proof -
  let ?f = "\<lambda>v. v AND NOT (HSUSBH_UCMDR_PSEN_Msk OR HSUSBH_UCMDR_ASEN_Msk OR HSUSBH_UCMDR_RUN_Msk) :: u32"
  obtain s1 where s1: "bindP (readP hw c UCMDR) (\<lambda>v s. Some ((), save v s)) s = Some ((), s1)" by (simp add: pcomp_run)
  obtain s2 where s2: "suspend_port hw c p s1 = Some ((), s2)" using always_ops(4) by (fastforce simp: always_def)
  define x where "x = ?f (hw (accesses s2) c UCMDR)"
  define s3 where "s3 = s2\<lparr>accesses := accesses s2 @ [Rd c UCMDR, Wr c UCMDR x]\<rparr>"
  have s3: "modifyP hw c UCMDR ?f s2 = Some ((), s3)" by (simp add: pcomp_run s3_def x_def)
  have x0: "x AND HSUSBH_UCMDR_RUN_Msk = 0" unfolding x_def by (rule bit_word_eqI) (auto simp: bit_simps)
  have "\<exists>s4. halt_wait hw c s3 = Some ((), s4)"
    by (rule halt_wait_returns[OF assms(1) x0, of _ "accesses s2 @ [Rd c UCMDR]" _ "[]"]) (simp_all add: s3_def)
  then obtain s4 where "halt_wait hw c s3 = Some ((), s4)" by blast
  then show ?thesis using s1 s2 s3 by (auto simp: suspend_ehci_def thenP_Some_iff) (simp add: pcomp_run)
qed

lemma usbh_suspend_halts:
  assumes h: "halts_after n hw"
  shows "\<exists>s'. usbh_suspend hw s = Some ((), s')"
proof -
  obtain s1 where s1: "suspend_ohci hw OHCI0 0 s = Some ((), s1)" using always_ops(3) by (fastforce simp: always_def)
  obtain s2 where s2: "suspend_ohci hw OHCI1 1 s1 = Some ((), s2)" using always_ops(3) by (fastforce simp: always_def)
  obtain s3 where s3: "suspend_ehci hw EHCI0 0 (\<lambda>v s. s\<lparr>ehci0_UCMDR := v\<rparr>) s2 = Some ((), s3)"
    using suspend_ehci_returns[OF h, of "\<lambda>v s. s\<lparr>ehci0_UCMDR := v\<rparr>" EHCI0 0 s2] by auto
  obtain s4 where "suspend_ehci hw EHCI1 1 (\<lambda>v s. s\<lparr>ehci1_UCMDR := v\<rparr>) s3 = Some ((), s4)"
    using suspend_ehci_returns[OF h, of "\<lambda>v s. s\<lparr>ehci1_UCMDR := v\<rparr>" EHCI1 1 s3] by auto
  with s1 s2 s3 show ?thesis by (auto simp: usbh_suspend_def thenP_Some_iff)
qed


text \<open>Controllers that halt at once, or never.\<close>

definition prompt_hw :: "bool \<Rightarrow> hc_hw" where
  "prompt_hw h tr c r = (if r = USTSR then (if h then HSUSBH_USTSR_HCHalted_Msk else 0) else 0)"

definition power_on :: power where
  "power_on = \<lparr>accesses = [], ehci0_UCMDR = 0, ehci1_UCMDR = 0\<rparr>"

lemma prompt_hw_halts: "halts_after 0 (prompt_hw True)"
  by (simp add: halts_after_def prompt_hw_def)


section \<open>The second ports\<close>

text \<open>No write to the port registers of the second controllers, and no write to one register.\<close>

definition spares_second_ports :: "hc_access \<Rightarrow> bool" where
  "spares_second_ports a = (case a of Wr c r v \<Rightarrow> \<not> (c = OHCI1 \<and> r = HcRhPortStatus 0 \<or> c = EHCI1 \<and> r = UPSCR 0) | _ \<Rightarrow> True)"

definition leaves :: "hc \<Rightarrow> nat \<Rightarrow> hc_access \<Rightarrow> bool" where
  "leaves c r a = (case a of Wr c' r' v \<Rightarrow> \<not> (c' = c \<and> r' = r) | _ \<Rightarrow> True)"

interpretation leaves: write_property "leaves c r" for c r
  by unfold_locales (simp_all add: leaves_def)

interpretation spares: write_property spares_second_ports
  by unfold_locales (simp_all add: spares_second_ports_def)

context write_property
begin

lemma suspend_ohci_run:
  assumes "\<And>v. P (Wr c (HcRhPortStatus p) v)" "\<And>v. P (Wr c HcRhStatus v)" "\<And>v. P (Wr c HcInterruptEnable v)" "\<And>v. P (Wr c HcControl v)"
    "suspend_ohci hw c p s = Some ((), s')"
  shows "\<exists>new. s' = s\<lparr>accesses := accesses s @ Rd c (HcRhPortStatus p) # new\<rparr> \<and> list_all P new"
proof -
  let ?s = "s\<lparr>accesses := accesses s @ [Rd c (HcRhPortStatus p)]\<rparr>" and ?v = "hw (accesses s) c (HcRhPortStatus p)"
  let ?m = "thenP (if ?v AND USBH_HcRhPortStatus_CCS_Msk \<noteq> 0 then writeP c (HcRhPortStatus p) USBH_HcRhPortStatus_PSS_Msk else retP ())
     (thenP (modifyP hw c HcRhStatus (\<lambda>v. v OR USBH_HcRhStatus_DRWE_Msk))
     (thenP (writeP c HcInterruptEnable (USBH_HcInterruptEnable_RHSC_Msk OR USBH_HcInterruptEnable_RD_Msk)) (set_HCFS hw c 3)))"
  have "?m ?s = Some ((), s')" using assms(5) by (simp add: suspend_ohci_def thenP_def bindP_def readP_def split: option.splits)
  moreover have "emits P ?m" unfolding set_HCFS_def by (intro emits_all assms(1-4))
  ultimately show ?thesis using emitsD[of P ?m ?s] by fastforce
qed

text \<open>After its first read \<open>suspend_ehci\<close> suspends the port, stops the controller and waits.\<close>

lemma suspend_ehci_run:
  assumes "\<And>v. P (Wr c (UPSCR p) v)" "\<And>v s. accesses (save v s) = accesses s"
    "suspend_ehci hw c p save s = Some ((), s')"
  shows "\<exists>x a b. s' = (save (hw (accesses s) c UCMDR) (s\<lparr>accesses := accesses s @ [Rd c UCMDR]\<rparr>))
      \<lparr>accesses := accesses s @ Rd c UCMDR # Rd c (UPSCR p) # a @ Rd c UCMDR #
         Wr c UCMDR (x AND NOT (HSUSBH_UCMDR_PSEN_Msk OR HSUSBH_UCMDR_ASEN_Msk OR HSUSBH_UCMDR_RUN_Msk)) # b\<rparr> \<and> list_all P a \<and> list_all P b"
proof -
  let ?s1 = "save (hw (accesses s) c UCMDR) (s\<lparr>accesses := accesses s @ [Rd c UCMDR]\<rparr>)"
  let ?v = "hw (accesses ?s1) c (UPSCR p)" and ?s2 = "?s1\<lparr>accesses := accesses ?s1 @ [Rd c (UPSCR p)]\<rparr>"
  let ?m = "if ?v AND HSUSBH_UPSCR_PE_Msk \<noteq> 0 then thenP (modifyP hw c (UPSCR p) (\<lambda>v. v OR HSUSBH_UPSCR_SUSPEND_Msk)) (delay_us 2000) else retP ()"
  let ?w = "thenP (halt_wait hw c) (delay_us 100)"
  obtain s3 where s3: "?m ?s2 = Some ((), s3)"
    "thenP (modifyP hw c UCMDR (\<lambda>v. v AND NOT (HSUSBH_UCMDR_PSEN_Msk OR HSUSBH_UCMDR_ASEN_Msk OR HSUSBH_UCMDR_RUN_Msk))) ?w s3 = Some ((), s')"
    using assms(3) by (auto simp: suspend_ehci_def suspend_port_def thenP_def bindP_def readP_def split: option.splits)
  define x where "x = hw (accesses s3) c UCMDR"
  let ?s4 = "s3\<lparr>accesses := accesses s3 @ [Rd c UCMDR, Wr c UCMDR (x AND NOT (HSUSBH_UCMDR_PSEN_Msk OR HSUSBH_UCMDR_ASEN_Msk OR HSUSBH_UCMDR_RUN_Msk))]\<rparr>"
  have s4: "?w ?s4 = Some ((), s')" using s3(2) unfolding x_def thenP_def[of "modifyP _ _ _ _"] bindP_def[of "modifyP _ _ _ _"]
    by (simp add: modifyP_def bindP_def readP_def writeP_def emit_def)
  have "emits P ?m" by (intro emits_all assms(1))
  from emitsD[OF this s3(1)] obtain a where a: "s3 = ?s2\<lparr>accesses := accesses ?s2 @ a\<rparr>" "list_all P a" by (elim exE conjE)
  have "emits P ?w" by (intro emits_all)
  from emitsD[OF this s4] obtain b where b: "s' = ?s4\<lparr>accesses := accesses ?s4 @ b\<rparr>" "list_all P b" by (elim exE conjE)
  show ?thesis by (rule exI[of _ x], rule exI[of _ a], rule exI[of _ b]) (use a b assms(2) in simp)
qed

lemma resume_ehci_run:
  assumes "\<And>v. P (Wr c (UPSCR p) v)" "resume_ehci hw c p saved s = Some ((), s')"
  shows "\<exists>new. s' = s\<lparr>accesses := accesses s @ Wr c UCMDR (saved s) # new\<rparr> \<and> list_all P new"
proof -
  let ?s = "s\<lparr>accesses := accesses s @ [Wr c UCMDR (saved s)]\<rparr>"
  let ?m = "thenP (bindP (readP hw c (UPSCR p)) (\<lambda>v. if v AND HSUSBH_UPSCR_PE_Msk \<noteq> 0
       then thenP (modifyP hw c (UPSCR p) (\<lambda>v. v OR HSUSBH_UPSCR_FPR_Msk))
         (thenP (delay_us 20000) (modifyP hw c (UPSCR p) (\<lambda>v. v AND NOT HSUSBH_UPSCR_FPR_Msk))) else retP ())) (delay_us 1000)"
  have "?m ?s = Some ((), s')" using assms(2) unfolding resume_ehci_def thenP_def[of "\<lambda>s. writeP c UCMDR (saved s) s"] bindP_def[of "\<lambda>s. writeP c UCMDR (saved s) s"]
    by (simp add: writeP_def emit_def)
  moreover have "emits P ?m" by (intro emits_all assms(1))
  ultimately show ?thesis using emitsD[of P ?m ?s] by fastforce
qed

lemma emits_resume_ohci:
  "(\<And>v. P (Wr c (HcRhPortStatus p) v)) \<Longrightarrow> (\<And>v. P (Wr c HcControl v)) \<Longrightarrow> emits P (resume_ohci hw c p)"
  unfolding resume_ohci_def set_HCFS_def by (intro emits_all)

end

text \<open>The four parts of a run of \<open>usbh_suspend\<close>.\<close>

lemma usbh_suspend_parts:
  assumes "usbh_suspend hw s = Some ((), s')"
  obtains s1 s2 s3 where "suspend_ohci hw OHCI0 0 s = Some ((), s1)" "suspend_ohci hw OHCI1 1 s1 = Some ((), s2)"
    "suspend_ehci hw EHCI0 0 (\<lambda>v s. s\<lparr>ehci0_UCMDR := v\<rparr>) s2 = Some ((), s3)"
    "suspend_ehci hw EHCI1 1 (\<lambda>v s. s\<lparr>ehci1_UCMDR := v\<rparr>) s3 = Some ((), s')"
  using assms by (auto simp: usbh_suspend_def thenP_Some_iff)

text \<open>The values written to a register, in order.\<close>

definition written :: "hc \<Rightarrow> nat \<Rightarrow> hc_access list \<Rightarrow> u32 list" where
  "written c r tr = concat (map (\<lambda>a. case a of Wr c' r' v \<Rightarrow> if c' = c \<and> r' = r then [v] else [] | _ \<Rightarrow> []) tr)"

lemma written_simps [simp]: "written c r [] = []" "written c r (xs @ ys) = written c r xs @ written c r ys"
  "written c r (Rd c' r' # tr) = written c r tr" "written c r (Wait n # tr) = written c r tr"
  "written c r (Wr c' r' v # tr) = (if c' = c \<and> r' = r then [v] else []) @ written c r tr"
  by (simp_all add: written_def)

lemma written_leaves: "list_all (leaves c r) tr \<Longrightarrow> written c r tr = []"
  by (induction tr) (auto simp: leaves_def split: hc_access.splits)

lemma written_spares: "list_all spares_second_ports tr \<Longrightarrow> written OHCI1 (HcRhPortStatus 0) tr = [] \<and> written EHCI1 (UPSCR 0) tr = []"
  by (induction tr) (auto simp: spares_second_ports_def split: hc_access.splits)

text \<open>
  Each controller has one port, but \<open>usbh_suspend\<close> uses index 1 for the ports of the second controllers: it accesses words outside
  of the arrays \<open>HcRhPortStatus\<close> and \<open>UPSCR\<close>, and never suspends the port of \<open>OHCI1\<close> or of \<open>EHCI1\<close>.
\<close>

lemma usbh_suspend_skips_second_ports:
  assumes "usbh_suspend hw s = Some ((), s')"
  shows "\<exists>new. accesses s' = accesses s @ new \<and> written OHCI1 (HcRhPortStatus 0) new = [] \<and> written EHCI1 (UPSCR 0) new = [] \<and>
    Rd OHCI1 (HcRhPortStatus 1) \<in> set new \<and> Rd EHCI1 (UPSCR 1) \<in> set new"
proof -
  obtain s1 s2 s3 where s: "suspend_ohci hw OHCI0 0 s = Some ((), s1)" "suspend_ohci hw OHCI1 1 s1 = Some ((), s2)"
    "suspend_ehci hw EHCI0 0 (\<lambda>v s. s\<lparr>ehci0_UCMDR := v\<rparr>) s2 = Some ((), s3)" "suspend_ehci hw EHCI1 1 (\<lambda>v s. s\<lparr>ehci1_UCMDR := v\<rparr>) s3 = Some ((), s')"
    by (rule usbh_suspend_parts[OF assms])
  note P = spares_second_ports_def HcRhPortStatus_def UPSCR_def
  have "\<exists>n. s1 = s\<lparr>accesses := accesses s @ Rd OHCI0 (HcRhPortStatus 0) # n\<rparr> \<and> list_all spares_second_ports n"
    by (rule spares.suspend_ohci_run[OF _ _ _ _ s(1)]) (simp_all add: P)
  moreover have "\<exists>n. s2 = s1\<lparr>accesses := accesses s1 @ Rd OHCI1 (HcRhPortStatus 1) # n\<rparr> \<and> list_all spares_second_ports n"
    by (rule spares.suspend_ohci_run[OF _ _ _ _ s(2)]) (simp_all add: P)
  moreover note spares.suspend_ehci_run[OF _ _ s(3)] spares.suspend_ehci_run[OF _ _ s(4)]
  ultimately show ?thesis by (auto simp: P dest!: written_spares)
qed

section \<open>The command registers\<close>

definition saved_UCMDR :: "hc \<Rightarrow> power \<Rightarrow> u32" where
  "saved_UCMDR c s = (if c = EHCI0 then ehci0_UCMDR s else ehci1_UCMDR s)"

lemma usbh_suspend_saves:
  assumes "c = EHCI0 \<or> c = EHCI1" "usbh_suspend hw s = Some ((), s')"
  shows "\<exists>pre x. accesses s' = accesses s @ pre @ x \<and> written c UCMDR pre = [] \<and> saved_UCMDR c s' = hw (accesses s @ pre) c UCMDR \<and>
    (\<exists>v. written c UCMDR x = [v AND NOT (HSUSBH_UCMDR_PSEN_Msk OR HSUSBH_UCMDR_ASEN_Msk OR HSUSBH_UCMDR_RUN_Msk)])"
proof -
  obtain s1 s2 s3 where s: "suspend_ohci hw OHCI0 0 s = Some ((), s1)" "suspend_ohci hw OHCI1 1 s1 = Some ((), s2)"
    "suspend_ehci hw EHCI0 0 (\<lambda>v s. s\<lparr>ehci0_UCMDR := v\<rparr>) s2 = Some ((), s3)" "suspend_ehci hw EHCI1 1 (\<lambda>v s. s\<lparr>ehci1_UCMDR := v\<rparr>) s3 = Some ((), s')"
    by (rule usbh_suspend_parts[OF assms(2)])
  note P = leaves_def HcRhPortStatus_def UPSCR_def
  obtain n1 where n1: "s1 = s\<lparr>accesses := accesses s @ Rd OHCI0 (HcRhPortStatus 0) # n1\<rparr>" "written c UCMDR n1 = []"
    using leaves.suspend_ohci_run[OF _ _ _ _ s(1), of c UCMDR] assms(1) by (auto simp: P dest!: written_leaves)
  obtain n2 where n2: "s2 = s1\<lparr>accesses := accesses s1 @ Rd OHCI1 (HcRhPortStatus 1) # n2\<rparr>" "written c UCMDR n2 = []"
    using leaves.suspend_ohci_run[OF _ _ _ _ s(2), of c UCMDR] assms(1) by (auto simp: P dest!: written_leaves)
  note e0 = leaves.suspend_ehci_run[OF _ _ s(3), of c UCMDR] and e1 = leaves.suspend_ehci_run[OF _ _ s(4), of c UCMDR]
  let ?f = "\<lambda>x. x AND NOT (HSUSBH_UCMDR_PSEN_Msk OR HSUSBH_UCMDR_ASEN_Msk OR HSUSBH_UCMDR_RUN_Msk) :: u32"
  obtain x a b where e0: "s3 = s2\<lparr>ehci0_UCMDR := hw (accesses s2) EHCI0 UCMDR,
      accesses := accesses s2 @ Rd EHCI0 UCMDR # Rd EHCI0 (UPSCR 0) # a @ Rd EHCI0 UCMDR # Wr EHCI0 UCMDR (?f x) # b\<rparr>"
    "written c UCMDR a = []" "written c UCMDR b = []"
    using e0 by (auto simp: P dest!: written_leaves)
  obtain x' a' b' where e1: "s' = s3\<lparr>ehci1_UCMDR := hw (accesses s3) EHCI1 UCMDR,
      accesses := accesses s3 @ Rd EHCI1 UCMDR # Rd EHCI1 (UPSCR 1) # a' @ Rd EHCI1 UCMDR # Wr EHCI1 UCMDR (?f x') # b'\<rparr>"
    "written c UCMDR a' = []" "written c UCMDR b' = []"
    using e1 by (auto simp: P dest!: written_leaves)
  let ?pre = "Rd OHCI0 (HcRhPortStatus 0) # n1 @ Rd OHCI1 (HcRhPortStatus 1) # n2"
  let ?x = "Rd EHCI0 UCMDR # Rd EHCI0 (UPSCR 0) # a @ Rd EHCI0 UCMDR # Wr EHCI0 UCMDR (?f x) # b"
  let ?x' = "Rd EHCI1 UCMDR # Rd EHCI1 (UPSCR 1) # a' @ Rd EHCI1 UCMDR # Wr EHCI1 UCMDR (?f x') # b'"
  show ?thesis
  proof (cases "c = EHCI0")
    case True
    then show ?thesis
      by (intro exI[of _ ?pre] exI[of _ "?x @ ?x'"]) (use n1 n2 e0 e1 in \<open>auto simp: saved_UCMDR_def\<close>)
  next
    case False
    then show ?thesis
      by (intro exI[of _ "?pre @ ?x"] exI[of _ ?x']) (use assms(1) n1 n2 e0 e1 in \<open>auto simp: saved_UCMDR_def\<close>)
  qed
qed

lemma usbh_resume_writes:
  assumes "c = EHCI0 \<or> c = EHCI1"
  shows "\<exists>s'. usbh_resume hw s = Some ((), s') \<and> written c UCMDR (accesses s') = written c UCMDR (accesses s) @ [saved_UCMDR c s]"
proof -
  note P = leaves_def HcRhPortStatus_def UPSCR_def
  have o: "emits (leaves c UCMDR) (resume_ohci hw d p)" if "d = OHCI0 \<or> d = OHCI1" for d p
    by (rule leaves.emits_resume_ohci) (use that assms in \<open>auto simp: P\<close>)
  obtain s1 where s1: "resume_ohci hw OHCI0 0 s = Some ((), s1)" using always_ops(5) by (fastforce simp: always_def)
  obtain s2 where s2: "resume_ohci hw OHCI1 1 s1 = Some ((), s2)" using always_ops(5) by (fastforce simp: always_def)
  obtain s3 where s3: "resume_ehci hw EHCI0 0 ehci0_UCMDR s2 = Some ((), s3)" using always_ops(6) by (fastforce simp: always_def)
  obtain s4 where s4: "resume_ehci hw EHCI1 0 ehci1_UCMDR s3 = Some ((), s4)" using always_ops(6) by (fastforce simp: always_def)
  obtain n1 where n1: "s1 = s\<lparr>accesses := accesses s @ n1\<rparr>" "written c UCMDR n1 = []"
    using emitsD[OF o s1] by (auto dest!: written_leaves)
  obtain n2 where n2: "s2 = s1\<lparr>accesses := accesses s1 @ n2\<rparr>" "written c UCMDR n2 = []"
    using emitsD[OF o s2] by (auto dest!: written_leaves)
  obtain n3 where n3: "s3 = s2\<lparr>accesses := accesses s2 @ Wr EHCI0 UCMDR (ehci0_UCMDR s2) # n3\<rparr>" "written c UCMDR n3 = []"
    using leaves.resume_ehci_run[OF _ s3, of c UCMDR] by (auto simp: P dest!: written_leaves)
  obtain n4 where n4: "s4 = s3\<lparr>accesses := accesses s3 @ Wr EHCI1 UCMDR (ehci1_UCMDR s3) # n4\<rparr>" "written c UCMDR n4 = []"
    using leaves.resume_ehci_run[OF _ s4, of c UCMDR] by (auto simp: P dest!: written_leaves)
  have "usbh_resume hw s = Some ((), s4)" using s1 s2 s3 s4 by (auto simp: usbh_resume_def thenP_Some_iff)
  moreover have "written c UCMDR (accesses s4) = written c UCMDR (accesses s) @ [saved_UCMDR c s]"
    using assms n1 n2 n3 n4 by (auto simp: saved_UCMDR_def)
  ultimately show ?thesis by blast
qed

text \<open>
  After suspend and resume each high-speed controller has its command register back: between the two calls it is
  written twice, first with its run and schedule bits cleared, at last with the value it had before the first write.
\<close>

lemma usbh_resume_restores_command:
  assumes "c = EHCI0 \<or> c = EHCI1" "usbh_suspend hw s = Some ((), s1)"
  shows "\<exists>s2 pre v. usbh_resume hw s1 = Some ((), s2) \<and> (\<exists>x. accesses s1 = accesses s @ pre @ x) \<and> written c UCMDR pre = [] \<and>
    written c UCMDR (accesses s2) = written c UCMDR (accesses s) @
      [v AND NOT (HSUSBH_UCMDR_PSEN_Msk OR HSUSBH_UCMDR_ASEN_Msk OR HSUSBH_UCMDR_RUN_Msk), hw (accesses s @ pre) c UCMDR]"
proof -
  obtain pre x v where 1: "accesses s1 = accesses s @ pre @ x" "written c UCMDR pre = []" "saved_UCMDR c s1 = hw (accesses s @ pre) c UCMDR"
    "written c UCMDR x = [v AND NOT (HSUSBH_UCMDR_PSEN_Msk OR HSUSBH_UCMDR_ASEN_Msk OR HSUSBH_UCMDR_RUN_Msk)]"
    using usbh_suspend_saves[OF assms] by blast
  obtain s2 where 2: "usbh_resume hw s1 = Some ((), s2)" "written c UCMDR (accesses s2) = written c UCMDR (accesses s1) @ [saved_UCMDR c s1]"
    using usbh_resume_writes[OF assms(1)] by blast
  show ?thesis by (rule exI[of _ s2], rule exI[of _ pre], rule exI[of _ v]) (use 1 2 in auto)
qed

end
