(* ===== verification/Hub.thy ===== *)
theory Hub
  imports Usb_Core
begin

text \<open>
  The hub driver, \<^verbatim>\<open>UsbHostLib/src_core/hub.c\<close>: the table of hubs, the requests of the hub class, probe
  and disconnect of a hub, port reset, and the polling that turns status changes of ports into enumeration and removal
  of devices.

  The variables of the driver are the part \<open>uc_world\<close> of the state of the core; a pointer to a hub is the
  index of its entry in \<open>g_hub_dev\<close>, with the address \<open>hub_addr\<close> where the core stores it. The root
  hubs of the controllers and the addresses of variables and functions are fields of \<open>hub_env\<close>. The member
  \<open>children\<close> is not used by the code; debug output is left out.
\<close>

section \<open>Constants and data\<close>

abbreviation USBH_ERR_TRANSFER :: int where "USBH_ERR_TRANSFER \<equiv> - 201"
abbreviation USBH_ERR_PORT_RESET :: int where "USBH_ERR_PORT_RESET \<equiv> - 255"
abbreviation USBH_ERR_DATA_UNDERRUN :: int where "USBH_ERR_DATA_UNDERRUN \<equiv> - 289"
abbreviation MAX_HUB_DEVICE :: nat where "MAX_HUB_DEVICE \<equiv> 8"
abbreviation REQ_TYPE_TO_DEV :: u8 where "REQ_TYPE_TO_DEV \<equiv> 0"
abbreviation REQ_TYPE_TO_OTHER :: u8 where "REQ_TYPE_TO_OTHER \<equiv> 3"
abbreviation USB_REQ_GET_STATUS :: u8 where "USB_REQ_GET_STATUS \<equiv> 0"
abbreviation FS_C_HUB_LOCAL_POWER :: u16 where "FS_C_HUB_LOCAL_POWER \<equiv> 0"
abbreviation FS_C_HUB_OVER_CURRENT :: u16 where "FS_C_HUB_OVER_CURRENT \<equiv> 1"
abbreviation FS_PORT_RESET :: u16 where "FS_PORT_RESET \<equiv> 4"
abbreviation FS_PORT_POWER :: u16 where "FS_PORT_POWER \<equiv> 8"
abbreviation FS_C_PORT_CONNECTION :: u16 where "FS_C_PORT_CONNECTION \<equiv> 16"
abbreviation FS_C_PORT_ENABLE :: u16 where "FS_C_PORT_ENABLE \<equiv> 17"
abbreviation FS_C_PORT_SUSPEND :: u16 where "FS_C_PORT_SUSPEND \<equiv> 18"
abbreviation FS_C_PORT_OVER_CURRENT :: u16 where "FS_C_PORT_OVER_CURRENT \<equiv> 19"
abbreviation FS_C_PORT_RESET :: u16 where "FS_C_PORT_RESET \<equiv> 20"
abbreviation HUB_C_LOCAL_POWER :: u16 where "HUB_C_LOCAL_POWER \<equiv> 1"
abbreviation HUB_C_OVERCURRENT :: u16 where "HUB_C_OVERCURRENT \<equiv> 2"
abbreviation PORT_S_CONNECTION :: u16 where "PORT_S_CONNECTION \<equiv> 1"
abbreviation PORT_S_ENABLE :: u16 where "PORT_S_ENABLE \<equiv> 2"
abbreviation PORT_S_LOW_SPEED :: u16 where "PORT_S_LOW_SPEED \<equiv> 0x200"
abbreviation PORT_S_HIGH_SPEED :: u16 where "PORT_S_HIGH_SPEED \<equiv> 0x400"
abbreviation PORT_C_CONNECTION :: u16 where "PORT_C_CONNECTION \<equiv> 1"
abbreviation PORT_C_ENABLE :: u16 where "PORT_C_ENABLE \<equiv> 2"
abbreviation PORT_C_SUSPEND :: u16 where "PORT_C_SUSPEND \<equiv> 4"
abbreviation PORT_C_OVERCURRENT :: u16 where "PORT_C_OVERCURRENT \<equiv> 8"
abbreviation PORT_RESET_RETRY :: nat where "PORT_RESET_RETRY \<equiv> 3"
abbreviation PORT_RESET_TIME_MS :: int where "PORT_RESET_TIME_MS \<equiv> 15"
abbreviation PORT_RESET_RETRY_INC_MS :: int where "PORT_RESET_RETRY_INC_MS \<equiv> 250"
abbreviation HUB_STATUS_MAX_BYTE :: int where "HUB_STATUS_MAX_BYTE \<equiv> 2"
abbreviation sizeof_DESC_HUB_T :: int where "sizeof_DESC_HUB_T \<equiv> 24"

text \<open>\<open>pos_id\<close> is the string before its terminating NUL, in an array of nine bytes.\<close>

record HUB_DEV_T =
  hb_iface :: u64
  hb_utr :: u64
  hb_sc_bitmap :: u16
  hb_bNbrPorts :: u8
  hb_bPwrOn2PwrGood :: u8
  hb_pos_id :: "u8 list"
  hb_port_reset :: u64

definition HUB_zero :: HUB_DEV_T where
  "HUB_zero = \<lparr>hb_iface = 0, hb_utr = 0, hb_sc_bitmap = 0, hb_bNbrPorts = 0, hb_bPwrOn2PwrGood = 0, hb_pos_id = [],
     hb_port_reset = 0\<rparr>"

record 'v hub_world =
  g_hub_dev :: "HUB_DEV_T list"
  hub_polling_mutex :: u8
  hub_rest :: 'v

text \<open>The controllers are numbered in the order of \<open>usbh_pooling_hubs\<close>: EHCI 0 and 1, OHCI 0 and 1.\<close>

record 'v hub_env =
  he_usb :: "'v hub_world usb_env"
  he_g_hub_dev :: u64
  he_do_port_reset :: u64
  he_hub_status_irq :: u64
  he_rthub_polling :: "nat \<Rightarrow> 'v hub_world ucore \<Rightarrow> int \<times> 'v hub_world ucore"

type_synonym ('v, 'a) hubcomp = "('v hub_world, 'a) comp"

definition get_hub :: "nat \<Rightarrow> ('v, HUB_DEV_T) hubcomp" where
  "get_hub h = bindC (getC (\<lambda>s. g_hub_dev (uc_world s))) (\<lambda>hs. nthC hs h)"

definition upd_hub :: "nat \<Rightarrow> (HUB_DEV_T \<Rightarrow> HUB_DEV_T) \<Rightarrow> ('v, unit) hubcomp" where
  "upd_hub h f = bindC (get_hub h) (\<lambda>b. execC (\<lambda>s. s\<lparr>uc_world := (uc_world s)\<lparr>g_hub_dev := (g_hub_dev (uc_world s))[h := f b]\<rparr>\<rparr>))"

text \<open>The address of an entry, which has 48 bytes on LP64, and the entry at an address.\<close>

definition hub_addr :: "'v hub_env \<Rightarrow> nat \<Rightarrow> u64" where
  "hub_addr H h = he_g_hub_dev H + 48 * word_of_nat h"

definition hub_at :: "'v hub_env \<Rightarrow> u64 \<Rightarrow> ('v, nat) hubcomp" where
  "hub_at H p = (case filter (\<lambda>h. hub_addr H h = p) [0..<MAX_HUB_DEVICE] of
     [] \<Rightarrow> failC (Mem_Fault Dangling_Pointer) | h # _ \<Rightarrow> retC h)"

text \<open>\<open>IS_NULL_PTR\<close> looks at the low 32 bits of an address.\<close>

definition is_null :: "u64 \<Rightarrow> bool" where
  "is_null p \<longleftrightarrow> addr_s p = 0"

section \<open>The table of hubs\<close>

fun first_hub :: "(HUB_DEV_T \<Rightarrow> bool) \<Rightarrow> HUB_DEV_T list \<Rightarrow> nat \<Rightarrow> nat option" where
  "first_hub P [] i = None"
| "first_hub P (b # bs) i = (if P b then Some i else first_hub P bs (Suc i))"

definition alloc_hub_device :: "'v hub_env \<Rightarrow> ('v, nat option) hubcomp" where
  "alloc_hub_device H = bindC (getC (\<lambda>s. g_hub_dev (uc_world s))) (\<lambda>hs.
     case first_hub (\<lambda>b. is_null (hb_iface b)) hs 0 of
       None \<Rightarrow> retC None
     | Some h \<Rightarrow> thenC (upd_hub h (\<lambda>b. HUB_zero\<lparr>hb_port_reset := he_do_port_reset H\<rparr>)) (retC (Some h)))"

text \<open>The loop compares with \<open>hub_dev->iface\<close>, which it clears on its way.\<close>

fun free_hubs :: "nat \<Rightarrow> nat \<Rightarrow> nat \<Rightarrow> ('v, unit) hubcomp" where
  "free_hubs h 0 i = retC ()"
| "free_hubs h (Suc n) i = bindC (get_hub i) (\<lambda>b. bindC (get_hub h) (\<lambda>b'.
     thenC (if hb_iface b = hb_iface b' then upd_hub i (\<lambda>b. HUB_zero) else retC ()) (free_hubs h n (Suc i))))"

definition free_hub_device :: "nat \<Rightarrow> ('v, unit) hubcomp" where
  "free_hub_device h = free_hubs h MAX_HUB_DEVICE 0"

definition find_hub_device :: "u64 \<Rightarrow> ('v, nat option) hubcomp" where
  "find_hub_device iface = bindC (getC (\<lambda>s. g_hub_dev (uc_world s))) (\<lambda>hs.
     retC (first_hub (\<lambda>b. hb_iface b = iface) hs 0))"

text \<open>The loop of \<open>usbh_find_device\<close> over the devices, from \<open>p\<close> on.\<close>

partial_function (option) find_child ::
  "u64 \<Rightarrow> int \<Rightarrow> u64 \<Rightarrow> 'v hub_world ucore \<Rightarrow> (core_fault + u64 \<times> 'v hub_world ucore) option" where
  "find_child hub port p s =
     (if is_null p then Some (Inr (0, s))
      else case udev_heap (uc_mem s) p of
        None \<Rightarrow> Some (Inl (Mem_Fault Dangling_Pointer))
      | Some d \<Rightarrow> if ud_parent d = hub \<and> uint (ud_port_num d) = port then Some (Inr (p, s)) else find_child hub port (ud_next d) s)"

definition usbh_find_device :: "'v hub_env \<Rightarrow> u8 list \<Rightarrow> int \<Rightarrow> ('v, u64) hubcomp" where
  "usbh_find_device H hub_id port = bindC (getC (\<lambda>s. g_hub_dev (uc_world s))) (\<lambda>hs.
     case first_hub (\<lambda>b. \<not> is_null (hb_iface b) \<and> hb_pos_id b = hub_id) hs 0 of
       None \<Rightarrow> retC 0
     | Some h \<Rightarrow> bindC (getC (\<lambda>s. g_udev_list (uc_mem s))) (find_child (hub_addr H h) port))"

section \<open>Requests\<close>

definition hub_udev :: "nat \<Rightarrow> ('v, u64) hubcomp" where
  "hub_udev h = bindC (get_hub h) (\<lambda>b. bindC (get_iface (hb_iface b)) (\<lambda>f. retC (if_udev f)))"

definition clear_hub_feature :: "'v hub_env \<Rightarrow> nat \<Rightarrow> u16 \<Rightarrow> ('v, int) hubcomp" where
  "clear_hub_feature H h feature_selector = bindC (hub_udev h) (\<lambda>udev.
     bindC (usbh_ctrl_xfer (he_usb H) udev (REQ_TYPE_OUT OR REQ_TYPE_CLASS_DEV OR REQ_TYPE_TO_DEV)
       USB_REQ_CLEAR_FEATURE feature_selector 0 0 0 1000) (\<lambda>(ret, read_len). retC ret))"

definition set_port_feature :: "'v hub_env \<Rightarrow> nat \<Rightarrow> u16 \<Rightarrow> int \<Rightarrow> ('v, int) hubcomp" where
  "set_port_feature H h feature_selector port = bindC (hub_udev h) (\<lambda>udev.
     bindC (usbh_ctrl_xfer (he_usb H) udev (REQ_TYPE_OUT OR REQ_TYPE_CLASS_DEV OR REQ_TYPE_TO_OTHER)
       USB_REQ_SET_FEATURE feature_selector (word_of_int port) 0 0 500) (\<lambda>(ret, read_len). retC ret))"

definition clear_port_feature :: "'v hub_env \<Rightarrow> nat \<Rightarrow> u16 \<Rightarrow> int \<Rightarrow> ('v, int) hubcomp" where
  "clear_port_feature H h feature_selector port = bindC (hub_udev h) (\<lambda>udev.
     bindC (usbh_ctrl_xfer (he_usb H) udev (REQ_TYPE_OUT OR REQ_TYPE_CLASS_DEV OR REQ_TYPE_TO_OTHER)
       USB_REQ_CLEAR_FEATURE feature_selector (word_of_int port) 0 0 500) (\<lambda>(ret, read_len). retC ret))"

text \<open>
  The common part of the two status requests: the result returned, the status and the change word. The
  buffer is not checked before it is read.
\<close>

definition word_at :: "usb_mem \<Rightarrow> u64 \<Rightarrow> int \<Rightarrow> u16" where
  "word_at m buff i = push_bit 8 (ucast (cfd_view m buff (i + 1))) OR ucast (cfd_view m buff i)"

definition get_status :: "'v hub_env \<Rightarrow> u64 \<Rightarrow> u8 \<Rightarrow> int \<Rightarrow> ('v, int \<times> u16 \<times> u16) hubcomp" where
  "get_status H udev recipient port = bindC (memC (usbh_alloc_mem 16)) (\<lambda>buff.
     bindC (usbh_ctrl_xfer (he_usb H) udev (REQ_TYPE_IN OR REQ_TYPE_CLASS_DEV OR recipient)
       USB_REQ_GET_STATUS 0 (word_of_int port) 4 buff 500) (\<lambda>(ret, read_len).
     if buff = 0 then failC Null_Pointer
     else bindC (getC (\<lambda>s. word_at (uc_mem s) buff 0)) (\<lambda>st. bindC (getC (\<lambda>s. word_at (uc_mem s) buff 2)) (\<lambda>ch.
     thenC (mem_doC (\<lambda>m. snd (usbh_free_mem buff 16 m)))
     (retC (if ret < 0 then ret else if read_len \<noteq> 4 then USBH_ERR_DATA_UNDERRUN else 0, st, ch))))))"

definition get_hub_status :: "'v hub_env \<Rightarrow> nat \<Rightarrow> ('v, int \<times> u16 \<times> u16) hubcomp" where
  "get_hub_status H h = bindC (hub_udev h) (\<lambda>udev. get_status H udev REQ_TYPE_TO_DEV 0)"

definition get_port_status :: "'v hub_env \<Rightarrow> nat \<Rightarrow> int \<Rightarrow> ('v, int \<times> u16 \<times> u16) hubcomp" where
  "get_port_status H h port = bindC (hub_udev h) (\<lambda>udev. get_status H udev REQ_TYPE_TO_OTHER port)"

section \<open>The interrupt endpoint\<close>

text \<open>The loop over the bytes received; a shift by the width of \<open>int\<close> is undefined.\<close>

fun status_bits :: "nat \<Rightarrow> u64 \<Rightarrow> nat \<Rightarrow> nat \<Rightarrow> ('v, unit) hubcomp" where
  "status_bits h buff 0 i = retC ()"
| "status_bits h buff (Suc n) i =
     (if 4 \<le> i then failC Bad_Shift
      else bindC (getC (\<lambda>s. cfd_view (uc_mem s) buff (int i))) (\<lambda>x.
        thenC (upd_hub h (\<lambda>b. b\<lparr>hb_sc_bitmap := hb_sc_bitmap b OR push_bit (8 * i) (ucast x)\<rparr>)) (status_bits h buff n (Suc i))))"

definition hub_status_irq :: "'v hub_env \<Rightarrow> u64 \<Rightarrow> ('v, unit) hubcomp" where
  "hub_status_irq H utr = bindC (get_utr utr) (\<lambda>u.
     if utr_status u \<noteq> 0 then retC ()
     else bindC (hub_at H (utr_context u)) (\<lambda>h. status_bits h (utr_buff u) (unat (utr_xfer_len u)) 0))"

section \<open>Probe and disconnect\<close>

text \<open>
  The loop that powers the ports: \<open>n\<close> is \<open>255 - i\<close> with \<open>i\<close> the number of the port, and \<open>bNbrPorts\<close>
  is at most 255.
\<close>

fun power_ports :: "'v hub_env \<Rightarrow> nat \<Rightarrow> nat \<Rightarrow> ('v, unit) hubcomp" where
  "power_ports H h 0 = retC ()"
| "power_ports H h (Suc n) = bindC (get_hub h) (\<lambda>b.
     if unat (hb_bNbrPorts b) < 255 - n then retC ()
     else thenC (set_port_feature H h FS_PORT_POWER (int (255 - n))) (power_ports H h n))"

text \<open>From the labels \<open>out_free_desc\<close> and \<open>out_free_utr\<close> on.\<close>

definition out_free_desc :: "nat \<Rightarrow> u64 \<Rightarrow> int \<Rightarrow> ('v, int) hubcomp" where
  "out_free_desc h desc_hub ret =
     thenC (if is_null desc_hub then retC () else mem_doC (\<lambda>m. snd (usbh_free_mem desc_hub sizeof_DESC_HUB_T m)))
     (thenC (free_hub_device h) (retC ret))"

definition out_free_utr :: "nat \<Rightarrow> u64 \<Rightarrow> u64 \<Rightarrow> int \<Rightarrow> ('v, int) hubcomp" where
  "out_free_utr h desc_hub utr ret = bindC (get_utr utr) (\<lambda>u.
     thenC (if is_null (utr_buff u) then retC () else mem_doC (\<lambda>m. snd (usbh_free_mem (utr_buff u) HUB_STATUS_MAX_BYTE m)))
     (thenC (mem_doC (free_utr utr)) (out_free_desc h desc_hub ret)))"

text \<open>A string in an array of nine bytes.\<close>

definition set_pos_id :: "nat \<Rightarrow> u8 list \<Rightarrow> ('v, unit) hubcomp" where
  "set_pos_id h cs = (if length cs \<le> MAX_HUB_DEVICE then upd_hub h (\<lambda>b. b\<lparr>hb_pos_id := cs\<rparr>)
     else failC (Mem_Fault Index_Out_Of_Range))"

definition hub_position :: "'v hub_env \<Rightarrow> nat \<Rightarrow> UDEV_T \<Rightarrow> ('v, unit) hubcomp" where
  "hub_position H h d = (let str = takeWhile (\<lambda>c. c \<noteq> 0) [0x30 + ud_port_num d] in
     if is_null (ud_parent d) then set_pos_id h str
     else bindC (hub_at H (ud_parent d)) (\<lambda>p. bindC (get_hub p) (\<lambda>b. set_pos_id h (hb_pos_id b @ str))))"

text \<open>The interrupt transfer is submitted; \<open>ep\<close> is the address of the endpoint.\<close>

definition hub_start :: "'v hub_env \<Rightarrow> nat \<Rightarrow> u64 \<Rightarrow> u64 \<Rightarrow> u64 \<Rightarrow> ('v, int) hubcomp" where
  "hub_start H h udev ep desc_hub = bindC (memC (alloc_utr udev)) (\<lambda>utr.
     if is_null utr then out_free_desc h desc_hub USBH_ERR_MEMORY_OUT
     else thenC (upd_hub h (\<lambda>b. b\<lparr>hb_utr := utr\<rparr>))
     (bindC (memC (usbh_alloc_mem HUB_STATUS_MAX_BYTE)) (\<lambda>buff.
     thenC (upd_utr utr (\<lambda>u. u\<lparr>utr_context := hub_addr H h, utr_ep := ep, utr_buff := buff,
       utr_data_len := word_of_int HUB_STATUS_MAX_BYTE, utr_xfer_len := 0, utr_func := he_hub_status_irq H\<rparr>))
     (bindC (usbh_int_xfer (he_usb H) utr) (\<lambda>ret.
     if ret < 0 then out_free_utr h desc_hub utr USBH_ERR_TRANSFER
     else thenC (mem_doC (\<lambda>m. snd (usbh_free_mem desc_hub sizeof_DESC_HUB_T m))) (retC 0))))))"

text \<open>The hub descriptor is read, and the ports are powered.\<close>

definition hub_describe :: "'v hub_env \<Rightarrow> nat \<Rightarrow> u64 \<Rightarrow> u64 \<Rightarrow> ('v, int) hubcomp" where
  "hub_describe H h udev ep = bindC (memC (usbh_alloc_mem sizeof_DESC_HUB_T)) (\<lambda>desc_hub.
     bindC (usbh_ctrl_xfer (he_usb H) udev (REQ_TYPE_IN OR REQ_TYPE_CLASS_DEV OR REQ_TYPE_TO_DEV)
       USB_REQ_GET_DESCRIPTOR 0x2900 0 (word_of_int sizeof_DESC_HUB_T) desc_hub 500) (\<lambda>(ret, read_len).
     if ret < 0 then out_free_desc h desc_hub USBH_ERR_TRANSFER
     else if desc_hub = 0 then failC Null_Pointer
     else bindC (getC (\<lambda>s. cfd_view (uc_mem s) desc_hub 2)) (\<lambda>ports.
     bindC (getC (\<lambda>s. cfd_view (uc_mem s) desc_hub 5)) (\<lambda>pwr.
     thenC (upd_hub h (\<lambda>b. b\<lparr>hb_bNbrPorts := ports, hb_bPwrOn2PwrGood := pwr * 2\<rparr>))
     (thenC (power_ports H h 255)
     (bindC (get_hub h) (\<lambda>b.
     thenC (execC (ue_delay_us (he_usb H) (uint (hb_bPwrOn2PwrGood b) * 1000 + 100000)))
     (hub_start H h udev ep desc_hub))))))))"

text \<open>When no endpoint fits, the variable \<open>ep\<close> that is tested next was never set.\<close>

definition hub_probe :: "'v hub_env \<Rightarrow> u64 \<Rightarrow> ('v, int) hubcomp" where
  "hub_probe H iface = bindC (get_iface iface) (\<lambda>f. bindC (nthC (if_alt f) (if_aif f)) (\<lambda>aif.
     bindC (ifd_rd8 (if_udev f) aif 5) (\<lambda>bInterfaceClass.
     if bInterfaceClass \<noteq> 9 then retC USBH_ERR_NOT_MATCHED
     else bindC (ifd_rd8 (if_udev f) aif 4) (\<lambda>bNumEndpoints.
     bindC (find_ep (\<lambda>ep. ep_bmAttributes ep AND 3 = 3 \<and> ep_bEndpointAddress ep AND 0x80 = 0x80)
       (alt_ep aif) (unat bNumEndpoints) 0) (\<lambda>r. case r of
       None \<Rightarrow> failC Uninit_Pointer
     | Some i \<Rightarrow> bindC (alloc_hub_device H) (\<lambda>r. case r of
         None \<Rightarrow> retC USBH_ERR_MEMORY_OUT
       | Some h \<Rightarrow>
           thenC (upd_hub h (\<lambda>b. b\<lparr>hb_iface := iface\<rparr>))
           (thenC (put_iface iface (f\<lparr>if_context := hub_addr H h\<rparr>))
           (bindC (get_udev (if_udev f)) (\<lambda>d.
           thenC (hub_position H h d)
           (hub_describe H h (if_udev f) (aif_ep_addr iface (if_aif f) i))))))))))) "

text \<open>The loop over the ports of a hub that is gone, with \<open>n\<close> as above.\<close>

fun drop_children :: "'v hub_env \<Rightarrow> nat \<Rightarrow> nat \<Rightarrow> ('v, unit) hubcomp" where
  "drop_children H h 0 = retC ()"
| "drop_children H h (Suc n) = bindC (get_hub h) (\<lambda>b.
     if unat (hb_bNbrPorts b) < 255 - n then retC ()
     else bindC (usbh_find_device H (hb_pos_id b) (int (255 - n))) (\<lambda>udev.
       thenC (if is_null udev then retC () else disconnect_device (he_usb H) udev) (drop_children H h n)))"

definition hub_disconnect :: "'v hub_env \<Rightarrow> u64 \<Rightarrow> ('v, unit) hubcomp" where
  "hub_disconnect H iface = bindC (find_hub_device iface) (\<lambda>r. case r of
     None \<Rightarrow> retC ()
   | Some h \<Rightarrow> thenC (drop_children H h 255)
       (bindC (get_hub h) (\<lambda>b.
       thenC (if is_null (hb_utr b) then retC ()
         else thenC (usbh_quit_utr (he_usb H) (hb_utr b)) (bindC (get_utr (hb_utr b)) (\<lambda>u.
           thenC (mem_doC (\<lambda>m. snd (usbh_free_mem (utr_buff u) HUB_STATUS_MAX_BYTE m))) (mem_doC (free_utr (hb_utr b))))))
       (free_hub_device h))))"

section \<open>Status changes\<close>

definition hub_status_change :: "'v hub_env \<Rightarrow> nat \<Rightarrow> ('v, int) hubcomp" where
  "hub_status_change H h = bindC (get_hub_status H h) (\<lambda>(ret, wHubStatus, wHubChange).
     if ret < 0 then retC ret
     else bindC (if wHubChange AND HUB_C_LOCAL_POWER \<noteq> 0 then clear_hub_feature H h FS_C_HUB_LOCAL_POWER else retC 0) (\<lambda>ret.
     if ret < 0 then retC ret
     else bindC (if wHubChange AND HUB_C_OVERCURRENT \<noteq> 0 then clear_hub_feature H h FS_C_HUB_OVER_CURRENT else retC 0) (\<lambda>ret.
     if ret < 0 then retC ret else retC 0)))"

text \<open>The loop that waits for the end of a port reset: the result returned, or \<open>None\<close> when the time is over.\<close>

partial_function (option) reset_wait ::
  "'v hub_env \<Rightarrow> nat \<Rightarrow> int \<Rightarrow> u32 \<Rightarrow> int \<Rightarrow> 'v hub_world ucore \<Rightarrow> (core_fault + int option \<times> 'v hub_world ucore) option" where
  "reset_wait H h port t0 reset_time s =
     (if ue_ticks (he_usb H) s - t0 < word_of_int (reset_time + 1) then
        case get_port_status H h port s of
          None \<Rightarrow> None
        | Some (Inl e) \<Rightarrow> Some (Inl e)
        | Some (Inr ((ret, wPortStatus, wPortChange), s')) \<Rightarrow>
            if ret < 0 then Some (Inr (Some ret, s'))
            else if wPortStatus AND PORT_S_CONNECTION = 0 \<or>
                wPortStatus AND (PORT_S_CONNECTION OR PORT_S_ENABLE) = PORT_S_CONNECTION OR PORT_S_ENABLE
              then thenC (clear_port_feature H h PORT_C_ENABLE port) (retC (Some 0)) s'
            else reset_wait H h port t0 reset_time s'
      else Some (Inr (None, s)))"

fun reset_tries :: "'v hub_env \<Rightarrow> nat \<Rightarrow> int \<Rightarrow> nat \<Rightarrow> int \<Rightarrow> ('v, int) hubcomp" where
  "reset_tries H h port 0 reset_time = retC USBH_ERR_PORT_RESET"
| "reset_tries H h port (Suc n) reset_time = bindC (set_port_feature H h FS_PORT_RESET port) (\<lambda>ret.
     if ret < 0 then retC ret
     else bindC (getC (ue_ticks (he_usb H))) (\<lambda>t0. bindC (reset_wait H h port t0 reset_time) (\<lambda>r. case r of
       Some ret \<Rightarrow> retC ret
     | None \<Rightarrow> reset_tries H h port n (reset_time + PORT_RESET_RETRY_INC_MS))))"

definition do_port_reset :: "'v hub_env \<Rightarrow> nat \<Rightarrow> int \<Rightarrow> ('v, int) hubcomp" where
  "do_port_reset H h port = reset_tries H h port PORT_RESET_RETRY PORT_RESET_TIME_MS"

definition drop_device :: "'v hub_env \<Rightarrow> nat \<Rightarrow> int \<Rightarrow> ('v, unit) hubcomp" where
  "drop_device H h port = bindC (get_hub h) (\<lambda>b. bindC (usbh_find_device H (hb_pos_id b) port) (\<lambda>udev.
     if is_null udev then retC () else disconnect_device (he_usb H) udev))"

definition port_speed :: "u16 \<Rightarrow> speed_e" where
  "port_speed wPortStatus = (if wPortStatus AND PORT_S_HIGH_SPEED \<noteq> 0 then SPEED_HIGH
     else if wPortStatus AND PORT_S_LOW_SPEED \<noteq> 0 then SPEED_LOW else SPEED_FULL)"

text \<open>A device is created below the port and enumerated.\<close>

definition attach_device :: "'v hub_env \<Rightarrow> nat \<Rightarrow> int \<Rightarrow> u16 \<Rightarrow> ('v, int) hubcomp" where
  "attach_device H h port wPortStatus = bindC (memC alloc_device) (\<lambda>udev.
     if is_null udev then retC USBH_ERR_MEMORY_OUT
     else thenC (upd_udev udev (\<lambda>d. d\<lparr>ud_parent := hub_addr H h, ud_port_num := word_of_int port, ud_speed := port_speed wPortStatus\<rparr>))
     (bindC (hub_udev h) (\<lambda>up. bindC (get_udev up) (\<lambda>u.
     thenC (upd_udev udev (\<lambda>d. d\<lparr>ud_hc_driver := ud_hc_driver u\<rparr>))
     (bindC (connect_device (he_usb H) udev) (\<lambda>ret.
     thenC (if ret < 0 then mem_optC (free_device udev) else retC ()) (retC 0)))))))"

definition port_connect_change :: "'v hub_env \<Rightarrow> nat \<Rightarrow> int \<Rightarrow> u16 \<Rightarrow> ('v, int) hubcomp" where
  "port_connect_change H h port wPortStatus =
     (if wPortStatus AND PORT_S_CONNECTION \<noteq> 0 then
        thenC (drop_device H h port)
        (bindC (do_port_reset H h port) (\<lambda>ret.
        if ret < 0 then retC ret
        else bindC (get_port_status H h port) (\<lambda>(ret, wPortStatus, wPortChange).
        if ret < 0 then retC ret else attach_device H h port wPortStatus)))
      else thenC (drop_device H h port) (retC 0))"

text \<open>One of the changes, with what follows it.\<close>

definition clear_change :: "'v hub_env \<Rightarrow> nat \<Rightarrow> int \<Rightarrow> u16 \<Rightarrow> u16 \<Rightarrow> u16 \<Rightarrow> ('v, int) hubcomp \<Rightarrow> ('v, int) hubcomp" where
  "clear_change H h port wPortChange msk fs next =
     (if wPortChange AND msk \<noteq> 0 then bindC (clear_port_feature H h fs port) (\<lambda>ret. if ret < 0 then retC ret else next)
      else next)"

text \<open>The last test uses the feature selector \<open>FS_C_PORT_RESET\<close> as a mask, as the source does.\<close>

definition port_status_change :: "'v hub_env \<Rightarrow> nat \<Rightarrow> int \<Rightarrow> ('v, int) hubcomp" where
  "port_status_change H h port = bindC (get_port_status H h port) (\<lambda>(ret, wPortStatus, wPortChange).
     if ret < 0 then retC ret
     else bindC (if wPortChange AND PORT_C_CONNECTION \<noteq> 0
         then bindC (clear_port_feature H h FS_C_PORT_CONNECTION port) (\<lambda>ret.
           if ret < 0 then retC ret else thenC (port_connect_change H h port wPortStatus) (retC 0))
         else retC 0) (\<lambda>ret.
     if ret < 0 then retC ret
     else clear_change H h port wPortChange PORT_C_ENABLE FS_C_PORT_ENABLE
       (clear_change H h port wPortChange PORT_C_SUSPEND FS_C_PORT_SUSPEND
       (clear_change H h port wPortChange PORT_C_OVERCURRENT FS_C_PORT_OVER_CURRENT
       (clear_change H h port wPortChange FS_C_PORT_RESET FS_C_PORT_RESET (retC 0))))))"

section \<open>Polling\<close>

text \<open>
  The loop over the ports of a hub with a status change, with \<open>n\<close> as above; \<open>ret\<close> is \<open>None\<close> as long
  as the variable has no value. A shift by the width of \<open>int\<close> is undefined.
\<close>

fun poll_ports :: "'v hub_env \<Rightarrow> nat \<Rightarrow> nat \<Rightarrow> int option \<Rightarrow> ('v, int option) hubcomp" where
  "poll_ports H h 0 ret = retC ret"
| "poll_ports H h (Suc n) ret = bindC (get_hub h) (\<lambda>b. let port = 255 - n in
     if unat (hb_bNbrPorts b) < port then retC ret
     else if 32 \<le> port then failC Bad_Shift
     else if ucast (hb_sc_bitmap b) AND push_bit port (1 :: u32) \<noteq> 0
       then bindC (port_status_change H h (int port)) (\<lambda>r. if r < 0 then retC (Some r) else poll_ports H h n (Some r))
     else poll_ports H h n ret)"

definition poll_hub :: "'v hub_env \<Rightarrow> nat \<Rightarrow> HUB_DEV_T \<Rightarrow> int option \<Rightarrow> ('v, int option) hubcomp" where
  "poll_hub H h b ret =
     thenC (if hb_sc_bitmap b AND 1 \<noteq> 0 then hub_status_change H h else retC 0)
     (bindC (poll_ports H h 255 ret) (\<lambda>ret.
     thenC (upd_hub h (\<lambda>b. b\<lparr>hb_sc_bitmap := 0\<rparr>))
     (case ret of
       None \<Rightarrow> failC Uninit_Value
     | Some r \<Rightarrow> if r = 0
         then bindC (get_hub h) (\<lambda>b. thenC (upd_utr (hb_utr b) (\<lambda>u. u\<lparr>utr_xfer_len := 0\<rparr>))
           (bindC (usbh_int_xfer (he_usb H) (hb_utr b)) (\<lambda>r. retC (Some r))))
         else retC (Some r))))"

text \<open>The loop over the hubs: whether there was a change.\<close>

fun poll_hubs :: "'v hub_env \<Rightarrow> nat \<Rightarrow> nat \<Rightarrow> int option \<Rightarrow> int \<Rightarrow> ('v, int) hubcomp" where
  "poll_hubs H 0 i ret change = retC change"
| "poll_hubs H (Suc n) i ret change = bindC (get_hub i) (\<lambda>b.
     if \<not> is_null (hb_iface b) \<and> hb_sc_bitmap b \<noteq> 0
     then bindC (poll_hub H i b ret) (\<lambda>ret. poll_hubs H n (Suc i) ret 1)
     else poll_hubs H n (Suc i) ret change)"

definition set_mutex :: "u8 \<Rightarrow> ('v, unit) hubcomp" where
  "set_mutex x = execC (\<lambda>s. s\<lparr>uc_world := (uc_world s)\<lparr>hub_polling_mutex := x\<rparr>\<rparr>)"

definition hub_polling :: "'v hub_env \<Rightarrow> ('v, int) hubcomp" where
  "hub_polling H = bindC (getC (\<lambda>s. hub_polling_mutex (uc_world s))) (\<lambda>mutex.
     if mutex \<noteq> 0 then retC 0
     else thenC (set_mutex 1) (bindC (poll_hubs H MAX_HUB_DEVICE 0 None 0) (\<lambda>change. thenC (set_mutex 0) (retC change))))"

text \<open>\<open>do { ret = f(); if (ret) change = 1; } while (ret == 1);\<close>\<close>

partial_function (option) poll_while ::
  "('w, int) comp \<Rightarrow> int \<Rightarrow> 'w ucore \<Rightarrow> (core_fault + int \<times> 'w ucore) option" where
  "poll_while f change s = (case f s of
     None \<Rightarrow> None
   | Some (Inl e) \<Rightarrow> Some (Inl e)
   | Some (Inr (ret, s')) \<Rightarrow>
       if ret = 1 then poll_while f 1 s' else Some (Inr (if ret \<noteq> 0 then 1 else change, s')))"

definition usbh_pooling_hubs :: "'v hub_env \<Rightarrow> ('v, int) hubcomp" where
  "usbh_pooling_hubs H = bindC (poll_while (callC (he_rthub_polling H 0)) 0) (\<lambda>change.
     bindC (poll_while (callC (he_rthub_polling H 1)) change) (\<lambda>change.
     bindC (poll_while (callC (he_rthub_polling H 2)) change) (\<lambda>change.
     bindC (poll_while (callC (he_rthub_polling H 3)) change) (\<lambda>change.
     poll_while (hub_polling H) change))))"

text \<open>\<open>memset\<close> of the table in \<open>usbh_hub_init\<close>, which then registers the driver.\<close>

definition hub_table_init :: "'v hub_world ucore \<Rightarrow> 'v hub_world ucore" where
  "hub_table_init s = s\<lparr>uc_world := (uc_world s)\<lparr>g_hub_dev := replicate MAX_HUB_DEVICE HUB_zero\<rparr>\<rparr>"

end
