(* ===== verification/Hub_Facts.thy ===== *)
theory Hub_Facts
  imports Hub Usb_Core_Remove
begin

text \<open>
  Lemmas on the hub driver: what its requests keep, the lookup of devices, and time during a port reset.
\<close>

section \<open>The table of hubs\<close>

text \<open>The entries without the bits that interrupts set.\<close>

definition hub_core :: "HUB_DEV_T \<Rightarrow> HUB_DEV_T" where
  "hub_core b = b\<lparr>hb_sc_bitmap := 0\<rparr>"

definition hubs_kept :: "'v hub_world \<Rightarrow> 'v hub_world \<Rightarrow> bool" where
  "hubs_kept w w' \<longleftrightarrow> map hub_core (g_hub_dev w') = map hub_core (g_hub_dev w)"

interpretation hubs: world_relation hubs_kept
  by unfold_locales (auto simp: hubs_kept_def)

lemma hubs_kept_hub:
  assumes "hubs_kept w w'" "h < length (g_hub_dev w)"
  shows "h < length (g_hub_dev w')" "hub_core (g_hub_dev w' ! h) = hub_core (g_hub_dev w ! h)"
proof -
  have l: "length (g_hub_dev w') = length (g_hub_dev w)"
    using assms(1) unfolding hubs_kept_def by (metis length_map)
  then show "h < length (g_hub_dev w')" using assms(2) by simp
  have "map hub_core (g_hub_dev w') ! h = map hub_core (g_hub_dev w) ! h" using assms(1) by (simp add: hubs_kept_def)
  then show "hub_core (g_hub_dev w' ! h) = hub_core (g_hub_dev w ! h)" using l assms(2) by simp
qed

lemma hub_core_sel:
  assumes "hub_core b' = hub_core b"
  shows "hb_iface b' = hb_iface b" "hb_utr b' = hb_utr b" "hb_bNbrPorts b' = hb_bNbrPorts b" "hb_pos_id b' = hb_pos_id b"
  using arg_cong[OF assms, of hb_iface] arg_cong[OF assms, of hb_utr] arg_cong[OF assms, of hb_bNbrPorts]
    arg_cong[OF assms, of hb_pos_id] by (simp_all add: hub_core_def)

lemma get_hub_run [comp_simps]:
  "h < length (g_hub_dev (uc_world s)) \<Longrightarrow> get_hub h s = Some (Inr (g_hub_dev (uc_world s) ! h, s))"
  by (simp add: get_hub_def comp_simps nthC_def)

lemma upd_hub_run [comp_simps]:
  "h < length (g_hub_dev (uc_world s)) \<Longrightarrow> upd_hub h f s = Some (Inr ((), s\<lparr>uc_world := (uc_world s)\<lparr>
     g_hub_dev := (g_hub_dev (uc_world s))[h := f (g_hub_dev (uc_world s) ! h)]\<rparr>\<rparr>))"
  by (simp add: upd_hub_def comp_simps)

lemma first_hub_Some:
  "h < length bs \<Longrightarrow> P (bs ! h) \<Longrightarrow> (\<And>j. j < h \<Longrightarrow> \<not> P (bs ! j)) \<Longrightarrow> first_hub P bs i = Some (i + h)"
proof (induction bs arbitrary: i h)
  case (Cons b bs)
  show ?case
  proof (cases h)
    case (Suc k)
    have "\<not> P (bs ! j)" if "j < k" for j using Cons.prems(3)[of "Suc j"] that Suc by simp
    then show ?thesis using Cons.IH[of k "Suc i"] Cons.prems(1,2) Cons.prems(3)[of 0] Suc by simp
  qed (use Cons.prems(2) in simp)
qed simp

text \<open>A hub is ready for requests: its device has a controller, and the pool a unit for the buffer.\<close>

definition hub_ready :: "nat \<Rightarrow> 'v hub_world ucore \<Rightarrow> bool" where
  "hub_ready h s \<longleftrightarrow> mem_wf (uc_mem s) \<and> (\<exists>k. free_run (dma_unit_used (uc_mem s)) k 1) \<and> h < length (g_hub_dev (uc_world s)) \<and>
     (\<exists>f d. uc_ifaces s (hb_iface (g_hub_dev (uc_world s) ! h)) = Some f \<and> udev_heap (uc_mem s) (if_udev f) = Some d \<and> ud_hc_driver d \<noteq> 0)"

definition hub_step :: "'v hub_world ucore \<Rightarrow> 'v hub_world ucore \<Rightarrow> bool" where
  "hub_step s s' \<longleftrightarrow> quiet s s' \<and> hubs_kept (uc_world s) (uc_world s')"

interpretation hub: frame_relation hub_step
proof
  show "hub_step s s" for s :: "'a hub_world ucore" by (simp add: hub_step_def quiet.refl hubs.world_refl)
  show "hub_step s u" if "hub_step s t" "hub_step t u" for s t u :: "'a hub_world ucore"
    using that unfolding hub_step_def
    by (elim conjE, intro conjI) (erule (1) quiet.trans, erule (1) hubs.world_trans)
qed

lemma hub_ready_step:
  assumes "hub_ready h s" "hub_step s s'"
  shows "hub_ready h s'"
proof -
  have q: "quiet s s'" and k: "hubs_kept (uc_world s) (uc_world s')" using assms(2) by (simp_all add: hub_step_def)
  from assms(1) obtain k0 f d where h: "mem_wf (uc_mem s)" "free_run (dma_unit_used (uc_mem s)) k0 1"
    "h < length (g_hub_dev (uc_world s))" "uc_ifaces s (hb_iface (g_hub_dev (uc_world s) ! h)) = Some f"
    "udev_heap (uc_mem s) (if_udev f) = Some d" "ud_hc_driver d \<noteq> 0" unfolding hub_ready_def by blast
  obtain d' where d': "udev_heap (uc_mem s') (if_udev f) = Some d'" "ud_core d' = ud_core d" by (rule quiet_udev[OF q h(5)])
  have "uc_ifaces s' = uc_ifaces s" "dma_unit_used (uc_mem s') = dma_unit_used (uc_mem s)" using q by (simp_all add: quiet_def)
  moreover have "ud_hc_driver d' \<noteq> 0" using ud_core_hc[OF d'(2)] h(6) by simp
  ultimately show ?thesis unfolding hub_ready_def
    using h(2,4) d'(1) quiet_wf[OF q h(1)] hubs_kept_hub[OF k h(3)] hub_core_sel(1)[OF hubs_kept_hub(2)[OF k h(3)]] by metis
qed

lemma hub_udev_run:
  assumes "hub_ready h s"
  obtains udev d where "hub_udev h s = Some (Inr (udev, s))" "udev_heap (uc_mem s) udev = Some d" "ud_hc_driver d \<noteq> 0"
proof -
  obtain f d where h: "h < length (g_hub_dev (uc_world s))" "uc_ifaces s (hb_iface (g_hub_dev (uc_world s) ! h)) = Some f"
    "udev_heap (uc_mem s) (if_udev f) = Some d" "ud_hc_driver d \<noteq> 0" using assms unfolding hub_ready_def by blast
  then have "hub_udev h s = Some (Inr (if_udev f, s))" by (simp add: hub_udev_def comp_simps get_iface_def)
  then show ?thesis using that h by blast
qed

section \<open>Buffers\<close>

text \<open>A block of one unit that is allocated, used quietly and freed leaves no trace.\<close>

lemma buffer_bracket:
  assumes wf: "mem_wf (uc_mem s)" and k: "free_run (dma_unit_used (uc_mem s)) k 1"
    and q: "quiet (s\<lparr>uc_mem := dma_taken k 1 (uc_mem s)\<rparr>) s2" and n: "1 = units_for sz DMA_MEM_UNIT_SIZE"
  shows "quiet s (s2\<lparr>uc_mem := snd (usbh_free_mem (dma_block (uc_mem s) k) sz (uc_mem s2))\<rparr>)"
proof -
  let ?U = "dma_unit_used (uc_mem s)" and ?p = "dma_block (uc_mem s) k"
  have run: "used_run (fill (nat k) (nat 1) True ?U) k 1"
    by (rule used_run_fill) (use k in \<open>auto simp: free_run_def\<close>)
  have wf1: "mem_wf (dma_taken k 1 (uc_mem s))" using mem_wf_dma_taken[OF wf k] by simp
  have u2: "dma_unit_used (uc_mem s2) = fill (nat k) (nat 1) True ?U" "dma_mem_pool (uc_mem s2) = dma_mem_pool (uc_mem s)"
    using q by (simp_all add: quiet_def)
  have wf2: "mem_wf (uc_mem s2)" using quiet_wf[OF q] wf1 by simp
  have p2: "?p = dma_block (uc_mem s2) k" using u2(2) by (simp add: dma_block_def)
  have run2: "used_run (dma_unit_used (uc_mem s2)) k 1" using run by (simp add: u2)
  note fr = usbh_free_mem_run[OF wf2 run2 _ n, folded p2]
  have unit_back: "fill (nat k) (nat 1) False (fill (nat k) (nat 1) True ?U) = ?U"
  proof (rule nth_equalityI)
    fix j
    assume "j < length (fill (nat k) (nat 1) False (fill (nat k) (nat 1) True ?U))"
    then show "fill (nat k) (nat 1) False (fill (nat k) (nat 1) True ?U) ! j = ?U ! j"
      using free_runD[OF k, of j] k by (cases "j = nat k") (auto simp: free_run_def nth_list_update)
  qed simp
  have live: "dma_live (dma_taken k 1 (uc_mem s)) = insert ?p (dma_live (uc_mem s))"
    using dma_live_take(2)[OF wf k, of "dma_taken k 1 (uc_mem s)"] by simp
  show ?thesis
    using q live fr(2) unfolding quiet_def by (auto simp: fr(1) u2 unit_back[simplified])
qed

section \<open>Requests\<close>

text \<open>What the hub driver relies on in transfers: a quiet controller that leaves the table of hubs alone, and a clock.\<close>

definition hub_xfers :: "'v hub_env \<Rightarrow> bool" where
  "hub_xfers H \<longleftrightarrow> xfer_env (he_usb H) \<and> clock_runs (he_usb H) \<and>
     xfer_keeps (\<lambda>s s'. hubs_kept (uc_world s) (uc_world s')) (he_usb H)"

lemma hub_ctrl_xfer:
  assumes "hub_xfers H" "timeout \<le> 2000" "mem_wf (uc_mem s)" "udev_heap (uc_mem s) udev = Some d" "ud_hc_driver d \<noteq> 0"
  shows "run_ok (usbh_ctrl_xfer (he_usb H) udev t r v i l buff timeout) (\<lambda>(ret, n) s'. hub_step s s' \<and>
    (refusing (he_usb H) \<longrightarrow> ret < 0)) s"
proof -
  have e: "xfer_env (he_usb H)" "clock_runs (he_usb H)" "xfer_keeps (\<lambda>s s'. hubs_kept (uc_world s) (uc_world s')) (he_usb H)"
    using assms(1) by (simp_all add: hub_xfers_def)
  obtain ret n s' where r: "usbh_ctrl_xfer (he_usb H) udev t r v i l buff timeout s = Some (Inr ((ret, n), s'))"
    "quiet s s'" "refusing (he_usb H) \<longrightarrow> ret < 0"
    using usbh_ctrl_xfer_total[OF e(1,2) assms(2-5), of t r v i l buff] unfolding run_ok_def by fast
  have "hubs_kept (uc_world s) (uc_world s')" by (rule keepsD[OF hubs.keeps_ctrl_xfer_only[OF e(3)] r(1)])
  then show ?thesis unfolding run_ok_def hub_step_def using r by auto
qed

lemma feature_ok:
  assumes "hub_xfers H" "hub_ready h s"
  shows "run_ok (set_port_feature H h fs port) (\<lambda>ret s'. hub_step s s' \<and> (refusing (he_usb H) \<longrightarrow> ret < 0)) s"
    "run_ok (clear_port_feature H h fs port) (\<lambda>ret s'. hub_step s s' \<and> (refusing (he_usb H) \<longrightarrow> ret < 0)) s"
    "run_ok (clear_hub_feature H h fs) (\<lambda>ret s'. hub_step s s' \<and> (refusing (he_usb H) \<longrightarrow> ret < 0)) s"
proof -
  obtain udev d where u: "hub_udev h s = Some (Inr (udev, s))" "udev_heap (uc_mem s) udev = Some d" "ud_hc_driver d \<noteq> 0"
    by (rule hub_udev_run[OF assms(2)])
  have wf: "mem_wf (uc_mem s)" using assms(2) by (simp add: hub_ready_def)
  have up: "run_ok (hub_udev h) Q s \<longleftrightarrow> Q udev s" for Q using u(1) by (simp add: run_ok_def)
  note x = hub_ctrl_xfer[OF assms(1) _ wf u(2,3)]
  show "run_ok (set_port_feature H h fs port) (\<lambda>ret s'. hub_step s s' \<and> (refusing (he_usb H) \<longrightarrow> ret < 0)) s"
    "run_ok (clear_port_feature H h fs port) (\<lambda>ret s'. hub_step s s' \<and> (refusing (he_usb H) \<longrightarrow> ret < 0)) s"
    "run_ok (clear_hub_feature H h fs) (\<lambda>ret s'. hub_step s s' \<and> (refusing (he_usb H) \<longrightarrow> ret < 0)) s"
    unfolding set_port_feature_def clear_port_feature_def clear_hub_feature_def run_ok_bind up
    by (rule run_ok_mono[OF x]; auto)+
qed

lemma units_for_buffers: "units_for 16 DMA_MEM_UNIT_SIZE = 1"
  by (simp add: units_for_def c_div_def)

lemma get_status_ok:
  assumes "hub_xfers H" "hub_ready h s" "udev_heap (uc_mem s) udev = Some d" "ud_hc_driver d \<noteq> 0"
  shows "run_ok (get_status H udev recipient port) (\<lambda>(ret, st, ch) s'. hub_step s s' \<and> (refusing (he_usb H) \<longrightarrow> ret < 0)) s"
proof -
  have wf: "mem_wf (uc_mem s)" and "\<exists>k. free_run (dma_unit_used (uc_mem s)) k 1" using assms(2) by (auto simp: hub_ready_def)
  then obtain k0 where k0: "free_run (dma_unit_used (uc_mem s)) k0 1" by blast
  have pos: "0 < (16 :: int)" by simp
  from wf pos refl show ?thesis
  proof (cases rule: usbh_alloc_mem_cases)
    case (taken k)
    note t = taken[unfolded units_for_buffers]
    let ?p = "dma_block (uc_mem s) k" and ?s = "s\<lparr>uc_mem := dma_taken k 1 (uc_mem s)\<rparr>"
    have p: "?p \<noteq> 0" by (simp add: dma_block_def)
    have wf1: "mem_wf (uc_mem ?s)" using mem_wf_dma_taken[OF wf t(2)] by simp
    have d1: "udev_heap (uc_mem ?s) udev = Some d" using assms(3) by simp
    have free: "hub_step s (s2\<lparr>uc_mem := snd (usbh_free_mem ?p 16 (uc_mem s2))\<rparr>)" if "hub_step ?s s2" for s2
      using buffer_bracket[OF wf t(2) _ units_for_buffers[symmetric]] that unfolding hub_step_def by simp
    have a: "memC (usbh_alloc_mem 16) s = Some (Inr (?p, ?s))" using t(1) by (simp add: memC_def)
    have x: "run_ok (usbh_ctrl_xfer (he_usb H) udev (REQ_TYPE_IN OR REQ_TYPE_CLASS_DEV OR recipient)
       USB_REQ_GET_STATUS 0 (word_of_int port) 4 ?p 500) (\<lambda>(ret, n) s'. hub_step ?s s' \<and> (refusing (he_usb H) \<longrightarrow> ret < 0)) ?s"
      by (rule hub_ctrl_xfer[OF assms(1) _ wf1 d1 assms(4)]) simp
    have al: "run_ok (memC (usbh_alloc_mem 16)) Q s \<longleftrightarrow> Q ?p ?s" for Q using a by (simp add: run_ok_def)
    show ?thesis unfolding get_status_def run_ok_bind al
      by (rule run_ok_mono[OF x]) (use p free in \<open>auto split: prod.splits\<close>)
  next
    case full
    then show ?thesis using k0 wf by (auto simp: units_for_buffers free_run_def mem_wf_def)
  qed
qed

lemma get_port_status_ok:
  assumes "hub_xfers H" "hub_ready h s"
  shows "run_ok (get_port_status H h port) (\<lambda>(ret, st, ch) s'. hub_step s s' \<and> (refusing (he_usb H) \<longrightarrow> ret < 0)) s"
    "run_ok (get_hub_status H h) (\<lambda>(ret, st, ch) s'. hub_step s s' \<and> (refusing (he_usb H) \<longrightarrow> ret < 0)) s"
proof -
  obtain udev d where u: "hub_udev h s = Some (Inr (udev, s))" "udev_heap (uc_mem s) udev = Some d" "ud_hc_driver d \<noteq> 0"
    by (rule hub_udev_run[OF assms(2)])
  have up: "run_ok (hub_udev h) Q s \<longleftrightarrow> Q udev s" for Q using u(1) by (simp add: run_ok_def)
  show "run_ok (get_port_status H h port) (\<lambda>(ret, st, ch) s'. hub_step s s' \<and> (refusing (he_usb H) \<longrightarrow> ret < 0)) s"
    "run_ok (get_hub_status H h) (\<lambda>(ret, st, ch) s'. hub_step s s' \<and> (refusing (he_usb H) \<longrightarrow> ret < 0)) s"
    unfolding get_port_status_def get_hub_status_def run_ok_bind up by (rule get_status_ok[OF assms u(2,3)])+
qed

section \<open>Devices below a hub\<close>

definition below :: "(u64 \<rightharpoonup> UDEV_T) \<Rightarrow> u64 \<Rightarrow> int \<Rightarrow> u64 \<Rightarrow> bool" where
  "below u hub port p \<longleftrightarrow> map_option (\<lambda>d. (ud_parent d, uint (ud_port_num d))) (u p) = Some (hub, port)"

lemma find_child_chain:
  assumes "udev_chain (udev_heap (uc_mem s)) p ps" "\<forall>q \<in> set ps. \<not> is_null q"
  shows "find_child hub port p s = Some (Inr ((case filter (below (udev_heap (uc_mem s)) hub port) ps of [] \<Rightarrow> 0 | q # _ \<Rightarrow> q), s))"
  using assms
proof (induction ps arbitrary: p)
  case Nil
  then show ?case by (subst find_child.simps) (simp add: is_null_def addr_s_def)
next
  case (Cons q ps)
  then obtain d where d: "udev_heap (uc_mem s) q = Some d" "p = q" "\<not> is_null q" "udev_chain (udev_heap (uc_mem s)) (ud_next d) ps"
    by (auto split: option.splits)
  have "below (udev_heap (uc_mem s)) hub port q \<longleftrightarrow> ud_parent d = hub \<and> uint (ud_port_num d) = port"
    using d(1) by (simp add: below_def)
  then show ?case using Cons.IH[OF d(4)] Cons.prems(2) d(1-3) by (subst find_child.simps) simp
qed

end
