(* ===== verification/Hub_Props.thy ===== *)
theory Hub_Props
  imports Hub_Facts Usb_Core_Props
begin

text \<open>
  The properties of the hub driver: removal of a device below a port, a hub whose requests fail, and the use of
  a variable without a value.
\<close>

section \<open>Removal of a device below a port\<close>

lemma filter_single: "distinct ps \<Longrightarrow> x \<in> set ps \<Longrightarrow> filter (\<lambda>q. q = x) ps = [x]"
  by (induction ps) (auto simp: filter_empty_conv)

lemma find_below:
  assumes "udev_chain (udev_heap (uc_mem s)) (g_udev_list (uc_mem s)) ps" "\<forall>q \<in> set ps. \<not> is_null q"
    "h < length (g_hub_dev (uc_world s))" "\<not> is_null (hb_iface (g_hub_dev (uc_world s) ! h))"
    "\<forall>j < h. is_null (hb_iface (g_hub_dev (uc_world s) ! j)) \<or> hb_pos_id (g_hub_dev (uc_world s) ! j) \<noteq> hb_pos_id (g_hub_dev (uc_world s) ! h)"
  shows "usbh_find_device H (hb_pos_id (g_hub_dev (uc_world s) ! h)) port s =
    Some (Inr ((case filter (below (udev_heap (uc_mem s)) (hub_addr H h) port) ps of [] \<Rightarrow> 0 | q # _ \<Rightarrow> q), s))"
proof -
  let ?b = "g_hub_dev (uc_world s) ! h"
  have "first_hub (\<lambda>b. \<not> is_null (hb_iface b) \<and> hb_pos_id b = hb_pos_id ?b) (g_hub_dev (uc_world s)) 0 = Some (0 + h)"
    by (rule first_hub_Some) (use assms(3-5) in auto)
  then show ?thesis using find_child_chain[OF assms(1,2)] by (simp add: usbh_find_device_def comp_simps)
qed


text \<open>
  The hub of the witnesses has the device of \<open>attached_core\<close> below its second port. A clock, the rest of the
  world, ticks with every poll.
\<close>

definition hub_tick :: "nat hub_world ucore \<Rightarrow> nat hub_world ucore" where
  "hub_tick s = s\<lparr>uc_world := (uc_world s)\<lparr>hub_rest := hub_rest (uc_world s) + 1\<rparr>\<rparr>"

definition hub_drv :: "(u64 \<Rightarrow> nat hub_world ucore \<Rightarrow> int \<times> nat hub_world ucore) \<Rightarrow> nat hub_env" where
  "hub_drv ctrl = \<lparr>he_usb = base_env ctrl (\<lambda>utr s. (- 1, s)) hub_tick (\<lambda>s. hub_rest (uc_world s)),
     he_g_hub_dev = 0x90000, he_do_port_reset = 0xA000, he_hub_status_irq = 0xB000, he_rthub_polling = (\<lambda>i s. (0, s))\<rparr>"

lemma hub_drv_sel [simp]:
  "he_usb (hub_drv ctrl) = base_env ctrl (\<lambda>utr s. (- 1, s)) hub_tick (\<lambda>s. hub_rest (uc_world s))"
  "hub_addr (hub_drv ctrl) 0 = 0x90000"
  by (simp_all add: hub_drv_def hub_addr_def)

definition hub_entry :: "u16 \<Rightarrow> HUB_DEV_T" where
  "hub_entry bits = HUB_zero\<lparr>hb_iface := dma_block boot_mem 1, hb_utr := 0xC000, hb_sc_bitmap := bits, hb_bNbrPorts := 4, hb_pos_id := [0x31]\<rparr>"

definition hub_state :: "u16 \<Rightarrow> nat hub_world ucore" where
  "hub_state bits = attached_core 0x90000 2 \<lparr>g_hub_dev = hub_entry bits # replicate 7 HUB_zero, hub_polling_mutex = 0, hub_rest = 0\<rparr>"


section \<open>A hub whose requests fail\<close>

text \<open>A control transfer that is refused does not touch the world.\<close>

lemma ctrl_xfer_refused_world:
  assumes "refusing E" "\<And>hc utr s. uc_world (snd (ue_ctrl_xfer E hc utr s)) = uc_world s"
    "usbh_ctrl_xfer E udev t r v i l buff timeout s = Some (Inr (x, s'))"
  shows "uc_world s' = uc_world s"
proof -
  have "fst (ue_ctrl_xfer E hc utr u) < 0" for hc utr u using assms(1) by (simp add: refusing_def)
  then have neg: "ue_ctrl_xfer E hc utr u = (st, u') \<Longrightarrow> st < 0 \<and> uc_world u' = uc_world u" for hc utr u st u'
    using assms(2)[of hc utr u] by (metis fst_conv snd_conv)
  show ?thesis using assms(3) neg
    unfolding usbh_ctrl_xfer_def forget_ep0_pipe_def upd_udev_def upd_utr_def hc_of_def
    by (auto simp: bindC_Inr_iff thenC_Inr_iff comp_run memC_def get_udev_def get_utr_def
        split: sum.splits prod.splits if_splits option.splits)
qed

definition refuses :: "'v hub_env \<Rightarrow> bool" where
  "refuses H \<longleftrightarrow> hub_xfers H \<and> refusing (he_usb H) \<and> (\<forall>hc utr s. uc_world (snd (ue_ctrl_xfer (he_usb H) hc utr s)) = uc_world s)"

lemma get_status_refused_world:
  assumes "refuses H" "get_status H udev recipient port s = Some (Inr (x, s'))"
  shows "uc_world s' = uc_world s"
proof -
  have ctrl: "uc_world u' = uc_world u" if "usbh_ctrl_xfer (he_usb H) udev t r v i l buff timeout u = Some (Inr (y, u'))" for t r v i l buff timeout u y u'
    by (rule ctrl_xfer_refused_world[OF _ _ that]) (use assms(1) in \<open>simp_all add: refuses_def\<close>)
  show ?thesis using assms(2) unfolding get_status_def
    by (auto simp: bindC_Inr_iff thenC_Inr_iff comp_run memC_def dest!: ctrl split: sum.splits prod.splits if_splits)
qed

lemma status_refused:
  assumes "refuses H" "hub_ready h s"
  shows "\<exists>ret x s'. get_port_status H h port s = Some (Inr ((ret, x), s')) \<and> ret < 0 \<and> hub_step s s' \<and> uc_world s' = uc_world s"
    "\<exists>ret x s'. get_hub_status H h s = Some (Inr ((ret, x), s')) \<and> ret < 0 \<and> hub_step s s' \<and> uc_world s' = uc_world s"
proof -
  have H: "hub_xfers H" "refusing (he_usb H)" using assms(1) by (simp_all add: refuses_def)
  obtain udev d where u: "hub_udev h s = Some (Inr (udev, s))" by (rule hub_udev_run[OF assms(2)])
  have eq: "get_port_status H h port s = get_status H udev REQ_TYPE_TO_OTHER port s" "get_hub_status H h s = get_status H udev REQ_TYPE_TO_DEV 0 s"
    using u by (simp_all add: get_port_status_def get_hub_status_def comp_simps)
  note w = get_status_refused_world[OF assms(1)]
  show "\<exists>ret x s'. get_port_status H h port s = Some (Inr ((ret, x), s')) \<and> ret < 0 \<and> hub_step s s' \<and> uc_world s' = uc_world s"
    using get_port_status_ok(1)[OF H(1) assms(2), of port] H(2) w[of udev REQ_TYPE_TO_OTHER port s] unfolding run_ok_def eq by fast
  show "\<exists>ret x s'. get_hub_status H h s = Some (Inr ((ret, x), s')) \<and> ret < 0 \<and> hub_step s s' \<and> uc_world s' = uc_world s"
    using get_port_status_ok(2)[OF H(1) assms(2)] H(2) w[of udev REQ_TYPE_TO_DEV 0 s] unfolding run_ok_def eq by fast
qed

text \<open>The loop over the ports ends at the first port with a change.\<close>

lemma poll_ports_refused:
  assumes "refuses H" "hub_ready h s" "b = g_hub_dev (uc_world s) ! h" "unat (hb_bNbrPorts b) < 32"
    "255 < port + n" "port \<le> unat (hb_bNbrPorts b)" "ucast (hb_sc_bitmap b) AND push_bit port (1 :: u32) \<noteq> 0"
  shows "\<exists>r s'. poll_ports H h n ret s = Some (Inr (Some r, s')) \<and> r < 0 \<and> hub_step s s' \<and> uc_world s' = uc_world s"
  using assms(5)
proof (induction n arbitrary: ret)
  case (Suc n)
  have h: "get_hub h s = Some (Inr (b, s))" using assms(2,3) by (simp add: hub_ready_def comp_simps)
  have le: "\<not> unat (hb_bNbrPorts b) < 255 - n" "\<not> 32 \<le> 255 - n" using Suc.prems assms(4,6) by simp_all
  show ?case
  proof (cases "ucast (hb_sc_bitmap b) AND push_bit (255 - n) (1 :: u32) \<noteq> 0")
    case True
    obtain r x s' where s': "get_port_status H h (int (255 - n)) s = Some (Inr ((r, x), s'))" "r < 0" "hub_step s s'" "uc_world s' = uc_world s"
      using status_refused(1)[OF assms(1,2)] by blast
    then have "port_status_change H h (int (255 - n)) s = Some (Inr (r, s'))"
      by (cases x) (simp add: port_status_change_def comp_simps)
    then show ?thesis using h le True s'(2-4) by (simp add: comp_simps Let_def)
  next
    case False
    then have "port \<noteq> 255 - n" using assms(7) by metis
    then have "255 < port + n" using Suc.prems by simp
    from Suc.IH[OF this, of ret] show ?thesis using h le False by (simp add: comp_simps Let_def)
  qed
qed (use assms(4,6) in simp)

lemma poll_hub_refused:
  assumes "refuses H" "hub_ready h s" "b = g_hub_dev (uc_world s) ! h" "unat (hb_bNbrPorts b) < 32" "1 \<le> port"
    "port \<le> unat (hb_bNbrPorts b)" "ucast (hb_sc_bitmap b) AND push_bit port (1 :: u32) \<noteq> 0"
  shows "\<exists>r s'. poll_hub H h b ret s = Some (Inr (Some r, s')) \<and> r < 0 \<and> quiet s s' \<and>
    uc_world s' = (uc_world s)\<lparr>g_hub_dev := (g_hub_dev (uc_world s))[h := b\<lparr>hb_sc_bitmap := 0\<rparr>]\<rparr>"
proof -
  have "\<exists>x s1. (if hb_sc_bitmap b AND 1 \<noteq> 0 then hub_status_change H h else retC 0) s = Some (Inr (x, s1)) \<and>
      hub_step s s1 \<and> uc_world s1 = uc_world s"
    using status_refused(2)[OF assms(1,2)] by (auto simp: hub_status_change_def comp_simps hub.refl)
  then obtain x s1 where s1: "(if hb_sc_bitmap b AND 1 \<noteq> 0 then hub_status_change H h else retC 0) s = Some (Inr (x, s1))"
    "hub_step s s1" "uc_world s1 = uc_world s" by blast
  have "\<exists>r s'. poll_ports H h 255 ret s1 = Some (Inr (Some r, s')) \<and> r < 0 \<and> hub_step s1 s' \<and> uc_world s' = uc_world s1"
    by (rule poll_ports_refused[OF assms(1) hub_ready_step[OF assms(2) s1(2)], of b])
       (use assms(3-7) s1(3) in auto)
  then obtain r s2 where s2: "poll_ports H h 255 ret s1 = Some (Inr (Some r, s2))" "r < 0" "hub_step s1 s2" "uc_world s2 = uc_world s1"
    by blast
  have l: "h < length (g_hub_dev (uc_world s2))" using assms(2) s1(3) s2(4) by (simp add: hub_ready_def)
  let ?s = "s2\<lparr>uc_world := (uc_world s)\<lparr>g_hub_dev := (g_hub_dev (uc_world s))[h := b\<lparr>hb_sc_bitmap := 0\<rparr>]\<rparr>\<rparr>"
  have "poll_hub H h b ret s = Some (Inr (Some r, ?s))"
    using s1(1,3) s2(1,2,4) l assms(3) by (simp add: poll_hub_def comp_simps)
  moreover have "quiet s ?s" using hub.trans[OF s1(2) s2(3)] by (simp add: hub_step_def quiet_def)
  ultimately show ?thesis using s2(2) by auto
qed

definition idle_hub :: "HUB_DEV_T \<Rightarrow> bool" where
  "idle_hub b \<longleftrightarrow> is_null (hb_iface b) \<or> hb_sc_bitmap b = 0"

lemma poll_hubs_skip:
  assumes "i < length (g_hub_dev (uc_world s))" "idle_hub (g_hub_dev (uc_world s) ! i)"
  shows "poll_hubs H (Suc n) i ret c s = poll_hubs H n (Suc i) ret c s"
  using assms(2) unfolding idle_hub_def by (elim disjE) (simp_all add: comp_simps assms(1))

lemma poll_hubs_idle:
  "i + n \<le> length (g_hub_dev (uc_world s)) \<Longrightarrow> (\<And>j. i \<le> j \<Longrightarrow> j < i + n \<Longrightarrow> idle_hub (g_hub_dev (uc_world s) ! j)) \<Longrightarrow>
   poll_hubs H n i ret c s = Some (Inr (c, s))"
proof (induction n arbitrary: i)
  case (Suc n)
  have "idle_hub (g_hub_dev (uc_world s) ! i)" using Suc.prems(2)[of i] by simp
  then show ?case using Suc.IH[of "Suc i"] Suc.prems by (simp add: poll_hubs_skip del: poll_hubs.simps)
qed (simp add: comp_run)

lemma poll_hubs_one:
  assumes "i \<le> h" "h < i + n" "i + n \<le> length (g_hub_dev (uc_world s))" "\<not> idle_hub (g_hub_dev (uc_world s) ! h)"
    "\<And>j. i \<le> j \<Longrightarrow> j < h \<Longrightarrow> idle_hub (g_hub_dev (uc_world s) ! j)"
  shows "poll_hubs H n i ret c s = bindC (poll_hub H h (g_hub_dev (uc_world s) ! h) ret) (\<lambda>ret. poll_hubs H (i + n - Suc h) (Suc h) ret 1) s"
  using assms
proof (induction n arbitrary: i c)
  case (Suc n)
  have g: "get_hub i s = Some (Inr (g_hub_dev (uc_world s) ! i, s))" using Suc.prems(1-3) by (simp add: comp_simps)
  show ?case
  proof (cases "i = h")
    case True
    then show ?thesis using g Suc.prems(4) by (simp add: comp_simps idle_hub_def)
  next
    case False
    then have "idle_hub (g_hub_dev (uc_world s) ! i)" using Suc.prems(1,5) by simp
    moreover have "poll_hubs H n (Suc i) ret c s =
        bindC (poll_hub H h (g_hub_dev (uc_world s) ! h) ret) (\<lambda>ret. poll_hubs H (Suc i + n - Suc h) (Suc h) ret 1) s"
      by (rule Suc.IH) (use Suc.prems False in auto)
    ultimately show ?thesis using Suc.prems(1-3) by (simp add: poll_hubs_skip del: poll_hubs.simps)
  qed
qed simp

lemma hub_polling_idle:
  assumes "hub_polling_mutex (uc_world s) = 0" "length (g_hub_dev (uc_world s)) = MAX_HUB_DEVICE"
    "\<And>j. j < MAX_HUB_DEVICE \<Longrightarrow> idle_hub (g_hub_dev (uc_world s) ! j)"
  shows "hub_polling H s = Some (Inr (0, s))"
  using assms poll_hubs_idle[of 0 MAX_HUB_DEVICE "s\<lparr>uc_world := (uc_world s)\<lparr>hub_polling_mutex := 1\<rparr>\<rparr>" H None 0]
  by (simp add: hub_polling_def set_mutex_def comp_simps)

text \<open>
  C12. One failed request silences a hub for ever: when a port of a hub reports a change while the controller refuses control
  transfers, the polling of the hubs forgets the change, and does not submit the interrupt
  transfer of the hub again, whatever that would do: nothing but the pending change is different
  afterwards, and the next polling finds no change.
\<close>

theorem hub_polling_silences:
  assumes "refuses H" "hub_ready h s" "hub_polling_mutex (uc_world s) = 0" "length (g_hub_dev (uc_world s)) = MAX_HUB_DEVICE"
    "b = g_hub_dev (uc_world s) ! h" "\<not> is_null (hb_iface b)" "unat (hb_bNbrPorts b) < 32" "1 \<le> port" "port \<le> unat (hb_bNbrPorts b)"
    "ucast (hb_sc_bitmap b) AND push_bit port (1 :: u32) \<noteq> 0"
    "\<And>j. j < MAX_HUB_DEVICE \<Longrightarrow> j \<noteq> h \<Longrightarrow> idle_hub (g_hub_dev (uc_world s) ! j)"
  shows "\<exists>s'. hub_polling H s = Some (Inr (1, s')) \<and> quiet s s' \<and>
    uc_world s' = (uc_world s)\<lparr>g_hub_dev := (g_hub_dev (uc_world s))[h := b\<lparr>hb_sc_bitmap := 0\<rparr>]\<rparr> \<and>
    hub_polling H s' = Some (Inr (0, s'))"
proof -
  let ?s = "s\<lparr>uc_world := (uc_world s)\<lparr>hub_polling_mutex := 1\<rparr>\<rparr>"
  have h: "h < MAX_HUB_DEVICE" using assms(2,4) by (simp add: hub_ready_def)
  have st: "hub_step s ?s" by (simp add: hub_step_def hubs_kept_def quiet_def)
  have "\<exists>r s'. poll_hub H h b None ?s = Some (Inr (Some r, s')) \<and> r < 0 \<and> quiet ?s s' \<and>
      uc_world s' = (uc_world ?s)\<lparr>g_hub_dev := (g_hub_dev (uc_world ?s))[h := b\<lparr>hb_sc_bitmap := 0\<rparr>]\<rparr>"
    by (rule poll_hub_refused[OF assms(1) hub_ready_step[OF assms(2) st] _ assms(7-10)]) (use assms(5) in simp)
  then obtain r s1 where s1: "poll_hub H h b None ?s = Some (Inr (Some r, s1))" "quiet ?s s1"
    "uc_world s1 = (uc_world s)\<lparr>hub_polling_mutex := 1, g_hub_dev := (g_hub_dev (uc_world s))[h := b\<lparr>hb_sc_bitmap := 0\<rparr>]\<rparr>" by auto
  have "hb_sc_bitmap b \<noteq> 0" using assms(10) by auto
  then have act: "\<not> idle_hub b" using assms(6) by (simp add: idle_hub_def)
  have idle: "idle_hub (g_hub_dev (uc_world s1) ! j)" if "j < MAX_HUB_DEVICE" for j
    using assms(4,11) that h s1(3) by (cases "j = h") (simp_all add: idle_hub_def)
  have len1: "length (g_hub_dev (uc_world s1)) = MAX_HUB_DEVICE" using s1(3) assms(4) by simp
  have "poll_hubs H (0 + MAX_HUB_DEVICE - Suc h) (Suc h) (Some r) 1 s1 = Some (Inr (1, s1))"
    using idle h len1 by (intro poll_hubs_idle) simp_all
  moreover have "poll_hubs H MAX_HUB_DEVICE 0 None 0 ?s = bindC (poll_hub H h (g_hub_dev (uc_world ?s) ! h) None)
      (\<lambda>ret. poll_hubs H (0 + MAX_HUB_DEVICE - Suc h) (Suc h) ret 1) ?s"
    by (rule poll_hubs_one) (use assms(4,5,11) h act in auto)
  ultimately have "poll_hubs H MAX_HUB_DEVICE 0 None 0 ?s = Some (Inr (1, s1))" using s1(1) assms(5) by (simp add: comp_simps)
  then have run: "hub_polling H s = Some (Inr (1, s1\<lparr>uc_world := (uc_world s1)\<lparr>hub_polling_mutex := 0\<rparr>\<rparr>))" (is "_ = Some (Inr (1, ?t))")
    using assms(3) by (simp add: hub_polling_def set_mutex_def comp_simps)
  have w: "uc_world ?t = (uc_world s)\<lparr>g_hub_dev := (g_hub_dev (uc_world s))[h := b\<lparr>hb_sc_bitmap := 0\<rparr>]\<rparr>"
    using assms(3) by (simp add: s1(3))
  have "hub_polling H ?t = Some (Inr (0, ?t))"
    using len1 idle by (intro hub_polling_idle) simp_all
  moreover have "quiet s ?t" using s1(2) by (simp add: quiet_def)
  ultimately show ?thesis using run w by blast
qed

lemma hub_drv_refuses: "refuses (hub_drv (\<lambda>utr s. (- 1, s)))"
proof -
  have "clock_runs (he_usb (hub_drv (\<lambda>utr s. (- 1, s))))" unfolding hub_drv_sel by (rule base_clock) (simp add: hub_tick_def)
  then show ?thesis unfolding refuses_def hub_xfers_def
    by (simp add: xfer_env_def xfer_keeps_def refusing_def quiet.refl hubs.world_refl hub_tick_def hubs_kept_def quiet_def)
qed

lemma hub_state_facts:
  "hub_ready 0 (hub_state bits)" "g_hub_dev (uc_world (hub_state bits)) = hub_entry bits # replicate 7 HUB_zero"
  "hub_polling_mutex (uc_world (hub_state bits)) = 0" "\<not> is_null (hb_iface (hub_entry bits))"
  "hb_sc_bitmap (hub_entry bits) = bits" "hb_bNbrPorts (hub_entry bits) = 4"
proof -
  let ?s = "hub_state bits"
  have "connected {0} UNIV idle_dev [idle_dev] [dma_block boot_mem 1] (attached_udev 0x90000 2) ?s"
    unfolding hub_state_def by (rule attached_connected[OF subset_UNIV])
  then have wf: "mem_wf (uc_mem ?s)" unfolding connected_def by (elim conjE)
  have "free_run (dma_unit_used (uc_mem ?s)) 4 1"
    by (auto simp: hub_state_def attached_core_def free_run_def boot_mem_def usbh_memory_init_def nth_append split: if_splits)
  moreover show t: "g_hub_dev (uc_world ?s) = hub_entry bits # replicate 7 HUB_zero" by (simp add: hub_state_def attached_core_def)
  moreover have "uc_ifaces ?s (hb_iface (hub_entry bits)) = Some (iface_image idle_dev 9 0 [])"
    "udev_heap (uc_mem ?s) (if_udev (iface_image idle_dev 9 0 [])) = Some (attached_udev 0x90000 2)"
    "ud_hc_driver (attached_udev 0x90000 2) \<noteq> 0"
    by (simp_all add: hub_state_def attached_core_def hub_entry_def iface_image_def attached_udev_def idle_udev_def)
  ultimately show "hub_ready 0 ?s" using wf unfolding hub_ready_def
    by (metis length_Cons nth_Cons_0 zero_less_Suc)
  show "\<not> is_null (hb_iface (hub_entry bits))" using pool_addr_s[of 1] by (simp add: is_null_def hub_entry_def)
qed (simp_all add: hub_state_def attached_core_def hub_entry_def)

lemma hub_state_idle: "j < MAX_HUB_DEVICE \<Longrightarrow> j \<noteq> 0 \<Longrightarrow> idle_hub (g_hub_dev (uc_world (hub_state bits)) ! j)"
  by (cases j) (simp_all add: hub_state_facts(2) idle_hub_def HUB_zero_def is_null_def addr_s_def)

theorem hub_polling_silences_witness:
  "\<exists>s'. hub_polling (hub_drv (\<lambda>utr s. (- 1, s))) (hub_state 4) = Some (Inr (1, s')) \<and> g_hub_dev (uc_world s') ! 0 = hub_entry 0 \<and>
    hub_polling (hub_drv (\<lambda>utr s. (- 1, s))) s' = Some (Inr (0, s'))"
proof -
  let ?H = "hub_drv (\<lambda>utr s. (- 1, s))" and ?s = "hub_state 4"
  have "\<exists>s'. hub_polling ?H ?s = Some (Inr (1, s')) \<and> quiet ?s s' \<and>
    uc_world s' = (uc_world ?s)\<lparr>g_hub_dev := (g_hub_dev (uc_world ?s))[0 := (hub_entry 4)\<lparr>hb_sc_bitmap := 0\<rparr>]\<rparr> \<and>
    hub_polling ?H s' = Some (Inr (0, s'))"
    by (rule hub_polling_silences[OF hub_drv_refuses hub_state_facts(1,3) _ _ _ _ _ _ _ hub_state_idle, where port = 2])
       (simp_all add: hub_state_facts)
  then obtain s' where "hub_polling ?H ?s = Some (Inr (1, s'))" "hub_polling ?H s' = Some (Inr (0, s'))"
    "uc_world s' = (uc_world ?s)\<lparr>g_hub_dev := (g_hub_dev (uc_world ?s))[0 := (hub_entry 4)\<lparr>hb_sc_bitmap := 0\<rparr>]\<rparr>" by blast
  moreover from this(3) have "g_hub_dev (uc_world s') ! 0 = hub_entry 0" by (simp add: hub_state_facts(2) hub_entry_def)
  ultimately show ?thesis by blast
qed

section \<open>A variable without a value\<close>

definition table_kept :: "'v hub_world \<Rightarrow> 'v hub_world \<Rightarrow> bool" where
  "table_kept w w' \<longleftrightarrow> g_hub_dev w' = g_hub_dev w"

interpretation table: world_relation table_kept
  by unfold_locales (simp_all add: table_kept_def)

lemma hub_status_change_ok:
  assumes "hub_xfers H" "hub_ready h s"
  shows "run_ok (hub_status_change H h) (\<lambda>ret s'. hub_step s s') s"
proof -
  have clear: "run_ok (if c then clear_hub_feature H h fs else retC 0) (\<lambda>ret s'. hub_step s s') t" if "hub_step s t" for c fs t
    using feature_ok(3)[OF assms(1) hub_ready_step[OF assms(2) that], of fs] that
    by (auto elim!: run_ok_mono intro: hub.trans)
  have c2: "run_ok (bindC (if c then clear_hub_feature H h fs else retC 0) (\<lambda>ret. if ret < 0 then retC ret else retC 0)) (\<lambda>ret s'. hub_step s s') t"
    if "hub_step s t" for c fs t
    unfolding run_ok_bind by (rule run_ok_mono[OF clear[OF that]]) simp
  have c1: "run_ok (bindC (if c then clear_hub_feature H h fs else retC 0) (\<lambda>ret. if ret < 0 then retC ret else
      bindC (if c' then clear_hub_feature H h fs' else retC 0) (\<lambda>ret. if ret < 0 then retC ret else retC 0))) (\<lambda>ret s'. hub_step s s') t"
    if "hub_step s t" for c fs c' fs' t
    unfolding run_ok_bind[where s = t] by (rule run_ok_mono[OF clear[OF that]]) (use c2 in auto)
  show ?thesis unfolding hub_status_change_def run_ok_bind[where s = s]
    apply (rule run_ok_mono[OF get_port_status_ok(2)[OF assms]])
    apply clarify
    subgoal for ret st ch s' by (cases "ret < 0") (simp, simp only: if_False c1)
    done
qed

lemma keeps_hub_status_change:
  assumes "xfer_keeps (\<lambda>s s'. table_kept (uc_world s) (uc_world s')) (he_usb H)"
  shows "keeps (\<lambda>s s'. table_kept (uc_world s) (uc_world s')) (hub_status_change H h)"
  unfolding hub_status_change_def get_hub_status_def get_status_def clear_hub_feature_def hub_udev_def get_hub_def
  by (auto intro!: table.keeps_bind table.keeps_then table.keeps_ctrl_xfer_only[OF assms] table.keeps_mem table.alloc
      table.keeps_mem_do table.release split: prod.splits)

lemma poll_ports_none:
  assumes "h < length (g_hub_dev (uc_world s))" "hb_sc_bitmap (g_hub_dev (uc_world s) ! h) = 1" "unat (hb_bNbrPorts (g_hub_dev (uc_world s) ! h)) < 32"
  shows "n \<le> 255 \<Longrightarrow> poll_ports H h n ret s = Some (Inr (ret, s))"
proof (induction n)
  case (Suc n)
  have "1 AND push_bit (255 - n) (1 :: u32) = 0" if "255 - n < 32"
  proof -
    have "255 - n \<noteq> 0" using Suc.prems by simp
    then show ?thesis by (intro bit_eqI) (auto simp: bit_simps)
  qed
  then show ?case using Suc assms by (simp add: comp_simps Let_def)
qed (simp add: comp_run)

text \<open>
  When a hub reports a change of the hub itself and of no port, the polling of the hubs uses a variable that was never set:
  the behaviour of the program is undefined.
\<close>

lemma hub_polling_uninitialised:
  assumes "hub_xfers H" "xfer_keeps (\<lambda>s s'. table_kept (uc_world s) (uc_world s')) (he_usb H)" "hub_ready h s"
    "hub_polling_mutex (uc_world s) = 0" "length (g_hub_dev (uc_world s)) = MAX_HUB_DEVICE"
    "b = g_hub_dev (uc_world s) ! h" "\<not> is_null (hb_iface b)" "hb_sc_bitmap b = 1" "unat (hb_bNbrPorts b) < 32"
    "\<And>j. j < h \<Longrightarrow> idle_hub (g_hub_dev (uc_world s) ! j)"
  shows "hub_polling H s = Some (Inl Uninit_Value)"
proof -
  let ?s = "s\<lparr>uc_world := (uc_world s)\<lparr>hub_polling_mutex := 1\<rparr>\<rparr>"
  have h: "h < MAX_HUB_DEVICE" using assms(3,5) by (simp add: hub_ready_def)
  have st: "hub_step s ?s" by (simp add: hub_step_def hubs_kept_def quiet_def)
  obtain r s1 where s1: "hub_status_change H h ?s = Some (Inr (r, s1))"
    using hub_status_change_ok[OF assms(1) hub_ready_step[OF assms(3) st]] by (auto simp: run_ok_def)
  have "table_kept (uc_world ?s) (uc_world s1)" by (rule keepsD[OF keeps_hub_status_change[OF assms(2)] s1])
  then have t: "g_hub_dev (uc_world s1) = g_hub_dev (uc_world s)" by (simp add: table_kept_def)
  have "poll_ports H h 255 None s1 = Some (Inr (None, s1))" by (rule poll_ports_none) (use t h assms(5,6,8,9) in simp_all)
  then have "poll_hub H h b None ?s = Some (Inl Uninit_Value)"
    using s1 h t assms(5,8) by (simp add: poll_hub_def comp_simps)
  moreover have "poll_hubs H MAX_HUB_DEVICE 0 None 0 ?s = bindC (poll_hub H h (g_hub_dev (uc_world ?s) ! h) None)
      (\<lambda>ret. poll_hubs H (0 + MAX_HUB_DEVICE - Suc h) (Suc h) ret 1) ?s"
    by (rule poll_hubs_one) (use assms(5-8,10) h in \<open>auto simp: idle_hub_def\<close>)
  ultimately have "poll_hubs H MAX_HUB_DEVICE 0 None 0 ?s = Some (Inl Uninit_Value)" using assms(6) by (simp add: comp_simps)
  then show ?thesis using assms(4) by (simp add: hub_polling_def set_mutex_def comp_simps)
qed

end
