(* ===== verification/Msc.thy ===== *)
theory Msc
  imports Usb_Core
begin

text \<open>
  The mass storage class driver, \<^verbatim>\<open>UsbHostLib/src_msc/msc_xfer.c\<close> and
  \<^verbatim>\<open>msc_driver.c\<close>: SCSI commands over the bulk-only transport, sector access, the
  drives of the file system and the discovery of logical units.

  The driver's variables and the memory it shares with the controller are the part \<open>uc_world\<close> of
  the state of the core: the list and the objects of type \<open>MSC_T\<close>, the table of drives, the next tag,
  and the bytes behind pointers of the caller; what is left of the world belongs to the environment.
  The function \<open>f_mount\<close> of FatFs and the size of \<open>MSC_T\<close>, which contains a volume of
  FatFs, are fields of \<open>msc_env\<close>. The callback \<open>bulk_xfer_done\<close> is empty, and the members
  \<open>root\<close> and \<open>uDiskSize\<close> are not used by the code.
\<close>

section \<open>Constants and data\<close>

abbreviation USBH_ERR_NOT_SUPPORTED :: int where "USBH_ERR_NOT_SUPPORTED \<equiv> - 101"
abbreviation USBH_ERR_NOT_EXPECTED :: int where "USBH_ERR_NOT_EXPECTED \<equiv> - 104"
abbreviation USBH_ERR_STALL :: int where "USBH_ERR_STALL \<equiv> - 284"
abbreviation UMAS_ERR_IO :: int where "UMAS_ERR_IO \<equiv> - 1033"
abbreviation UMAS_ERR_CMD_STATUS :: int where "UMAS_ERR_CMD_STATUS \<equiv> - 1037"
abbreviation UMAS_ERR_IVALID_PARM :: int where "UMAS_ERR_IVALID_PARM \<equiv> - 1038"
abbreviation UMAS_ERR_DRIVE_NOT_FOUND :: int where "UMAS_ERR_DRIVE_NOT_FOUND \<equiv> - 1039"
abbreviation STA_NODISK :: int where "STA_NODISK \<equiv> 2"
abbreviation USBDRV_CNT :: nat where "USBDRV_CNT \<equiv> 5"
abbreviation MSC_CB_SIGN :: u32 where "MSC_CB_SIGN \<equiv> 0x43425355"
abbreviation TEST_UNIT_READY :: u8 where "TEST_UNIT_READY \<equiv> 0"
abbreviation REQUEST_SENSE :: u8 where "REQUEST_SENSE \<equiv> 3"
abbreviation INQUIRY :: u8 where "INQUIRY \<equiv> 0x12"
abbreviation READ_CAPACITY :: u8 where "READ_CAPACITY \<equiv> 0x25"
abbreviation READ_10 :: u8 where "READ_10 \<equiv> 0x28"
abbreviation WRITE_10 :: u8 where "WRITE_10 \<equiv> 0x2a"

record bulk_cb_wrap =
  cb_Signature :: u32
  cb_Tag :: u32
  cb_DataTransferLength :: u32
  cb_Flags :: u8
  cb_Lun :: u8
  cb_Length :: u8
  cb_CDB :: "u8 list"

record bulk_cs_wrap =
  cs_Signature :: u32
  cs_Tag :: u32
  cs_Residue :: u32
  cs_Status :: u8

text \<open>
  The endpoints are pointers into the settings of the interface: the index of the setting and of the
  endpoint, \<open>None\<close> for NULL.
\<close>

record MSC_T =
  msc_iface :: u64
  msc_uid :: u32
  ep_bulk_in :: "(nat \<times> nat) option"
  ep_bulk_out :: "(nat \<times> nat) option"
  max_lun :: u8
  lun :: u8
  cmd_blk :: bulk_cb_wrap
  cmd_status :: bulk_cs_wrap
  scsi_buff :: "u8 list"
  uTotalSectorN :: u32
  nSectorSize :: u32
  drv_no :: int
  msc_next :: u64

definition CB_zero :: bulk_cb_wrap where
  "CB_zero = \<lparr>cb_Signature = 0, cb_Tag = 0, cb_DataTransferLength = 0, cb_Flags = 0, cb_Lun = 0, cb_Length = 0,
     cb_CDB = replicate 16 0\<rparr>"

definition MSC_zero :: MSC_T where
  "MSC_zero = \<lparr>msc_iface = 0, msc_uid = 0, ep_bulk_in = None, ep_bulk_out = None, max_lun = 0, lun = 0,
     cmd_blk = CB_zero, cmd_status = \<lparr>cs_Signature = 0, cs_Tag = 0, cs_Residue = 0, cs_Status = 0\<rparr>,
     scsi_buff = replicate 36 0, uTotalSectorN = 0, nSectorSize = 0, drv_no = 0, msc_next = 0\<rparr>"

record 'v msc_world =
  g_msc_list :: u64
  msc_heap :: "u64 \<rightharpoonup> MSC_T"
  g_fat_drv_used :: "u8 list"
  msc_tag :: u32
  msc_ram :: "u64 \<Rightarrow> u8"
  msc_rest :: 'v

record 'v msc_env =
  me_usb :: "'v msc_world usb_env"
  me_f_mount :: "u64 \<Rightarrow> int \<Rightarrow> 'v msc_world ucore \<Rightarrow> 'v msc_world ucore"
  me_sizeof_MSC :: int
  me_driver :: u64
  me_bulk_xfer_done :: u64

type_synonym ('v, 'a) mscomp = "('v msc_world, 'a) comp"

definition getW :: "('v msc_world \<Rightarrow> 'a) \<Rightarrow> ('v, 'a) mscomp" where
  "getW f = getC (\<lambda>s. f (uc_world s))"

definition updW :: "('v msc_world \<Rightarrow> 'v msc_world) \<Rightarrow> ('v, unit) mscomp" where
  "updW f = execC (\<lambda>s. s\<lparr>uc_world := f (uc_world s)\<rparr>)"

definition get_msc :: "u64 \<Rightarrow> ('v, MSC_T) mscomp" where
  "get_msc p s = (case msc_heap (uc_world s) p of
     None \<Rightarrow> Some (Inl (Mem_Fault Dangling_Pointer))
   | Some m \<Rightarrow> Some (Inr (m, s)))"

definition put_msc :: "u64 \<Rightarrow> MSC_T \<Rightarrow> ('v, unit) mscomp" where
  "put_msc p m = updW (\<lambda>w. w\<lparr>msc_heap := (msc_heap w)(p \<mapsto> m)\<rparr>)"

definition upd_msc :: "u64 \<Rightarrow> (MSC_T \<Rightarrow> MSC_T) \<Rightarrow> ('v, unit) mscomp" where
  "upd_msc p f = bindC (get_msc p) (\<lambda>m. put_msc p (f m))"

text \<open>The addresses of members of \<open>MSC_T\<close> on LP64.\<close>

definition cmd_blk_addr :: "u64 \<Rightarrow> u64" where "cmd_blk_addr msc = msc + 36"
definition cmd_status_addr :: "u64 \<Rightarrow> u64" where "cmd_status_addr msc = msc + 68"
definition scsi_buff_addr :: "u64 \<Rightarrow> u64" where "scsi_buff_addr msc = msc + 84"

section \<open>Transfers\<close>

definition msc_bulk_transfer :: "'v msc_env \<Rightarrow> u64 \<Rightarrow> (nat \<times> nat) option \<Rightarrow> u64 \<Rightarrow> u32 \<Rightarrow> u32 \<Rightarrow> ('v, int) mscomp" where
  "msc_bulk_transfer M msc ep data_buff data_len timeout_ticks =
     bindC (get_msc msc) (\<lambda>m. bindC (get_iface (msc_iface m)) (\<lambda>f.
     bindC (memC (alloc_utr (if_udev f))) (\<lambda>utr.
     if utr = 0 then retC USBH_ERR_MEMORY_OUT
     else thenC (upd_utr utr (\<lambda>u. u\<lparr>
            utr_ep := (case ep of None \<Rightarrow> 0 | Some (a, i) \<Rightarrow> aif_ep_addr (msc_iface m) a i),
            utr_buff := data_buff, utr_data_len := data_len, utr_xfer_len := 0,
            utr_func := me_bulk_xfer_done M, utr_bIsTransferDone := 0\<rparr>))
     (bindC (usbh_bulk_xfer (me_usb M) utr) (\<lambda>ret.
     if ret < 0 then retC ret
     else bindC (getC (ue_ticks (me_usb M))) (\<lambda>t0.
     bindC (utr_wait (me_usb M) utr t0 timeout_ticks) (\<lambda>finished.
     if \<not> finished then
       thenC (usbh_quit_utr (me_usb M) utr) (thenC (mem_doC (free_utr utr)) (retC USBH_ERR_TIMEOUT))
     else bindC (get_utr utr) (\<lambda>u. thenC (mem_doC (free_utr utr)) (retC (utr_status u))))))))))"

text \<open>The data phase and the status phase of a command.\<close>

definition scsi_data :: "'v msc_env \<Rightarrow> u64 \<Rightarrow> u64 \<Rightarrow> u32 \<Rightarrow> bool \<Rightarrow> ('v, int) mscomp" where
  "scsi_data M msc buff data_len bIsDataIn =
     (if 0 < data_len then bindC (get_msc msc) (\<lambda>m.
        msc_bulk_transfer M msc (if bIsDataIn then ep_bulk_in m else ep_bulk_out m) buff data_len 2000)
      else retC 0)"

definition scsi_status :: "'v msc_env \<Rightarrow> u64 \<Rightarrow> u32 \<Rightarrow> ('v, int) mscomp" where
  "scsi_status M msc timeout_ticks = bindC (get_msc msc) (\<lambda>m.
     bindC (msc_bulk_transfer M msc (ep_bulk_in m) (cmd_status_addr msc) 13 timeout_ticks) (\<lambda>ret.
     if ret < 0 then retC ret
     else bindC (get_msc msc) (\<lambda>m. if cs_Status (cmd_status m) \<noteq> 0 then retC UMAS_ERR_CMD_STATUS else retC 0)))"

definition do_scsi_command :: "'v msc_env \<Rightarrow> u64 \<Rightarrow> u64 \<Rightarrow> u32 \<Rightarrow> bool \<Rightarrow> u32 \<Rightarrow> ('v, int) mscomp" where
  "do_scsi_command M msc buff data_len bIsDataIn timeout_ticks =
     bindC (getW msc_tag) (\<lambda>tag.
     thenC (updW (\<lambda>w. w\<lparr>msc_tag := tag + 1\<rparr>))
     (thenC (upd_msc msc (\<lambda>m. m\<lparr>cmd_blk := (cmd_blk m)\<lparr>cb_Signature := MSC_CB_SIGN, cb_Tag := tag,
        cb_DataTransferLength := data_len, cb_Lun := lun m\<rparr>\<rparr>))
     (bindC (get_msc msc) (\<lambda>m.
     bindC (msc_bulk_transfer M msc (ep_bulk_out m) (cmd_blk_addr msc) 31 timeout_ticks) (\<lambda>ret.
     if ret < 0 then retC ret
     else bindC (scsi_data M msc buff data_len bIsDataIn) (\<lambda>ret.
     if ret < 0 then retC ret
     else scsi_status M msc timeout_ticks))))))"

definition run_scsi_command :: "'v msc_env \<Rightarrow> u64 \<Rightarrow> u64 \<Rightarrow> u32 \<Rightarrow> bool \<Rightarrow> u32 \<Rightarrow> ('v, int) mscomp" where
  "run_scsi_command M msc buff data_len bIsDataIn timeout_ticks = do_scsi_command M msc buff data_len bIsDataIn timeout_ticks"

section \<open>Drives and the list of disks\<close>

definition fatfs_drive_int :: "('v, unit) mscomp" where
  "fatfs_drive_int = updW (\<lambda>w. w\<lparr>g_fat_drv_used := replicate USBDRV_CNT 0\<rparr>)"

fun first_zero :: "u8 list \<Rightarrow> nat \<Rightarrow> nat option" where
  "first_zero [] i = None"
| "first_zero (u # us) i = (if u = 0 then Some i else first_zero us (Suc i))"

definition fatfs_drive_alloc :: "('v, int) mscomp" where
  "fatfs_drive_alloc = bindC (getW g_fat_drv_used) (\<lambda>us. case first_zero us 0 of
     None \<Rightarrow> retC USBH_ERR_MEMORY_OUT
   | Some i \<Rightarrow> thenC (updW (\<lambda>w. w\<lparr>g_fat_drv_used := us[i := 1]\<rparr>)) (retC (int i)))"

definition fatfs_drive_free :: "'v msc_env \<Rightarrow> int \<Rightarrow> ('v, unit) mscomp" where
  "fatfs_drive_free M drv = thenC (execC (me_f_mount M 0 drv))
     (bindC (getW g_fat_drv_used) (\<lambda>us.
       if 0 \<le> drv \<and> drv < int (length us) then updW (\<lambda>w. w\<lparr>g_fat_drv_used := us[nat drv := 0]\<rparr>)
       else failC (Mem_Fault Index_Out_Of_Range)))"

text \<open>The loop over the list, from \<open>p\<close> on.\<close>

partial_function (option) find_msc ::
  "int \<Rightarrow> u64 \<Rightarrow> 'v msc_world ucore \<Rightarrow> (core_fault + u64 \<times> 'v msc_world ucore) option" where
  "find_msc drv p s =
     (if p = 0 then Some (Inr (0, s))
      else case msc_heap (uc_world s) p of
        None \<Rightarrow> Some (Inl (Mem_Fault Dangling_Pointer))
      | Some m \<Rightarrow> if drv_no m = drv then Some (Inr (p, s)) else find_msc drv (msc_next m) s)"

definition find_msc_by_drive :: "int \<Rightarrow> ('v, u64) mscomp" where
  "find_msc_by_drive drv = bindC (getW g_msc_list) (find_msc drv)"

definition msc_list_add :: "u64 \<Rightarrow> ('v, unit) mscomp" where
  "msc_list_add msc = bindC (getW g_msc_list) (\<lambda>l.
     thenC (upd_msc msc (\<lambda>m. m\<lparr>msc_next := l\<rparr>)) (updW (\<lambda>w. w\<lparr>g_msc_list := msc\<rparr>)))"

text \<open>The loop that looks for the predecessor of \<open>msc\<close>; a null \<open>p\<close> faults.\<close>

partial_function (option) msc_pred ::
  "u64 \<Rightarrow> u64 \<Rightarrow> 'v msc_world ucore \<Rightarrow> (core_fault + u64 \<times> 'v msc_world ucore) option" where
  "msc_pred msc p s = (case msc_heap (uc_world s) p of
     None \<Rightarrow> Some (Inl (Mem_Fault Dangling_Pointer))
   | Some m \<Rightarrow> if msc_next m \<noteq> msc \<and> msc_next m \<noteq> 0 then msc_pred msc (msc_next m) s else Some (Inr (p, s)))"

definition msc_list_remove :: "u64 \<Rightarrow> ('v, unit) mscomp" where
  "msc_list_remove msc = bindC (get_msc msc) (\<lambda>m. bindC (getW g_msc_list) (\<lambda>l.
     if l = msc then updW (\<lambda>w. w\<lparr>g_msc_list := msc_next m\<rparr>)
     else bindC (msc_pred msc l) (\<lambda>p. bindC (get_msc p) (\<lambda>pm.
       if msc_next pm = msc then put_msc p (pm\<lparr>msc_next := msc_next m\<rparr>) else retC ()))))"

section \<open>SCSI commands\<close>

text \<open>\<open>memset(cmd_blk, 0, sizeof(*cmd_blk))\<close> and the stores to \<open>Flags\<close>, \<open>Length\<close> and \<open>CDB\<close>.\<close>

definition command :: "u8 \<Rightarrow> u8 \<Rightarrow> u8 list \<Rightarrow> bulk_cb_wrap" where
  "command flags len cdb = CB_zero\<lparr>cb_Flags := flags, cb_Length := len, cb_CDB := cdb @ replicate (16 - length cdb) 0\<rparr>"

definition set_command :: "u64 \<Rightarrow> (MSC_T \<Rightarrow> bulk_cb_wrap) \<Rightarrow> ('v, unit) mscomp" where
  "set_command msc c = upd_msc msc (\<lambda>m. m\<lparr>cmd_blk := c m\<rparr>)"

definition ep_deref :: "IFACE_T \<Rightarrow> (nat \<times> nat) option \<Rightarrow> ('v, EP_INFO_T) mscomp" where
  "ep_deref f ep = (case ep of
     None \<Rightarrow> failC Null_Pointer
   | Some (a, i) \<Rightarrow> bindC (nthC (if_alt f) a) (\<lambda>alt. nthC (alt_ep alt) i))"

definition msc_reset :: "'v msc_env \<Rightarrow> u64 \<Rightarrow> ('v, unit) mscomp" where
  "msc_reset M msc = bindC (get_msc msc) (\<lambda>m. bindC (get_iface (msc_iface m)) (\<lambda>f.
     thenC (usbh_ctrl_xfer (me_usb M) (if_udev f) (REQ_TYPE_OUT OR REQ_TYPE_CLASS_DEV OR REQ_TYPE_TO_IFACE) 0xFF 0
       (ucast (if_if_num f)) 0 0 1000)
     (bindC (ep_deref f (ep_bulk_out m)) (\<lambda>epo.
     thenC (usbh_clear_halt (me_usb M) (if_udev f) (ucast (ep_bEndpointAddress epo)))
     (bindC (ep_deref f (ep_bulk_in m)) (\<lambda>epi.
     thenC (usbh_clear_halt (me_usb M) (if_udev f) (ucast (ep_bEndpointAddress epi))) (retC ())))))))"

definition reset_on_stall :: "'v msc_env \<Rightarrow> u64 \<Rightarrow> int \<Rightarrow> ('v, unit) mscomp" where
  "reset_on_stall M msc ret = (if ret = USBH_ERR_STALL then msc_reset M msc else retC ())"

definition get_max_lun :: "'v msc_env \<Rightarrow> u64 \<Rightarrow> ('v, unit) mscomp" where
  "get_max_lun M msc = bindC (get_msc msc) (\<lambda>m. bindC (get_iface (msc_iface m)) (\<lambda>f.
     thenC (upd_msc msc (\<lambda>m. m\<lparr>max_lun := 0\<rparr>))
     (bindC (memC (usbh_alloc_mem 8)) (\<lambda>buff.
     if buff = 0 then retC ()
     else bindC (usbh_ctrl_xfer (me_usb M) (if_udev f) (REQ_TYPE_IN OR REQ_TYPE_CLASS_DEV OR REQ_TYPE_TO_IFACE) 0xFE 0 0 1 buff 2000)
       (\<lambda>(ret, read_len).
       if ret < 0 then
         thenC (upd_msc msc (\<lambda>m. m\<lparr>max_lun := 0\<rparr>))
         (thenC (if ret = USBH_ERR_STALL then usbh_clear_halt (me_usb M) (if_udev f) 0 else retC 0)
         (mem_doC (\<lambda>x. snd (usbh_free_mem buff 8 x))))
       else bindC (getC (\<lambda>s. cfd_view (uc_mem s) buff 0)) (\<lambda>b.
         thenC (upd_msc msc (\<lambda>m. m\<lparr>max_lun := b\<rparr>)) (mem_doC (\<lambda>x. snd (usbh_free_mem buff 8 x)))))))))"

definition msc_inquiry :: "'v msc_env \<Rightarrow> u64 \<Rightarrow> ('v, int) mscomp" where
  "msc_inquiry M msc =
     thenC (set_command msc (\<lambda>m. command 0x80 6 [INQUIRY, push_bit 5 (lun m), 0, 0, 36]))
     (run_scsi_command M msc (scsi_buff_addr msc) 36 True 1000)"

definition msc_request_sense :: "'v msc_env \<Rightarrow> u64 \<Rightarrow> ('v, int) mscomp" where
  "msc_request_sense M msc =
     thenC (set_command msc (\<lambda>m. command 0x80 6 [REQUEST_SENSE, push_bit 5 (lun m), 0, 0, 18]))
     (bindC (run_scsi_command M msc (scsi_buff_addr msc) 18 True 1000) (\<lambda>ret.
     if ret < 0 then thenC (reset_on_stall M msc ret) (retC ret)
     else bindC (get_msc msc) (\<lambda>m. bindC (nthC (scsi_buff m) 2) (\<lambda>b. if b \<noteq> 6 then retC (- 1) else retC ret))))"

definition msc_test_unit_ready :: "'v msc_env \<Rightarrow> u64 \<Rightarrow> ('v, int) mscomp" where
  "msc_test_unit_ready M msc =
     thenC (set_command msc (\<lambda>m. command 0x80 6 [TEST_UNIT_READY, push_bit 5 (lun m)]))
     (bindC (run_scsi_command M msc (scsi_buff_addr msc) 0 True 1000) (\<lambda>ret.
     if ret < 0 then thenC (reset_on_stall M msc ret) (retC ret) else retC ret))"

section \<open>Sectors\<close>

text \<open>
  The command descriptor block of \<open>READ(10)\<close> and \<open>WRITE(10)\<close>. The shifts of the \<open>int\<close>
  \<open>sec_cnt\<close> are arithmetic, and \<open>sec_cnt * 512\<close> is passed on as a \<open>uint32_t\<close>.
\<close>

definition rw10_cdb :: "u8 \<Rightarrow> u8 \<Rightarrow> u32 \<Rightarrow> int \<Rightarrow> u8 list" where
  "rw10_cdb opcode l sec_no sec_cnt = [opcode, push_bit 5 l, ucast (drop_bit 24 sec_no), ucast (drop_bit 16 sec_no),
     ucast (drop_bit 8 sec_no), ucast sec_no, 0, word_of_int (sec_cnt div 256), word_of_int sec_cnt]"

definition usbh_umas_read :: "'v msc_env \<Rightarrow> int \<Rightarrow> u32 \<Rightarrow> int \<Rightarrow> u64 \<Rightarrow> ('v, int) mscomp" where
  "usbh_umas_read M drv sec_no sec_cnt buff = bindC (find_msc_by_drive drv) (\<lambda>msc.
     if msc = 0 then retC UMAS_ERR_DRIVE_NOT_FOUND
     else thenC (set_command msc (\<lambda>m. command 0x80 10 (rw10_cdb READ_10 (lun m) sec_no sec_cnt)))
     (bindC (run_scsi_command M msc buff (word_of_int (sec_cnt * 512)) True 2000) (\<lambda>ret.
     if ret \<noteq> 0 then retC UMAS_ERR_IO else retC 0)))"

definition usbh_umas_write :: "'v msc_env \<Rightarrow> int \<Rightarrow> u32 \<Rightarrow> int \<Rightarrow> u64 \<Rightarrow> ('v, int) mscomp" where
  "usbh_umas_write M drv sec_no sec_cnt buff = bindC (find_msc_by_drive drv) (\<lambda>msc.
     if msc = 0 then retC UMAS_ERR_DRIVE_NOT_FOUND
     else thenC (set_command msc (\<lambda>m. command 0 10 (rw10_cdb WRITE_10 (lun m) sec_no sec_cnt)))
     (bindC (run_scsi_command M msc buff (word_of_int (sec_cnt * 512)) False 2000) (\<lambda>ret.
     if ret < 0 then retC UMAS_ERR_IO else retC 0)))"

text \<open>\<open>*(uint32_t *)buff = v\<close>, little endian.\<close>

definition put_u32 :: "u64 \<Rightarrow> u32 \<Rightarrow> ('v, unit) mscomp" where
  "put_u32 p v = updW (\<lambda>w. w\<lparr>msc_ram := (msc_ram w)(p := ucast v, p + 1 := ucast (drop_bit 8 v),
     p + 2 := ucast (drop_bit 16 v), p + 3 := ucast (drop_bit 24 v))\<rparr>)"

definition usbh_umas_ioctl :: "int \<Rightarrow> int \<Rightarrow> u64 \<Rightarrow> ('v, int) mscomp" where
  "usbh_umas_ioctl drv cmd buff = bindC (find_msc_by_drive drv) (\<lambda>msc.
     if msc = 0 then retC UMAS_ERR_DRIVE_NOT_FOUND
     else bindC (get_msc msc) (\<lambda>m.
       if cmd = 0 then retC 0
       else if cmd = 1 then thenC (put_u32 buff (uTotalSectorN m)) (retC 0)
       else if cmd = 2 \<or> cmd = 3 then thenC (put_u32 buff (nSectorSize m)) (retC 0)
       else retC UMAS_ERR_IVALID_PARM))"

definition usbh_umas_disk_status :: "int \<Rightarrow> ('v, int) mscomp" where
  "usbh_umas_disk_status drv = bindC (find_msc_by_drive drv) (\<lambda>msc. retC (if msc = 0 then STA_NODISK else 0))"

definition usbh_umas_reset_disk :: "'v msc_env \<Rightarrow> int \<Rightarrow> ('v, int) mscomp" where
  "usbh_umas_reset_disk M drv = bindC (find_msc_by_drive drv) (\<lambda>msc.
     if msc = 0 then retC UMAS_ERR_DRIVE_NOT_FOUND
     else bindC (get_msc msc) (\<lambda>m. bindC (get_iface (msc_iface m)) (\<lambda>f.
       thenC (usbh_reset_device (me_usb M) (if_udev f)) (retC 0))))"

section \<open>Discovery\<close>

text \<open>The tries to find a medium in a logical unit: whether \<open>disk_found\<close> is reached.\<close>

fun disk_tries :: "'v msc_env \<Rightarrow> u64 \<Rightarrow> nat \<Rightarrow> ('v, bool) mscomp" where
  "disk_tries M msc 0 = retC False"
| "disk_tries M msc (Suc n) =
     bindC (msc_inquiry M msc) (\<lambda>r1. thenC (reset_on_stall M msc r1)
     (bindC (msc_inquiry M msc) (\<lambda>r2. thenC (reset_on_stall M msc r2)
     (bindC (msc_test_unit_ready M msc) (\<lambda>r3. if r3 = 0 then retC True
     else bindC (msc_request_sense M msc) (\<lambda>r4. if r4 = 0 then retC True
     else thenC (execC (ue_delay_us (me_usb M) 100000)) (disk_tries M msc n)))))))"

text \<open>The tries to read the capacity: whether one succeeds, and \<open>ret\<close>.\<close>

fun capacity_tries :: "'v msc_env \<Rightarrow> u64 \<Rightarrow> u8 \<Rightarrow> nat \<Rightarrow> int \<Rightarrow> ('v, bool \<times> int) mscomp" where
  "capacity_tries M msc l 0 ret = retC (False, ret)"
| "capacity_tries M msc l (Suc n) ret =
     thenC (set_command msc (\<lambda>m. command 0x80 10 [READ_CAPACITY, push_bit 5 l]))
     (bindC (run_scsi_command M msc (scsi_buff_addr msc) 8 True 1000) (\<lambda>ret'.
     if ret' < 0 then thenC (reset_on_stall M msc ret') (capacity_tries M msc l n ret')
     else retC (True, ret')))"

definition be32 :: "u8 list \<Rightarrow> nat \<Rightarrow> ('v, u32) mscomp" where
  "be32 bs i = bindC (nthC bs i) (\<lambda>a. bindC (nthC bs (i + 1)) (\<lambda>b. bindC (nthC bs (i + 2)) (\<lambda>c. bindC (nthC bs (i + 3)) (\<lambda>d.
     retC (push_bit 24 (ucast a) OR push_bit 16 (ucast b) OR push_bit 8 (ucast c) OR ucast d)))))"

definition free_msc :: "'v msc_env \<Rightarrow> u64 \<Rightarrow> ('v, unit) mscomp" where
  "free_msc M p = thenC (mem_doC (\<lambda>x. snd (usbh_free_mem p (me_sizeof_MSC M) x)))
     (updW (\<lambda>w. w\<lparr>msc_heap := (msc_heap w)(p := None)\<rparr>))"

text \<open>
  What is done for a unit with a medium: it becomes a drive, and a copy of \<open>msc\<close> is made for the next
  unit. The result is \<open>None\<close> when the loop is left for want of a drive, otherwise the copy, which is
  NULL when the loop is left for want of memory.
\<close>

definition add_disk :: "'v msc_env \<Rightarrow> u64 \<Rightarrow> u64 \<Rightarrow> ('v, u64 option) mscomp" where
  "add_disk M msc try_msc =
     bindC (get_msc try_msc) (\<lambda>t. bindC (be32 (scsi_buff t) 0) (\<lambda>n. bindC (be32 (scsi_buff t) 4) (\<lambda>sz.
     thenC (put_msc try_msc (t\<lparr>uTotalSectorN := n, nSectorSize := sz\<rparr>))
     (bindC fatfs_drive_alloc (\<lambda>drv.
     thenC (upd_msc try_msc (\<lambda>t. t\<lparr>drv_no := drv\<rparr>))
     (if drv < 0 then retC None
      else thenC (msc_list_add try_msc)
        (thenC (execC (me_f_mount M try_msc drv))
        (bindC (memC (usbh_alloc_mem (me_sizeof_MSC M))) (\<lambda>p.
        if p = 0 then retC (Some 0)
        else bindC (get_msc msc) (\<lambda>m. thenC (put_msc p m) (retC (Some p)))))))))))) "

text \<open>
  The loop over the logical units: \<open>n\<close> is \<open>256 - lun\<close>, and \<open>max_lun\<close> is at most 255. The result is
  \<open>try_msc\<close>, \<open>bHasMedia\<close> and \<open>ret\<close> after the loop.
\<close>

fun init_luns :: "'v msc_env \<Rightarrow> u64 \<Rightarrow> nat \<Rightarrow> u64 \<Rightarrow> bool \<Rightarrow> int \<Rightarrow> ('v, u64 \<times> bool \<times> int) mscomp" where
  "init_luns M msc 0 try_msc has ret = retC (try_msc, has, ret)"
| "init_luns M msc (Suc n) try_msc has ret = bindC (get_msc msc) (\<lambda>m.
     if unat (max_lun m) < 255 - n then retC (try_msc, has, ret)
     else let l = word_of_nat (255 - n) in
       thenC (upd_msc try_msc (\<lambda>t. t\<lparr>lun := l\<rparr>))
       (bindC (disk_tries M try_msc 3) (\<lambda>found.
       if \<not> found then init_luns M msc n try_msc has ret
       else bindC (capacity_tries M try_msc l 3 ret) (\<lambda>(ok, ret').
       if \<not> ok then init_luns M msc n try_msc has ret'
       else bindC (add_disk M msc try_msc) (\<lambda>r. case r of
         None \<Rightarrow> retC (try_msc, has, USBH_ERR_MEMORY_OUT)
       | Some p \<Rightarrow> if p = 0 then retC (0, True, USBH_ERR_MEMORY_OUT) else init_luns M msc n p True ret')))))"

definition umass_init_device :: "'v msc_env \<Rightarrow> u64 \<Rightarrow> ('v, int) mscomp" where
  "umass_init_device M msc = bindC (init_luns M msc 256 msc False USBH_ERR_NOT_FOUND) (\<lambda>(try_msc, has, ret).
     if has then thenC (if try_msc \<noteq> 0 then free_msc M try_msc else retC ()) (retC 0)
     else retC ret)"

section \<open>Interface of the driver\<close>

text \<open>The loop over the endpoints: the last bulk endpoint of each direction.\<close>

fun bulk_eps :: "EP_INFO_T list \<Rightarrow> nat \<Rightarrow> nat \<Rightarrow> nat option \<times> nat option \<Rightarrow> ('v, nat option \<times> nat option) mscomp" where
  "bulk_eps eps 0 i r = retC r"
| "bulk_eps eps (Suc n) i r = bindC (nthC eps i) (\<lambda>ep. bulk_eps eps n (Suc i)
     (if ep_bmAttributes ep AND 3 = 2
      then (if ep_bEndpointAddress ep AND 0x80 = 0x80 then (Some i, snd r) else (fst r, Some i)) else r))"

definition msc_probe :: "'v msc_env \<Rightarrow> u64 \<Rightarrow> ('v, int) mscomp" where
  "msc_probe M iface = bindC (get_iface iface) (\<lambda>f. bindC (nthC (if_alt f) (if_aif f)) (\<lambda>aif.
     bindC (ifd_rd8 (if_udev f) aif 5) (\<lambda>bInterfaceClass.
     if bInterfaceClass \<noteq> 8 then retC USBH_ERR_NOT_MATCHED
     else bindC (ifd_rd8 (if_udev f) aif 6) (\<lambda>bInterfaceSubClass.
     if bInterfaceSubClass \<noteq> 6 \<and> bInterfaceSubClass \<noteq> 5 \<and> bInterfaceSubClass \<noteq> 1 then retC USBH_ERR_NOT_SUPPORTED
     else bindC (ifd_rd8 (if_udev f) aif 7) (\<lambda>bInterfaceProtocol.
     if bInterfaceProtocol \<noteq> 0x50 then retC USBH_ERR_NOT_SUPPORTED
     else bindC (memC (usbh_alloc_mem (me_sizeof_MSC M))) (\<lambda>msc.
     if msc = 0 then retC USBH_ERR_MEMORY_OUT
     else bindC (getC (ue_ticks (me_usb M))) (\<lambda>uid.
     bindC (ifd_rd8 (if_udev f) aif 4) (\<lambda>bNumEndpoints.
     bindC (bulk_eps (alt_ep aif) (unat bNumEndpoints) 0 (None, None)) (\<lambda>(ep_in, ep_out).
     if ep_in = None \<or> ep_out = None then
       thenC (mem_doC (\<lambda>x. snd (usbh_free_mem msc (me_sizeof_MSC M) x))) (retC USBH_ERR_NOT_EXPECTED)
     else thenC (put_msc msc (MSC_zero\<lparr>msc_uid := uid, ep_bulk_in := map_option (Pair (if_aif f)) ep_in,
         ep_bulk_out := map_option (Pair (if_aif f)) ep_out, msc_iface := iface\<rparr>))
       (thenC (get_max_lun M msc) (umass_init_device M msc)))))))))))"

fun quit_eps :: "'v msc_env \<Rightarrow> u64 \<Rightarrow> u64 \<Rightarrow> nat \<Rightarrow> nat \<Rightarrow> nat \<Rightarrow> ('v, unit) mscomp" where
  "quit_eps M udev iface aif 0 i = retC ()"
| "quit_eps M udev iface aif (Suc n) i = bindC (hc_of udev) (\<lambda>hc.
     thenC (callC (ue_quit_xfer (me_usb M) hc 0 (aif_ep_addr iface aif i))) (quit_eps M udev iface aif n (Suc i)))"

text \<open>The loop over the list of disks, from \<open>p\<close> on.\<close>

partial_function (option) drop_disks ::
  "'v msc_env \<Rightarrow> u64 \<Rightarrow> u64 \<Rightarrow> 'v msc_world ucore \<Rightarrow> (core_fault + unit \<times> 'v msc_world ucore) option" where
  "drop_disks M iface p s =
     (if p = 0 then Some (Inr ((), s))
      else case msc_heap (uc_world s) p of
        None \<Rightarrow> Some (Inl (Mem_Fault Dangling_Pointer))
      | Some m \<Rightarrow>
          (case (if msc_iface m = iface
             then thenC (fatfs_drive_free M (drv_no m)) (thenC (msc_list_remove p) (free_msc M p)) else retC ()) s of
             None \<Rightarrow> None
           | Some (Inl e) \<Rightarrow> Some (Inl e)
           | Some (Inr (u, s')) \<Rightarrow> drop_disks M iface (msc_next m) s'))"

definition msc_disconnect :: "'v msc_env \<Rightarrow> u64 \<Rightarrow> ('v, unit) mscomp" where
  "msc_disconnect M iface = bindC (get_iface iface) (\<lambda>f. bindC (nthC (if_alt f) (if_aif f)) (\<lambda>aif.
     bindC (ifd_rd8 (if_udev f) aif 4) (\<lambda>bNumEndpoints.
     thenC (quit_eps M (if_udev f) iface (if_aif f) (unat bNumEndpoints) 0)
     (bindC (getW g_msc_list) (drop_disks M iface)))))"

definition usbh_umas_init :: "'v msc_env \<Rightarrow> ('v, int) mscomp" where
  "usbh_umas_init M = thenC fatfs_drive_int (thenC (updW (\<lambda>w. w\<lparr>g_msc_list := 0\<rparr>))
     (callC (usbh_register_driver (me_driver M))))"

end
