(* ===== verification/Msc_Disk.thy ===== *)
theory Msc_Disk
  imports Msc Usb_Core_Facts
begin

text \<open>
  What the mass storage driver talks to, and what it implements: a disk behind the bulk-only transport
  as a state machine on the bytes of transfers, the memory of the host as the controller sees it,
  and the contract of a controller that carries transfers between the two. The disk is the one of
  the specification: command, data, status.
\<close>

section \<open>The disk\<close>

datatype phase = Ready | Receive nat nat | Send "u8 list" | Status u8

record disk =
  dk_size :: nat
  dk_sectors :: "nat \<Rightarrow> u8 list"
  dk_phase :: phase

fun le_num :: "u8 list \<Rightarrow> nat" where
  "le_num [] = 0"
| "le_num (b # bs) = unat b + 256 * le_num bs"

definition be_num :: "u8 list \<Rightarrow> nat" where
  "be_num bs = le_num (rev bs)"

definition sectors :: "disk \<Rightarrow> nat \<Rightarrow> nat \<Rightarrow> u8 list" where
  "sectors d lba n = concat (map (dk_sectors d) [lba..<lba + n])"

text \<open>A command block of 31 bytes: \<open>READ(10)\<close> and \<open>WRITE(10)\<close> of existing sectors are served.\<close>

definition disk_command :: "u8 list \<Rightarrow> disk \<Rightarrow> disk" where
  "disk_command bs d =
     (let n = le_num (take 4 (drop 8 bs)); cdb = drop 15 bs;
          lba = be_num (take 4 (drop 2 cdb)); cnt = be_num (take 2 (drop 7 cdb)) in
      if length bs \<noteq> 31 \<or> take 4 bs \<noteq> [0x55, 0x53, 0x42, 0x43] \<or> dk_size d < lba + cnt \<or> n \<noteq> 512 * cnt
      then d\<lparr>dk_phase := Status 1\<rparr>
      else if cdb ! 0 = READ_10 \<and> bs ! 12 = 0x80 then d\<lparr>dk_phase := Send (sectors d lba cnt)\<rparr>
      else if cdb ! 0 = WRITE_10 \<and> bs ! 12 = 0 then d\<lparr>dk_phase := Receive lba cnt\<rparr>
      else d\<lparr>dk_phase := Status 1\<rparr>)"

definition store_sectors :: "nat \<Rightarrow> nat \<Rightarrow> u8 list \<Rightarrow> (nat \<Rightarrow> u8 list) \<Rightarrow> nat \<Rightarrow> u8 list" where
  "store_sectors lba n bs f k = (if lba \<le> k \<and> k < lba + n then take 512 (drop (512 * (k - lba)) bs) else f k)"

text \<open>Bytes sent to the disk, and bytes asked from it.\<close>

definition disk_out :: "u8 list \<Rightarrow> disk \<Rightarrow> disk" where
  "disk_out bs d = (case dk_phase d of
     Ready \<Rightarrow> disk_command bs d
   | Receive lba n \<Rightarrow>
       if length bs = 512 * n then d\<lparr>dk_sectors := store_sectors lba n bs (dk_sectors d), dk_phase := Status 0\<rparr>
       else d\<lparr>dk_phase := Status 2\<rparr>
   | _ \<Rightarrow> d\<lparr>dk_phase := Status 2\<rparr>)"

definition csw_bytes :: "u8 \<Rightarrow> u8 list" where
  "csw_bytes st = [0x55, 0x53, 0x42, 0x53] @ replicate 8 0 @ [st]"

definition disk_in :: "nat \<Rightarrow> disk \<Rightarrow> u8 list \<times> disk" where
  "disk_in n d = (case dk_phase d of
     Send bs \<Rightarrow> (take n bs, d\<lparr>dk_phase := Status 0\<rparr>)
   | Status st \<Rightarrow> (take n (csw_bytes st), d\<lparr>dk_phase := Ready\<rparr>)
   | _ \<Rightarrow> ([], d\<lparr>dk_phase := Status 2\<rparr>))"

section \<open>The memory of the host\<close>

definition le32_bytes :: "u32 \<Rightarrow> u8 list" where
  "le32_bytes x = [ucast x, ucast (drop_bit 8 x), ucast (drop_bit 16 x), ucast (drop_bit 24 x)]"

definition cbw_bytes :: "bulk_cb_wrap \<Rightarrow> u8 list" where
  "cbw_bytes c = le32_bytes (cb_Signature c) @ le32_bytes (cb_Tag c) @ le32_bytes (cb_DataTransferLength c) @
     [cb_Flags c, cb_Lun c, cb_Length c] @ cb_CDB c"

text \<open>The \<open>n\<close> bytes at \<open>a\<close>: a command block of a driver object, or bytes of the caller.\<close>

definition bytes_at :: "'v msc_world \<Rightarrow> u64 \<Rightarrow> nat \<Rightarrow> u8 list" where
  "bytes_at w a n = (case msc_heap w (a - 36) of
     Some m \<Rightarrow> take n (cbw_bytes (cmd_blk m))
   | None \<Rightarrow> map (\<lambda>i. msc_ram w (a + word_of_nat i)) [0..<n])"

text \<open>Bytes that are stored at \<open>a\<close>: the status or the buffer of a driver object, or bytes of the caller.\<close>

definition le32_word :: "u8 list \<Rightarrow> u32" where
  "le32_word bs = word_of_nat (le_num (take 4 bs))"

definition ram_store :: "u64 \<Rightarrow> u8 list \<Rightarrow> (u64 \<Rightarrow> u8) \<Rightarrow> u64 \<Rightarrow> u8" where
  "ram_store a bs r x = (if unat (x - a) < length bs then bs ! unat (x - a) else r x)"

definition store_at :: "u64 \<Rightarrow> u8 list \<Rightarrow> 'v msc_world \<Rightarrow> 'v msc_world" where
  "store_at a bs w = (case msc_heap w (a - 68) of
     Some m \<Rightarrow> w\<lparr>msc_heap := (msc_heap w)(a - 68 \<mapsto> m\<lparr>cmd_status := (if length bs < 13 then cmd_status m
       else \<lparr>cs_Signature = le32_word bs, cs_Tag = le32_word (drop 4 bs), cs_Residue = le32_word (drop 8 bs),
         cs_Status = bs ! 12\<rparr>)\<rparr>)\<rparr>
   | None \<Rightarrow> (case msc_heap w (a - 84) of
       Some m \<Rightarrow> w\<lparr>msc_heap := (msc_heap w)(a - 84 \<mapsto> m\<lparr>scsi_buff := bs @ drop (length bs) (scsi_buff m)\<rparr>)\<rparr>
     | None \<Rightarrow> w\<lparr>msc_ram := ram_store a bs (msc_ram w)\<rparr>))"

section \<open>The controller\<close>

text \<open>
  What a transfer of \<open>n\<close> bytes at \<open>a\<close> on an endpoint does to the world, whose rest has the disk as its
  first component.
\<close>

definition carry :: "u64 \<Rightarrow> u64 \<Rightarrow> u64 \<Rightarrow> u64 \<Rightarrow> nat \<Rightarrow> (disk \<times> 'c) msc_world \<Rightarrow> (disk \<times> 'c) msc_world" where
  "carry epi epo ep a n w =
     (if ep = epo then w\<lparr>msc_rest := (disk_out (bytes_at w a n) (fst (msc_rest w)), snd (msc_rest w))\<rparr>
      else if ep = epi then (case disk_in n (fst (msc_rest w)) of
        (bs, d) \<Rightarrow> (store_at a bs w)\<lparr>msc_rest := (d, snd (msc_rest w))\<rparr>)
      else w)"

text \<open>Equality of worlds up to what only the environment sees.\<close>

definition same_world :: "(disk \<times> 'c) msc_world \<Rightarrow> (disk \<times> 'c) msc_world \<Rightarrow> bool" where
  "same_world w w' \<longleftrightarrow> (\<exists>c. w' = w\<lparr>msc_rest := (fst (msc_rest w), c)\<rparr>)"

text \<open>
  The contract of the controller for the disk behind the endpoints \<open>epi\<close> and \<open>epo\<close>: a bulk transfer is
  accepted, and is done without error before a second has passed, with its effect on the world;
  otherwise the controller is quiet.
\<close>

definition carries :: "u64 \<Rightarrow> u64 \<Rightarrow> (disk \<times> 'c) msc_world usb_env \<Rightarrow> bool" where
  "carries epi epo E \<longleftrightarrow> (\<forall>hc utr u timeout s. utr \<in> dma_live (uc_mem s) \<longrightarrow> utr_heap (uc_mem s) utr = Some u \<longrightarrow>
     1000 \<le> timeout \<longrightarrow> utr_ep u \<in> {epi, epo} \<longrightarrow>
     0 \<le> fst (ue_bulk_xfer E hc utr s) \<and>
     (\<exists>u' s'. utr_wait E utr (ue_ticks E (snd (ue_bulk_xfer E hc utr s))) timeout (snd (ue_bulk_xfer E hc utr s)) =
        Some (Inr (True, s')) \<and> quiet s s' \<and> utr_heap (uc_mem s') utr = Some u' \<and> utr_status u' = 0 \<and>
        same_world (carry epi epo (utr_ep u) (utr_buff u) (unat (utr_data_len u)) (uc_world s)) (uc_world s')))"

section \<open>The driver\<close>

text \<open>
  A disk as the driver sees it: the object \<open>msc\<close> with its interface and device, a free unit for a request,
  and the addresses of its endpoints.
\<close>

definition disk_ready :: "u64 \<Rightarrow> u64 \<Rightarrow> u64 \<Rightarrow> (disk \<times> 'c) msc_world ucore \<Rightarrow> bool" where
  "disk_ready epi epo msc s \<longleftrightarrow> mem_wf (uc_mem s) \<and> (\<exists>k. free_run (dma_unit_used (uc_mem s)) k 1) \<and> epi \<noteq> epo \<and>
     (\<exists>m f d ai ii ao io. msc_heap (uc_world s) msc = Some m \<and> uc_ifaces s (msc_iface m) = Some f \<and>
        udev_heap (uc_mem s) (if_udev f) = Some d \<and> ud_hc_driver d \<noteq> 0 \<and>
        ep_bulk_in m = Some (ai, ii) \<and> ep_bulk_out m = Some (ao, io) \<and>
        epi = aif_ep_addr (msc_iface m) ai ii \<and> epo = aif_ep_addr (msc_iface m) ao io)"

definition msc_links :: "MSC_T \<Rightarrow> u64 \<times> (nat \<times> nat) option \<times> (nat \<times> nat) option \<times> u8 \<times> int \<times> u64" where
  "msc_links m = (msc_iface m, ep_bulk_in m, ep_bulk_out m, lun m, drv_no m, msc_next m)"

text \<open>What a transfer and the steps of a command keep.\<close>

definition world_kept :: "'v msc_world \<Rightarrow> 'v msc_world \<Rightarrow> bool" where
  "world_kept w w' \<longleftrightarrow> g_msc_list w' = g_msc_list w \<and>
     (\<forall>p. map_option msc_links (msc_heap w' p) = map_option msc_links (msc_heap w p))"

lemma world_kept_refl [simp]: "world_kept w w"
  by (simp add: world_kept_def)

lemma world_kept_trans: "world_kept w w' \<Longrightarrow> world_kept w' w'' \<Longrightarrow> world_kept w w''"
  by (simp add: world_kept_def)

lemma world_kept_heap:
  assumes "world_kept w w'" "msc_heap w p = Some m"
  obtains m' where "msc_heap w' p = Some m'" "msc_links m' = msc_links m"
proof -
  have "map_option msc_links (msc_heap w' p) = Some (msc_links m)" using assms by (simp add: world_kept_def)
  then show ?thesis using that by auto
qed

lemma store_at_kept: "world_kept w (store_at a bs w)"
  by (auto simp: world_kept_def store_at_def msc_links_def split: option.splits)

lemma world_kept_rest [simp]: "world_kept w (w'\<lparr>msc_rest := r\<rparr>) = world_kept w w'"
  by (simp add: world_kept_def)

lemma carry_kept: "world_kept w (carry epi epo ep a n w)"
  by (simp add: carry_def store_at_kept split: prod.split)

lemma same_world_kept: "same_world w w' \<Longrightarrow> world_kept w w'"
  by (auto simp: same_world_def)

lemma disk_ready_kept:
  assumes "disk_ready epi epo msc s" "quiet s s'" "world_kept (uc_world s) (uc_world s')"
  shows "disk_ready epi epo msc s'"
proof -
  from assms(1) obtain k m f d ai ii ao io where h: "mem_wf (uc_mem s)" "free_run (dma_unit_used (uc_mem s)) k 1" "epi \<noteq> epo"
    "msc_heap (uc_world s) msc = Some m" "uc_ifaces s (msc_iface m) = Some f" "udev_heap (uc_mem s) (if_udev f) = Some d"
    "ud_hc_driver d \<noteq> 0" "ep_bulk_in m = Some (ai, ii)" "ep_bulk_out m = Some (ao, io)"
    "epi = aif_ep_addr (msc_iface m) ai ii" "epo = aif_ep_addr (msc_iface m) ao io"
    unfolding disk_ready_def by blast
  obtain m' where m': "msc_heap (uc_world s') msc = Some m'" "msc_links m' = msc_links m"
    by (rule world_kept_heap[OF assms(3) h(4)])
  obtain d' where d': "udev_heap (uc_mem s') (if_udev f) = Some d'" "ud_core d' = ud_core d"
    by (rule quiet_udev[OF assms(2) h(6)])
  show ?thesis unfolding disk_ready_def
    using h m' d' ud_core_hc[OF d'(2)] assms(2) quiet_wf[OF assms(2)] by (auto simp: msc_links_def quiet_def)
qed

section \<open>A transfer\<close>

lemma alloc_utr_full:
  assumes "mem_wf m" "alloc_utr udev m = Inr (0, m)"
  shows "\<not> free_run (dma_unit_used m) k 1"
proof -
  have "0 < sizeof_UTR_T" by simp
  from assms(1) this refl show ?thesis
  proof (cases rule: usbh_alloc_mem_cases)
    case (taken k)
    then show ?thesis using assms(2) by (simp add: alloc_utr_def units_for_struct dma_block_def)
  next
    case full
    then show ?thesis using assms(1) by (auto simp: units_for_struct free_run_def mem_wf_def)
  qed
qed

lemma bulk_carried:
  assumes car: "carries epi epo (me_usb M)" and rdy: "disk_ready epi epo msc s"
    and m: "msc_heap (uc_world s) msc = Some m" and t: "1000 \<le> t"
    and ep: "ep = ep_bulk_in m \<and> ea = epi \<or> ep = ep_bulk_out m \<and> ea = epo"
  shows "\<exists>s'. msc_bulk_transfer M msc ep a n t s = Some (Inr (0, s')) \<and> quiet s s' \<and>
    same_world (carry epi epo ea a (unat n) (uc_world s)) (uc_world s')"
proof -
  let ?E = "me_usb M"
  from rdy m obtain k0 f d ai ii ao io where h: "mem_wf (uc_mem s)" "free_run (dma_unit_used (uc_mem s)) k0 1"
    "uc_ifaces s (msc_iface m) = Some f" "udev_heap (uc_mem s) (if_udev f) = Some d"
    "ud_hc_driver d \<noteq> 0" "ep_bulk_in m = Some (ai, ii)" "ep_bulk_out m = Some (ao, io)"
    "epi = aif_ep_addr (msc_iface m) ai ii" "epo = aif_ep_addr (msc_iface m) ao io"
    unfolding disk_ready_def by force
  have ea: "(case ep of None \<Rightarrow> 0 | Some (x, i) \<Rightarrow> aif_ep_addr (msc_iface m) x i) = ea" using ep h by auto
  show ?thesis
    using h(1)
  proof (cases rule: alloc_utr_cases[where udev = "if_udev f"])
    case full
    then show ?thesis using alloc_utr_full[OF h(1)] h(2) by blast
  next
    case (taken k)
    let ?p = "dma_block (uc_mem s) k"
    define u where "u = UTR_zero\<lparr>utr_udev := if_udev f, utr_ep := ea, utr_buff := a, utr_data_len := n, utr_xfer_len := 0,
      utr_func := me_bulk_xfer_done M, utr_bIsTransferDone := 0\<rparr>"
    define m1 where "m1 = (dma_taken k 1 (uc_mem s))\<lparr>utr_used := utr_used (uc_mem s) + 1,
      utr_heap := (utr_heap (uc_mem s))(?p \<mapsto> u)\<rparr>"
    let ?s = "s\<lparr>uc_mem := m1\<rparr>"
    let ?c = "ue_bulk_xfer ?E (ud_hc_driver d) ?p ?s"
    note br = utr_bracket[OF h(1) taken(2) refl m1_def]
    have p: "?p \<noteq> 0" "?p \<in> dma_live (uc_mem ?s)" "utr_heap (uc_mem ?s) ?p = Some u" "utr_udev u = if_udev f" "utr_ep u = ea"
      using br(2)[OF quiet.refl] by (simp_all add: m1_def u_def) (simp_all add: dma_block_def)
    have d1: "udev_heap (uc_mem ?s) (if_udev f) = Some d" using h by (simp add: m1_def)
    have "ea \<in> {epi, epo}" using ep by auto
    then obtain u' s' where c: "0 \<le> fst ?c"
      "utr_wait ?E ?p (ue_ticks ?E (snd ?c)) t (snd ?c) = Some (Inr (True, s'))" "quiet ?s s'"
      "utr_heap (uc_mem s') ?p = Some u'" "utr_status u' = 0"
      "same_world (carry epi epo ea a (unat n) (uc_world ?s)) (uc_world s')"
      using car[unfolded carries_def, rule_format, OF p(2,3) t, of "ud_hc_driver d"] p(5) by (auto simp: u_def)
    have mem: "memC (alloc_utr (if_udev f)) s = Some (Inr (?p, s\<lparr>uc_mem := (dma_taken k 1 (uc_mem s))\<lparr>
        utr_heap := (utr_heap (uc_mem s))(?p \<mapsto> UTR_zero\<lparr>utr_udev := if_udev f\<rparr>), utr_used := utr_used (uc_mem s) + 1\<rparr>\<rparr>))"
      using taken(1) by (simp add: memC_def)
    have nn: "\<not> fst ?c < 0" using c(1) by simp
    have bx: "usbh_bulk_xfer ?E ?p ?s = Some (Inr ?c)"
      using p(3,4) d1 h(5) by (simp add: usbh_bulk_xfer_def comp_simps get_utr_def hc_of_def get_udev_def)
    have set: "upd_utr ?p (\<lambda>u. u\<lparr>utr_ep := (case ep of None \<Rightarrow> 0 | Some (x, i) \<Rightarrow> aif_ep_addr (msc_iface m) x i), utr_buff := a, utr_data_len := n, utr_xfer_len := 0,
        utr_func := me_bulk_xfer_done M, utr_bIsTransferDone := 0\<rparr>) (s\<lparr>uc_mem := (dma_taken k 1 (uc_mem s))\<lparr>
        utr_heap := (utr_heap (uc_mem s))(?p \<mapsto> UTR_zero\<lparr>utr_udev := if_udev f\<rparr>), utr_used := utr_used (uc_mem s) + 1\<rparr>\<rparr>)
      = Some (Inr ((), ?s))"
      unfolding ea by (simp add: upd_utr_def comp_simps get_utr_def m1_def u_def)
    have "msc_bulk_transfer M msc ep a n t s = Some (Inr (0, s'\<lparr>uc_mem := free_utr ?p (uc_mem s')\<rparr>))"
      unfolding msc_bulk_transfer_def
      using p(1) h(3) c(2,4,5) nn m mem bx set
      by (cases ?c) (simp add: comp_simps get_msc_def get_iface_def get_utr_def)
    then show ?thesis using br(1)[OF c(3)] c(6) by simp
  qed
qed

section \<open>A command\<close>

abbreviation the_disk :: "(disk \<times> 'c) msc_world ucore \<Rightarrow> disk" where
  "the_disk s \<equiv> fst (msc_rest (uc_world s))"

lemma getW_run [comp_simps]: "getW f s = Some (Inr (f (uc_world s), s))"
  by (simp add: getW_def comp_run)

lemma updW_run [comp_simps]: "updW f s = Some (Inr ((), s\<lparr>uc_world := f (uc_world s)\<rparr>))"
  by (simp add: updW_def comp_run)

lemma get_msc_run [comp_simps]: "msc_heap (uc_world s) p = Some m \<Longrightarrow> get_msc p s = Some (Inr (m, s))"
  by (simp add: get_msc_def)

lemma upd_msc_run [comp_simps]:
  "msc_heap (uc_world s) p = Some m \<Longrightarrow>
   upd_msc p f s = Some (Inr ((), s\<lparr>uc_world := (uc_world s)\<lparr>msc_heap := (msc_heap (uc_world s))(p \<mapsto> f m)\<rparr>\<rparr>))"
  by (simp add: upd_msc_def put_msc_def comp_simps)

lemma quiet_world [simp]: "quiet s (s\<lparr>uc_world := w\<rparr>)"
  by (simp add: quiet_def)

lemma cmd_addrs [simp]:
  "cmd_blk_addr msc - 36 = msc" "cmd_status_addr msc - 68 = msc"
  by (simp_all add: cmd_blk_addr_def cmd_status_addr_def)

text \<open>What a phase leaves: the core is quiet, the objects keep their links.\<close>

definition phase_done :: "(disk \<times> 'c) msc_world ucore \<Rightarrow> (disk \<times> 'c) msc_world ucore \<Rightarrow> bool" where
  "phase_done s s' \<longleftrightarrow> quiet s s' \<and> world_kept (uc_world s) (uc_world s')"

lemma phase_done_trans: "phase_done s t \<Longrightarrow> phase_done t u \<Longrightarrow> phase_done s u"
  unfolding phase_done_def by (blast intro: quiet.trans world_kept_trans)

lemma phase_done_ready: "disk_ready epi epo msc s \<Longrightarrow> phase_done s s' \<Longrightarrow> disk_ready epi epo msc s'"
  unfolding phase_done_def by (blast intro: disk_ready_kept)

lemma phase_done_free: "phase_done s s' \<Longrightarrow> msc_heap (uc_world s) p = None \<Longrightarrow> msc_heap (uc_world s') p = None"
  unfolding phase_done_def world_kept_def by (metis option.map_disc_iff)

lemma same_worldD:
  assumes "same_world w w'"
  shows "fst (msc_rest w') = fst (msc_rest w)" "msc_ram w' = msc_ram w" "msc_heap w' = msc_heap w"
    "g_msc_list w' = g_msc_list w"
  using assms by (auto simp: same_world_def)

lemma disk_ready_obj:
  assumes "disk_ready epi epo msc s"
  obtains m where "msc_heap (uc_world s) msc = Some m" "epi \<noteq> epo"
  using assms unfolding disk_ready_def by blast

text \<open>The status phase, when the disk has a good status.\<close>

lemma scsi_status_ok:
  assumes "carries epi epo (me_usb M)" "disk_ready epi epo msc s" "1000 \<le> t" "dk_phase (the_disk s) = Status 0"
  shows "\<exists>s'. scsi_status M msc t s = Some (Inr (0, s')) \<and> phase_done s s' \<and>
    the_disk s' = (the_disk s)\<lparr>dk_phase := Ready\<rparr> \<and> msc_ram (uc_world s') = msc_ram (uc_world s)"
proof -
  obtain m where m: "msc_heap (uc_world s) msc = Some m" "epi \<noteq> epo" by (rule disk_ready_obj[OF assms(2)])
  let ?w = "carry epi epo epi (cmd_status_addr msc) 13 (uc_world s)"
  have u13: "unat (13 :: u32) = 13" by simp
  obtain s' where s': "msc_bulk_transfer M msc (ep_bulk_in m) (cmd_status_addr msc) 13 t s = Some (Inr (0, s'))"
    "quiet s s'" "same_world ?w (uc_world s')"
    using bulk_carried[OF assms(1,2) m(1) assms(3), of "ep_bulk_in m" epi "cmd_status_addr msc" 13] unfolding u13 by blast
  have w: "?w = (store_at (cmd_status_addr msc) (csw_bytes 0) (uc_world s))\<lparr>msc_rest :=
      ((the_disk s)\<lparr>dk_phase := Ready\<rparr>, snd (msc_rest (uc_world s)))\<rparr>"
    using m(2) assms(4) by (simp add: carry_def disk_in_def csw_bytes_def)
  obtain m' where h: "msc_heap ?w msc = Some m'" "cs_Status (cmd_status m') = 0"
    unfolding w using m(1) by (simp add: store_at_def csw_bytes_def nth_append)
  have "msc_ram ?w = msc_ram (uc_world s)" unfolding w using m(1) by (simp add: store_at_def)
  moreover have "world_kept (uc_world s) (uc_world s')"
    using world_kept_trans[OF carry_kept same_world_kept[OF s'(3)]] .
  moreover have "scsi_status M msc t s = Some (Inr (0, s'))"
    using m(1) s'(1) h same_worldD(3)[OF s'(3)] by (simp add: scsi_status_def comp_simps)
  ultimately show ?thesis using s'(2) same_worldD[OF s'(3)] w by (simp add: phase_done_def)
qed

text \<open>The data phase: bytes of the caller go to the disk, or bytes of the disk to the caller.\<close>

lemma scsi_data_out:
  assumes "carries epi epo (me_usb M)" "disk_ready epi epo msc s" "0 < n" "msc_heap (uc_world s) (a - 36) = None"
  shows "\<exists>s'. scsi_data M msc a n False s = Some (Inr (0, s')) \<and> phase_done s s' \<and>
    the_disk s' = disk_out (map (\<lambda>i. msc_ram (uc_world s) (a + word_of_nat i)) [0..<unat n]) (the_disk s) \<and>
    msc_ram (uc_world s') = msc_ram (uc_world s)"
proof -
  obtain m where m: "msc_heap (uc_world s) msc = Some m" "epi \<noteq> epo" by (rule disk_ready_obj[OF assms(2)])
  let ?w = "carry epi epo epo a (unat n) (uc_world s)"
  have t: "(1000 :: u32) \<le> 2000" by simp
  obtain s' where s': "msc_bulk_transfer M msc (ep_bulk_out m) a n 2000 s = Some (Inr (0, s'))"
    "quiet s s'" "same_world ?w (uc_world s')"
    using bulk_carried[OF assms(1,2) m(1) t, of "ep_bulk_out m" epo a n] by blast
  have "world_kept (uc_world s) (uc_world s')"
    using world_kept_trans[OF carry_kept same_world_kept[OF s'(3)]] .
  moreover have "scsi_data M msc a n False s = Some (Inr (0, s'))"
    using m(1) s'(1) assms(3) by (simp add: scsi_data_def comp_simps)
  ultimately show ?thesis using s'(2) same_worldD[OF s'(3)] assms(4) by (simp add: phase_done_def carry_def bytes_at_def)
qed

lemma scsi_data_in:
  assumes "carries epi epo (me_usb M)" "disk_ready epi epo msc s" "0 < n" "msc_heap (uc_world s) (a - 68) = None"
    "msc_heap (uc_world s) (a - 84) = None" "dk_phase (the_disk s) = Send bs" "length bs = unat n"
  shows "\<exists>s'. scsi_data M msc a n True s = Some (Inr (0, s')) \<and> phase_done s s' \<and>
    the_disk s' = (the_disk s)\<lparr>dk_phase := Status 0\<rparr> \<and> msc_ram (uc_world s') = ram_store a bs (msc_ram (uc_world s))"
proof -
  obtain m where m: "msc_heap (uc_world s) msc = Some m" "epi \<noteq> epo" by (rule disk_ready_obj[OF assms(2)])
  let ?w = "carry epi epo epi a (unat n) (uc_world s)"
  have t: "(1000 :: u32) \<le> 2000" by simp
  obtain s' where s': "msc_bulk_transfer M msc (ep_bulk_in m) a n 2000 s = Some (Inr (0, s'))"
    "quiet s s'" "same_world ?w (uc_world s')"
    using bulk_carried[OF assms(1,2) m(1) t, of "ep_bulk_in m" epi a n] by blast
  have "world_kept (uc_world s) (uc_world s')"
    using world_kept_trans[OF carry_kept same_world_kept[OF s'(3)]] .
  moreover have "scsi_data M msc a n True s = Some (Inr (0, s'))"
    using m(1) s'(1) assms(3) by (simp add: scsi_data_def comp_simps)
  ultimately show ?thesis using s'(2) same_worldD[OF s'(3)] assms(4-7) m(2)
    by (simp add: phase_done_def carry_def disk_in_def store_at_def)
qed

text \<open>The command phase.\<close>

definition issued :: "u32 \<Rightarrow> u32 \<Rightarrow> u8 \<Rightarrow> bulk_cb_wrap \<Rightarrow> bulk_cb_wrap" where
  "issued tag n l c = c\<lparr>cb_Signature := MSC_CB_SIGN, cb_Tag := tag, cb_DataTransferLength := n, cb_Lun := l\<rparr>"

lemma scsi_command_phase:
  assumes "carries epi epo (me_usb M)" "disk_ready epi epo msc s" "1000 \<le> t" "dk_phase (the_disk s) = Ready"
    "msc_heap (uc_world s) msc = Some m" "length (cb_CDB (cmd_blk m)) = 16"
  shows "\<exists>s'. do_scsi_command M msc a n b t s = bindC (scsi_data M msc a n b) (\<lambda>ret.
       if ret < 0 then retC ret else scsi_status M msc t) s' \<and> phase_done s s' \<and>
    the_disk s' = disk_command (cbw_bytes (issued (msc_tag (uc_world s)) n (lun m) (cmd_blk m))) (the_disk s) \<and>
    msc_ram (uc_world s') = msc_ram (uc_world s)"
proof -
  let ?c = "issued (msc_tag (uc_world s)) n (lun m) (cmd_blk m)"
  let ?m = "m\<lparr>cmd_blk := ?c\<rparr>"
  define w where "w = (uc_world s)\<lparr>msc_tag := msc_tag (uc_world s) + 1, msc_heap := (msc_heap (uc_world s))(msc \<mapsto> ?m)\<rparr>"
  let ?s = "s\<lparr>uc_world := w\<rparr>"
  have kept: "world_kept (uc_world s) w" using assms(5) by (simp add: w_def world_kept_def msc_links_def)
  have rdy: "disk_ready epi epo msc ?s" by (rule disk_ready_kept[OF assms(2)]) (simp_all add: kept)
  have obj: "msc_heap (uc_world ?s) msc = Some ?m" by (simp add: w_def)
  have u31: "unat (31 :: u32) = 31" by simp
  let ?w = "carry epi epo epo (cmd_blk_addr msc) 31 w"
  obtain s' where s': "msc_bulk_transfer M msc (ep_bulk_out ?m) (cmd_blk_addr msc) 31 t ?s = Some (Inr (0, s'))"
    "quiet ?s s'" "same_world ?w (uc_world s')"
    using bulk_carried[OF assms(1) rdy obj assms(3), of "ep_bulk_out ?m" epo "cmd_blk_addr msc" 31] unfolding u31 by auto
  have len: "length (cbw_bytes ?c) = 31" using assms(6) by (simp add: cbw_bytes_def le32_bytes_def issued_def)
  have "the_disk s' = disk_command (cbw_bytes ?c) (the_disk s)" "msc_ram (uc_world s') = msc_ram (uc_world s)"
    using same_worldD[OF s'(3)] assms(4) len by (simp_all add: carry_def bytes_at_def w_def disk_out_def)
  moreover have "phase_done s s'"
    unfolding phase_done_def
    using quiet.trans[OF quiet_world s'(2)] world_kept_trans[OF kept world_kept_trans[OF carry_kept same_world_kept[OF s'(3)]]] by blast
  moreover have "do_scsi_command M msc a n b t s = bindC (scsi_data M msc a n b) (\<lambda>ret.
       if ret < 0 then retC ret else scsi_status M msc t) s'"
    using assms(5) s'(1) obj by (simp add: do_scsi_command_def comp_simps w_def issued_def)
  ultimately show ?thesis by blast
qed

section \<open>Sectors\<close>

lemma unat_u32_less: "unat (x :: u32) < 2 ^ 32"
  using unsigned_less[of x] by (rule order_less_le_trans) simp

lemma unat_byte_of: "unat (ucast (drop_bit k x) :: u8) = unat x div 2 ^ k mod 256" for x :: u32
proof -
  have "unat (drop_bit k x) = drop_bit k (take_bit LENGTH(32) (unat x))" by (rule unsigned_drop_bit_eq)
  also have "\<dots> = unat x div 2 ^ k" using unat_u32_less[of x] by (simp add: drop_bit_eq_div take_bit_nat_eq_self)
  finally have "unat (drop_bit k x) = unat x div 2 ^ k" .
  then show ?thesis by (simp only: unsigned_ucast_eq take_bit_eq_mod) simp
qed

lemma nat_of_bytes:
  assumes "n < 2 ^ 32"
  shows "n mod 256 + 256 * (n div 2 ^ 8 mod 256 + 256 * (n div 2 ^ 16 mod 256 + 256 * (n div 2 ^ 24 mod 256))) = (n :: nat)"
proof -
  define a b c where "a = n div 256" and "b = a div 256" and "c = b div 256"
  have "n div 2 ^ 8 = a" "n div 2 ^ 16 = b" "n div 2 ^ 24 = c" by (simp_all add: a_def b_def c_def div_mult2_eq[symmetric])
  moreover have "c < 256" using assms unfolding a_def b_def c_def div_mult2_eq[symmetric] by (simp add: less_mult_imp_div_less)
  moreover have "n = 256 * a + n mod 256" "a = 256 * b + a mod 256" "b = 256 * c + b mod 256"
    unfolding a_def b_def c_def by simp_all
  ultimately show ?thesis by simp
qed

lemma le_num_le32: "le_num (le32_bytes x) = unat x"
proof -
  have "unat (ucast x :: u8) = unat x mod 256" using unat_byte_of[of 0 x] by simp
  then show ?thesis using nat_of_bytes[OF unat_u32_less[of x]]
    by (simp only: le32_bytes_def le_num.simps unat_byte_of mult_0_right add_0_right)
qed

lemma unat_of_int_small: "0 \<le> k \<Longrightarrow> k < 2 ^ LENGTH('a) \<Longrightarrow> unat (word_of_int k :: 'a :: len word) = nat k"
  unfolding unat_eq_nat_uint by (simp only: unsigned_of_int take_bit_eq_mod id_apply mod_pos_pos_trivial of_int_eq_id)

lemma count_bytes:
  assumes "0 \<le> cnt" "cnt < 65536"
  shows "unat (word_of_int cnt :: u8) + 256 * unat (word_of_int (cnt div 256) :: u8) = nat cnt"
proof -
  have "unat (word_of_int cnt :: u8) = nat (cnt mod 256)"
    by (simp add: unat_eq_nat_uint unsigned_of_int take_bit_eq_mod flip: nat_uint_eq)
  moreover have "unat (word_of_int (cnt div 256) :: u8) = nat (cnt div 256)" using assms by (intro unat_of_int_small) simp_all
  moreover have "nat (cnt mod 256) + 256 * nat (cnt div 256) = nat (cnt mod 256 + 256 * (cnt div 256))"
    using assms by (simp only: nat_add_distrib nat_mult_distrib pos_imp_zdiv_nonneg_iff zero_le_mult_iff)
  ultimately show ?thesis by simp
qed

text \<open>The command block of a sector access, as the disk decodes it.\<close>

lemma rw10_block:
  fixes tag :: u32 and l fl op :: u8 and sec :: u32 and cnt :: int
  assumes "0 \<le> cnt" "cnt < 65536"
  defines "bs \<equiv> cbw_bytes (issued tag (word_of_int (cnt * 512)) l (command fl 10 (rw10_cdb op l sec cnt)))"
  shows "length bs = 31" "take 4 bs = [0x55, 0x53, 0x42, 0x43]" "le_num (take 4 (drop 8 bs)) = 512 * nat cnt"
    "drop 15 bs ! 0 = op" "bs ! 12 = fl" "be_num (take 4 (drop 2 (drop 15 bs))) = unat sec"
    "be_num (take 2 (drop 7 (drop 15 bs))) = nat cnt"
proof -
  have n: "unat (word_of_int (cnt * 512) :: u32) = 512 * nat cnt"
    by (subst unat_of_int_small) (use assms(1,2) in \<open>auto simp: nat_mult_distrib\<close>)
  show "le_num (take 4 (drop 8 bs)) = 512 * nat cnt"
    using le_num_le32[of "word_of_int (cnt * 512)"] n by (simp add: bs_def cbw_bytes_def le32_bytes_def issued_def)
  show "be_num (take 4 (drop 2 (drop 15 bs))) = unat sec"
    using le_num_le32[of sec] by (simp add: bs_def cbw_bytes_def le32_bytes_def issued_def command_def rw10_cdb_def be_num_def)
  show "be_num (take 2 (drop 7 (drop 15 bs))) = nat cnt"
    using count_bytes[OF assms(1,2)] by (simp add: bs_def cbw_bytes_def le32_bytes_def issued_def command_def rw10_cdb_def be_num_def)
qed (simp_all add: bs_def cbw_bytes_def le32_bytes_def issued_def command_def rw10_cdb_def)

lemma disk_command_rw10:
  assumes "0 \<le> cnt" "cnt < 65536" "unat sec + nat cnt \<le> dk_size d"
  shows "disk_command (cbw_bytes (issued tag (word_of_int (cnt * 512)) l (command 0x80 10 (rw10_cdb READ_10 l sec cnt)))) d =
      d\<lparr>dk_phase := Send (sectors d (unat sec) (nat cnt))\<rparr>"
    "disk_command (cbw_bytes (issued tag (word_of_int (cnt * 512)) l (command 0 10 (rw10_cdb WRITE_10 l sec cnt)))) d =
      d\<lparr>dk_phase := Receive (unat sec) (nat cnt)\<rparr>"
  using assms(3) unfolding disk_command_def Let_def rw10_block[OF assms(1,2)] by simp_all

text \<open>The disks of the driver, as a list.\<close>

primrec msc_chain :: "(u64 \<rightharpoonup> MSC_T) \<Rightarrow> u64 \<Rightarrow> u64 list \<Rightarrow> bool" where
  "msc_chain h p [] = (p = 0)"
| "msc_chain h p (q # qs) = (p = q \<and> q \<noteq> 0 \<and> (case h q of None \<Rightarrow> False | Some m \<Rightarrow> msc_chain h (msc_next m) qs))"

definition has_drive :: "(u64 \<rightharpoonup> MSC_T) \<Rightarrow> int \<Rightarrow> u64 \<Rightarrow> bool" where
  "has_drive h drv p \<longleftrightarrow> map_option drv_no (h p) = Some drv"

lemma find_msc_chain:
  assumes "msc_chain (msc_heap (uc_world s)) p ps"
  shows "find_msc drv p s = Some (Inr ((case filter (has_drive (msc_heap (uc_world s)) drv) ps of [] \<Rightarrow> 0 | q # _ \<Rightarrow> q), s))"
  using assms
proof (induction ps arbitrary: p)
  case Nil
  then show ?case by (subst find_msc.simps) simp
next
  case (Cons q ps)
  then obtain m where m: "msc_heap (uc_world s) q = Some m" "p = q" "q \<noteq> 0" "msc_chain (msc_heap (uc_world s)) (msc_next m) ps"
    by (auto split: option.splits)
  have "has_drive (msc_heap (uc_world s)) drv q \<longleftrightarrow> drv_no m = drv" using m(1) by (simp add: has_drive_def)
  then show ?case using Cons.IH[OF m(4)] m(1-3) by (subst find_msc.simps) simp
qed

lemma msc_chain_kept: "world_kept w w' \<Longrightarrow> msc_chain (msc_heap w') p ps = msc_chain (msc_heap w) p ps"
proof (induction ps arbitrary: p)
  case (Cons q ps)
  show ?case
  proof (cases "msc_heap w q")
    case None
    then have "msc_heap w' q = None" using Cons.prems unfolding world_kept_def by (metis option.map_disc_iff)
    then show ?thesis using None by simp
  next
    case (Some m)
    then obtain m' where "msc_heap w' q = Some m'" "msc_links m' = msc_links m" using world_kept_heap[OF Cons.prems] by blast
    then show ?thesis using Some Cons.IH[OF Cons.prems] by (simp add: msc_links_def)
  qed
qed simp

text \<open>The drive \<open>drv\<close> is the disk \<open>msc\<close>, waiting for a command.\<close>

definition drive_ready :: "u64 \<Rightarrow> u64 \<Rightarrow> int \<Rightarrow> u64 \<Rightarrow> (disk \<times> 'c) msc_world ucore \<Rightarrow> bool" where
  "drive_ready epi epo drv msc s \<longleftrightarrow> disk_ready epi epo msc s \<and> msc \<noteq> 0 \<and> dk_phase (the_disk s) = Ready \<and>
     (\<forall>k. length (dk_sectors (the_disk s) k) = 512) \<and>
     (\<exists>ps qs. msc_chain (msc_heap (uc_world s)) (g_msc_list (uc_world s)) (ps @ msc # qs) \<and>
        has_drive (msc_heap (uc_world s)) drv msc \<and> (\<forall>p \<in> set ps. \<not> has_drive (msc_heap (uc_world s)) drv p))"

lemma drive_ready_find:
  assumes "drive_ready epi epo drv msc s"
  shows "find_msc_by_drive drv s = Some (Inr (msc, s))"
proof -
  obtain ps qs where "msc_chain (msc_heap (uc_world s)) (g_msc_list (uc_world s)) (ps @ msc # qs)"
    "has_drive (msc_heap (uc_world s)) drv msc" "\<forall>p \<in> set ps. \<not> has_drive (msc_heap (uc_world s)) drv p"
    using assms unfolding drive_ready_def by blast
  then show ?thesis using find_msc_chain[of s _ "ps @ msc # qs" drv] by (simp add: find_msc_by_drive_def comp_simps filter_empty_conv)
qed

lemma has_drive_kept: "world_kept w w' \<Longrightarrow> has_drive (msc_heap w') drv p = has_drive (msc_heap w) drv p"
proof -
  assume "world_kept w w'"
  then have "map_option msc_links (msc_heap w' p) = map_option msc_links (msc_heap w p)" by (simp add: world_kept_def)
  then show ?thesis by (cases "msc_heap w p"; cases "msc_heap w' p") (simp_all add: has_drive_def msc_links_def)
qed

lemma drive_ready_kept:
  assumes "drive_ready epi epo drv msc s" "phase_done s s'" "dk_phase (the_disk s') = Ready"
    "\<forall>k. length (dk_sectors (the_disk s') k) = 512"
  shows "drive_ready epi epo drv msc s'"
proof -
  have w: "world_kept (uc_world s) (uc_world s')" using assms(2) by (simp add: phase_done_def)
  have "g_msc_list (uc_world s') = g_msc_list (uc_world s)" using w by (simp add: world_kept_def)
  then show ?thesis
    using assms phase_done_ready[OF _ assms(2)] by (simp add: drive_ready_def msc_chain_kept[OF w] has_drive_kept[OF w])
qed

section \<open>Sector access\<close>

text \<open>The command is prepared and sent.\<close>

lemma sector_command:
  assumes "carries epi epo (me_usb M)" "drive_ready epi epo drv msc s"
    "msc_heap (uc_world s) msc = Some m" "length (cb_CDB (c m)) = 16"
  shows "\<exists>s'. thenC (set_command msc c) (run_scsi_command M msc a n b 2000) s = bindC (scsi_data M msc a n b) (\<lambda>ret.
       if ret < 0 then retC ret else scsi_status M msc 2000) s' \<and> phase_done s s' \<and>
    the_disk s' = disk_command (cbw_bytes (issued (msc_tag (uc_world s)) n (lun m) (c m))) (the_disk s) \<and>
    msc_ram (uc_world s') = msc_ram (uc_world s)"
proof -
  let ?m = "m\<lparr>cmd_blk := c m\<rparr>"
  let ?s = "s\<lparr>uc_world := (uc_world s)\<lparr>msc_heap := (msc_heap (uc_world s))(msc \<mapsto> ?m)\<rparr>\<rparr>"
  have t: "(1000 :: u32) \<le> 2000" by simp
  have p: "phase_done s ?s" using assms(3) by (simp add: phase_done_def world_kept_def msc_links_def)
  have rdy: "disk_ready epi epo msc ?s"
    by (rule phase_done_ready[OF _ p]) (use assms(2) in \<open>simp add: drive_ready_def\<close>)
  have "\<exists>s'. do_scsi_command M msc a n b 2000 ?s = bindC (scsi_data M msc a n b) (\<lambda>ret.
       if ret < 0 then retC ret else scsi_status M msc 2000) s' \<and> phase_done ?s s' \<and>
    the_disk s' = disk_command (cbw_bytes (issued (msc_tag (uc_world ?s)) n (lun ?m) (cmd_blk ?m))) (the_disk ?s) \<and>
    msc_ram (uc_world s') = msc_ram (uc_world ?s)"
    by (rule scsi_command_phase[OF assms(1) rdy t]) (use assms(2,4) in \<open>auto simp: drive_ready_def\<close>)
  moreover have "set_command msc c s = Some (Inr ((), ?s))" using assms(3) by (simp add: set_command_def comp_simps)
  ultimately show ?thesis using phase_done_trans[OF p] by (auto simp: run_scsi_command_def comp_simps)
qed

lemma length_rw10 [simp]: "length (cb_CDB (command fl 10 (rw10_cdb op l sec cnt))) = 16"
  by (simp add: command_def rw10_cdb_def)

lemma data_len_pos: "0 < cnt \<Longrightarrow> cnt < 65536 \<Longrightarrow> 0 < (word_of_int (cnt * 512) :: u32)"
  "0 < cnt \<Longrightarrow> cnt < 65536 \<Longrightarrow> unat (word_of_int (cnt * 512) :: u32) = 512 * nat cnt"
proof -
  assume c: "0 < cnt" "cnt < 65536"
  show u: "unat (word_of_int (cnt * 512) :: u32) = 512 * nat cnt"
    by (subst unat_of_int_small) (use c in \<open>auto simp: nat_mult_distrib\<close>)
  show "0 < (word_of_int (cnt * 512) :: u32)" unfolding word_less_nat_alt u using c by simp
qed

lemma length_sectors: "\<forall>k. length (dk_sectors d k) = 512 \<Longrightarrow> length (sectors d lba n) = 512 * n"
  by (simp add: sectors_def length_concat o_def sum_list_triv)

text \<open>After the data phase the status is fetched, and the command is done.\<close>

lemma sector_finish:
  assumes "carries epi epo (me_usb M)" "disk_ready epi epo msc s1" "scsi_data M msc a n b s1 = Some (Inr (0, s2))"
    "phase_done s1 s2" "dk_phase (the_disk s2) = Status 0"
  shows "\<exists>s'. bindC (scsi_data M msc a n b) (\<lambda>ret. if ret < 0 then retC ret else scsi_status M msc 2000) s1 =
      Some (Inr (0, s')) \<and> phase_done s1 s' \<and> the_disk s' = (the_disk s2)\<lparr>dk_phase := Ready\<rparr> \<and>
    msc_ram (uc_world s') = msc_ram (uc_world s2)"
proof -
  have t: "(1000 :: u32) \<le> 2000" by simp
  obtain s3 where "scsi_status M msc 2000 s2 = Some (Inr (0, s3))" "phase_done s2 s3"
    "the_disk s3 = (the_disk s2)\<lparr>dk_phase := Ready\<rparr>" "msc_ram (uc_world s3) = msc_ram (uc_world s2)"
    using scsi_status_ok[OF assms(1) phase_done_ready[OF assms(2,4)] t assms(5)] by blast
  then show ?thesis using assms(3) phase_done_trans[OF assms(4)] by (auto simp: comp_simps)
qed

lemma thenC_bind_value:
  assumes "thenC m (k :: ('w, int) comp) s = Some (Inr (v, s'))"
  shows "thenC m (bindC k (\<lambda>r. retC (g r))) s = Some (Inr (g v, s'))"
  using assms by (auto simp: thenC_Inr_iff bindC_Inr_iff comp_run)

lemma usbh_umas_read_ok:
  assumes "carries epi epo (me_usb M)" "drive_ready epi epo drv msc s" "0 < cnt" "cnt < 65536"
    "unat sec + nat cnt \<le> dk_size (the_disk s)" "msc_heap (uc_world s) (a - 68) = None" "msc_heap (uc_world s) (a - 84) = None"
  shows "\<exists>s'. usbh_umas_read M drv sec cnt a s = Some (Inr (0, s')) \<and> phase_done s s' \<and> the_disk s' = the_disk s \<and>
    msc_ram (uc_world s') = ram_store a (sectors (the_disk s) (unat sec) (nat cnt)) (msc_ram (uc_world s))"
proof -
  let ?n = "word_of_int (cnt * 512) :: u32"
  let ?bs = "sectors (the_disk s) (unat sec) (nat cnt)"
  let ?c = "\<lambda>m. command 0x80 10 (rw10_cdb READ_10 (lun m) sec cnt)"
  let ?rest = "bindC (scsi_data M msc a ?n True) (\<lambda>ret. if ret < 0 then retC ret else scsi_status M msc 2000)"
  note n = data_len_pos[OF assms(3,4)]
  have rdy: "disk_ready epi epo msc s" "dk_phase (the_disk s) = Ready" "\<forall>k. length (dk_sectors (the_disk s) k) = 512" "msc \<noteq> 0"
    using assms(2) by (simp_all add: drive_ready_def)
  obtain m where m: "msc_heap (uc_world s) msc = Some m" by (rule disk_ready_obj[OF rdy(1)])
  obtain s1 where s1: "thenC (set_command msc ?c) (run_scsi_command M msc a ?n True 2000) s = ?rest s1" "phase_done s s1"
    "the_disk s1 = (the_disk s)\<lparr>dk_phase := Send ?bs\<rparr>" "msc_ram (uc_world s1) = msc_ram (uc_world s)"
    using sector_command[where c = ?c and a = a and n = ?n and b = True, OF assms(1,2) m] disk_command_rw10(1)[OF _ assms(4,5)] assms(3)
    by auto
  note r1 = phase_done_ready[OF rdy(1) s1(2)]
  have "\<exists>s'. scsi_data M msc a ?n True s1 = Some (Inr (0, s')) \<and> phase_done s1 s' \<and>
    the_disk s' = (the_disk s1)\<lparr>dk_phase := Status 0\<rparr> \<and> msc_ram (uc_world s') = ram_store a ?bs (msc_ram (uc_world s1))"
    by (rule scsi_data_in[OF assms(1) r1 n(1)])
       (use phase_done_free[OF s1(2)] assms(6,7) s1(3) length_sectors[OF rdy(3)] n(2) in simp_all)
  then obtain s2 where s2: "scsi_data M msc a ?n True s1 = Some (Inr (0, s2))" "phase_done s1 s2"
    "the_disk s2 = (the_disk s1)\<lparr>dk_phase := Status 0\<rparr>" "msc_ram (uc_world s2) = ram_store a ?bs (msc_ram (uc_world s1))" by blast
  obtain s3 where s3: "?rest s1 = Some (Inr (0, s3))" "phase_done s1 s3" "the_disk s3 = (the_disk s2)\<lparr>dk_phase := Ready\<rparr>"
    "msc_ram (uc_world s3) = msc_ram (uc_world s2)"
    using sector_finish[OF assms(1) r1 s2(1,2)] s2(3) by auto
  have "usbh_umas_read M drv sec cnt a s = Some (Inr (0, s3))"
    using drive_ready_find[OF assms(2)] rdy(4) s1(1) s3(1)
      thenC_bind_value[of "set_command msc ?c" "run_scsi_command M msc a ?n True 2000" s 0 s3 "\<lambda>r. if r \<noteq> 0 then UMAS_ERR_IO else 0"]
    by (simp add: usbh_umas_read_def comp_simps if_distrib[of retC])
  then show ?thesis using phase_done_trans[OF s1(2) s3(2)] s1 s2 s3 rdy(2) by simp
qed

lemma usbh_umas_write_ok:
  assumes "carries epi epo (me_usb M)" "drive_ready epi epo drv msc s" "0 < cnt" "cnt < 65536"
    "unat sec + nat cnt \<le> dk_size (the_disk s)" "msc_heap (uc_world s) (a - 36) = None"
  shows "\<exists>s'. usbh_umas_write M drv sec cnt a s = Some (Inr (0, s')) \<and> phase_done s s' \<and>
    the_disk s' = (the_disk s)\<lparr>dk_sectors := store_sectors (unat sec) (nat cnt)
      (map (\<lambda>i. msc_ram (uc_world s) (a + word_of_nat i)) [0..<512 * nat cnt]) (dk_sectors (the_disk s))\<rparr> \<and>
    msc_ram (uc_world s') = msc_ram (uc_world s)"
proof -
  let ?n = "word_of_int (cnt * 512) :: u32"
  let ?bs = "map (\<lambda>i. msc_ram (uc_world s) (a + word_of_nat i)) [0..<512 * nat cnt]"
  let ?c = "\<lambda>m. command 0 10 (rw10_cdb WRITE_10 (lun m) sec cnt)"
  let ?rest = "bindC (scsi_data M msc a ?n False) (\<lambda>ret. if ret < 0 then retC ret else scsi_status M msc 2000)"
  note n = data_len_pos[OF assms(3,4)]
  have rdy: "disk_ready epi epo msc s" "dk_phase (the_disk s) = Ready" "msc \<noteq> 0" using assms(2) by (simp_all add: drive_ready_def)
  obtain m where m: "msc_heap (uc_world s) msc = Some m" by (rule disk_ready_obj[OF rdy(1)])
  obtain s1 where s1: "thenC (set_command msc ?c) (run_scsi_command M msc a ?n False 2000) s = ?rest s1" "phase_done s s1"
    "the_disk s1 = (the_disk s)\<lparr>dk_phase := Receive (unat sec) (nat cnt)\<rparr>" "msc_ram (uc_world s1) = msc_ram (uc_world s)"
    using sector_command[where c = ?c and a = a and n = ?n and b = False, OF assms(1,2) m] disk_command_rw10(2)[OF _ assms(4,5)] assms(3)
    by auto
  note r1 = phase_done_ready[OF rdy(1) s1(2)]
  obtain s2 where s2: "scsi_data M msc a ?n False s1 = Some (Inr (0, s2))" "phase_done s1 s2"
    "the_disk s2 = disk_out ?bs (the_disk s1)" "msc_ram (uc_world s2) = msc_ram (uc_world s1)"
    using scsi_data_out[OF assms(1) r1 n(1) phase_done_free[OF s1(2) assms(6)]] unfolding n(2) s1(4) by blast
  have d2: "the_disk s2 = (the_disk s)\<lparr>dk_sectors := store_sectors (unat sec) (nat cnt) ?bs (dk_sectors (the_disk s)),
      dk_phase := Status 0\<rparr>"
    unfolding s2(3) s1(3) by (simp add: disk_out_def)
  obtain s3 where s3: "?rest s1 = Some (Inr (0, s3))" "phase_done s1 s3" "the_disk s3 = (the_disk s2)\<lparr>dk_phase := Ready\<rparr>"
    "msc_ram (uc_world s3) = msc_ram (uc_world s2)"
    using sector_finish[OF assms(1) r1 s2(1,2)] d2 by auto
  have "usbh_umas_write M drv sec cnt a s = Some (Inr (0, s3))"
    using drive_ready_find[OF assms(2)] rdy(3) s1(1) s3(1)
      thenC_bind_value[of "set_command msc ?c" "run_scsi_command M msc a ?n False 2000" s 0 s3 "\<lambda>r. if r < 0 then UMAS_ERR_IO else 0"]
    by (simp add: usbh_umas_write_def comp_simps if_distrib[of retC])
  then show ?thesis using phase_done_trans[OF s1(2) s3(2)] s1(4) s2(4) s3(3,4) d2 rdy(2) by simp
qed

end
