(* ===== verification/Msc_List.thy ===== *)
theory Msc_List
  imports Msc_Disk
begin

text \<open>
  The list of disks and the table of drives when a device is removed: \<open>msc_list_remove\<close> takes one
  object out of the chain, \<open>msc_disconnect\<close> all objects of an interface.
\<close>

lemma msc_chain_upd [simp]: "q \<notin> set ps \<Longrightarrow> msc_chain (h(q := x)) p ps = msc_chain h p ps"
  by (induction ps arbitrary: p) (auto split: option.splits)

lemma msc_chain_nonzero: "msc_chain h p ps \<Longrightarrow> 0 \<notin> set ps"
  by (induction ps arbitrary: p) (auto split: option.splits)

lemma msc_chain_dom: "msc_chain h p ps \<Longrightarrow> q \<in> set ps \<Longrightarrow> \<exists>m. h q = Some m"
  by (induction ps arbitrary: p) (auto split: option.splits)

lemma msc_chain_split:
  "msc_chain h p (ps @ q # qs) \<Longrightarrow> \<exists>m. h q = Some m \<and> q \<noteq> 0 \<and> msc_chain h (msc_next m) qs"
  by (induction ps arbitrary: p) (auto split: option.splits)

lemma msc_chain_unlink:
  assumes "msc_chain h p (ps @ r # q # qs)" "distinct (ps @ r # q # qs)" "h q = Some m" "h r = Some pm"
  shows "msc_chain (h(r \<mapsto> pm\<lparr>msc_next := msc_next m\<rparr>)) p (ps @ r # qs)"
  using assms
proof (induction ps arbitrary: p)
  case (Cons x ps)
  then show ?case by (auto split: option.splits)
qed auto

text \<open>The predecessor of an object that is not the first.\<close>

lemma msc_pred_chain:
  assumes "msc_chain (msc_heap (uc_world s)) p (ps @ r # q # qs)" "distinct (ps @ r # q # qs)"
  shows "msc_pred q p s = Some (Inr (r, s))"
  using assms
proof (induction ps arbitrary: p)
  case Nil
  then obtain m where "msc_heap (uc_world s) r = Some m" "p = r" "msc_next m = q" by (auto split: option.splits)
  then show ?case by (subst msc_pred.simps) simp
next
  case (Cons x ps)
  then obtain m where m: "msc_heap (uc_world s) x = Some m" "p = x" "msc_chain (msc_heap (uc_world s)) (msc_next m) (ps @ r # q # qs)"
    by (auto split: option.splits)
  have nxt: "msc_next m = hd (ps @ [r])" "hd (ps @ [r]) \<in> set (ps @ [r])" using m(3) by (cases ps; simp)+
  have "msc_next m \<noteq> q" "msc_next m \<noteq> 0"
    using nxt Cons.prems(2) msc_chain_nonzero[OF m(3)] by (cases ps; auto)+
  then show ?case using Cons.IH[OF m(3)] Cons.prems(2) m(1,2) by (subst msc_pred.simps) simp
qed

lemma msc_list_remove_chain:
  assumes "msc_chain (msc_heap (uc_world s)) (g_msc_list (uc_world s)) (ps @ q # qs)" "distinct (ps @ q # qs)"
  shows "run_ok (msc_list_remove q) (\<lambda>u s'. \<exists>l h. s' = s\<lparr>uc_world := (uc_world s)\<lparr>g_msc_list := l, msc_heap := h\<rparr>\<rparr> \<and>
    msc_chain h l (ps @ qs) \<and> (\<forall>p. map_option (\<lambda>m. (msc_iface m, drv_no m)) (h p) =
      map_option (\<lambda>m. (msc_iface m, drv_no m)) (msc_heap (uc_world s) p)) \<and>
    (\<forall>p. p \<in> set qs \<longrightarrow> h p = msc_heap (uc_world s) p)) s"
proof -
  let ?h = "msc_heap (uc_world s)" and ?l = "g_msc_list (uc_world s)"
  obtain m where m: "?h q = Some m" "q \<noteq> 0" "msc_chain ?h (msc_next m) qs" using msc_chain_split[OF assms(1)] by blast
  show ?thesis
  proof (cases ps rule: rev_cases)
    case Nil
    then have "?l = q" using assms(1) by simp
    then have "msc_list_remove q s = Some (Inr ((), s\<lparr>uc_world := (uc_world s)\<lparr>g_msc_list := msc_next m\<rparr>\<rparr>))"
      using m(1) by (simp add: msc_list_remove_def comp_simps)
    then show ?thesis using m(3) Nil by (auto simp: run_ok_def intro!: exI[of _ "msc_next m"] exI[of _ ?h])
  next
    case (snoc ps' r)
    have c: "msc_chain ?h ?l (ps' @ r # q # qs)" "distinct (ps' @ r # q # qs)" using assms snoc by simp_all
    obtain pm where pm: "?h r = Some pm" "msc_next pm = q" using msc_chain_split[OF c(1)] by auto
    have "?l \<noteq> q" using c by (cases ps') auto
    then have "msc_list_remove q s = Some (Inr ((), s\<lparr>uc_world := (uc_world s)\<lparr>
        msc_heap := ?h(r \<mapsto> pm\<lparr>msc_next := msc_next m\<rparr>)\<rparr>\<rparr>))"
      using m(1) pm msc_pred_chain[OF c] by (simp add: msc_list_remove_def comp_simps put_msc_def)
    moreover have "msc_chain (?h(r \<mapsto> pm\<lparr>msc_next := msc_next m\<rparr>)) ?l (ps @ qs)"
      using msc_chain_unlink[OF c m(1) pm(1)] snoc by simp
    moreover have "r \<notin> set qs" using c(2) by simp
    ultimately show ?thesis using pm(1)
      by (auto simp: run_ok_def intro!: exI[of _ ?l] exI[of _ "?h(r \<mapsto> pm\<lparr>msc_next := msc_next m\<rparr>)"])
  qed
qed

section \<open>Removal of the disks of an interface\<close>

text \<open>
  What \<open>f_mount\<close> of no volume and the end of transfers keep: the variables of the driver, and the units \<open>K\<close> of the
  memory pool.
\<close>

definition world_vars :: "'v msc_world \<Rightarrow> 'v msc_world \<Rightarrow> bool" where
  "world_vars w w' \<longleftrightarrow> g_msc_list w' = g_msc_list w \<and> msc_heap w' = msc_heap w \<and> g_fat_drv_used w' = g_fat_drv_used w"

definition units_kept :: "nat set \<Rightarrow> usb_mem \<Rightarrow> usb_mem \<Rightarrow> bool" where
  "units_kept K x x' \<longleftrightarrow> (mem_wf x \<longrightarrow> mem_wf x') \<and> dma_mem_pool x' = dma_mem_pool x \<and>
     (\<forall>k \<in> K. k < 128 \<longrightarrow> dma_unit_used x' ! k = dma_unit_used x ! k)"

lemma units_kept_refl [simp]: "units_kept K x x"
  by (simp add: units_kept_def)

lemma units_kept_trans: "units_kept K x y \<Longrightarrow> units_kept K y z \<Longrightarrow> units_kept K x z"
  by (auto simp: units_kept_def)

definition unmount_env :: "nat set \<Rightarrow> 'v msc_env \<Rightarrow> bool" where
  "unmount_env K M \<longleftrightarrow> (\<forall>drv s. world_vars (uc_world s) (uc_world (me_f_mount M 0 drv s)) \<and>
       units_kept K (uc_mem s) (uc_mem (me_f_mount M 0 drv s))) \<and>
     (\<forall>hc ep s. world_vars (uc_world s) (uc_world (snd (ue_quit_xfer (me_usb M) hc 0 ep s))) \<and>
        units_kept K (uc_mem s) (uc_mem (snd (ue_quit_xfer (me_usb M) hc 0 ep s))) \<and>
        (\<forall>p. map_option ud_hc_driver (udev_heap (uc_mem (snd (ue_quit_xfer (me_usb M) hc 0 ep s))) p) =
          map_option ud_hc_driver (udev_heap (uc_mem s) p)))"

text \<open>The units of the pool behind the object of a disk.\<close>

definition msc_units :: "'v msc_env \<Rightarrow> int" where
  "msc_units M = units_for (me_sizeof_MSC M) DMA_MEM_UNIT_SIZE"

definition disk_units :: "'v msc_env \<Rightarrow> usb_mem \<Rightarrow> u64 \<Rightarrow> nat set" where
  "disk_units M x p = {j. j < 128 \<and> (\<exists>k \<in> {0..<128}. p = dma_block x k \<and> k \<le> int j \<and> int j < k + msc_units M)}"

lemma disk_units_block:
  assumes "mem_wf x" "k \<in> {0..<128}"
  shows "j \<in> disk_units M x (dma_block x k) \<longleftrightarrow> j < 128 \<and> k \<le> int j \<and> int j < k + msc_units M"
proof -
  have "k' = k" if "k' \<in> {0..<128}" "dma_block x k = dma_block x k'" for k'
    using dma_block_inj[OF assms(1), of k' k] that assms(2) by simp
  then show ?thesis using assms(2) unfolding disk_units_def by blast
qed

lemma disk_units_kept: "units_kept K x x' \<Longrightarrow> disk_units M x' p = disk_units M x p"
  by (simp add: disk_units_def units_kept_def dma_block_def)

text \<open>The objects of the disks \<open>ps\<close> are allocated: used blocks of the pool that do not overlap, among the units \<open>K\<close>.\<close>

definition disk_held :: "'v msc_env \<Rightarrow> usb_mem \<Rightarrow> u64 \<Rightarrow> bool" where
  "disk_held M x p \<longleftrightarrow> (\<exists>k. p = dma_block x k \<and> used_run (dma_unit_used x) k (msc_units M))"

definition disks_held :: "nat set \<Rightarrow> 'v msc_env \<Rightarrow> u64 list \<Rightarrow> usb_mem \<Rightarrow> bool" where
  "disks_held K M ps x \<longleftrightarrow> mem_wf x \<and> 0 < me_sizeof_MSC M \<and> (\<forall>q \<in> set ps. disk_held M x q \<and> disk_units M x q \<subseteq> K) \<and>
     (\<forall>q \<in> set ps. \<forall>r \<in> set ps. q \<noteq> r \<longrightarrow> disk_units M x q \<inter> disk_units M x r = {})"

lemma msc_units_pos: "0 < me_sizeof_MSC M \<Longrightarrow> 1 \<le> msc_units M"
  using units_for_pos[of DMA_MEM_UNIT_SIZE "me_sizeof_MSC M"] by (simp add: msc_units_def)

lemma disk_heldE:
  assumes "disk_held M x p" "mem_wf x" "0 < me_sizeof_MSC M"
  obtains k where "p = dma_block x k" "used_run (dma_unit_used x) k (msc_units M)" "k \<in> {0..<128}"
    "k + msc_units M \<le> 128"
  using assms msc_units_pos[OF assms(3)] by (auto simp: disk_held_def used_run_def mem_wf_def)

lemma disk_held_units:
  assumes "mem_wf x" "mem_wf x'" "0 < me_sizeof_MSC M" "dma_mem_pool x' = dma_mem_pool x" "disk_held M x p"
    "\<And>j. j \<in> disk_units M x p \<Longrightarrow> dma_unit_used x' ! j = dma_unit_used x ! j"
  shows "disk_held M x' p"
proof -
  obtain k where k: "p = dma_block x k" "used_run (dma_unit_used x) k (msc_units M)" "k \<in> {0..<128}"
    "k + msc_units M \<le> 128" by (rule disk_heldE[OF assms(5,1,3)])
  have "dma_unit_used x' ! nat j" if "j \<in> {k..<k + msc_units M}" for j
    using that k(2-4) assms(6)[of "nat j"] disk_units_block[OF assms(1) k(3), of "nat j" M] by (auto simp: used_run_def k(1))
  then have "used_run (dma_unit_used x') k (msc_units M)"
    using k(2) assms(1,2) by (simp add: used_run_def mem_wf_def)
  moreover have "p = dma_block x' k" using k(1) assms(4) by (simp add: dma_block_def)
  ultimately show ?thesis unfolding disk_held_def by blast
qed

lemma disks_held_kept: "disks_held K M ps x \<Longrightarrow> units_kept K x x' \<Longrightarrow> disks_held K M ps x'"
  using disk_held_units[of x x' M] disk_units_kept[of K x x' M]
  unfolding disks_held_def by (auto simp: units_kept_def disk_units_def subset_iff)

text \<open>The disks of the interface and the drives they use.\<close>

definition of_iface :: "(u64 \<rightharpoonup> MSC_T) \<Rightarrow> u64 \<Rightarrow> u64 \<Rightarrow> bool" where
  "of_iface h iface p \<longleftrightarrow> map_option msc_iface (h p) = Some iface"

definition drives :: "(u64 \<rightharpoonup> MSC_T) \<Rightarrow> u64 list \<Rightarrow> nat list" where
  "drives h ps = map (\<lambda>p. nat (drv_no (the (h p)))) ps"

lemma drives_cong:
  assumes "\<And>p. p \<in> set ps \<Longrightarrow> h p \<noteq> None" "\<And>p. p \<in> set ps \<Longrightarrow> map_option drv_no (h' p) = map_option drv_no (h p)"
  shows "drives h' ps = drives h ps"
  unfolding drives_def
proof (rule map_cong[OF refl])
  fix p
  assume p: "p \<in> set ps"
  then obtain m where m: "h p = Some m" using assms(1) by blast
  then obtain m' where "h' p = Some m'" "drv_no m' = drv_no m" using assms(2)[OF p] by auto
  then show "nat (drv_no (the (h' p))) = nat (drv_no (the (h p)))" using m by simp
qed

lemma msc_chain_cong: "(\<And>q. q \<in> set ps \<Longrightarrow> h' q = h q) \<Longrightarrow> msc_chain h' p ps = msc_chain h p ps"
  by (induction ps arbitrary: p) (auto split: option.splits)

text \<open>The object of one disk is given back: its units and no others are free.\<close>

lemma free_disk_units:
  assumes "disks_held K M (q # qs) x" "q \<notin> set qs"
  defines "x' \<equiv> snd (usbh_free_mem q (me_sizeof_MSC M) x)"
  shows "disks_held K M qs x'" "dma_mem_pool x' = dma_mem_pool x"
    "\<forall>j < 128. dma_unit_used x' ! j \<longleftrightarrow> dma_unit_used x ! j \<and> j \<notin> disk_units M x q"
proof -
  have wf: "mem_wf x" "0 < me_sizeof_MSC M" "disk_held M x q" using assms(1) by (simp_all add: disks_held_def)
  obtain k where k: "q = dma_block x k" "used_run (dma_unit_used x) k (msc_units M)" "k \<in> {0..<128}"
    "k + msc_units M \<le> 128" by (rule disk_heldE[OF wf(3,1,2)])
  note run = usbh_free_mem_run[OF wf(1) k(2) msc_units_pos[OF wf(2)] msc_units_def]
  have x': "x' = dma_given_back k (msc_units M) x" unfolding x'_def k(1) run(1) by simp
  show units: "\<forall>j < 128. dma_unit_used x' ! j \<longleftrightarrow> dma_unit_used x ! j \<and> j \<notin> disk_units M x q"
    using wf(1) k(3) msc_units_pos[OF wf(2)] unfolding x' k(1) disk_units_block[OF wf(1) k(3)] by (auto simp: mem_wf_def)
  show pool: "dma_mem_pool x' = dma_mem_pool x" unfolding x' by simp
  have same: "disk_units M x' p = disk_units M x p" for p unfolding x' disk_units_def by simp
  have wf': "mem_wf x'" unfolding x' by (rule run(2))
  have disj: "disk_units M x q \<inter> disk_units M x p = {}" "disk_held M x p" if "p \<in> set qs" for p
    using assms(1) that \<open>q \<notin> set qs\<close> by (auto simp: disks_held_def)
  have "disk_held M x' p" if "p \<in> set qs" for p
    by (rule disk_held_units[OF wf(1) wf' wf(2) pool disj(2)[OF that]])
       (use units disj(1)[OF that] in \<open>auto simp: disk_units_def[of M x p]\<close>)
  then show "disks_held K M qs x'" using assms(1) wf' unfolding disks_held_def same by auto
qed

text \<open>One disk is removed.\<close>

lemma drop_disk_ok:
  assumes env: "unmount_env K M" and c: "msc_chain (msc_heap (uc_world s)) (g_msc_list (uc_world s)) (ps @ q # qs)"
    "distinct (ps @ q # qs)" and m: "msc_heap (uc_world s) q = Some m"
    and drv: "0 \<le> drv_no m" "drv_no m < int (length (g_fat_drv_used (uc_world s)))" and held: "disks_held K M (q # qs) (uc_mem s)"
  shows "run_ok (thenC (fatfs_drive_free M (drv_no m)) (thenC (msc_list_remove q) (free_msc M q))) (\<lambda>u s'.
    msc_chain (msc_heap (uc_world s')) (g_msc_list (uc_world s')) (ps @ qs) \<and>
    g_fat_drv_used (uc_world s') = (g_fat_drv_used (uc_world s))[nat (drv_no m) := 0] \<and>
    msc_heap (uc_world s') q = None \<and>
    (\<forall>p. p \<noteq> q \<longrightarrow> map_option (\<lambda>m. (msc_iface m, drv_no m)) (msc_heap (uc_world s') p) =
      map_option (\<lambda>m. (msc_iface m, drv_no m)) (msc_heap (uc_world s) p)) \<and>
    (\<forall>p \<in> set qs. msc_heap (uc_world s') p = msc_heap (uc_world s) p) \<and>
    disks_held K M qs (uc_mem s') \<and> dma_mem_pool (uc_mem s') = dma_mem_pool (uc_mem s) \<and>
    (\<forall>j \<in> K. j < 128 \<longrightarrow> (dma_unit_used (uc_mem s') ! j \<longleftrightarrow> dma_unit_used (uc_mem s) ! j \<and> j \<notin> disk_units M (uc_mem s) q))) s"
proof -
  define s0 where "s0 = me_f_mount M 0 (drv_no m) s"
  define s1 where "s1 = s0\<lparr>uc_world := (uc_world s0)\<lparr>g_fat_drv_used := (g_fat_drv_used (uc_world s))[nat (drv_no m) := 0]\<rparr>\<rparr>"
  have v: "world_vars (uc_world s) (uc_world s0)" and kept: "units_kept K (uc_mem s) (uc_mem s0)"
    using env by (simp_all add: unmount_env_def s0_def)
  have free: "fatfs_drive_free M (drv_no m) s = Some (Inr ((), s1))"
    using v drv by (simp add: fatfs_drive_free_def comp_simps s0_def[symmetric] s1_def world_vars_def)
  have c1: "msc_chain (msc_heap (uc_world s1)) (g_msc_list (uc_world s1)) (ps @ q # qs)"
    using c(1) v by (simp add: s1_def world_vars_def)
  from msc_list_remove_chain[OF c1 c(2)] obtain l h where
    rem: "msc_list_remove q s1 = Some (Inr ((), s1\<lparr>uc_world := (uc_world s1)\<lparr>g_msc_list := l, msc_heap := h\<rparr>\<rparr>))"
      "msc_chain h l (ps @ qs)"
      "\<forall>p. map_option (\<lambda>m. (msc_iface m, drv_no m)) (h p) = map_option (\<lambda>m. (msc_iface m, drv_no m)) (msc_heap (uc_world s1) p)"
      "\<forall>p. p \<in> set qs \<longrightarrow> h p = msc_heap (uc_world s1) p"
    by (auto simp: run_ok_def)
  define x where "x = snd (usbh_free_mem q (me_sizeof_MSC M) (uc_mem s0))"
  have held0: "disks_held K M (q # qs) (uc_mem s0)" by (rule disks_held_kept[OF held kept])
  have "q \<notin> set qs" using c(2) by simp
  note x = free_disk_units[OF held0 this, folded x_def]
  have "q \<notin> set (ps @ qs)" using c(2) by auto
  then have "run_ok (thenC (fatfs_drive_free M (drv_no m)) (thenC (msc_list_remove q) (free_msc M q))) (\<lambda>u s'.
    msc_chain (msc_heap (uc_world s')) (g_msc_list (uc_world s')) (ps @ qs) \<and>
    g_fat_drv_used (uc_world s') = (g_fat_drv_used (uc_world s))[nat (drv_no m) := 0] \<and>
    msc_heap (uc_world s') q = None \<and>
    (\<forall>p. p \<noteq> q \<longrightarrow> map_option (\<lambda>m. (msc_iface m, drv_no m)) (msc_heap (uc_world s') p) =
      map_option (\<lambda>m. (msc_iface m, drv_no m)) (msc_heap (uc_world s) p)) \<and>
    (\<forall>p \<in> set qs. msc_heap (uc_world s') p = msc_heap (uc_world s) p) \<and> uc_mem s' = x) s"
    using free rem v by (auto simp: run_ok_def comp_simps free_msc_def s1_def world_vars_def x_def)
  then show ?thesis
    by (rule run_ok_mono) (use x kept disk_units_kept[OF kept, of M] in \<open>auto simp: units_kept_def\<close>)
qed

definition msc_place :: "MSC_T \<Rightarrow> u64 \<times> int" where
  "msc_place m = (msc_iface m, drv_no m)"

definition disks_gone :: "u64 \<Rightarrow> u64 list \<Rightarrow> u64 list \<Rightarrow> 'v msc_world \<Rightarrow> 'v msc_world \<Rightarrow> bool" where
  "disks_gone iface ds ps w w' \<longleftrightarrow>
     msc_chain (msc_heap w') (g_msc_list w') (ds @ filter (\<lambda>p. \<not> of_iface (msc_heap w) iface p) ps) \<and>
     g_fat_drv_used w' = fold (\<lambda>d us. us[d := 0]) (drives (msc_heap w) (filter (of_iface (msc_heap w) iface) ps)) (g_fat_drv_used w) \<and>
     (\<forall>p. map_option msc_place (msc_heap w' p) = (if p \<in> set ps \<and> of_iface (msc_heap w) iface p then None
        else map_option msc_place (msc_heap w p)))"

text \<open>The units of the disks \<open>ds\<close>, and no others of \<open>K\<close>, are free again.\<close>

definition disks_freed :: "nat set \<Rightarrow> 'v msc_env \<Rightarrow> u64 list \<Rightarrow> usb_mem \<Rightarrow> usb_mem \<Rightarrow> bool" where
  "disks_freed K M ds x x' \<longleftrightarrow> mem_wf x' \<and> dma_mem_pool x' = dma_mem_pool x \<and> (\<forall>j \<in> K. j < 128 \<longrightarrow>
     (dma_unit_used x' ! j \<longleftrightarrow> dma_unit_used x ! j \<and> \<not> (\<exists>q \<in> set ds. j \<in> disk_units M x q)))"

lemma of_iface_Some: "h p = Some m \<Longrightarrow> of_iface h iface p \<longleftrightarrow> msc_iface m = iface"
  by (simp add: of_iface_def)

lemma drop_disks_ok:
  assumes "unmount_env K M" "msc_chain (msc_heap (uc_world s)) (g_msc_list (uc_world s)) (ds @ ps)" "distinct (ds @ ps)"
    "msc_chain (msc_heap (uc_world s)) p ps"
    "\<forall>q \<in> set ps. \<forall>m. msc_heap (uc_world s) q = Some m \<longrightarrow> 0 \<le> drv_no m \<and> drv_no m < int (length (g_fat_drv_used (uc_world s)))"
    "disks_held K M ps (uc_mem s)"
  shows "run_ok (drop_disks M iface p) (\<lambda>u s'. disks_gone iface ds ps (uc_world s) (uc_world s') \<and>
    disks_freed K M (filter (of_iface (msc_heap (uc_world s)) iface) ps) (uc_mem s) (uc_mem s')) s"
  using assms(2-6)
proof (induction ps arbitrary: ds p s)
  case Nil
  then show ?case unfolding run_ok_def by (subst drop_disks.simps) (simp add: disks_gone_def drives_def disks_freed_def disks_held_def)
next
  case (Cons q ps)
  let ?h = "msc_heap (uc_world s)"
  obtain m where m: "?h q = Some m" "p = q" "q \<noteq> 0" "msc_chain ?h (msc_next m) ps"
    using Cons.prems(3) by (auto split: option.splits)
  show ?case
  proof (cases "msc_iface m = iface")
    case False
    have "run_ok (drop_disks M iface (msc_next m)) (\<lambda>u s'. disks_gone iface (ds @ [q]) ps (uc_world s) (uc_world s') \<and>
      disks_freed K M (filter (of_iface ?h iface) ps) (uc_mem s) (uc_mem s')) s"
      by (rule Cons.IH) (use Cons.prems m(4) in \<open>auto simp: disks_held_def\<close>)
    then obtain s' where s': "drop_disks M iface (msc_next m) s = Some (Inr ((), s'))"
      "disks_gone iface (ds @ [q]) ps (uc_world s) (uc_world s')"
      "disks_freed K M (filter (of_iface ?h iface) ps) (uc_mem s) (uc_mem s')" by (auto simp: run_ok_def)
    have "drop_disks M iface p s = Some (Inr ((), s'))"
      using m(1-3) False s'(1) by (subst drop_disks.simps) (simp add: comp_run)
    then show ?thesis using s'(2,3) False m(1) unfolding run_ok_def by (auto simp: disks_gone_def of_iface_Some)
  next
    case True
    obtain s1 where s1: "thenC (fatfs_drive_free M (drv_no m)) (thenC (msc_list_remove q) (free_msc M q)) s = Some (Inr ((), s1))"
      "msc_chain (msc_heap (uc_world s1)) (g_msc_list (uc_world s1)) (ds @ ps)"
      "g_fat_drv_used (uc_world s1) = (g_fat_drv_used (uc_world s))[nat (drv_no m) := 0]" "msc_heap (uc_world s1) q = None"
      "\<forall>p. p \<noteq> q \<longrightarrow> map_option (\<lambda>m. (msc_iface m, drv_no m)) (msc_heap (uc_world s1) p) =
        map_option (\<lambda>m. (msc_iface m, drv_no m)) (?h p)"
      "\<forall>p \<in> set ps. msc_heap (uc_world s1) p = ?h p" "disks_held K M ps (uc_mem s1)"
      "dma_mem_pool (uc_mem s1) = dma_mem_pool (uc_mem s)"
      "\<forall>j \<in> K. j < 128 \<longrightarrow> (dma_unit_used (uc_mem s1) ! j \<longleftrightarrow> dma_unit_used (uc_mem s) ! j \<and> j \<notin> disk_units M (uc_mem s) q)"
      using drop_disk_ok[OF assms(1) Cons.prems(1,2) m(1) _ _ Cons.prems(5)] Cons.prems(4) m(1) by (auto simp: run_ok_def)
    have f: "filter (of_iface (msc_heap (uc_world s1)) iface) ps = filter (of_iface ?h iface) ps"
      "filter (\<lambda>p. \<not> of_iface (msc_heap (uc_world s1)) iface p) ps = filter (\<lambda>p. \<not> of_iface ?h iface p) ps"
      using s1(6) by (auto simp: of_iface_def intro!: filter_cong)
    have "run_ok (drop_disks M iface (msc_next m)) (\<lambda>u s'. disks_gone iface ds ps (uc_world s1) (uc_world s') \<and>
      disks_freed K M (filter (of_iface ?h iface) ps) (uc_mem s1) (uc_mem s')) s1"
      unfolding f(1)[symmetric]
      by (rule Cons.IH) (use Cons.prems s1 m(4) msc_chain_cong[of ps "msc_heap (uc_world s1)" ?h] in auto)
    then obtain s' where s': "drop_disks M iface (msc_next m) s1 = Some (Inr ((), s'))"
      "disks_gone iface ds ps (uc_world s1) (uc_world s')"
      "disks_freed K M (filter (of_iface ?h iface) ps) (uc_mem s1) (uc_mem s')" by (auto simp: run_ok_def)
    have eq: "drop_disks M iface p s = Some (Inr ((), s'))"
      using m(1-3) True s'(1) s1(1) by (subst drop_disks.simps) simp
    have d: "drives (msc_heap (uc_world s1)) (filter (of_iface ?h iface) ps) = drives ?h (filter (of_iface ?h iface) ps)"
      unfolding drives_def using s1(6) by (intro map_cong) auto
    note g = s'(2)[unfolded disks_gone_def f d]
    have q: "of_iface ?h iface q" using True m(1) by (simp add: of_iface_Some)
    have "disks_gone iface ds (q # ps) (uc_world s) (uc_world s')"
      unfolding disks_gone_def
    proof (intro conjI allI)
      fix r
      have "of_iface (msc_heap (uc_world s1)) iface r = of_iface ?h iface r" if "r \<in> set ps"
        using s1(6) that by (simp add: of_iface_def)
      moreover have "map_option msc_place (msc_heap (uc_world s1) r) = map_option msc_place (?h r)" if "r \<noteq> q"
        using s1(5) that by (simp add: msc_place_def[abs_def])
      moreover have "map_option msc_place (msc_heap (uc_world s') r) =
        (if r \<in> set ps \<and> of_iface (msc_heap (uc_world s1)) iface r then None else map_option msc_place (msc_heap (uc_world s1) r))"
        using g by blast
      ultimately show "map_option msc_place (msc_heap (uc_world s') r) =
        (if r \<in> set (q # ps) \<and> of_iface ?h iface r then None else map_option msc_place (?h r))"
        using q s1(4) by (cases "r = q") auto
    qed (use g q s1(3) m(1) in \<open>simp_all add: drives_def\<close>)
    moreover have "disks_freed K M (filter (of_iface ?h iface) (q # ps)) (uc_mem s) (uc_mem s')"
      using s'(3) s1(8,9) q by (auto simp: disks_freed_def disk_units_def dma_block_def)
    ultimately show ?thesis using eq by (simp add: run_ok_def)
  qed
qed

end
