(* ===== verification/Msc_Props.thy ===== *)
theory Msc_Props
  imports Msc_List Usb_Core_Props
begin

text \<open>
  The properties of the mass storage driver: sector access against the disk of the specification, the
  requests of bulk transfers, and the removal of disks. The witnesses run with a controller that
  carries every transfer at once.
\<close>

section \<open>Sector access\<close>

lemma chunks:
  assumes "length bs = 512 * n"
  shows "concat (map (\<lambda>k. take 512 (drop (512 * (k - lba)) bs)) [lba..<lba + n]) = bs"
proof -
  have "concat (map (\<lambda>k. take 512 (drop (512 * (k - lba)) bs)) [lba..<lba + j]) = take (512 * j) bs" if "j \<le> n" for j
    using that
  proof (induction j)
    case (Suc j)
    have "take (512 * Suc j) bs = take (512 * j) bs @ take 512 (drop (512 * j) bs)"
      using take_add[of "512 * j" 512 bs] by (simp add: add.commute)
    then show ?case using Suc by simp
  qed simp
  then show ?thesis using assms by simp
qed

lemma sectors_stored:
  assumes "length bs = 512 * n"
  shows "sectors (d\<lparr>dk_sectors := store_sectors lba n bs f\<rparr>) lba n = bs"
proof -
  have "map (store_sectors lba n bs f) [lba..<lba + n] = map (\<lambda>k. take 512 (drop (512 * (k - lba)) bs)) [lba..<lba + n]"
    by (rule map_cong) (simp_all add: store_sectors_def)
  from arg_cong[OF this, of concat] show ?thesis unfolding chunks[OF assms] by (simp add: sectors_def)
qed

lemma stored_sector_length:
  assumes "length bs = 512 * n" "length (f k) = 512"
  shows "length (store_sectors lba n bs f k) = 512"
proof (cases "lba \<le> k \<and> k < lba + n")
  case True
  then have "Suc (k - lba) \<le> n" by arith
  then have "512 * Suc (k - lba) \<le> length bs" unfolding assms(1) by (rule mult_le_mono2)
  then have "512 \<le> length (drop (512 * (k - lba)) bs)" by simp
  then show ?thesis using True by (simp add: store_sectors_def)
next
  case False
  then show ?thesis using assms(2) by (simp only: store_sectors_def if_False)
qed

lemma ram_store_nth:
  assumes "i < length bs" "length bs < 2 ^ 64"
  shows "ram_store a bs r (a + word_of_nat i) = bs ! i"
proof -
  have "unat (word_of_nat i :: u64) = i" using assms by (simp add: unsigned_of_nat take_bit_nat_eq_self)
  then show ?thesis using assms(1) by (simp add: ram_store_def)
qed

section \<open>A concrete disk\<close>

text \<open>
  The controller of the witnesses carries every bulk transfer at once; a clock, the second component of
  the rest of the world, ticks with every poll.
\<close>

definition carry_now :: "u64 \<Rightarrow> u64 \<Rightarrow> u64 \<Rightarrow> (disk \<times> nat) msc_world ucore \<Rightarrow> int \<times> (disk \<times> nat) msc_world ucore" where
  "carry_now epi epo utr s = (case utr_heap (uc_mem s) utr of None \<Rightarrow> (- 1, s)
   | Some u \<Rightarrow> (0, s\<lparr>uc_mem := (uc_mem s)\<lparr>utr_heap := (utr_heap (uc_mem s))(utr \<mapsto> u\<lparr>utr_bIsTransferDone := 1, utr_status := 0\<rparr>)\<rparr>,
       uc_world := carry epi epo (utr_ep u) (utr_buff u) (unat (utr_data_len u)) (uc_world s)\<rparr>))"

definition tick :: "(disk \<times> nat) msc_world ucore \<Rightarrow> (disk \<times> nat) msc_world ucore" where
  "tick s = s\<lparr>uc_world := (uc_world s)\<lparr>msc_rest := map_prod id Suc (msc_rest (uc_world s))\<rparr>\<rparr>"

definition disk_env :: "(u64 \<Rightarrow> (disk \<times> nat) msc_world ucore \<Rightarrow> int \<times> (disk \<times> nat) msc_world ucore) \<Rightarrow> (disk \<times> nat) msc_world usb_env" where
  "disk_env bulk = base_env (\<lambda>utr s. (- 1, s)) bulk tick (\<lambda>s. snd (msc_rest (uc_world s)))"

definition disk_drv :: "(u64 \<Rightarrow> (disk \<times> nat) msc_world ucore \<Rightarrow> int \<times> (disk \<times> nat) msc_world ucore) \<Rightarrow> (disk \<times> nat) msc_env" where
  "disk_drv bulk = \<lparr>me_usb = disk_env bulk, me_f_mount = (\<lambda>p drv s. s), me_sizeof_MSC = 1024, me_driver = 0x6000,
     me_bulk_xfer_done = 0x7000\<rparr>"

lemma disk_env_sel [simp]:
  "me_usb (disk_drv bulk) = disk_env bulk" "me_f_mount (disk_drv bulk) = (\<lambda>p drv s. s)"
  "ue_bulk_xfer (disk_env bulk) = (\<lambda>hc. bulk)" "ue_ctrl_xfer (disk_env bulk) = (\<lambda>hc utr s. (- 1, s))"
  "ue_quit_xfer (disk_env bulk) = (\<lambda>hc utr ep s. (0, s))" "ue_poll (disk_env bulk) = tick"
  "ue_ticks (disk_env bulk) = (\<lambda>s. word_of_nat (snd (msc_rest (uc_world s))))"
  by (simp_all add: disk_env_def disk_drv_def)

lemma quiet_tick [simp]: "quiet s (tick s)"
  by (simp add: tick_def)

lemma disk_env_carries: "carries epi epo (disk_env (carry_now epi epo))"
  unfolding carries_def disk_env_sel
proof (intro allI impI)
  fix hc utr u timeout and s :: "(disk \<times> nat) msc_world ucore"
  assume "utr_heap (uc_mem s) utr = Some u"
  moreover define s1 where "s1 = snd (carry_now epi epo utr s)"
  moreover define w where "w = carry epi epo (utr_ep u) (utr_buff u) (unat (utr_data_len u)) (uc_world s)"
  ultimately have s1: "carry_now epi epo utr s = (0, s1)" "uc_world s1 = w" "quiet s s1"
    "utr_heap (uc_mem s1) utr = Some (u\<lparr>utr_bIsTransferDone := 1, utr_status := 0\<rparr>)"
    by (simp_all add: carry_now_def quiet_def)
  have "same_world w (uc_world (tick s1))"
    unfolding same_world_def tick_def using s1(2) by (auto intro!: exI[of _ "Suc (snd (msc_rest w))"] simp: map_prod_def split: prod.split)
  moreover have "utr_heap (uc_mem (tick s1)) utr = Some (u\<lparr>utr_bIsTransferDone := 1, utr_status := 0\<rparr>)"
    using s1(4) by (simp add: tick_def)
  moreover have "quiet s (tick s1)" using s1(3) quiet_tick by (rule quiet.trans)
  moreover have "utr_wait (disk_env (carry_now epi epo)) utr t0 timeout s1 = Some (Inr (True, tick s1))" for t0
    using s1(4) by (subst utr_wait.simps) (simp add: tick_def)
  ultimately show "0 \<le> fst (carry_now epi epo utr s) \<and> (\<exists>u' s'. utr_wait (disk_env (carry_now epi epo)) utr
      (word_of_nat (snd (msc_rest (uc_world (snd (carry_now epi epo utr s)))))) timeout (snd (carry_now epi epo utr s)) =
        Some (Inr (True, s')) \<and> quiet s s' \<and> utr_heap (uc_mem s') utr = Some u' \<and> utr_status u' = 0 \<and>
        same_world (carry epi epo (utr_ep u) (utr_buff u) (unat (utr_data_len u)) (uc_world s)) (uc_world s'))"
    using s1(1) by (auto simp: w_def)
qed

text \<open>A device with one interface and one disk of 64 sectors, the drive 0.\<close>

abbreviation disk_msc :: u64 where "disk_msc \<equiv> dma_block boot_mem 5"
abbreviation disk_iface :: u64 where "disk_iface \<equiv> 0x50000"

definition disk_obj :: MSC_T where
  "disk_obj = MSC_zero\<lparr>msc_iface := disk_iface, ep_bulk_in := Some (0, 0), ep_bulk_out := Some (0, 1)\<rparr>"

definition disk_core :: "(disk \<times> nat) msc_world ucore" where
  "disk_core = \<lparr>uc_mem = (dma_taken 5 1 (uc_mem keyboard_core))\<lparr>udev_heap := [0x3000 \<mapsto> idle_udev\<lparr>ud_cfd_buff := idle_dev\<rparr>]\<rparr>,
     uc_ifaces = [disk_iface \<mapsto> iface_image 0x3000 9 0 [keyboard_alt]], uc_drivers = 0x1000 # 0x6000 # replicate 6 0,
     uc_conn_func = 0, uc_disconn_func = 0,
     uc_world = \<lparr>g_msc_list = disk_msc, msc_heap = [disk_msc \<mapsto> disk_obj], g_fat_drv_used = [1, 0, 0, 0, 0], msc_tag = 1,
       msc_ram = (\<lambda>a. ucast a), msc_rest = (\<lparr>dk_size = 64, dk_sectors = (\<lambda>k. replicate 512 0), dk_phase = Ready\<rparr>, 0)\<rparr>\<rparr>"

abbreviation disk_epi :: u64 where "disk_epi \<equiv> aif_ep_addr disk_iface 0 0"
abbreviation disk_epo :: u64 where "disk_epo \<equiv> aif_ep_addr disk_iface 0 1"

lemma disk_msc_ne [simp]: "disk_msc \<noteq> 0" "disk_msc \<noteq> 4060" "disk_msc \<noteq> 8124" "disk_msc \<noteq> 8108"
proof -
  have "uint (addr_s disk_msc) = 0x80101400" by (simp add: dma_block_def boot_mem_def usbh_memory_init_def uint_addr_s)
  then show "disk_msc \<noteq> 0" "disk_msc \<noteq> 4060" "disk_msc \<noteq> 8124" "disk_msc \<noteq> 8108" by (auto simp: uint_addr_s)
qed

lemma disk_core_mem: "mem_wf (uc_mem disk_core)" "free_run (dma_unit_used (uc_mem disk_core)) 4 1"
proof -
  have "mem_wf (uc_mem keyboard_core)" using idle_taken_wf[of 4] by (simp add: keyboard_core_def mem_wf_def)
  moreover have "free_run (dma_unit_used (uc_mem keyboard_core)) 5 1"
    by (auto simp: keyboard_core_def free_run_def boot_mem_def usbh_memory_init_def nth_append split: if_splits)
  ultimately show "mem_wf (uc_mem disk_core)" using mem_wf_dma_taken[of "uc_mem keyboard_core" 5 1] by (simp add: disk_core_def mem_wf_def)
  show "free_run (dma_unit_used (uc_mem disk_core)) 4 1"
    by (auto simp: disk_core_def keyboard_core_def free_run_def boot_mem_def usbh_memory_init_def nth_append split: if_splits)
qed

lemma disk_core_ready: "drive_ready disk_epi disk_epo 0 disk_msc disk_core"
proof -
  have "disk_epi \<noteq> disk_epo" by (simp add: aif_ep_addr_def)
  then have "disk_ready disk_epi disk_epo disk_msc disk_core"
    using disk_core_mem unfolding disk_ready_def
    by (auto simp: disk_core_def disk_obj_def iface_image_def idle_udev_def)
  then show ?thesis unfolding drive_ready_def
    by (auto simp: disk_core_def disk_obj_def MSC_zero_def has_drive_def intro!: exI[of _ "[]"])
qed

section \<open>Properties of sector access\<close>



section \<open>Requests of bulk transfers\<close>

definition bulk_quiet :: "'w usb_env \<Rightarrow> bool" where
  "bulk_quiet E \<longleftrightarrow> (\<forall>hc utr s. quiet s (snd (ue_bulk_xfer E hc utr s)))"

text \<open>From the submission of a request until it is given back; \<open>s0\<close> is the state before its allocation.\<close>

lemma bulk_await_ok:
  assumes env: "xfer_env E" "clock_runs E" "timeout \<le> 2000"
    and p: "p \<in> dma_live (uc_mem s)" "utr_heap (uc_mem s) p = Some u" "utr_udev u = udev"
    and d: "udev_heap (uc_mem s) udev = Some d" "ud_hc_driver d \<noteq> 0"
    and rel: "\<And>s2. quiet s s2 \<Longrightarrow> quiet s0 (s2\<lparr>uc_mem := free_utr p (uc_mem s2)\<rparr>)"
  shows "run_ok (bindC (getC (ue_ticks E)) (\<lambda>t0. bindC (utr_wait E p t0 timeout) (\<lambda>finished.
     if \<not> finished then thenC (usbh_quit_utr E p) (thenC (mem_doC (free_utr p)) (retC USBH_ERR_TIMEOUT))
     else bindC (get_utr p) (\<lambda>u. thenC (mem_doC (free_utr p)) (retC (utr_status u)))))) (\<lambda>ret s'. quiet s0 s') s"
proof -
  obtain n where "timeout < ue_ticks E ((ue_poll E ^^ Suc n) s) - ue_ticks E s"
    using env(2,3) unfolding clock_runs_def by blast
  then have w: "run_ok (utr_wait E p (ue_ticks E s) timeout) (\<lambda>b s'. quiet s s') s"
    by (rule utr_wait_returns[OF env(1) p(1,2)])
  show ?thesis unfolding run_ok_bind run_ok_basic
  proof (rule run_ok_mono[OF w])
    fix b s3
    assume q: "quiet s s3"
    obtain u' where u': "utr_heap (uc_mem s3) p = Some u'" "utr_udev u' = udev"
      using quiet_utr[OF q p(1,2)] p(3) by metis
    obtain d' where d': "udev_heap (uc_mem s3) udev = Some d'" "ud_hc_driver d' \<noteq> 0"
      using quiet_udev[OF q d(1)] d(2) ud_core_hc by metis
    have quit: "run_ok (usbh_quit_utr E p) (\<lambda>x s'. quiet s3 s') s3"
      by (rule usbh_quit_utr_ok[OF env(1) u'(1)]) (use d' u' in auto)
    show "run_ok (if \<not> b then thenC (usbh_quit_utr E p) (thenC (mem_doC (free_utr p)) (retC USBH_ERR_TIMEOUT))
       else bindC (get_utr p) (\<lambda>u. thenC (mem_doC (free_utr p)) (retC (utr_status u)))) (\<lambda>ret s'. quiet s0 s') s3"
      using u' rel[OF q] quit rel[OF quiet.trans[OF q]] by (auto elim!: run_ok_mono)
  qed
qed

text \<open>
  C16. A bulk transfer returns, whatever the device does, when the clock runs. A request that the controller
  accepts is given back on every path (completed, failed, timed out): the same blocks, requests,
  addresses, interfaces and devices exist as before. A request that the controller refuses is lost: the
  error is returned, and one unit of the memory pool that was free stays used for ever.
\<close>

theorem msc_bulk_transfer_returns:
  assumes "xfer_env (me_usb M)" "bulk_quiet (me_usb M)" "clock_runs (me_usb M)" "timeout_ticks \<le> 2000"
    "mem_wf (uc_mem s)" "msc_heap (uc_world s) msc = Some m" "uc_ifaces s (msc_iface m) = Some f"
    "udev_heap (uc_mem s) (if_udev f) = Some d" "ud_hc_driver d \<noteq> 0"
  shows "\<exists>ret s'. msc_bulk_transfer M msc ep data_buff data_len timeout_ticks s = Some (Inr (ret, s')) \<and>
    ((\<forall>hc utr s. 0 \<le> fst (ue_bulk_xfer (me_usb M) hc utr s)) \<longrightarrow> quiet s s') \<and>
    ((\<forall>hc utr s. fst (ue_bulk_xfer (me_usb M) hc utr s) < 0) \<longrightarrow> ret < 0 \<and>
      (False \<in> set (dma_unit_used (uc_mem s)) \<longrightarrow> (\<exists>k < nat DMA_MEM_UNIT_NUM. \<not> dma_unit_used (uc_mem s) ! k \<and>
         dma_unit_used (uc_mem s') = (dma_unit_used (uc_mem s))[k := True] \<and> utr_used (uc_mem s') = utr_used (uc_mem s) + 1)))"
  using assms(5)
proof (cases rule: alloc_utr_cases[where udev = "if_udev f"])
  case full
  then have "memC (alloc_utr (if_udev f)) s = Some (Inr (0, s))" by (simp add: memC_def)
  then have "msc_bulk_transfer M msc ep data_buff data_len timeout_ticks s = Some (Inr (USBH_ERR_MEMORY_OUT, s))"
    using assms(6,7) by (simp add: msc_bulk_transfer_def comp_simps get_iface_def)
  moreover have "\<not> False \<in> set (dma_unit_used (uc_mem s))"
  proof
    assume "False \<in> set (dma_unit_used (uc_mem s))"
    then obtain j where "j < length (dma_unit_used (uc_mem s))" "\<not> dma_unit_used (uc_mem s) ! j" by (auto simp: in_set_conv_nth)
    then have "free_run (dma_unit_used (uc_mem s)) (int j) 1" using assms(5)
      by (auto simp: free_run_def mem_wf_def intro: subst[of j])
    then show False using alloc_utr_full[OF assms(5) full] by blast
  qed
  ultimately show ?thesis using quiet.refl[of s] by auto
next
  case (taken k)
  let ?p = "dma_block (uc_mem s) k" and ?E = "me_usb M"
  define u where "u = UTR_zero\<lparr>utr_udev := if_udev f,
    utr_ep := (case ep of None \<Rightarrow> 0 | Some (x, i) \<Rightarrow> aif_ep_addr (msc_iface m) x i), utr_buff := data_buff, utr_data_len := data_len,
    utr_xfer_len := 0, utr_func := me_bulk_xfer_done M, utr_bIsTransferDone := 0\<rparr>"
  define m1 where "m1 = (dma_taken k 1 (uc_mem s))\<lparr>utr_used := utr_used (uc_mem s) + 1,
    utr_heap := (utr_heap (uc_mem s))(?p \<mapsto> u)\<rparr>"
  let ?s = "s\<lparr>uc_mem := m1\<rparr>"
  let ?c = "ue_bulk_xfer ?E (ud_hc_driver d) ?p ?s"
  let ?rest = "bindC (getC (ue_ticks ?E)) (\<lambda>t0. bindC (utr_wait ?E ?p t0 timeout_ticks) (\<lambda>finished.
     if \<not> finished then thenC (usbh_quit_utr ?E ?p) (thenC (mem_doC (free_utr ?p)) (retC USBH_ERR_TIMEOUT))
     else bindC (get_utr ?p) (\<lambda>u. thenC (mem_doC (free_utr ?p)) (retC (utr_status u)))))"
  note br = utr_bracket[OF assms(5) taken(2) refl m1_def]
  have p: "?p \<noteq> 0" "?p \<in> dma_live (uc_mem ?s)" "utr_heap (uc_mem ?s) ?p = Some u" "utr_udev u = if_udev f"
    using br(2)[OF quiet.refl] by (simp_all add: m1_def u_def) (simp_all add: dma_block_def)
  have d1: "udev_heap (uc_mem ?s) (if_udev f) = Some d" using assms(8) by (simp add: m1_def)
  have q: "quiet ?s (snd ?c)" using assms(2) by (simp add: bulk_quiet_def)
  obtain u' where u': "utr_heap (uc_mem (snd ?c)) ?p = Some u'" "utr_udev u' = if_udev f"
    using quiet_utr[OF q p(2,3)] p(4) by metis
  obtain d' where d': "udev_heap (uc_mem (snd ?c)) (if_udev f) = Some d'" "ud_hc_driver d' \<noteq> 0"
    using quiet_udev[OF q d1] assms(9) ud_core_hc by metis
  have live: "?p \<in> dma_live (uc_mem (snd ?c))" using quiet_live[OF q] p(2) by simp
  have await: "run_ok ?rest (\<lambda>ret s'. quiet s s') (snd ?c)"
    by (rule bulk_await_ok[OF assms(1,3,4) live u' d']) (rule br(1)[OF quiet.trans[OF q]])
  have "memC (alloc_utr (if_udev f)) s = Some (Inr (?p, s\<lparr>uc_mem := (dma_taken k 1 (uc_mem s))\<lparr>
      utr_heap := (utr_heap (uc_mem s))(?p \<mapsto> UTR_zero\<lparr>utr_udev := if_udev f\<rparr>), utr_used := utr_used (uc_mem s) + 1\<rparr>\<rparr>))"
    using taken(1) by (simp add: memC_def)
  then have run: "msc_bulk_transfer M msc ep data_buff data_len timeout_ticks s =
      (if fst ?c < 0 then retC (fst ?c) else ?rest) (snd ?c)"
    using p(1) assms(6,7,9) d1 unfolding msc_bulk_transfer_def
    by (cases ?c) (simp add: comp_simps upd_utr_def get_utr_def hc_of_def get_udev_def get_iface_def usbh_bulk_xfer_def m1_def u_def)
  show ?thesis
  proof (cases "fst ?c < 0")
    case True
    have "nat k < nat DMA_MEM_UNIT_NUM" "\<not> dma_unit_used (uc_mem s) ! nat k"
      "dma_unit_used (uc_mem (snd ?c)) = (dma_unit_used (uc_mem s))[nat k := True]" "utr_used (uc_mem (snd ?c)) = utr_used (uc_mem s) + 1"
      using taken(2) q assms(5) free_runD[OF taken(2), of "nat k"] by (auto simp: free_run_def quiet_def m1_def mem_wf_def)
    moreover have "msc_bulk_transfer M msc ep data_buff data_len timeout_ticks s = Some (Inr (fst ?c, snd ?c))"
      using True run by (simp add: comp_simps)
    ultimately show ?thesis using True by (intro exI[of _ "fst ?c"] exI[of _ "snd ?c"]) (auto simp: not_le[symmetric])
  next
    case False
    then have "\<not> (\<forall>hc utr s. fst (ue_bulk_xfer ?E hc utr s) < 0)" by blast
    moreover obtain ret s' where "?rest (snd ?c) = Some (Inr (ret, s'))" "quiet s s'" using await unfolding run_ok_def by auto
    ultimately show ?thesis using run False by auto
  qed
qed

text \<open>The controller of this witness refuses every bulk transfer: a unit of the pool is lost.\<close>

lemma disk_env_clock: "clock_runs (disk_env bulk)"
  unfolding disk_env_def by (rule base_clock) (simp add: tick_def)

theorem msc_bulk_transfer_returns_witness:
  "\<exists>ret s'. msc_bulk_transfer (disk_drv (\<lambda>utr s. (- 8, s))) disk_msc (Some (0, 1)) 0x1000 512 2000 disk_core = Some (Inr (ret, s')) \<and>
    ret < 0 \<and> utr_used (uc_mem s') = utr_used (uc_mem disk_core) + 1"
proof -
  let ?M = "disk_drv (\<lambda>utr s. (- 8, s))"
  have "xfer_env (me_usb ?M)" "bulk_quiet (me_usb ?M)" by (simp_all add: xfer_env_def bulk_quiet_def quiet.refl)
  moreover have "False \<in> set (dma_unit_used (uc_mem disk_core))"
    using disk_core_mem free_runD[OF disk_core_mem(2), of 4] by (auto simp: in_set_conv_nth free_run_def intro!: exI[of _ 4])
  moreover have "msc_heap (uc_world disk_core) disk_msc = Some disk_obj" "msc_iface disk_obj = disk_iface"
    "uc_ifaces disk_core disk_iface = Some (iface_image 0x3000 9 0 [keyboard_alt])"
    "udev_heap (uc_mem disk_core) (if_udev (iface_image 0x3000 9 0 [keyboard_alt])) = Some (idle_udev\<lparr>ud_cfd_buff := idle_dev\<rparr>)"
    by (simp_all add: disk_core_def disk_obj_def iface_image_def)
  ultimately show ?thesis
    using msc_bulk_transfer_returns[of ?M 2000 disk_core disk_msc disk_obj _ "idle_udev\<lparr>ud_cfd_buff := idle_dev\<rparr>" "Some (0, 1)" "0x1000" 512]
      disk_env_clock[of "\<lambda>utr s. (- 8, s)"] disk_core_mem(1)
    by (auto simp: idle_udev_def)
qed

section \<open>Removal of disks\<close>

lemma quit_eps_ok:
  assumes "unmount_env K M" "udev_heap (uc_mem s) udev = Some d" "ud_hc_driver d \<noteq> 0"
  shows "run_ok (quit_eps M udev iface aif n i) (\<lambda>u s'. world_vars (uc_world s) (uc_world s') \<and> units_kept K (uc_mem s) (uc_mem s')) s"
  using assms(2,3)
proof (induction n arbitrary: i s d)
  case (Suc n)
  let ?s = "snd (ue_quit_xfer (me_usb M) (ud_hc_driver d) 0 (aif_ep_addr iface aif i) s)"
  have "map_option ud_hc_driver (udev_heap (uc_mem ?s) udev) = Some (ud_hc_driver d)" and w: "world_vars (uc_world s) (uc_world ?s)" "units_kept K (uc_mem s) (uc_mem ?s)"
    using assms(1) Suc.prems(1) by (simp_all add: unmount_env_def)
  then obtain d' where "udev_heap (uc_mem ?s) udev = Some d'" "ud_hc_driver d' \<noteq> 0" using Suc.prems(2) by auto
  from Suc.IH[OF this] have "run_ok (quit_eps M udev iface aif n (Suc i))
      (\<lambda>u s'. world_vars (uc_world s) (uc_world s') \<and> units_kept K (uc_mem s) (uc_mem s')) ?s"
    by (rule run_ok_mono) (use w units_kept_trans[OF w(2)] in \<open>auto simp: world_vars_def\<close>)
  then show ?case using Suc.prems by (simp add: hc_of_def)
qed (simp add: world_vars_def)

text \<open>
  C17. \<open>msc_disconnect\<close> of an interface returns without a fault: the disks of this interface
  and no others are out of the list, the disks of other interfaces stay in their order
  with their interface and drive, and the drives of the removed disks and no others are free for
  the next disk. The memory of the removed disks is given back: of the units that the file system and the controller leave
  alone exactly those of the removed disks are free again, and the memory manager is consistent, so that its counter is
  the number of units in use.
\<close>

theorem msc_disconnect_removes:
  assumes "unmount_env K M" "uc_ifaces s iface = Some f" "if_aif f < length (if_alt f)"
    "ifd_rd8 (if_udev f) (if_alt f ! if_aif f) 4 s = Some (Inr (bNumEndpoints, s))"
    "udev_heap (uc_mem s) (if_udev f) = Some d" "ud_hc_driver d \<noteq> 0"
    "msc_chain (msc_heap (uc_world s)) (g_msc_list (uc_world s)) ps" "distinct ps"
    "\<forall>q \<in> set ps. \<forall>m. msc_heap (uc_world s) q = Some m \<longrightarrow> 0 \<le> drv_no m \<and> drv_no m < int (length (g_fat_drv_used (uc_world s)))"
    "disks_held K M ps (uc_mem s)"
  shows "\<exists>s'. msc_disconnect M iface s = Some (Inr ((), s')) \<and>
    msc_chain (msc_heap (uc_world s')) (g_msc_list (uc_world s')) (filter (\<lambda>p. \<not> of_iface (msc_heap (uc_world s)) iface p) ps) \<and>
    g_fat_drv_used (uc_world s') = fold (\<lambda>d us. us[d := 0])
      (drives (msc_heap (uc_world s)) (filter (of_iface (msc_heap (uc_world s)) iface) ps)) (g_fat_drv_used (uc_world s)) \<and>
    (\<forall>p. map_option msc_place (msc_heap (uc_world s') p) = (if p \<in> set ps \<and> of_iface (msc_heap (uc_world s)) iface p then None
       else map_option msc_place (msc_heap (uc_world s) p))) \<and>
    mem_wf (uc_mem s') \<and>
    (\<forall>j \<in> K. j < 128 \<longrightarrow> (dma_unit_used (uc_mem s') ! j \<longleftrightarrow> dma_unit_used (uc_mem s) ! j \<and>
       \<not> (\<exists>q \<in> set ps. of_iface (msc_heap (uc_world s)) iface q \<and> j \<in> disk_units M (uc_mem s) q)))"
proof -
  obtain s1 where s1: "quit_eps M (if_udev f) iface (if_aif f) (unat bNumEndpoints) 0 s = Some (Inr ((), s1))"
    "world_vars (uc_world s) (uc_world s1)" "units_kept K (uc_mem s) (uc_mem s1)"
    using quit_eps_ok[OF assms(1,5,6), of iface "if_aif f" "unat bNumEndpoints" 0] unfolding run_ok_def by auto
  have w: "g_msc_list (uc_world s1) = g_msc_list (uc_world s)" "msc_heap (uc_world s1) = msc_heap (uc_world s)"
    "g_fat_drv_used (uc_world s1) = g_fat_drv_used (uc_world s)"
    using s1(2) by (simp_all add: world_vars_def)
  let ?ds = "filter (of_iface (msc_heap (uc_world s)) iface) ps"
  have "run_ok (drop_disks M iface (g_msc_list (uc_world s))) (\<lambda>u s'. disks_gone iface [] ps (uc_world s1) (uc_world s') \<and>
      disks_freed K M (filter (of_iface (msc_heap (uc_world s1)) iface) ps) (uc_mem s1) (uc_mem s')) s1"
    by (rule drop_disks_ok[OF assms(1)]) (use assms(7-9) w disks_held_kept[OF assms(10) s1(3)] in simp_all)
  then obtain s' where s': "drop_disks M iface (g_msc_list (uc_world s)) s1 = Some (Inr ((), s'))"
    "disks_gone iface [] ps (uc_world s1) (uc_world s')" "disks_freed K M ?ds (uc_mem s1) (uc_mem s')"
    unfolding run_ok_def w by auto
  have "msc_disconnect M iface s = Some (Inr ((), s'))"
    using assms(2-4) s1(1) s'(1) w(1) by (simp add: msc_disconnect_def comp_simps get_iface_def nthC_def)
  moreover have "\<forall>j \<in> K. j < 128 \<longrightarrow> (dma_unit_used (uc_mem s') ! j \<longleftrightarrow> dma_unit_used (uc_mem s) ! j \<and>
      \<not> (\<exists>q \<in> set ps. of_iface (msc_heap (uc_world s)) iface q \<and> j \<in> disk_units M (uc_mem s) q))"
    using s'(3) s1(3) unfolding disks_freed_def disk_units_kept[OF s1(3)] units_kept_def by auto
  moreover have "mem_wf (uc_mem s')" using s'(3) by (simp add: disks_freed_def)
  ultimately show ?thesis using s'(2) by (auto simp: disks_gone_def w)
qed

lemma disk_core_held: "disks_held UNIV (disk_drv bulk) [disk_msc] (uc_mem disk_core)" "disk_units (disk_drv bulk) (uc_mem disk_core) disk_msc = {5}"
proof -
  have n: "msc_units (disk_drv bulk) = 1" "me_sizeof_MSC (disk_drv bulk) = 1024" by (simp_all add: msc_units_def disk_drv_def units_for_def c_div_def)
  have blk: "disk_msc = dma_block (uc_mem disk_core) 5" by (simp add: disk_core_def keyboard_core_def dma_block_def)
  have "used_run (dma_unit_used (uc_mem disk_core)) 5 1" by (simp add: used_run_1 disk_core_def keyboard_core_def)
  then show "disks_held UNIV (disk_drv bulk) [disk_msc] (uc_mem disk_core)"
    using disk_core_mem(1) n blk by (auto simp: disks_held_def disk_held_def)
  show "disk_units (disk_drv bulk) (uc_mem disk_core) disk_msc = {5}"
  proof (intro set_eqI)
    fix j
    have "j \<in> disk_units (disk_drv bulk) (uc_mem disk_core) (dma_block (uc_mem disk_core) 5) \<longleftrightarrow> j < 128 \<and> 5 \<le> int j \<and> int j < 5 + 1"
      using disk_units_block[OF disk_core_mem(1), of 5 j "disk_drv bulk"] n(1) by simp
    then show "j \<in> disk_units (disk_drv bulk) (uc_mem disk_core) disk_msc \<longleftrightarrow> j \<in> {5}" unfolding blk by auto
  qed
qed

theorem msc_disconnect_removes_witness:
  "\<exists>s'. msc_disconnect (disk_drv (\<lambda>utr s. (- 8, s))) disk_iface disk_core = Some (Inr ((), s')) \<and>
    g_msc_list (uc_world s') = 0 \<and> g_fat_drv_used (uc_world s') = [0, 0, 0, 0, 0] \<and> msc_heap (uc_world s') disk_msc = None \<and>
    dma_unit_used (uc_mem disk_core) ! 5 \<and> \<not> dma_unit_used (uc_mem s') ! 5 \<and> dma_unit_used (uc_mem s') ! 3"
proof -
  let ?M = "disk_drv (\<lambda>utr s. (- 8, s))"
  let ?f = "iface_image 0x3000 9 0 [keyboard_alt]"
  have "unmount_env UNIV ?M" by (simp add: unmount_env_def world_vars_def)
  moreover have "\<exists>n. ifd_rd8 0x3000 (if_alt ?f ! 0) 4 disk_core = Some (Inr (n, disk_core))"
    by (simp add: ifd_rd8_def iface_image_def alt_array_def alt_image_def comp_simps get_udev_def disk_core_def cfd_rd8_def sumC_def)
  moreover have "if_udev ?f = 0x3000" "if_aif ?f = 0" "0 < length (if_alt ?f)"
    by (simp_all add: iface_image_def alt_array_def)
  moreover have "msc_chain (msc_heap (uc_world disk_core)) (g_msc_list (uc_world disk_core)) [disk_msc]"
    "uc_ifaces disk_core disk_iface = Some ?f" "udev_heap (uc_mem disk_core) 0x3000 = Some (idle_udev\<lparr>ud_cfd_buff := idle_dev\<rparr>)"
    "msc_heap (uc_world disk_core) = [disk_msc \<mapsto> disk_obj]" "g_fat_drv_used (uc_world disk_core) = [1, 0, 0, 0, 0]"
    by (simp_all add: disk_core_def disk_obj_def MSC_zero_def)
  moreover have "drv_no disk_obj = 0" and i: "msc_iface disk_obj = disk_iface" by (simp_all add: disk_obj_def MSC_zero_def)
  moreover have used: "dma_unit_used (uc_mem disk_core) ! 5" "dma_unit_used (uc_mem disk_core) ! 3" by (simp_all add: disk_core_def keyboard_core_def)
  ultimately obtain s' where s': "msc_disconnect ?M disk_iface disk_core = Some (Inr ((), s'))" "g_msc_list (uc_world s') = 0"
    "g_fat_drv_used (uc_world s') = [0, 0, 0, 0, 0]"
    "\<forall>p. map_option msc_place (msc_heap (uc_world s') p) = (if p \<in> set [disk_msc] \<and> of_iface [disk_msc \<mapsto> disk_obj] disk_iface p
       then None else map_option msc_place ([disk_msc \<mapsto> disk_obj] p))"
    "\<forall>j \<in> UNIV. j < 128 \<longrightarrow> (dma_unit_used (uc_mem s') ! j \<longleftrightarrow> dma_unit_used (uc_mem disk_core) ! j \<and>
       \<not> (\<exists>q \<in> set [disk_msc]. of_iface [disk_msc \<mapsto> disk_obj] disk_iface q \<and> j \<in> disk_units ?M (uc_mem disk_core) q))"
    using msc_disconnect_removes[of UNIV ?M disk_core disk_iface ?f _ "idle_udev\<lparr>ud_cfd_buff := idle_dev\<rparr>" "[disk_msc]"]
      disk_core_held(1)
    by (auto simp: idle_udev_def of_iface_def drives_def)
  from s'(4)[rule_format, of disk_msc] i have "msc_heap (uc_world s') disk_msc = None" by (simp add: of_iface_def)
  moreover have "\<not> dma_unit_used (uc_mem s') ! 5" "dma_unit_used (uc_mem s') ! 3"
    using s'(5) used i by (auto simp: disk_core_held(2) of_iface_def)
  ultimately show ?thesis using s'(1-3) used(1) by blast
qed

end
