(* ===== verification/I2c.thy ===== *)
theory I2c
  imports MA35_Prelude
begin

text \<open>
  Model of the I2C driver \<open>Library/StdDriver/src/i2c.c\<close> with the macros of
  \<open>inc/i2c.h\<close>: the register block, the register-level operations, and the twelve polled master
  transfers.

  The registers are volatile, so the controller appears as an input. A transfer polls
  \<open>SI\<close> and then reads \<open>STATUS0\<close> (and \<open>DAT\<close>); an \<open>i2c_event\<close> says for how many
  polls \<open>SI\<close> stays clear and what the two registers hold when the code reads them. Nothing is
  assumed of these values. A transfer consumes one event per round of its main loop; with the
  events exhausted inside the loop the code is still waiting, which is the result \<open>None\<close>. The final
  loop on \<open>STO\<close> gets the number of polls for which \<open>STO\<close> stays set.

  The state of a transfer holds the locals of the C function, the registers, and a log \<open>bus\<close> of
  the writes to \<open>CTL0\<close> and \<open>DAT\<close> in program order, which is what the code does to the
  bus. \<open>CLK_GetPCLK0Freq()\<close> and \<open>SystemCoreClock\<close> are read from elsewhere and are
  parameters. An access to a caller's buffer outside of it is an \<open>i2c_fault\<close>.
\<close>

section \<open>Registers\<close>

record I2C_T =
  CTL0 :: u32
  ADDR0 :: u32
  DAT :: u32
  STATUS0 :: u32
  CLKDIV :: u32
  TOCTL :: u32
  ADDR1 :: u32
  ADDR2 :: u32
  ADDR3 :: u32
  ADDRMSK0 :: u32
  ADDRMSK1 :: u32
  ADDRMSK2 :: u32
  ADDRMSK3 :: u32
  WKCTL :: u32

abbreviation (input) "I2C_CTL0_SI_Msk \<equiv> (0x08 :: u32)"
abbreviation (input) "I2C_CTL0_STO_Msk \<equiv> (0x10 :: u32)"
abbreviation (input) "I2C_CTL0_STA_Msk \<equiv> (0x20 :: u32)"
abbreviation (input) "I2C_CTL0_I2CEN_Msk \<equiv> (0x40 :: u32)"
abbreviation (input) "I2C_CTL0_INTEN_Msk \<equiv> (0x80 :: u32)"
abbreviation (input) "I2C_TOCTL_TOIF_Msk \<equiv> (0x1 :: u32)"
abbreviation (input) "I2C_TOCTL_TOCDIV4_Msk \<equiv> (0x2 :: u32)"
abbreviation (input) "I2C_TOCTL_TOCEN_Msk \<equiv> (0x4 :: u32)"
abbreviation (input) "I2C_WKCTL_WKEN_Msk \<equiv> (0x1 :: u32)"

abbreviation (input) "I2C_CTL_STA_SI \<equiv> (0x28 :: u8)"
abbreviation (input) "I2C_CTL_STO_SI \<equiv> (0x18 :: u8)"
abbreviation (input) "I2C_CTL_SI \<equiv> (0x08 :: u8)"
abbreviation (input) "I2C_CTL_SI_AA \<equiv> (0x0C :: u8)"
abbreviation (input) "I2C_CTL_STA \<equiv> (0x20 :: u32)"
abbreviation (input) "I2C_CTL_STO \<equiv> (0x10 :: u32)"
abbreviation (input) "I2C_CTL_AA \<equiv> (0x04 :: u32)"
abbreviation (input) "I2C_ERR_TIMEOUT \<equiv> (- 2 :: int)"

section \<open>Register operations\<close>

text \<open>The divider of \<open>I2C_Open\<close> and \<open>I2C_SetBusClockFreq\<close>, in 32-bit arithmetic.\<close>

definition i2c_div :: "u32 \<Rightarrow> u32 \<Rightarrow> u32" where
  "i2c_div u32Pclk u32BusClock = ((u32Pclk * 10) div (u32BusClock * 4) + 5) div 10 - 1"

definition I2C_Open :: "u32 \<Rightarrow> u32 \<Rightarrow> I2C_T \<Rightarrow> u32 \<times> I2C_T" where
  "I2C_Open u32Pclk u32BusClock r =
     (let u32Div = i2c_div u32Pclk u32BusClock;
          r1 = r\<lparr>CLKDIV := u32Div\<rparr>;
          r2 = r1\<lparr>CTL0 := CTL0 r1 OR I2C_CTL0_I2CEN_Msk\<rparr>
      in (u32Pclk div push_bit 2 (u32Div + 1), r2))"

datatype i2c_port = I2C0 | I2C1 | I2C2 | I2C3 | I2C4 | I2C5

text \<open>The bits that \<open>I2C_Close\<close> sets and clears in \<open>SYS->IPRST1\<close>, per port.\<close>

fun i2c_reset_bits :: "i2c_port \<Rightarrow> u32" where
  "i2c_reset_bits I2C0 = 0"
| "i2c_reset_bits I2C1 = 0x200"
| "i2c_reset_bits I2C2 = 0x400"
| "i2c_reset_bits I2C3 = 0x800"
| "i2c_reset_bits I2C4 = 18"
| "i2c_reset_bits I2C5 = 19"

text \<open>The values \<open>SYS->IPRST1\<close> takes one after the other, and the port's registers.\<close>

definition I2C_Close :: "i2c_port \<Rightarrow> u32 \<Rightarrow> I2C_T \<Rightarrow> u32 list \<times> I2C_T" where
  "I2C_Close port iprst1 r =
     (let m = i2c_reset_bits port; v = iprst1 OR m
      in (if port = I2C0 then [] else [v, v AND NOT m],
          r\<lparr>CTL0 := CTL0 r AND NOT I2C_CTL0_I2CEN_Msk\<rparr>))"

definition I2C_ClearTimeoutFlag :: "I2C_T \<Rightarrow> I2C_T" where
  "I2C_ClearTimeoutFlag r = r\<lparr>TOCTL := TOCTL r OR I2C_TOCTL_TOIF_Msk\<rparr>"

definition I2C_Trigger :: "u8 \<Rightarrow> u8 \<Rightarrow> u8 \<Rightarrow> u8 \<Rightarrow> I2C_T \<Rightarrow> I2C_T" where
  "I2C_Trigger u8Start u8Stop u8Si u8Ack r =
     (let u32Reg = 0;
          u32Reg = (if u8Start \<noteq> 0 then u32Reg OR I2C_CTL_STA else u32Reg);
          u32Reg = (if u8Stop \<noteq> 0 then u32Reg OR I2C_CTL_STO else u32Reg);
          u32Reg = (if u8Si \<noteq> 0 then u32Reg OR I2C_CTL0_SI_Msk else u32Reg);
          u32Reg = (if u8Ack \<noteq> 0 then u32Reg OR I2C_CTL_AA else u32Reg)
      in r\<lparr>CTL0 := (CTL0 r AND NOT 0x3C) OR u32Reg\<rparr>)"

definition I2C_DisableInt :: "I2C_T \<Rightarrow> I2C_T" where
  "I2C_DisableInt r = r\<lparr>CTL0 := CTL0 r AND NOT I2C_CTL0_INTEN_Msk\<rparr>"

definition I2C_EnableInt :: "I2C_T \<Rightarrow> I2C_T" where
  "I2C_EnableInt r = r\<lparr>CTL0 := CTL0 r OR I2C_CTL0_INTEN_Msk\<rparr>"

definition I2C_GetBusClockFreq :: "u32 \<Rightarrow> I2C_T \<Rightarrow> u32" where
  "I2C_GetBusClockFreq u32Pclk r = u32Pclk div push_bit 2 (CLKDIV r + 1)"

definition I2C_SetBusClockFreq :: "u32 \<Rightarrow> u32 \<Rightarrow> I2C_T \<Rightarrow> u32 \<times> I2C_T" where
  "I2C_SetBusClockFreq u32Pclk u32BusClock r =
     (let u32Div = i2c_div u32Pclk u32BusClock
      in (u32Pclk div push_bit 2 (u32Div + 1), r\<lparr>CLKDIV := u32Div\<rparr>))"

definition I2C_GetIntFlag :: "I2C_T \<Rightarrow> u32" where
  "I2C_GetIntFlag r = (if CTL0 r AND I2C_CTL0_SI_Msk = I2C_CTL0_SI_Msk then 1 else 0)"

definition I2C_GetStatus :: "I2C_T \<Rightarrow> u32" where
  "I2C_GetStatus r = STATUS0 r"

definition I2C_GetData :: "I2C_T \<Rightarrow> u8" where
  "I2C_GetData r = ucast (DAT r)"

definition I2C_SetData :: "u8 \<Rightarrow> I2C_T \<Rightarrow> I2C_T" where
  "I2C_SetData u8Data r = r\<lparr>DAT := ucast u8Data\<rparr>"

definition I2C_SetSlaveAddr :: "u8 \<Rightarrow> u8 \<Rightarrow> u8 \<Rightarrow> I2C_T \<Rightarrow> I2C_T" where
  "I2C_SetSlaveAddr u8SlaveNo u8SlaveAddr u8GCMode r =
     (let v = push_bit 1 (ucast u8SlaveAddr :: u32) OR ucast u8GCMode
      in if u8SlaveNo = 1 then r\<lparr>ADDR1 := v\<rparr>
         else if u8SlaveNo = 2 then r\<lparr>ADDR2 := v\<rparr>
         else if u8SlaveNo = 3 then r\<lparr>ADDR3 := v\<rparr>
         else r\<lparr>ADDR0 := v\<rparr>)"

definition I2C_SetSlaveAddrMask :: "u8 \<Rightarrow> u8 \<Rightarrow> I2C_T \<Rightarrow> I2C_T" where
  "I2C_SetSlaveAddrMask u8SlaveNo u8SlaveAddrMask r =
     (let v = push_bit 1 (ucast u8SlaveAddrMask :: u32)
      in if u8SlaveNo = 1 then r\<lparr>ADDRMSK1 := v\<rparr>
         else if u8SlaveNo = 2 then r\<lparr>ADDRMSK2 := v\<rparr>
         else if u8SlaveNo = 3 then r\<lparr>ADDRMSK3 := v\<rparr>
         else r\<lparr>ADDRMSK0 := v\<rparr>)"

definition I2C_EnableTimeout :: "u8 \<Rightarrow> I2C_T \<Rightarrow> I2C_T" where
  "I2C_EnableTimeout u8LongTimeout r =
     (let r1 = (if u8LongTimeout \<noteq> 0 then r\<lparr>TOCTL := TOCTL r OR I2C_TOCTL_TOCDIV4_Msk\<rparr>
                else r\<lparr>TOCTL := TOCTL r AND NOT I2C_TOCTL_TOCDIV4_Msk\<rparr>)
      in r1\<lparr>TOCTL := TOCTL r1 OR I2C_TOCTL_TOCEN_Msk\<rparr>)"

definition I2C_DisableTimeout :: "I2C_T \<Rightarrow> I2C_T" where
  "I2C_DisableTimeout r = r\<lparr>TOCTL := TOCTL r AND NOT I2C_TOCTL_TOCEN_Msk\<rparr>"

definition I2C_EnableWakeup :: "I2C_T \<Rightarrow> I2C_T" where
  "I2C_EnableWakeup r = r\<lparr>WKCTL := WKCTL r OR I2C_WKCTL_WKEN_Msk\<rparr>"

definition I2C_DisableWakeup :: "I2C_T \<Rightarrow> I2C_T" where
  "I2C_DisableWakeup r = r\<lparr>WKCTL := WKCTL r AND NOT I2C_WKCTL_WKEN_Msk\<rparr>"

section \<open>State of a transfer\<close>

datatype i2c_op = Start | Set_data u8 | Set_control u8

datatype i2c_fault = Tx_out_of_bounds u32 | Rx_out_of_bounds u32

record i2c_event =
  ev_wait :: nat
  ev_status :: u32
  ev_dat :: u32

record i2c_xfer =
  i2c :: I2C_T
  bus :: "i2c_op list"
  u8Xfering :: u8
  u8Err :: u8
  u8Addr :: u8
  u8Ctrl :: u8
  u32txLen :: u32
  u32rxLen :: u32
  rdata :: u8
  rbuf :: "u8 list"
  g_I2C_i32ErrCode :: int

type_synonym i2c_result = "i2c_fault + i2c_xfer"
type_synonym i2c_switch = "i2c_xfer \<Rightarrow> i2c_result"

text \<open>The initial values of the locals, after \<open>g_I2C_i32ErrCode = 0\<close>.\<close>

definition xfer_init :: "I2C_T \<Rightarrow> u8 list \<Rightarrow> i2c_xfer" where
  "xfer_init r buf = \<lparr>i2c = r, bus = [], u8Xfering = 1, u8Err = 0, u8Addr = 1, u8Ctrl = 0,
     u32txLen = 0, u32rxLen = 0, rdata = 0, rbuf = buf, g_I2C_i32ErrCode = 0\<rparr>"

section \<open>The macros of i2c.h\<close>

definition I2C_SET_CONTROL_REG :: "u8 \<Rightarrow> i2c_xfer \<Rightarrow> i2c_xfer" where
  "I2C_SET_CONTROL_REG c s =
     s\<lparr>i2c := (i2c s)\<lparr>CTL0 := (CTL0 (i2c s) AND NOT 0x3C) OR ucast c\<rparr>, bus := bus s @ [Set_control c]\<rparr>"

definition I2C_START :: "i2c_xfer \<Rightarrow> i2c_xfer" where
  "I2C_START s =
     s\<lparr>i2c := (i2c s)\<lparr>CTL0 := (CTL0 (i2c s) AND NOT I2C_CTL0_SI_Msk) OR I2C_CTL0_STA_Msk\<rparr>,
       bus := bus s @ [Start]\<rparr>"

definition I2C_SET_DATA :: "u8 \<Rightarrow> i2c_xfer \<Rightarrow> i2c_xfer" where
  "I2C_SET_DATA d s = s\<lparr>i2c := (i2c s)\<lparr>DAT := ucast d\<rparr>, bus := bus s @ [Set_data d]\<rparr>"

definition I2C_GET_DATA :: "i2c_xfer \<Rightarrow> u8" where
  "I2C_GET_DATA s = ucast (DAT (i2c s))"

definition I2C_GET_STATUS :: "i2c_xfer \<Rightarrow> u32" where
  "I2C_GET_STATUS s = STATUS0 (i2c s)"

section \<open>Waiting\<close>

text \<open>
  The loop \<open>while (bit not as wanted) if (--u32TimeOutCount == 0) break\<close>, where the bit is not
  as wanted for \<open>n\<close> polls: did it end by the counter?
\<close>

fun poll_expires :: "nat \<Rightarrow> u32 \<Rightarrow> bool" where
  "poll_expires 0 cnt = False"
| "poll_expires (Suc n) cnt = (if cnt - 1 = 0 then True else poll_expires n (cnt - 1))"

text \<open>\<open>I2C_WAIT_READY\<close> and its body; afterwards the controller's registers are the event's.\<close>

definition i2c_wait_ready :: "u32 \<Rightarrow> i2c_event \<Rightarrow> i2c_xfer \<Rightarrow> i2c_xfer" where
  "i2c_wait_ready tmo ev s =
     (let s1 = s\<lparr>i2c := (i2c s)\<lparr>STATUS0 := ev_status ev, DAT := ev_dat ev\<rparr>\<rparr>
      in if poll_expires (ev_wait ev) tmo then s1\<lparr>g_I2C_i32ErrCode := I2C_ERR_TIMEOUT, u8Err := 1\<rparr>
         else s1)"

text \<open>The final loop on \<open>CTL0 & I2C_CTL_STO\<close>.\<close>

definition i2c_wait_stop :: "u32 \<Rightarrow> nat \<Rightarrow> i2c_xfer \<Rightarrow> i2c_xfer" where
  "i2c_wait_stop tmo sto s =
     (if poll_expires sto tmo then s\<lparr>g_I2C_i32ErrCode := I2C_ERR_TIMEOUT\<rparr> else s)"

section \<open>The common loop of the transfers\<close>

text \<open>One round: wait, the function's \<open>switch\<close>, then \<open>I2C_SET_CONTROL_REG(i2c, u8Ctrl)\<close>.\<close>

definition i2c_round :: "i2c_switch \<Rightarrow> u32 \<Rightarrow> i2c_event \<Rightarrow> i2c_xfer \<Rightarrow> i2c_result" where
  "i2c_round sw tmo ev s =
     (case sw (i2c_wait_ready tmo ev s) of
        Inl f \<Rightarrow> Inl f
      | Inr s1 \<Rightarrow> Inr (I2C_SET_CONTROL_REG (u8Ctrl s1) s1))"

abbreviation xfer_active :: "i2c_xfer \<Rightarrow> bool" where
  "xfer_active s \<equiv> u8Xfering s \<noteq> 0 \<and> u8Err s = 0"

fun i2c_loop :: "i2c_switch \<Rightarrow> u32 \<Rightarrow> i2c_event list \<Rightarrow> i2c_xfer \<Rightarrow> i2c_result option" where
  "i2c_loop sw tmo [] s = (if xfer_active s then None else Some (Inr s))"
| "i2c_loop sw tmo (ev # evs) s =
     (if xfer_active s then
        (case i2c_round sw tmo ev s of
           Inl f \<Rightarrow> Some (Inl f)
         | Inr s1 \<Rightarrow> i2c_loop sw tmo evs s1)
      else Some (Inr s))"

definition i2c_run :: "i2c_switch \<Rightarrow> u32 \<Rightarrow> i2c_event list \<Rightarrow> nat \<Rightarrow> i2c_xfer \<Rightarrow> i2c_result option" where
  "i2c_run sw tmo evs sto s =
     map_option (map_sum id (i2c_wait_stop tmo sto)) (i2c_loop sw tmo evs (I2C_START s))"

section \<open>Branches shared by the switches\<close>

text \<open>\<open>(uint8_t)(u8SlaveAddr << 1u | 0x00u)\<close> and \<open>(uint8_t)((u8SlaveAddr << 1u) | 0x01u)\<close>.\<close>

definition sla_w :: "u8 \<Rightarrow> u8" where "sla_w a = push_bit 1 a"
definition sla_r :: "u8 \<Rightarrow> u8" where "sla_r a = push_bit 1 a OR 1"

text \<open>Case \<open>0x08\<close> (and \<open>0x10\<close>): send the slave address.\<close>

definition send_sla :: "u8 \<Rightarrow> i2c_xfer \<Rightarrow> i2c_xfer" where
  "send_sla b s = (I2C_SET_DATA b s)\<lparr>u8Ctrl := I2C_CTL_SI\<rparr>"

text \<open>Cases \<open>0x20\<close>, \<open>0x30\<close>, \<open>0x48\<close>: not acknowledged.\<close>

definition nacked :: "i2c_xfer \<Rightarrow> i2c_xfer" where
  "nacked s = s\<lparr>u8Ctrl := I2C_CTL_STO_SI, u8Err := 1\<rparr>"

text \<open>The branch that ends the transfer.\<close>

definition finish :: "i2c_xfer \<Rightarrow> i2c_xfer" where
  "finish s = s\<lparr>u8Ctrl := I2C_CTL_STO_SI, u8Xfering := 0\<rparr>"

text \<open>Case \<open>0x38\<close> and \<open>default\<close>.\<close>

definition bus_error :: "i2c_xfer \<Rightarrow> i2c_xfer" where
  "bus_error s = (I2C_SET_CONTROL_REG I2C_CTL_STO_SI s)\<lparr>u8Ctrl := I2C_CTL_SI, u8Err := 1\<rparr>"

text \<open>\<open>I2C_SET_DATA(i2c, data[u32txLen++])\<close>.\<close>

definition send_next :: "u8 list \<Rightarrow> i2c_xfer \<Rightarrow> i2c_result" where
  "send_next data s =
     (let i = unat (u32txLen s)
      in if i < length data then Inr ((I2C_SET_DATA (data ! i) s)\<lparr>u32txLen := u32txLen s + 1\<rparr>)
         else Inl (Tx_out_of_bounds (u32txLen s)))"

text \<open>\<open>rdata[u32rxLen++] = I2C_GET_DATA(i2c)\<close>.\<close>

definition store_next :: "i2c_xfer \<Rightarrow> i2c_result" where
  "store_next s =
     (let i = unat (u32rxLen s)
      in if i < length (rbuf s)
         then Inr (s\<lparr>rbuf := (rbuf s)[i := I2C_GET_DATA s], u32rxLen := u32rxLen s + 1\<rparr>)
         else Inl (Rx_out_of_bounds (u32rxLen s)))"

text \<open>Cases \<open>0x50\<close> and \<open>0x58\<close> of the multi-byte reads.\<close>

definition receive_more :: "u32 \<Rightarrow> i2c_switch" where
  "receive_more u32rLen s =
     (case store_next s of
        Inl f \<Rightarrow> Inl f
      | Inr s1 \<Rightarrow> Inr (s1\<lparr>u8Ctrl := (if u32rxLen s1 < u32rLen - 1 then I2C_CTL_SI_AA else I2C_CTL_SI)\<rparr>))"

definition receive_last :: i2c_switch where
  "receive_last s = (case store_next s of Inl f \<Rightarrow> Inl f | Inr s1 \<Rightarrow> Inr (finish s1))"

text \<open>Case \<open>0x58\<close> of the single-byte reads.\<close>

definition receive_byte :: "i2c_xfer \<Rightarrow> i2c_xfer" where
  "receive_byte s = finish (s\<lparr>rdata := I2C_GET_DATA s\<rparr>)"

text \<open>The high and the low byte of \<open>u16DataAddr\<close>.\<close>

definition addr_hi :: "u16 \<Rightarrow> u8" where "addr_hi a = ucast (drop_bit 8 (a AND 0xFF00))"
definition addr_lo :: "u16 \<Rightarrow> u8" where "addr_lo a = ucast (a AND 0xFF)"

section \<open>The transfers\<close>

text \<open>
  One \<open>switch\<close> and one function per transfer. The result pairs the returned value with the final
  state, whose \<open>g_I2C_i32ErrCode\<close> is the driver's global.
\<close>

definition with_result :: "(i2c_xfer \<Rightarrow> 'a) \<Rightarrow> i2c_result option \<Rightarrow> (i2c_fault + 'a \<times> i2c_xfer) option" where
  "with_result f = map_option (map_sum id (\<lambda>s. (f s, s)))"

definition ret_status :: "i2c_xfer \<Rightarrow> u8" where
  "ret_status s = u8Err s OR u8Xfering s"

definition ret_rdata :: "i2c_xfer \<Rightarrow> u8" where
  "ret_rdata s = (if u8Err s \<noteq> 0 then 0 else rdata s)"

definition sw_WriteByte :: "u8 \<Rightarrow> u8 \<Rightarrow> i2c_switch" where
  "sw_WriteByte u8SlaveAddr data s =
     (let st = I2C_GET_STATUS s
      in if st = 0x08 then Inr (send_sla (sla_w u8SlaveAddr) s)
         else if st = 0x18 then Inr (I2C_SET_DATA data s)
         else if st = 0x20 \<or> st = 0x30 then Inr (nacked s)
         else if st = 0x28 then Inr (finish s)
         else Inr (bus_error s))"

definition I2C_WriteByte ::
  "u32 \<Rightarrow> i2c_event list \<Rightarrow> nat \<Rightarrow> I2C_T \<Rightarrow> u8 \<Rightarrow> u8 \<Rightarrow> (i2c_fault + u8 \<times> i2c_xfer) option" where
  "I2C_WriteByte tmo evs sto r u8SlaveAddr data =
     with_result ret_status (i2c_run (sw_WriteByte u8SlaveAddr data) tmo evs sto (xfer_init r []))"

definition sw_WriteMultiBytes :: "u8 \<Rightarrow> u8 list \<Rightarrow> u32 \<Rightarrow> i2c_switch" where
  "sw_WriteMultiBytes u8SlaveAddr data u32wLen s =
     (let st = I2C_GET_STATUS s
      in if st = 0x08 then Inr (send_sla (sla_w u8SlaveAddr) s)
         else if st = 0x18 \<or> st = 0x28 then 
              (if u32txLen s < u32wLen then send_next data s else Inr (finish s))
         else if st = 0x20 \<or> st = 0x30 then Inr (nacked s)
         else Inr (bus_error s))"

definition I2C_WriteMultiBytes ::
  "u32 \<Rightarrow> i2c_event list \<Rightarrow> nat \<Rightarrow> I2C_T \<Rightarrow> u8 \<Rightarrow> u8 list \<Rightarrow> u32 \<Rightarrow> (i2c_fault + u32 \<times> i2c_xfer) option" where
  "I2C_WriteMultiBytes tmo evs sto r u8SlaveAddr data u32wLen =
     with_result u32txLen (i2c_run (sw_WriteMultiBytes u8SlaveAddr data u32wLen) tmo evs sto (xfer_init r []))"

definition sw_WriteByteOneReg :: "u8 \<Rightarrow> u8 \<Rightarrow> u8 \<Rightarrow> i2c_switch" where
  "sw_WriteByteOneReg u8SlaveAddr u8DataAddr data s =
     (let st = I2C_GET_STATUS s
      in if st = 0x08 then Inr (send_sla (sla_w u8SlaveAddr) s)
         else if st = 0x18 then Inr (I2C_SET_DATA u8DataAddr s)
         else if st = 0x20 \<or> st = 0x30 then Inr (nacked s)
         else if st = 0x28 then 
              (if u32txLen s < 1 then Inr ((I2C_SET_DATA data s)\<lparr>u32txLen := u32txLen s + 1\<rparr>)
               else Inr (finish s))
         else Inr (bus_error s))"

definition I2C_WriteByteOneReg ::
  "u32 \<Rightarrow> i2c_event list \<Rightarrow> nat \<Rightarrow> I2C_T \<Rightarrow> u8 \<Rightarrow> u8 \<Rightarrow> u8 \<Rightarrow> (i2c_fault + u8 \<times> i2c_xfer) option" where
  "I2C_WriteByteOneReg tmo evs sto r u8SlaveAddr u8DataAddr data =
     with_result ret_status (i2c_run (sw_WriteByteOneReg u8SlaveAddr u8DataAddr data) tmo evs sto (xfer_init r []))"

definition sw_WriteMultiBytesOneReg :: "u8 \<Rightarrow> u8 \<Rightarrow> u8 list \<Rightarrow> u32 \<Rightarrow> i2c_switch" where
  "sw_WriteMultiBytesOneReg u8SlaveAddr u8DataAddr data u32wLen s =
     (let st = I2C_GET_STATUS s
      in if st = 0x08 then Inr (send_sla (sla_w u8SlaveAddr) s)
         else if st = 0x18 then Inr (I2C_SET_DATA u8DataAddr s)
         else if st = 0x20 \<or> st = 0x30 then Inr (nacked s)
         else if st = 0x28 then 
              (if u32txLen s < u32wLen then send_next data s else Inr (finish s))
         else Inr (bus_error s))"

definition I2C_WriteMultiBytesOneReg ::
  "u32 \<Rightarrow> i2c_event list \<Rightarrow> nat \<Rightarrow> I2C_T \<Rightarrow> u8 \<Rightarrow> u8 \<Rightarrow> u8 list \<Rightarrow> u32 \<Rightarrow> (i2c_fault + u32 \<times> i2c_xfer) option" where
  "I2C_WriteMultiBytesOneReg tmo evs sto r u8SlaveAddr u8DataAddr data u32wLen =
     with_result u32txLen (i2c_run (sw_WriteMultiBytesOneReg u8SlaveAddr u8DataAddr data u32wLen) tmo evs sto (xfer_init r []))"

definition sw_WriteByteTwoRegs :: "u8 \<Rightarrow> u16 \<Rightarrow> u8 \<Rightarrow> i2c_switch" where
  "sw_WriteByteTwoRegs u8SlaveAddr u16DataAddr data s =
     (let st = I2C_GET_STATUS s
      in if st = 0x08 then Inr (send_sla (sla_w u8SlaveAddr) s)
         else if st = 0x18 then Inr (I2C_SET_DATA (addr_hi u16DataAddr) s)
         else if st = 0x20 \<or> st = 0x30 then Inr (nacked s)
         else if st = 0x28 then 
              (if u8Addr s \<noteq> 0 then Inr ((I2C_SET_DATA (addr_lo u16DataAddr) s)\<lparr>u8Addr := 0\<rparr>)
               else if u32txLen s < 1 \<and> u8Addr s = 0 then Inr ((I2C_SET_DATA data s)\<lparr>u32txLen := u32txLen s + 1\<rparr>)
               else Inr (finish s))
         else Inr (bus_error s))"

definition I2C_WriteByteTwoRegs ::
  "u32 \<Rightarrow> i2c_event list \<Rightarrow> nat \<Rightarrow> I2C_T \<Rightarrow> u8 \<Rightarrow> u16 \<Rightarrow> u8 \<Rightarrow> (i2c_fault + u8 \<times> i2c_xfer) option" where
  "I2C_WriteByteTwoRegs tmo evs sto r u8SlaveAddr u16DataAddr data =
     with_result ret_status (i2c_run (sw_WriteByteTwoRegs u8SlaveAddr u16DataAddr data) tmo evs sto (xfer_init r []))"

definition sw_WriteMultiBytesTwoRegs :: "u8 \<Rightarrow> u16 \<Rightarrow> u8 list \<Rightarrow> u32 \<Rightarrow> i2c_switch" where
  "sw_WriteMultiBytesTwoRegs u8SlaveAddr u16DataAddr data u32wLen s =
     (let st = I2C_GET_STATUS s
      in if st = 0x08 then Inr (send_sla (sla_w u8SlaveAddr) s)
         else if st = 0x18 then Inr (I2C_SET_DATA (addr_hi u16DataAddr) s)
         else if st = 0x20 \<or> st = 0x30 then Inr (nacked s)
         else if st = 0x28 then 
              (if u8Addr s \<noteq> 0 then Inr ((I2C_SET_DATA (addr_lo u16DataAddr) s)\<lparr>u8Addr := 0\<rparr>)
               else if u32txLen s < u32wLen \<and> u8Addr s = 0 then send_next data s
               else Inr (finish s))
         else Inr (bus_error s))"

definition I2C_WriteMultiBytesTwoRegs ::
  "u32 \<Rightarrow> i2c_event list \<Rightarrow> nat \<Rightarrow> I2C_T \<Rightarrow> u8 \<Rightarrow> u16 \<Rightarrow> u8 list \<Rightarrow> u32 \<Rightarrow> (i2c_fault + u32 \<times> i2c_xfer) option" where
  "I2C_WriteMultiBytesTwoRegs tmo evs sto r u8SlaveAddr u16DataAddr data u32wLen =
     with_result u32txLen (i2c_run (sw_WriteMultiBytesTwoRegs u8SlaveAddr u16DataAddr data u32wLen) tmo evs sto (xfer_init r []))"

definition sw_ReadByte :: "u8 \<Rightarrow> i2c_switch" where
  "sw_ReadByte u8SlaveAddr s =
     (let st = I2C_GET_STATUS s
      in if st = 0x08 then Inr (send_sla (sla_r u8SlaveAddr) s)
         else if st = 0x40 then Inr (s\<lparr>u8Ctrl := I2C_CTL_SI\<rparr>)
         else if st = 0x48 then Inr (nacked s)
         else if st = 0x58 then Inr (receive_byte s)
         else Inr (bus_error s))"

definition I2C_ReadByte ::
  "u32 \<Rightarrow> i2c_event list \<Rightarrow> nat \<Rightarrow> I2C_T \<Rightarrow> u8 \<Rightarrow> (i2c_fault + u8 \<times> i2c_xfer) option" where
  "I2C_ReadByte tmo evs sto r u8SlaveAddr =
     with_result ret_rdata (i2c_run (sw_ReadByte u8SlaveAddr) tmo evs sto (xfer_init r []))"

definition sw_ReadMultiBytes :: "u8 \<Rightarrow> u32 \<Rightarrow> i2c_switch" where
  "sw_ReadMultiBytes u8SlaveAddr u32rLen s =
     (let st = I2C_GET_STATUS s
      in if st = 0x08 then Inr (send_sla (sla_r u8SlaveAddr) s)
         else if st = 0x40 then Inr (s\<lparr>u8Ctrl := I2C_CTL_SI_AA\<rparr>)
         else if st = 0x48 then Inr (nacked s)
         else if st = 0x50 then receive_more u32rLen s
         else if st = 0x58 then receive_last s
         else Inr (bus_error s))"

definition I2C_ReadMultiBytes ::
  "u32 \<Rightarrow> i2c_event list \<Rightarrow> nat \<Rightarrow> I2C_T \<Rightarrow> u8 \<Rightarrow> u8 list \<Rightarrow> u32 \<Rightarrow> (i2c_fault + u32 \<times> i2c_xfer) option" where
  "I2C_ReadMultiBytes tmo evs sto r u8SlaveAddr buf u32rLen =
     with_result u32rxLen (i2c_run (sw_ReadMultiBytes u8SlaveAddr u32rLen) tmo evs sto (xfer_init r buf))"

definition sw_ReadByteOneReg :: "u8 \<Rightarrow> u8 \<Rightarrow> i2c_switch" where
  "sw_ReadByteOneReg u8SlaveAddr u8DataAddr s =
     (let st = I2C_GET_STATUS s
      in if st = 0x08 then Inr (send_sla (sla_w u8SlaveAddr) s)
         else if st = 0x18 then Inr (I2C_SET_DATA u8DataAddr s)
         else if st = 0x20 \<or> st = 0x30 then Inr (nacked s)
         else if st = 0x28 then Inr (s\<lparr>u8Ctrl := I2C_CTL_STA_SI\<rparr>)
         else if st = 0x10 then Inr (send_sla (sla_r u8SlaveAddr) s)
         else if st = 0x40 then Inr (s\<lparr>u8Ctrl := I2C_CTL_SI\<rparr>)
         else if st = 0x48 then Inr (nacked s)
         else if st = 0x58 then Inr (receive_byte s)
         else Inr (bus_error s))"

definition I2C_ReadByteOneReg ::
  "u32 \<Rightarrow> i2c_event list \<Rightarrow> nat \<Rightarrow> I2C_T \<Rightarrow> u8 \<Rightarrow> u8 \<Rightarrow> (i2c_fault + u8 \<times> i2c_xfer) option" where
  "I2C_ReadByteOneReg tmo evs sto r u8SlaveAddr u8DataAddr =
     with_result ret_rdata (i2c_run (sw_ReadByteOneReg u8SlaveAddr u8DataAddr) tmo evs sto (xfer_init r []))"

definition sw_ReadMultiBytesOneReg :: "u8 \<Rightarrow> u8 \<Rightarrow> u32 \<Rightarrow> i2c_switch" where
  "sw_ReadMultiBytesOneReg u8SlaveAddr u8DataAddr u32rLen s =
     (let st = I2C_GET_STATUS s
      in if st = 0x08 then Inr (send_sla (sla_w u8SlaveAddr) s)
         else if st = 0x18 then Inr (I2C_SET_DATA u8DataAddr s)
         else if st = 0x20 \<or> st = 0x30 then Inr (nacked s)
         else if st = 0x28 then Inr (s\<lparr>u8Ctrl := I2C_CTL_STA_SI\<rparr>)
         else if st = 0x10 then Inr (send_sla (sla_r u8SlaveAddr) s)
         else if st = 0x40 then Inr (s\<lparr>u8Ctrl := I2C_CTL_SI_AA\<rparr>)
         else if st = 0x48 then Inr (nacked s)
         else if st = 0x50 then receive_more u32rLen s
         else if st = 0x58 then receive_last s
         else Inr (bus_error s))"

definition I2C_ReadMultiBytesOneReg ::
  "u32 \<Rightarrow> i2c_event list \<Rightarrow> nat \<Rightarrow> I2C_T \<Rightarrow> u8 \<Rightarrow> u8 \<Rightarrow> u8 list \<Rightarrow> u32 \<Rightarrow> (i2c_fault + u32 \<times> i2c_xfer) option" where
  "I2C_ReadMultiBytesOneReg tmo evs sto r u8SlaveAddr u8DataAddr buf u32rLen =
     with_result u32rxLen (i2c_run (sw_ReadMultiBytesOneReg u8SlaveAddr u8DataAddr u32rLen) tmo evs sto (xfer_init r buf))"

definition sw_ReadByteTwoRegs :: "u8 \<Rightarrow> u16 \<Rightarrow> i2c_switch" where
  "sw_ReadByteTwoRegs u8SlaveAddr u16DataAddr s =
     (let st = I2C_GET_STATUS s
      in if st = 0x08 then Inr (send_sla (sla_w u8SlaveAddr) s)
         else if st = 0x18 then Inr (I2C_SET_DATA (addr_hi u16DataAddr) s)
         else if st = 0x20 \<or> st = 0x30 then Inr (nacked s)
         else if st = 0x28 then 
              (if u8Addr s \<noteq> 0 then Inr ((I2C_SET_DATA (addr_lo u16DataAddr) s)\<lparr>u8Addr := 0\<rparr>)
               else Inr (s\<lparr>u8Ctrl := I2C_CTL_STA_SI\<rparr>))
         else if st = 0x10 then Inr (send_sla (sla_r u8SlaveAddr) s)
         else if st = 0x40 then Inr (s\<lparr>u8Ctrl := I2C_CTL_SI\<rparr>)
         else if st = 0x48 then Inr (nacked s)
         else if st = 0x58 then Inr (receive_byte s)
         else Inr (bus_error s))"

definition I2C_ReadByteTwoRegs ::
  "u32 \<Rightarrow> i2c_event list \<Rightarrow> nat \<Rightarrow> I2C_T \<Rightarrow> u8 \<Rightarrow> u16 \<Rightarrow> (i2c_fault + u8 \<times> i2c_xfer) option" where
  "I2C_ReadByteTwoRegs tmo evs sto r u8SlaveAddr u16DataAddr =
     with_result ret_rdata (i2c_run (sw_ReadByteTwoRegs u8SlaveAddr u16DataAddr) tmo evs sto (xfer_init r []))"

definition sw_ReadMultiBytesTwoRegs :: "u8 \<Rightarrow> u16 \<Rightarrow> u32 \<Rightarrow> i2c_switch" where
  "sw_ReadMultiBytesTwoRegs u8SlaveAddr u16DataAddr u32rLen s =
     (let st = I2C_GET_STATUS s
      in if st = 0x08 then Inr (send_sla (sla_w u8SlaveAddr) s)
         else if st = 0x18 then Inr (I2C_SET_DATA (addr_hi u16DataAddr) s)
         else if st = 0x20 \<or> st = 0x30 then Inr (nacked s)
         else if st = 0x28 then 
              (if u8Addr s \<noteq> 0 then Inr ((I2C_SET_DATA (addr_lo u16DataAddr) s)\<lparr>u8Addr := 0\<rparr>)
               else Inr (s\<lparr>u8Ctrl := I2C_CTL_STA_SI\<rparr>))
         else if st = 0x10 then Inr (send_sla (sla_r u8SlaveAddr) s)
         else if st = 0x40 then Inr (s\<lparr>u8Ctrl := I2C_CTL_SI_AA\<rparr>)
         else if st = 0x48 then Inr (nacked s)
         else if st = 0x50 then receive_more u32rLen s
         else if st = 0x58 then receive_last s
         else Inr (bus_error s))"

definition I2C_ReadMultiBytesTwoRegs ::
  "u32 \<Rightarrow> i2c_event list \<Rightarrow> nat \<Rightarrow> I2C_T \<Rightarrow> u8 \<Rightarrow> u16 \<Rightarrow> u8 list \<Rightarrow> u32 \<Rightarrow> (i2c_fault + u32 \<times> i2c_xfer) option" where
  "I2C_ReadMultiBytesTwoRegs tmo evs sto r u8SlaveAddr u16DataAddr buf u32rLen =
     with_result u32rxLen (i2c_run (sw_ReadMultiBytesTwoRegs u8SlaveAddr u16DataAddr u32rLen) tmo evs sto (xfer_init r buf))"

end
