(* ===== verification/I2c_Facts.thy ===== *)
theory I2c_Facts
  imports I2c
begin

text \<open>
  Lemmas on the I2C transfers. The twelve transfers share one loop and differ in their
  \<open>switch\<close>, so what the loop does is proved once, in locales that state what a switch
  promises: \<open>i2c_master\<close> (any transfer), \<open>i2c_writer\<close> (a transfer that sends a list of
  bytes) and \<open>i2c_receiver\<close> (a multi-byte read). The interpretations discharge these laws for the
  switches of the driver.
\<close>

section \<open>Waiting\<close>

definition poll_budget :: "u32 \<Rightarrow> nat" where
  "poll_budget cnt = (if cnt = 0 then 2 ^ 32 else unat cnt)"

lemma unat_minus_one_u32: "cnt \<noteq> 0 \<Longrightarrow> unat (cnt - 1) = unat (cnt :: u32) - 1"
  by (simp add: unat_minus_one)

lemma poll_expires_iff: "poll_expires n cnt \<longleftrightarrow> poll_budget cnt \<le> n"
proof (induction n cnt rule: poll_expires.induct)
  case (1 cnt)
  have "cnt \<noteq> 0 \<Longrightarrow> unat cnt \<noteq> 0" by (simp add: unat_eq_0)
  then show ?case by (auto simp: poll_budget_def)
next
  case (2 n cnt)
  have one: "cnt - 1 = 0 \<longleftrightarrow> cnt = 1" by simp
  have "unat (cnt - 1) = (if cnt = 0 then 2 ^ 32 - 1 else unat cnt - 1)"
    by (simp add: unat_minus_one_u32 unsigned_minus_1_eq_mask mask_eq_exp_minus_1)
  moreover have "cnt \<noteq> 0 \<Longrightarrow> cnt \<noteq> 1 \<Longrightarrow> 2 \<le> unat cnt"
    by (metis One_nat_def Suc_leI le_neq_implies_less nat_less_le numeral_2_eq_2 unat_1 unat_eq_0
        word_unat_eq_iff not_gr_zero)
  ultimately show ?case using 2 one by (auto simp: poll_budget_def)
qed

abbreviation ready_in_time :: "u32 \<Rightarrow> i2c_event \<Rightarrow> bool" where
  "ready_in_time tmo ev \<equiv> ev_wait ev < poll_budget tmo"

section \<open>Field lemmas\<close>

named_theorems i2c_defs \<open>the steps a switch is made of\<close>

lemmas i2c_step_defs [i2c_defs] =
  send_sla_def nacked_def finish_def bus_error_def send_next_def store_next_def receive_more_def
  receive_last_def receive_byte_def I2C_SET_CONTROL_REG_def I2C_SET_DATA_def I2C_GET_DATA_def
  I2C_GET_STATUS_def Let_def

lemmas i2c_switch_defs =
  sw_WriteByte_def sw_WriteMultiBytes_def sw_WriteByteOneReg_def sw_WriteMultiBytesOneReg_def
  sw_WriteByteTwoRegs_def sw_WriteMultiBytesTwoRegs_def sw_ReadByte_def sw_ReadMultiBytes_def
  sw_ReadByteOneReg_def sw_ReadMultiBytesOneReg_def sw_ReadByteTwoRegs_def sw_ReadMultiBytesTwoRegs_def

lemma wait_ready_fields [simp]:
  "bus (i2c_wait_ready tmo ev s) = bus s" "u8Xfering (i2c_wait_ready tmo ev s) = u8Xfering s"
  "u8Addr (i2c_wait_ready tmo ev s) = u8Addr s" "u8Ctrl (i2c_wait_ready tmo ev s) = u8Ctrl s"
  "u32txLen (i2c_wait_ready tmo ev s) = u32txLen s" "u32rxLen (i2c_wait_ready tmo ev s) = u32rxLen s"
  "rdata (i2c_wait_ready tmo ev s) = rdata s" "rbuf (i2c_wait_ready tmo ev s) = rbuf s"
  "I2C_GET_STATUS (i2c_wait_ready tmo ev s) = ev_status ev"
  "I2C_GET_DATA (i2c_wait_ready tmo ev s) = ucast (ev_dat ev)"
  by (simp_all add: i2c_wait_ready_def I2C_GET_STATUS_def I2C_GET_DATA_def Let_def)

lemma wait_ready_in_time [simp]:
  "ready_in_time tmo ev \<Longrightarrow> u8Err (i2c_wait_ready tmo ev s) = u8Err s"
  "ready_in_time tmo ev \<Longrightarrow> g_I2C_i32ErrCode (i2c_wait_ready tmo ev s) = g_I2C_i32ErrCode s"
  by (simp_all add: i2c_wait_ready_def poll_expires_iff Let_def)

lemma wait_ready_expired [simp]:
  "\<not> ready_in_time tmo ev \<Longrightarrow> u8Err (i2c_wait_ready tmo ev s) = 1"
  "\<not> ready_in_time tmo ev \<Longrightarrow> g_I2C_i32ErrCode (i2c_wait_ready tmo ev s) = I2C_ERR_TIMEOUT"
  by (simp_all add: i2c_wait_ready_def poll_expires_iff Let_def)

lemma set_control_fields [simp]:
  "bus (I2C_SET_CONTROL_REG c s) = bus s @ [Set_control c]"
  "u8Xfering (I2C_SET_CONTROL_REG c s) = u8Xfering s" "u8Err (I2C_SET_CONTROL_REG c s) = u8Err s"
  "u8Addr (I2C_SET_CONTROL_REG c s) = u8Addr s" "u8Ctrl (I2C_SET_CONTROL_REG c s) = u8Ctrl s"
  "u32txLen (I2C_SET_CONTROL_REG c s) = u32txLen s" "u32rxLen (I2C_SET_CONTROL_REG c s) = u32rxLen s"
  "rdata (I2C_SET_CONTROL_REG c s) = rdata s" "rbuf (I2C_SET_CONTROL_REG c s) = rbuf s"
  "g_I2C_i32ErrCode (I2C_SET_CONTROL_REG c s) = g_I2C_i32ErrCode s"
  by (simp_all add: I2C_SET_CONTROL_REG_def)

lemma set_data_fields [simp]:
  "bus (I2C_SET_DATA d s) = bus s @ [Set_data d]"
  "u8Xfering (I2C_SET_DATA d s) = u8Xfering s" "u8Err (I2C_SET_DATA d s) = u8Err s"
  "u8Addr (I2C_SET_DATA d s) = u8Addr s" "u8Ctrl (I2C_SET_DATA d s) = u8Ctrl s"
  "u32txLen (I2C_SET_DATA d s) = u32txLen s" "u32rxLen (I2C_SET_DATA d s) = u32rxLen s"
  "rdata (I2C_SET_DATA d s) = rdata s" "rbuf (I2C_SET_DATA d s) = rbuf s"
  "g_I2C_i32ErrCode (I2C_SET_DATA d s) = g_I2C_i32ErrCode s"
  by (simp_all add: I2C_SET_DATA_def)

lemma wait_stop_fields [simp]:
  "bus (i2c_wait_stop tmo sto s) = bus s" "u8Xfering (i2c_wait_stop tmo sto s) = u8Xfering s"
  "u8Err (i2c_wait_stop tmo sto s) = u8Err s" "u32txLen (i2c_wait_stop tmo sto s) = u32txLen s"
  "u32rxLen (i2c_wait_stop tmo sto s) = u32rxLen s" "rdata (i2c_wait_stop tmo sto s) = rdata s"
  "rbuf (i2c_wait_stop tmo sto s) = rbuf s" "u8Addr (i2c_wait_stop tmo sto s) = u8Addr s"
  by (simp_all add: i2c_wait_stop_def)

lemma wait_stop_errcode [simp]:
  "g_I2C_i32ErrCode (i2c_wait_stop tmo sto s) =
     (if sto < poll_budget tmo then g_I2C_i32ErrCode s else I2C_ERR_TIMEOUT)"
  by (simp add: i2c_wait_stop_def poll_expires_iff)

lemma start_fields [simp]:
  "bus (I2C_START (xfer_init r buf)) = [Start]" "u8Xfering (I2C_START (xfer_init r buf)) = 1"
  "u8Err (I2C_START (xfer_init r buf)) = 0" "u8Addr (I2C_START (xfer_init r buf)) = 1"
  "u8Ctrl (I2C_START (xfer_init r buf)) = 0" "u32txLen (I2C_START (xfer_init r buf)) = 0"
  "u32rxLen (I2C_START (xfer_init r buf)) = 0" "rbuf (I2C_START (xfer_init r buf)) = buf"
  "rdata (I2C_START (xfer_init r buf)) = 0" "g_I2C_i32ErrCode (I2C_START (xfer_init r buf)) = 0"
  by (simp_all add: I2C_START_def xfer_init_def)

section \<open>The loop\<close>

lemma i2c_loop_append: "i2c_loop sw tmo evs s = Some x \<Longrightarrow> i2c_loop sw tmo (evs @ evs') s = Some x"
proof (induction sw tmo evs s rule: i2c_loop.induct)
  case (1 sw tmo s)
  then show ?case by (cases evs') (auto split: if_splits)
next
  case (2 sw tmo ev evs s)
  then show ?case by (auto split: if_splits sum.splits)
qed

lemma i2c_loop_idle: "\<not> xfer_active s \<Longrightarrow> i2c_loop sw tmo evs s = Some (Inr s)"
  by (cases evs) auto

lemma i2c_loop_round:
  "xfer_active s \<Longrightarrow> i2c_round sw tmo ev s = Inr s1 \<Longrightarrow>
   i2c_loop sw tmo (ev # evs) s = i2c_loop sw tmo evs s1"
  by simp

lemma i2c_round_Inr:
  "sw (i2c_wait_ready tmo ev s) = Inr s1 \<Longrightarrow>
   i2c_round sw tmo ev s = Inr (I2C_SET_CONTROL_REG (u8Ctrl s1) s1)"
  by (simp add: i2c_round_def)

lemma i2c_loop_step:
  assumes "xfer_active s" "sw (i2c_wait_ready tmo ev s) = Inr s1"
  shows "i2c_loop sw tmo (ev # evs) s = i2c_loop sw tmo evs (I2C_SET_CONTROL_REG (u8Ctrl s1) s1)"
  by (rule i2c_loop_round[where sw = sw, OF assms(1) i2c_round_Inr[where sw = sw, OF assms(2)]])

lemma i2c_round_InrE:
  assumes "i2c_round sw tmo ev s = Inr s'"
  obtains s1 where "sw (i2c_wait_ready tmo ev s) = Inr s1" "s' = I2C_SET_CONTROL_REG (u8Ctrl s1) s1"
  using assms by (auto simp: i2c_round_def split: sum.splits)

lemma i2c_run_InrE:
  assumes "i2c_run sw tmo evs sto s = Some (Inr s')"
  obtains s1 where "i2c_loop sw tmo evs (I2C_START s) = Some (Inr s1)" "s' = i2c_wait_stop tmo sto s1"
proof -
  obtain y where y: "i2c_loop sw tmo evs (I2C_START s) = Some y" "map_sum id (i2c_wait_stop tmo sto) y = Inr s'"
    using assms by (auto simp: i2c_run_def)
  then show ?thesis using that by (cases y) auto
qed

abbreviation stop_sent :: "i2c_xfer \<Rightarrow> bool" where
  "stop_sent s \<equiv> Set_control I2C_CTL_STO_SI \<in> set (bus s)"

section \<open>What every switch promises\<close>

locale i2c_master =
  fixes sw :: i2c_switch
  assumes sw_err: "sw s = Inr s' \<Longrightarrow> u8Err s \<noteq> 0 \<Longrightarrow> u8Err s' \<noteq> 0"
    and sw_errcode: "sw s = Inr s' \<Longrightarrow> g_I2C_i32ErrCode s' = g_I2C_i32ErrCode s"
    and sw_bus: "sw s = Inr s' \<Longrightarrow> \<exists>ops. bus s' = bus s @ ops"
    and sw_stop: "sw s = Inr s' \<Longrightarrow> xfer_active s \<Longrightarrow> \<not> xfer_active s' \<Longrightarrow>
      u8Ctrl s' = I2C_CTL_STO_SI \<or> stop_sent s'"
begin

lemma round_errcode:
  assumes "i2c_round sw tmo ev s = Inr s'"
  shows "g_I2C_i32ErrCode s' = (if ready_in_time tmo ev then g_I2C_i32ErrCode s else I2C_ERR_TIMEOUT)"
  using assms sw_errcode by (auto elim!: i2c_round_InrE)

lemma round_expired:
  assumes "i2c_round sw tmo ev s = Inr s'" "\<not> ready_in_time tmo ev"
  shows "\<not> xfer_active s'"
  using assms sw_err by (fastforce elim!: i2c_round_InrE)

lemma round_stop:
  assumes "i2c_round sw tmo ev s = Inr s'" "ready_in_time tmo ev" "xfer_active s" "\<not> xfer_active s'"
  shows "stop_sent s'"
  using assms sw_stop[of "i2c_wait_ready tmo ev s"] by (auto elim!: i2c_round_InrE)

lemma loop_returns_stopped:
  assumes "i2c_loop sw tmo evs s = Some (Inr s')" "xfer_active s"
  shows "stop_sent s' \<or> g_I2C_i32ErrCode s' = I2C_ERR_TIMEOUT"
  using assms
proof (induction evs arbitrary: s)
  case (Cons ev evs)
  obtain s1 where s1: "i2c_round sw tmo ev s = Inr s1" "i2c_loop sw tmo evs s1 = Some (Inr s')"
    using Cons.prems by (auto split: sum.splits)
  show ?case
  proof (cases "xfer_active s1")
    case False
    then have "s' = s1" using s1(2) i2c_loop_idle[OF False, of sw tmo evs] by simp
    then show ?thesis using round_stop[OF s1(1) _ Cons.prems(2) False] round_errcode[OF s1(1)] by auto
  qed (use Cons.IH[OF s1(2)] in simp)
qed simp

lemma loop_in_time_errcode:
  assumes "i2c_loop sw tmo evs s = Some (Inr s')" "\<forall>ev \<in> set evs. ready_in_time tmo ev"
  shows "g_I2C_i32ErrCode s' = g_I2C_i32ErrCode s"
  using assms
proof (induction evs arbitrary: s)
  case (Cons ev evs)
  then show ?case using round_errcode by (fastforce split: if_splits sum.splits)
qed (auto split: if_splits)

text \<open>An event that comes too late ends the loop, whatever the status register holds.\<close>

lemma loop_expired:
  assumes "\<not> ready_in_time tmo ev"
  shows "\<exists>x. i2c_loop sw tmo (pre @ ev # post) s = Some x \<and>
    (case x of Inr s' \<Rightarrow> i2c_loop sw tmo pre s = Some (Inr s') \<or> g_I2C_i32ErrCode s' = I2C_ERR_TIMEOUT
     | Inl f \<Rightarrow> True)"
proof (induction pre arbitrary: s)
  case Nil
  show ?case
  proof (cases "i2c_round sw tmo ev s")
    case (Inr s1)
    then show ?thesis
      using round_expired[OF Inr assms] round_errcode[OF Inr] assms by (auto simp: i2c_loop_idle)
  qed auto
next
  case (Cons e pre)
  show ?case
  proof (cases "i2c_round sw tmo e s")
    case (Inr s1)
    then show ?thesis using Cons.IH[of s1] by (auto simp: Inr split: sum.splits)
  qed auto
qed

lemma run_returns_stopped:
  assumes "i2c_run sw tmo evs sto (xfer_init r buf) = Some (Inr s')"
    "g_I2C_i32ErrCode s' \<noteq> I2C_ERR_TIMEOUT"
  shows "stop_sent s'"
proof -
  obtain s1 where s1: "i2c_loop sw tmo evs (I2C_START (xfer_init r buf)) = Some (Inr s1)"
      "s' = i2c_wait_stop tmo sto s1"
    using i2c_run_InrE[OF assms(1)] .
  show ?thesis using loop_returns_stopped[OF s1(1)] assms(2) s1(2) by (auto split: if_splits)
qed

end

section \<open>The switches keep the contract\<close>

interpretation wb: i2c_master "sw_WriteByte a d"
  by unfold_locales (auto simp: sw_WriteByte_def i2c_defs split: if_splits)

interpretation wm: i2c_master "sw_WriteMultiBytes a d n"
  by unfold_locales (auto simp: sw_WriteMultiBytes_def i2c_defs split: if_splits)

interpretation wb1: i2c_master "sw_WriteByteOneReg a g d"
  by unfold_locales (auto simp: sw_WriteByteOneReg_def i2c_defs split: if_splits)

interpretation wm1: i2c_master "sw_WriteMultiBytesOneReg a g d n"
  by unfold_locales (auto simp: sw_WriteMultiBytesOneReg_def i2c_defs split: if_splits)

interpretation wb2: i2c_master "sw_WriteByteTwoRegs a h d"
  by unfold_locales (auto simp: sw_WriteByteTwoRegs_def i2c_defs split: if_splits)

interpretation wm2: i2c_master "sw_WriteMultiBytesTwoRegs a h d n"
  by unfold_locales (auto simp: sw_WriteMultiBytesTwoRegs_def i2c_defs split: if_splits)

interpretation rb: i2c_master "sw_ReadByte a"
  by unfold_locales (auto simp: sw_ReadByte_def i2c_defs split: if_splits)

interpretation rm: i2c_master "sw_ReadMultiBytes a n"
  by unfold_locales (auto simp: sw_ReadMultiBytes_def i2c_defs split: if_splits)

interpretation rb1: i2c_master "sw_ReadByteOneReg a g"
  by unfold_locales (auto simp: sw_ReadByteOneReg_def i2c_defs split: if_splits)

interpretation rm1: i2c_master "sw_ReadMultiBytesOneReg a g n"
  by unfold_locales (auto simp: sw_ReadMultiBytesOneReg_def i2c_defs split: if_splits)

interpretation rb2: i2c_master "sw_ReadByteTwoRegs a h"
  by unfold_locales (auto simp: sw_ReadByteTwoRegs_def i2c_defs split: if_splits)

interpretation rm2: i2c_master "sw_ReadMultiBytesTwoRegs a h n"
  by unfold_locales (auto simp: sw_ReadMultiBytesTwoRegs_def i2c_defs split: if_splits)

section \<open>Transfers that send a list of bytes\<close>

text \<open>The writes that put a list of bytes on the bus, up to the last one.\<close>

definition write_ops :: "u8 list \<Rightarrow> i2c_op list" where
  "write_ops bs = concat (map (\<lambda>b. [Set_data b, Set_control I2C_CTL_SI]) bs)"

definition write_frame :: "u8 \<Rightarrow> u8 list \<Rightarrow> i2c_op list" where
  "write_frame sla bs = Start # write_ops (sla # bs) @ [Set_control I2C_CTL_STO_SI]"

text \<open>The status codes of a slave that acknowledges its address and the bytes sent to it.\<close>

definition ack_status :: "nat \<Rightarrow> u32" where
  "ack_status k = (if k = 0 then 0x18 else 0x28)"

definition nack_status :: "nat \<Rightarrow> u32" where
  "nack_status k = (if k = 0 then 0x20 else 0x30)"

lemma write_ops_simps [simp]:
  "write_ops [] = []"
  "write_ops (b # bs) = Set_data b # Set_control I2C_CTL_SI # write_ops bs"
  "write_ops (bs @ cs) = write_ops bs @ write_ops cs"
  by (simp_all add: write_ops_def)

text \<open>
  \<open>at k a t\<close>: the values \<open>a\<close> of \<open>u8Addr\<close> and \<open>t\<close> of \<open>u32txLen\<close> belong to a
  transfer that has sent the first \<open>k\<close> bytes of its payload.
\<close>

locale i2c_writer = i2c_master sw for sw :: i2c_switch +
  fixes sla :: u8 and payload :: "u8 list" and at :: "nat \<Rightarrow> u8 \<Rightarrow> u32 \<Rightarrow> bool"
  assumes sw_begin: "I2C_GET_STATUS s = 0x08 \<Longrightarrow> sw s = Inr (send_sla (sla_w sla) s)"
    and sw_ack: "at k (u8Addr s) (u32txLen s) \<Longrightarrow> k < length payload \<Longrightarrow>
      I2C_GET_STATUS s = ack_status k \<Longrightarrow>
      \<exists>a t. sw s = Inr ((I2C_SET_DATA (payload ! k) s)\<lparr>u8Addr := a, u32txLen := t\<rparr>) \<and> at (Suc k) a t"
    and sw_done: "at (length payload) (u8Addr s) (u32txLen s) \<Longrightarrow>
      I2C_GET_STATUS s = ack_status (length payload) \<Longrightarrow> sw s = Inr (finish s)"
    and sw_nack: "I2C_GET_STATUS s = nack_status k \<Longrightarrow> sw s = Inr (nacked s)"
begin

definition mid :: "nat \<Rightarrow> i2c_xfer \<Rightarrow> bool" where
  "mid k s \<longleftrightarrow> at k (u8Addr s) (u32txLen s) \<and> u8Xfering s = 1 \<and> u8Err s = 0 \<and> u8Ctrl s = I2C_CTL_SI \<and>
     g_I2C_i32ErrCode s = 0 \<and> bus s = Start # write_ops (sla_w sla # take k payload)"

lemma loop_begin:
  assumes "at 0 1 0" "ev_status ev = 0x08" "ready_in_time tmo ev"
  shows "\<exists>s. mid 0 s \<and> i2c_loop sw tmo (ev # evs) (I2C_START (xfer_init r buf)) = i2c_loop sw tmo evs s"
proof -
  let ?s = "i2c_wait_ready tmo ev (I2C_START (xfer_init r buf))"
  let ?s1 = "I2C_SET_CONTROL_REG I2C_CTL_SI (send_sla (sla_w sla) ?s)"
  have "i2c_loop sw tmo (ev # evs) (I2C_START (xfer_init r buf)) = i2c_loop sw tmo evs ?s1"
    by (subst i2c_loop_step[OF _ sw_begin]) (simp_all add: assms send_sla_def)
  moreover have "mid 0 ?s1" using assms by (simp add: mid_def send_sla_def)
  ultimately show ?thesis by blast
qed

lemma loop_ack:
  assumes "mid k s" "k < length payload" "ev_status ev = ack_status k" "ready_in_time tmo ev"
  shows "\<exists>s'. mid (Suc k) s' \<and> i2c_loop sw tmo (ev # evs) s = i2c_loop sw tmo evs s'"
proof -
  let ?s = "i2c_wait_ready tmo ev s"
  obtain a t where at: "sw ?s = Inr ((I2C_SET_DATA (payload ! k) ?s)\<lparr>u8Addr := a, u32txLen := t\<rparr>)" "at (Suc k) a t"
    using sw_ack[of k ?s] assms by (auto simp: mid_def)
  let ?s1 = "(I2C_SET_DATA (payload ! k) ?s)\<lparr>u8Addr := a, u32txLen := t\<rparr>"
  have "i2c_loop sw tmo (ev # evs) s = i2c_loop sw tmo evs (I2C_SET_CONTROL_REG (u8Ctrl ?s1) ?s1)"
    by (rule i2c_loop_step) (use assms(1) at(1) in \<open>auto simp: mid_def\<close>)
  moreover have "mid (Suc k) (I2C_SET_CONTROL_REG (u8Ctrl ?s1) ?s1)"
    using assms at(2) by (simp add: mid_def take_Suc_conv_app_nth)
  ultimately show ?thesis by blast
qed

lemma loop_acks:
  assumes "mid k s" "k + m \<le> length payload" "map ev_status evs = map ack_status [k..<k + m]"
    "\<forall>ev \<in> set evs. ready_in_time tmo ev"
  shows "\<exists>s'. mid (k + m) s' \<and> i2c_loop sw tmo (evs @ rest) s = i2c_loop sw tmo rest s'"
  using assms
proof (induction m arbitrary: k s evs)
  case (Suc m)
  obtain ev evs' where evs: "evs = ev # evs'" "ev_status ev = ack_status k"
      "map ev_status evs' = map ack_status [Suc k..<Suc k + m]"
    using Suc.prems(3) by (auto simp: upt_conv_Cons map_eq_Cons_conv simp del: upt_Suc)
  obtain s1 where s1: "mid (Suc k) s1" "i2c_loop sw tmo (ev # evs' @ rest) s = i2c_loop sw tmo (evs' @ rest) s1"
    using loop_ack[of k s ev tmo "evs' @ rest"] Suc.prems evs by auto
  show ?case using Suc.IH[OF s1(1) _ evs(3)] Suc.prems s1(2) evs(1) by auto
qed auto

text \<open>The whole frame, acknowledged.\<close>

lemma run_acked:
  assumes "at 0 1 0" "map ev_status evs = 0x08 # map ack_status [0..<Suc (length payload)]"
    "\<forall>ev \<in> set evs. ready_in_time tmo ev"
  shows "\<exists>s. i2c_run sw tmo evs sto (xfer_init r buf) = Some (Inr s) \<and>
    bus s = write_frame (sla_w sla) payload \<and> u8Err s = 0 \<and> u8Xfering s = 0 \<and>
    at (length payload) (u8Addr s) (u32txLen s) \<and>
    g_I2C_i32ErrCode s = (if sto < poll_budget tmo then 0 else I2C_ERR_TIMEOUT)"
proof -
  obtain ev0 evs1 evn where evs: "evs = ev0 # evs1 @ [evn]" "ev_status ev0 = 0x08"
      "map ev_status evs1 = map ack_status [0..<0 + length payload]" "ev_status evn = ack_status (length payload)"
    using assms(2) by (auto simp: map_eq_Cons_conv map_eq_append_conv)
  obtain s0 where s0: "mid 0 s0" "i2c_loop sw tmo evs (I2C_START (xfer_init r buf)) = i2c_loop sw tmo (evs1 @ [evn]) s0"
    using loop_begin[OF assms(1) evs(2), of tmo "evs1 @ [evn]" r buf] assms(3) evs(1) by auto
  obtain s1 where s1: "mid (length payload) s1"
      "i2c_loop sw tmo (evs1 @ [evn]) s0 = i2c_loop sw tmo [evn] s1"
    using loop_acks[OF s0(1) _ evs(3), of tmo "[evn]"] assms(3) evs(1) by auto
  have "sw (i2c_wait_ready tmo evn s1) = Inr (finish (i2c_wait_ready tmo evn s1))"
    using sw_done s1(1) evs(4) by (simp add: mid_def)
  then show ?thesis using s0(2) s1 assms(3) evs(1)
    by (auto simp: i2c_run_def i2c_round_Inr finish_def mid_def write_frame_def)
qed

text \<open>The address (\<open>k = 0\<close>) or the byte before position \<open>k\<close> is not acknowledged.\<close>

lemma run_nacked:
  assumes "at 0 1 0" "k \<le> length payload" "map ev_status evs = 0x08 # map ack_status [0..<k] @ [nack_status k]"
    "\<forall>ev \<in> set evs. ready_in_time tmo ev"
  shows "\<exists>s. i2c_run sw tmo evs sto (xfer_init r buf) = Some (Inr s) \<and>
    bus s = write_frame (sla_w sla) (take k payload) \<and> u8Err s = 1 \<and> u8Xfering s = 1 \<and>
    at k (u8Addr s) (u32txLen s) \<and>
    g_I2C_i32ErrCode s = (if sto < poll_budget tmo then 0 else I2C_ERR_TIMEOUT)"
proof -
  obtain ev0 evs1 evn where evs: "evs = ev0 # evs1 @ [evn]" "ev_status ev0 = 0x08"
      "map ev_status evs1 = map ack_status [0..<0 + k]" "ev_status evn = nack_status k"
    using assms(3) by (auto simp: map_eq_Cons_conv map_eq_append_conv)
  obtain s0 where s0: "mid 0 s0" "i2c_loop sw tmo evs (I2C_START (xfer_init r buf)) = i2c_loop sw tmo (evs1 @ [evn]) s0"
    using loop_begin[OF assms(1) evs(2), of tmo "evs1 @ [evn]" r buf] assms(4) evs(1) by auto
  obtain s1 where s1: "mid k s1"
      "i2c_loop sw tmo (evs1 @ [evn]) s0 = i2c_loop sw tmo [evn] s1"
    using loop_acks[OF s0(1) _ evs(3), of tmo "[evn]"] assms(2,4) evs(1) by auto
  have "sw (i2c_wait_ready tmo evn s1) = Inr (nacked (i2c_wait_ready tmo evn s1))"
    using sw_nack[of _ k] evs(4) by simp
  then show ?thesis using s0(2) s1 assms(4) evs(1)
    by (auto simp: i2c_run_def i2c_round_Inr nacked_def mid_def write_frame_def)
qed

end

section \<open>The writing switches\<close>

lemma unat_of_nat_le: "k \<le> unat (n :: u32) \<Longrightarrow> unat (of_nat k :: u32) = k"
  by (metis le_unat_uoi)

lemma of_nat_less_u32: "k \<le> unat (n :: u32) \<Longrightarrow> (of_nat k < n) = (k < unat n)"
  by (simp add: word_less_nat_alt unat_of_nat_le)

lemma set_data_same:
  "(I2C_SET_DATA b s)\<lparr>u32txLen := t\<rparr> = (I2C_SET_DATA b s)\<lparr>u8Addr := u8Addr s, u32txLen := t\<rparr>"
  "I2C_SET_DATA b s = (I2C_SET_DATA b s)\<lparr>u8Addr := u8Addr s, u32txLen := u32txLen s\<rparr>"
  by (simp_all add: I2C_SET_DATA_def)

lemma send_next_nth:
  assumes "k < unat n" "unat n \<le> length d" "u32txLen s = of_nat k"
  shows "u32txLen s < n"
    "send_next d s = Inr ((I2C_SET_DATA (d ! k) s)\<lparr>u8Addr := u8Addr s, u32txLen := of_nat (Suc k)\<rparr>)"
proof -
  have "unat (of_nat k :: u32) = k" using assms(1) unat_of_nat_le[of k n] by simp
  then show "u32txLen s < n"
    "send_next d s = Inr ((I2C_SET_DATA (d ! k) s)\<lparr>u8Addr := u8Addr s, u32txLen := of_nat (Suc k)\<rparr>)"
    using assms by (simp_all add: send_next_def set_data_same(1) word_less_nat_alt add.commute)
qed

lemmas writer_defs = ack_status_def nack_status_def Let_def

interpretation wb: i2c_writer "sw_WriteByte a d" a "[d]" "\<lambda>k x t. True"
proof (unfold_locales, goal_cases)
  case (2 k s)
  then show ?case by (intro exI[of _ "u8Addr s"] exI[of _ "u32txLen s"]) (auto simp: sw_WriteByte_def writer_defs)
qed (auto simp: sw_WriteByte_def writer_defs split: if_splits)

abbreviation at_multi :: "nat \<Rightarrow> u8 list \<Rightarrow> u32 \<Rightarrow> nat \<Rightarrow> u32 \<Rightarrow> bool" where
  "at_multi pre d n k t \<equiv> k \<le> pre + unat n \<and> unat n \<le> length d \<and> t = of_nat (k - pre)"

interpretation wm: i2c_writer "sw_WriteMultiBytes a d n" a "take (unat n) d" "\<lambda>k x t. at_multi 0 d n k t"
proof (unfold_locales, goal_cases)
  case (2 k s)
  then show ?case using send_next_nth[of k n d s]
    by (intro exI[of _ "u8Addr s"] exI[of _ "of_nat (Suc k)"]) (auto simp: sw_WriteMultiBytes_def writer_defs)
qed (auto simp: sw_WriteMultiBytes_def writer_defs split: if_splits)

interpretation wb1: i2c_writer "sw_WriteByteOneReg a g d" a "[g, d]" "\<lambda>k x t. k \<le> 2 \<and> t = of_nat (k - 1)"
proof (unfold_locales, goal_cases)
  case (2 k s)
  then have "k = 0 \<or> k = 1" by auto
  then show ?case using 2
    by (intro exI[of _ "u8Addr s"] exI[of _ "of_nat k"]) (auto simp: sw_WriteByteOneReg_def writer_defs)
qed (auto simp: sw_WriteByteOneReg_def writer_defs split: if_splits)

interpretation wm1: i2c_writer "sw_WriteMultiBytesOneReg a g d n" a "g # take (unat n) d"
  "\<lambda>k x t. at_multi 1 d n k t"
proof (unfold_locales, goal_cases)
  case (2 k s)
  show ?case
  proof (cases k)
    case 0
    then show ?thesis using 2
      by (intro exI[of _ "u8Addr s"] exI[of _ 0]) (auto simp: sw_WriteMultiBytesOneReg_def writer_defs)
  next
    case (Suc j)
    then show ?thesis using 2 send_next_nth[of j n d s]
      by (intro exI[of _ "u8Addr s"] exI[of _ "of_nat k"]) (auto simp: sw_WriteMultiBytesOneReg_def writer_defs)
  qed
qed (auto simp: sw_WriteMultiBytesOneReg_def writer_defs split: if_splits)

interpretation wb2: i2c_writer "sw_WriteByteTwoRegs a h d" a "[addr_hi h, addr_lo h, d]"
  "\<lambda>k x t. k \<le> 3 \<and> x = of_bool (k \<le> 1) \<and> t = of_nat (k - 2)"
proof (unfold_locales, goal_cases)
  case (2 k s)
  then have "k = 0 \<or> k = 1 \<or> k = 2" by auto
  then show ?case using 2
    by (intro exI[of _ "of_bool (k = 0)"] exI[of _ "of_nat (k - 1)"])
      (auto simp: sw_WriteByteTwoRegs_def writer_defs)
qed (auto simp: sw_WriteByteTwoRegs_def writer_defs split: if_splits)

interpretation wm2: i2c_writer "sw_WriteMultiBytesTwoRegs a h d n" a "addr_hi h # addr_lo h # take (unat n) d"
  "\<lambda>k x t. x = of_bool (k \<le> 1) \<and> at_multi 2 d n k t"
proof (unfold_locales, goal_cases)
  case (2 k s)
  show ?case
  proof (cases "k \<le> 1")
    case True
    then have "k = 0 \<or> k = 1" by auto
    then show ?thesis using 2
      by (intro exI[of _ "of_bool (k = 0)"] exI[of _ 0]) (auto simp: sw_WriteMultiBytesTwoRegs_def writer_defs)
  next
    case False
    then have "k = Suc (Suc (k - 2))" by simp
    then obtain j where "k = Suc (Suc j)" by blast
    then show ?thesis using 2 send_next_nth[of j n d s]
      by (intro exI[of _ 0] exI[of _ "of_nat (Suc j)"]) (auto simp: sw_WriteMultiBytesTwoRegs_def writer_defs)
  qed
qed (auto simp: sw_WriteMultiBytesTwoRegs_def writer_defs split: if_splits)

end
