(* ===== verification/I2c_Read.thy ===== *)
theory I2c_Read
  imports I2c_Facts
begin

text \<open>
  The reading transfers: \<open>i2c_reader\<close> states what the address phase of a read does,
  \<open>i2c_byte_receiver\<close> and \<open>i2c_receiver\<close> add what the switch does with received bytes. The
  lemma \<open>run_receive\<close> gives the whole transfer for each of the six reading functions.
\<close>

section \<open>The address phase\<close>

text \<open>State of a read whose slave has been addressed with SLA+R.\<close>

definition addressed :: "i2c_op list \<Rightarrow> u8 list \<Rightarrow> i2c_xfer \<Rightarrow> bool" where
  "addressed ops buf s \<longleftrightarrow> u8Xfering s = 1 \<and> u8Err s = 0 \<and> g_I2C_i32ErrCode s = 0 \<and> u32rxLen s = 0 \<and>
     rbuf s = buf \<and> bus s = ops"

definition read_ops :: "u8 \<Rightarrow> u8 list \<Rightarrow> i2c_op list" where
  "read_ops sla reg = (if reg = [] then Start # write_ops [sla_r sla]
     else Start # write_ops (sla_w sla # reg) @ Set_control I2C_CTL_STA_SI # write_ops [sla_r sla])"

definition read_statuses :: "u8 list \<Rightarrow> u32 list" where
  "read_statuses reg = (if reg = [] then [0x08] else 0x08 # map ack_status [0..<Suc (length reg)] @ [0x10])"

locale i2c_reader = i2c_master sw for sw :: i2c_switch +
  fixes sla :: u8 and reg :: "u8 list"
  assumes address_phase: "map ev_status evs = read_statuses reg \<Longrightarrow> \<forall>ev \<in> set evs. ready_in_time tmo ev \<Longrightarrow>
      \<exists>s. addressed (read_ops sla reg) buf s \<and>
        i2c_loop sw tmo (evs @ rest) (I2C_START (xfer_init r buf)) = i2c_loop sw tmo rest s"

lemma addressedI:
  assumes "u8Xfering s = 1" "u8Err s = 0" "g_I2C_i32ErrCode s = 0" "u32rxLen s = 0" "rbuf s = buf" "bus s = ops"
  shows "\<exists>s'. addressed ops buf s' \<and> i2c_loop sw tmo rest s = i2c_loop sw tmo rest s'"
  using assms by (auto simp: addressed_def)

section \<open>Reading one byte\<close>

locale i2c_byte_receiver = i2c_reader +
  assumes sw_addressed: "I2C_GET_STATUS s = 0x40 \<Longrightarrow> sw s = Inr (s\<lparr>u8Ctrl := I2C_CTL_SI\<rparr>)"
    and sw_byte: "I2C_GET_STATUS s = 0x58 \<Longrightarrow> sw s = Inr (receive_byte s)"
begin

lemma run_receive:
  assumes "map ev_status evs = read_statuses reg @ [0x40, 0x58]" "\<forall>ev \<in> set evs. ready_in_time tmo ev"
  shows "\<exists>s. i2c_run sw tmo evs sto (xfer_init r buf) = Some (Inr s) \<and> ret_rdata s = ucast (ev_dat (last evs)) \<and>
    bus s = read_ops sla reg @ [Set_control I2C_CTL_SI, Set_control I2C_CTL_STO_SI] \<and>
    g_I2C_i32ErrCode s = (if sto < poll_budget tmo then 0 else I2C_ERR_TIMEOUT)"
proof -
  obtain pre ea eb where evs: "evs = pre @ [ea, eb]" "map ev_status pre = read_statuses reg"
      "ev_status ea = 0x40" "ev_status eb = 0x58"
    using assms(1) by (auto simp: map_eq_append_conv)
  obtain s0 where s0: "addressed (read_ops sla reg) buf s0"
      "i2c_loop sw tmo evs (I2C_START (xfer_init r buf)) = i2c_loop sw tmo [ea, eb] s0"
    using address_phase[OF evs(2), of tmo buf "[ea, eb]" r] assms(2) evs(1) by auto
  let ?sa = "I2C_SET_CONTROL_REG I2C_CTL_SI ((i2c_wait_ready tmo ea s0)\<lparr>u8Ctrl := I2C_CTL_SI\<rparr>)"
  let ?sb = "I2C_SET_CONTROL_REG I2C_CTL_STO_SI (receive_byte (i2c_wait_ready tmo eb ?sa))"
  have act: "xfer_active s0" "xfer_active ?sa" using s0(1) assms(2) evs(1) by (auto simp: addressed_def)
  have "i2c_loop sw tmo [ea, eb] s0 = i2c_loop sw tmo [eb] ?sa"
    using i2c_loop_step[OF act(1), of sw tmo ea _ "[eb]"] sw_addressed evs(3) by simp
  also have "\<dots> = i2c_loop sw tmo [] ?sb"
    using i2c_loop_step[OF act(2), of sw tmo eb _ "[]"] sw_byte evs(4) by (simp add: receive_byte_def finish_def)
  also have "\<dots> = Some (Inr ?sb)" by (simp add: receive_byte_def finish_def)
  finally have "i2c_run sw tmo evs sto (xfer_init r buf) = Some (Inr (i2c_wait_stop tmo sto ?sb))"
    using s0(2) by (simp add: i2c_run_def)
  then show ?thesis using s0(1) assms(2) evs(1)
    by (auto simp: addressed_def receive_byte_def finish_def ret_rdata_def)
qed

end

section \<open>Reading several bytes\<close>

locale i2c_receiver = i2c_reader +
  fixes n :: u32
  assumes sw_addressed: "I2C_GET_STATUS s = 0x40 \<Longrightarrow> sw s = Inr (s\<lparr>u8Ctrl := I2C_CTL_SI_AA\<rparr>)"
    and sw_more: "I2C_GET_STATUS s = 0x50 \<Longrightarrow> sw s = receive_more n s"
    and sw_last: "I2C_GET_STATUS s = 0x58 \<Longrightarrow> sw s = receive_last s"
begin

text \<open>After \<open>k\<close> bytes of a read of \<open>m\<close> bytes.\<close>

definition received :: "u8 list \<Rightarrow> u8 list \<Rightarrow> i2c_xfer \<Rightarrow> bool" where
  "received bs buf s \<longleftrightarrow> u8Xfering s = 1 \<and> u8Err s = 0 \<and> g_I2C_i32ErrCode s = 0 \<and>
     u32rxLen s = of_nat (length bs) \<and> length bs < unat n \<and> unat n \<le> length buf \<and>
     rbuf s = bs @ drop (length bs) buf"

lemma receive_step:
  assumes "received bs buf s" "ev_status ev = 0x50" "ready_in_time tmo ev" "Suc (length bs) < unat n"
  shows "\<exists>s'. received (bs @ [ucast (ev_dat ev)]) buf s' \<and>
    bus s' = bus s @ [Set_control (if Suc (Suc (length bs)) < unat n then I2C_CTL_SI_AA else I2C_CTL_SI)] \<and>
    i2c_loop sw tmo (ev # evs) s = i2c_loop sw tmo evs s'"
proof -
  let ?s = "i2c_wait_ready tmo ev s"
  let ?c = "if Suc (Suc (length bs)) < unat n then I2C_CTL_SI_AA else I2C_CTL_SI"
  let ?s1 = "?s\<lparr>rbuf := (rbuf s)[length bs := ucast (ev_dat ev)], u32rxLen := u32rxLen s + 1, u8Ctrl := ?c\<rparr>"
  have len: "unat (u32rxLen s) = length bs" "length bs < length (rbuf s)"
    using assms(1) unat_of_nat_le[of "length bs" n] by (auto simp: received_def)
  have n1: "unat (n - 1) = unat n - 1" using assms(4) by (subst unat_minus_one_u32) auto
  have "u32rxLen s + 1 = of_nat (Suc (length bs))" using assms(1) by (simp add: received_def)
  then have "unat (u32rxLen s + 1) = Suc (length bs)"
    using unat_of_nat_le[of "Suc (length bs)" n] assms(4) by (simp add: add.commute)
  then have "u32rxLen s + 1 < n - 1 \<longleftrightarrow> Suc (Suc (length bs)) < unat n"
    using n1 by (auto simp: word_less_nat_alt)
  then have "receive_more n ?s = Inr ?s1"
    using len by (simp add: receive_more_def store_next_def Let_def)
  then have "i2c_loop sw tmo (ev # evs) s = i2c_loop sw tmo evs (I2C_SET_CONTROL_REG ?c ?s1)"
    using i2c_loop_step[of s sw tmo ev ?s1 evs] sw_more[of ?s] assms(1,2) by (simp add: received_def)
  moreover have "received (bs @ [ucast (ev_dat ev)]) buf (I2C_SET_CONTROL_REG ?c ?s1)"
    using assms by (auto simp: received_def add.commute list_update_append Cons_nth_drop_Suc[symmetric])
  ultimately show ?thesis by fastforce
qed

lemma receive_steps:
  assumes "received bs buf s" "\<forall>ev \<in> set evs. ev_status ev = 0x50 \<and> ready_in_time tmo ev"
    "length bs + length evs < unat n"
  shows "\<exists>s'. received (bs @ map (\<lambda>ev. ucast (ev_dat ev)) evs) buf s' \<and>
    bus s' = bus s @ map (\<lambda>k. Set_control (if Suc (Suc k) < unat n then I2C_CTL_SI_AA else I2C_CTL_SI))
      [length bs..<length bs + length evs] \<and>
    i2c_loop sw tmo (evs @ rest) s = i2c_loop sw tmo rest s'"
  using assms
proof (induction evs arbitrary: bs s)
  case (Cons ev evs)
  obtain s1 where s1: "received (bs @ [ucast (ev_dat ev)]) buf s1"
      "bus s1 = bus s @ [Set_control (if Suc (Suc (length bs)) < unat n then I2C_CTL_SI_AA else I2C_CTL_SI)]"
      "i2c_loop sw tmo (ev # evs @ rest) s = i2c_loop sw tmo (evs @ rest) s1"
    using receive_step[of bs buf s ev tmo "evs @ rest"] Cons.prems by auto
  have "[length bs..<length bs + length (ev # evs)] = length bs # [Suc (length bs)..<Suc (length bs) + length evs]"
    by (simp add: upt_conv_Cons del: upt_Suc)
  then show ?case using Cons.IH[OF s1(1)] Cons.prems s1(2,3) by (auto simp del: upt_Suc)
qed auto

text \<open>Every byte but the last is acknowledged.\<close>

definition receive_ops :: "i2c_op list" where
  "receive_ops = replicate (unat n - 1) (Set_control I2C_CTL_SI_AA) @
     [Set_control I2C_CTL_SI, Set_control I2C_CTL_STO_SI]"

lemma ack_ops:
  assumes "2 \<le> unat n"
  shows "Set_control I2C_CTL_SI_AA #
      map (\<lambda>k. Set_control (if Suc (Suc k) < unat n then I2C_CTL_SI_AA else I2C_CTL_SI)) [0..<unat n - 1] @
      [Set_control I2C_CTL_STO_SI] = receive_ops"
proof -
  obtain m where m: "unat n = Suc (Suc m)" using assms by (metis add_2_eq_Suc le_Suc_ex)
  have "map (\<lambda>k. Set_control (if Suc (Suc k) < unat n then I2C_CTL_SI_AA else I2C_CTL_SI)) [0..<m] =
      replicate m (Set_control I2C_CTL_SI_AA)"
    by (rule nth_equalityI) (auto simp: m)
  then show ?thesis by (simp add: receive_ops_def m)
qed

lemma run_receive:
  assumes "map ev_status evs = read_statuses reg @ 0x40 # replicate (unat n - 1) 0x50 @ [0x58]"
    "\<forall>ev \<in> set evs. ready_in_time tmo ev" "2 \<le> unat n" "unat n \<le> length buf"
  shows "\<exists>s. i2c_run sw tmo evs sto (xfer_init r buf) = Some (Inr s) \<and> u32rxLen s = n \<and> u8Err s = 0 \<and>
    rbuf s = map (\<lambda>ev. ucast (ev_dat ev)) (drop (length (read_statuses reg) + 1) evs) @ drop (unat n) buf \<and>
    bus s = read_ops sla reg @ receive_ops \<and>
    g_I2C_i32ErrCode s = (if sto < poll_budget tmo then 0 else I2C_ERR_TIMEOUT)"
proof -
  obtain pre ea more eb where evs: "evs = pre @ ea # more @ [eb]" "map ev_status pre = read_statuses reg"
      "ev_status ea = 0x40" "map ev_status more = replicate (unat n - 1) 0x50" "ev_status eb = 0x58"
    using assms(1) by (auto simp: map_eq_append_conv append_eq_map_conv map_eq_Cons_conv)
  have len: "length more = unat n - 1" "length pre = length (read_statuses reg)"
    using evs(2,4) by (metis length_map length_replicate)+
  have more: "\<forall>ev \<in> set more. ev_status ev = 0x50"
    using evs(4) by (metis in_set_replicate image_eqI list.set_map)
  obtain s0 where s0: "addressed (read_ops sla reg) buf s0"
      "i2c_loop sw tmo evs (I2C_START (xfer_init r buf)) = i2c_loop sw tmo (ea # more @ [eb]) s0"
    using address_phase[OF evs(2), of tmo buf "ea # more @ [eb]" r] assms(2) evs(1) by auto
  let ?sa = "I2C_SET_CONTROL_REG I2C_CTL_SI_AA ((i2c_wait_ready tmo ea s0)\<lparr>u8Ctrl := I2C_CTL_SI_AA\<rparr>)"
  have act: "xfer_active s0" "received [] buf ?sa"
    using s0(1) assms(2-) evs(1) by (auto simp: addressed_def received_def)
  have sa: "i2c_loop sw tmo (ea # more @ [eb]) s0 = i2c_loop sw tmo (more @ [eb]) ?sa"
    using i2c_loop_step[OF act(1), of sw tmo ea _ "more @ [eb]"] sw_addressed evs(3) by simp
  obtain s1 where s1: "received (map (\<lambda>ev. ucast (ev_dat ev)) more) buf s1"
      "bus s1 = bus ?sa @ map (\<lambda>k. Set_control (if Suc (Suc k) < unat n then I2C_CTL_SI_AA else I2C_CTL_SI)) [0..<unat n - 1]"
      "i2c_loop sw tmo (more @ [eb]) ?sa = i2c_loop sw tmo [eb] s1"
    using receive_steps[OF act(2), of more tmo "[eb]"] more len assms(2,3) evs(1) by auto
  let ?sb = "I2C_SET_CONTROL_REG I2C_CTL_STO_SI (finish ((i2c_wait_ready tmo eb s1)\<lparr>rbuf :=
    (rbuf s1)[unat n - 1 := ucast (ev_dat eb)], u32rxLen := u32rxLen s1 + 1\<rparr>))"
  have rx: "unat (u32rxLen s1) = unat n - 1" "u32rxLen s1 + 1 = n" "unat n - 1 < length (rbuf s1)"
    using s1(1) len(1) assms(3) unat_of_nat_le[of "unat n - 1" n]
    by (auto simp: received_def of_nat_diff)
  have "i2c_loop sw tmo [eb] s1 = i2c_loop sw tmo [] ?sb"
    using i2c_loop_step[of s1 sw tmo eb _ "[]"] sw_last evs(5) s1(1) rx
    by (simp add: received_def receive_last_def store_next_def finish_def Let_def)
  also have "\<dots> = Some (Inr ?sb)" by (simp add: finish_def)
  finally have run: "i2c_run sw tmo evs sto (xfer_init r buf) = Some (Inr (i2c_wait_stop tmo sto ?sb))"
    using s0(2) sa s1(3) by (simp add: i2c_run_def)
  have buf: "(rbuf s1)[unat n - 1 := ucast (ev_dat eb)] =
      map (\<lambda>ev. ucast (ev_dat ev)) (drop (length (read_statuses reg) + 1) evs) @ drop (unat n) buf"
    using s1(1) len evs(1) assms(3,4)
    by (simp add: received_def list_update_append Cons_nth_drop_Suc[symmetric])
  have "bus ?sb = read_ops sla reg @ receive_ops"
    using s1(2) s0(1) ack_ops[OF assms(3)] by (simp add: finish_def addressed_def)
  then show ?thesis using run buf rx(2) s1(1) assms(2) evs(1) by (auto simp: finish_def received_def)
qed

end

section \<open>The reading switches\<close>

lemma statuses_Nil [simp]: "read_statuses [] = [0x08]"
  by (simp add: read_statuses_def)

lemma statuses_One [simp]: "read_statuses [g] = [0x08, 0x18, 0x28, 0x10]"
  by (simp add: read_statuses_def ack_status_def upt_rec)

lemma statuses_Two [simp]: "read_statuses [g, h] = [0x08, 0x18, 0x28, 0x28, 0x10]"
  by (simp add: read_statuses_def ack_status_def upt_rec)

lemma address_phase_ReadByte:
  assumes "map ev_status evs = read_statuses []" "\<forall>ev \<in> set evs. ready_in_time tmo ev"
  shows "\<exists>s. addressed (read_ops a []) buf s \<and>
    i2c_loop (sw_ReadByte a) tmo (evs @ rest) (I2C_START (xfer_init r buf)) = i2c_loop (sw_ReadByte a) tmo rest s"
  using assms
  by (auto simp: map_eq_Cons_conv i2c_round_def sw_ReadByte_def send_sla_def read_ops_def intro!: addressedI)

interpretation rb: i2c_byte_receiver "sw_ReadByte a" a "[]"
  by unfold_locales (use address_phase_ReadByte in \<open>auto simp: sw_ReadByte_def Let_def split: if_splits\<close>)

lemma address_phase_ReadMultiBytes:
  assumes "map ev_status evs = read_statuses []" "\<forall>ev \<in> set evs. ready_in_time tmo ev"
  shows "\<exists>s. addressed (read_ops a []) buf s \<and>
    i2c_loop (sw_ReadMultiBytes a n) tmo (evs @ rest) (I2C_START (xfer_init r buf)) = i2c_loop (sw_ReadMultiBytes a n) tmo rest s"
  using assms
  by (auto simp: map_eq_Cons_conv i2c_round_def sw_ReadMultiBytes_def send_sla_def read_ops_def intro!: addressedI)

interpretation rm: i2c_receiver "sw_ReadMultiBytes a n" a "[]" n
  by unfold_locales (use address_phase_ReadMultiBytes in \<open>auto simp: sw_ReadMultiBytes_def Let_def split: if_splits\<close>)

lemma address_phase_ReadByteOneReg:
  assumes "map ev_status evs = read_statuses [g]" "\<forall>ev \<in> set evs. ready_in_time tmo ev"
  shows "\<exists>s. addressed (read_ops a [g]) buf s \<and>
    i2c_loop (sw_ReadByteOneReg a g) tmo (evs @ rest) (I2C_START (xfer_init r buf)) = i2c_loop (sw_ReadByteOneReg a g) tmo rest s"
  using assms
  by (auto simp: map_eq_Cons_conv i2c_round_def sw_ReadByteOneReg_def send_sla_def read_ops_def intro!: addressedI)

interpretation rb1: i2c_byte_receiver "sw_ReadByteOneReg a g" a "[g]"
  by unfold_locales (use address_phase_ReadByteOneReg in \<open>auto simp: sw_ReadByteOneReg_def Let_def split: if_splits\<close>)

lemma address_phase_ReadMultiBytesOneReg:
  assumes "map ev_status evs = read_statuses [g]" "\<forall>ev \<in> set evs. ready_in_time tmo ev"
  shows "\<exists>s. addressed (read_ops a [g]) buf s \<and>
    i2c_loop (sw_ReadMultiBytesOneReg a g n) tmo (evs @ rest) (I2C_START (xfer_init r buf)) = i2c_loop (sw_ReadMultiBytesOneReg a g n) tmo rest s"
  using assms
  by (auto simp: map_eq_Cons_conv i2c_round_def sw_ReadMultiBytesOneReg_def send_sla_def read_ops_def intro!: addressedI)

interpretation rm1: i2c_receiver "sw_ReadMultiBytesOneReg a g n" a "[g]" n
  by unfold_locales (use address_phase_ReadMultiBytesOneReg in \<open>auto simp: sw_ReadMultiBytesOneReg_def Let_def split: if_splits\<close>)

lemma address_phase_ReadByteTwoRegs:
  assumes "map ev_status evs = read_statuses [addr_hi h, addr_lo h]" "\<forall>ev \<in> set evs. ready_in_time tmo ev"
  shows "\<exists>s. addressed (read_ops a [addr_hi h, addr_lo h]) buf s \<and>
    i2c_loop (sw_ReadByteTwoRegs a h) tmo (evs @ rest) (I2C_START (xfer_init r buf)) = i2c_loop (sw_ReadByteTwoRegs a h) tmo rest s"
  using assms
  by (auto simp: map_eq_Cons_conv i2c_round_def sw_ReadByteTwoRegs_def send_sla_def read_ops_def intro!: addressedI)

interpretation rb2: i2c_byte_receiver "sw_ReadByteTwoRegs a h" a "[addr_hi h, addr_lo h]"
  by unfold_locales (use address_phase_ReadByteTwoRegs in \<open>auto simp: sw_ReadByteTwoRegs_def Let_def split: if_splits\<close>)

lemma address_phase_ReadMultiBytesTwoRegs:
  assumes "map ev_status evs = read_statuses [addr_hi h, addr_lo h]" "\<forall>ev \<in> set evs. ready_in_time tmo ev"
  shows "\<exists>s. addressed (read_ops a [addr_hi h, addr_lo h]) buf s \<and>
    i2c_loop (sw_ReadMultiBytesTwoRegs a h n) tmo (evs @ rest) (I2C_START (xfer_init r buf)) = i2c_loop (sw_ReadMultiBytesTwoRegs a h n) tmo rest s"
  using assms
  by (auto simp: map_eq_Cons_conv i2c_round_def sw_ReadMultiBytesTwoRegs_def send_sla_def read_ops_def intro!: addressedI)

interpretation rm2: i2c_receiver "sw_ReadMultiBytesTwoRegs a h n" a "[addr_hi h, addr_lo h]" n
  by unfold_locales (use address_phase_ReadMultiBytesTwoRegs in \<open>auto simp: sw_ReadMultiBytesTwoRegs_def Let_def split: if_splits\<close>)

end
