(* ===== verification/I2c_Props.thy ===== *)
theory I2c_Props
  imports I2c_Read
begin

text \<open>
  The properties of the I2C driver: what a transfer does on the bus when the slave answers, when it
  does not, and when the controller stays silent; and the clock divider.
\<close>

section \<open>Vocabulary\<close>

text \<open>The switches of the driver.\<close>

inductive driver_switch :: "i2c_switch \<Rightarrow> bool" where
  "driver_switch (sw_WriteByte a d)"
| "driver_switch (sw_WriteMultiBytes a ds n)"
| "driver_switch (sw_WriteByteOneReg a g d)"
| "driver_switch (sw_WriteMultiBytesOneReg a g ds n)"
| "driver_switch (sw_WriteByteTwoRegs a h d)"
| "driver_switch (sw_WriteMultiBytesTwoRegs a h ds n)"
| "driver_switch (sw_ReadByte a)"
| "driver_switch (sw_ReadMultiBytes a n)"
| "driver_switch (sw_ReadByteOneReg a g)"
| "driver_switch (sw_ReadMultiBytesOneReg a g n)"
| "driver_switch (sw_ReadByteTwoRegs a h)"
| "driver_switch (sw_ReadMultiBytesTwoRegs a h n)"

lemma driver_switch_master: "driver_switch sw \<Longrightarrow> i2c_master sw"
  by (induction rule: driver_switch.induct)
    (rule wb.i2c_master_axioms wm.i2c_master_axioms wb1.i2c_master_axioms wm1.i2c_master_axioms
      wb2.i2c_master_axioms wm2.i2c_master_axioms rb.i2c_master_axioms rm.i2c_master_axioms
      rb1.i2c_master_axioms rm1.i2c_master_axioms rb2.i2c_master_axioms rm2.i2c_master_axioms)+

definition in_time :: "u32 \<Rightarrow> i2c_event list \<Rightarrow> bool" where
  "in_time tmo evs = list_all (ready_in_time tmo) evs"

text \<open>START, the address and \<open>m\<close> bytes are acknowledged in time.\<close>

definition acked :: "u32 \<Rightarrow> nat \<Rightarrow> i2c_event list \<Rightarrow> bool" where
  "acked tmo m evs \<longleftrightarrow> in_time tmo evs \<and> map ev_status evs = 0x08 # map ack_status [0..<Suc m]"

text \<open>The slave acknowledges \<open>k\<close> times (the address first) and then no more.\<close>

definition acked_then_nacked :: "u32 \<Rightarrow> nat \<Rightarrow> i2c_event list \<Rightarrow> bool" where
  "acked_then_nacked tmo k evs \<longleftrightarrow>
     in_time tmo evs \<and> map ev_status evs = 0x08 # map ack_status [0..<k] @ [nack_status k]"

text \<open>
  The register address \<open>reg\<close> and SLA+R are acknowledged, then \<open>m\<close> bytes arrive, the last of
  which the master does not acknowledge.
\<close>

definition answered :: "u32 \<Rightarrow> u8 list \<Rightarrow> nat \<Rightarrow> i2c_event list \<Rightarrow> bool" where
  "answered tmo reg m evs \<longleftrightarrow>
     in_time tmo evs \<and> map ev_status evs = read_statuses reg @ 0x40 # replicate (m - 1) 0x50 @ [0x58]"

definition read_bytes :: "nat \<Rightarrow> i2c_event list \<Rightarrow> u8 list" where
  "read_bytes m evs = map (\<lambda>ev. ucast (ev_dat ev)) (drop (length evs - m) evs)"

definition read_frame :: "u8 \<Rightarrow> u8 list \<Rightarrow> nat \<Rightarrow> i2c_op list" where
  "read_frame sla reg m = read_ops sla reg @ replicate (m - 1) (Set_control I2C_CTL_SI_AA) @
     [Set_control I2C_CTL_SI, Set_control I2C_CTL_STO_SI]"

lemmas in_timeD = in_time_def list_all_iff

lemma with_result_eq:
  "with_result f (Some (Inr s)) = Some (Inr (f s, s))" "with_result f None = None"
  "with_result f (Some (Inl x)) = Some (Inl x)"
  by (simp_all add: with_result_def)

lemma with_result_SomeE:
  assumes "with_result f x = Some (Inr (v, s))"
  shows "x = Some (Inr s) \<and> v = f s"
  using assms by (cases x) (auto simp: with_result_def map_sum_def split: sum.splits)

text \<open>An event whose status is read at once, and a block of registers, for the witnesses.\<close>

abbreviation ev :: "u32 \<Rightarrow> u32 \<Rightarrow> i2c_event" where
  "ev st d \<equiv> \<lparr>ev_wait = 0, ev_status = st, ev_dat = d\<rparr>"

definition regs0 :: I2C_T where
  "regs0 = \<lparr>CTL0 = 0x40, ADDR0 = 0, DAT = 0, STATUS0 = 0xF8, CLKDIV = 0, TOCTL = 0, ADDR1 = 0, ADDR2 = 0,
     ADDR3 = 0, ADDRMSK0 = 0, ADDRMSK1 = 0, ADDRMSK2 = 0, ADDRMSK3 = 0, WKCTL = 0\<rparr>"

lemma poll_budget_numeral [simp]: "poll_budget 100 = 100"
  by (simp add: poll_budget_def)

section \<open>Writes\<close>

lemma multi_write_acked:
  assumes "i2c_writer sw a p at" "acked tmo (length p) evs" "at 0 1 0"
    "\<And>x t. at (length p) x t \<Longrightarrow> t = n"
  shows "\<exists>s. with_result u32txLen (i2c_run sw tmo evs sto (xfer_init r [])) = Some (Inr (n, s)) \<and>
    bus s = write_frame (sla_w a) p \<and> (sto < poll_budget tmo \<longrightarrow> g_I2C_i32ErrCode s = 0)"
  using i2c_writer.run_acked[OF assms(1,3), of evs tmo sto r "[]"] assms(2,4)
  by (fastforce simp: acked_def in_timeD with_result_eq)

text \<open>
  C18. The multi-byte writes: if the slave acknowledges its address and every byte, in time, then
  \<open>I2C_WriteMultiBytes\<close>, \<open>I2C_WriteMultiBytesOneReg\<close> and \<open>I2C_WriteMultiBytesTwoRegs\<close>
  return \<open>u32wLen\<close> having put on the bus START, SLA+W, the register address (none, one byte, high byte
  then low byte), the first \<open>u32wLen\<close> bytes of the buffer in order, and STOP, and nothing else.
\<close>

theorem I2C_multi_writes_send_frame:
  assumes "unat n \<le> length d"
  shows "(acked tmo (unat n) evs \<longrightarrow>
      (\<exists>s. I2C_WriteMultiBytes tmo evs sto r a d n = Some (Inr (n, s)) \<and>
         bus s = write_frame (sla_w a) (take (unat n) d) \<and> (sto < poll_budget tmo \<longrightarrow> g_I2C_i32ErrCode s = 0))) \<and>
    (acked tmo (1 + unat n) evs \<longrightarrow>
      (\<exists>s. I2C_WriteMultiBytesOneReg tmo evs sto r a g d n = Some (Inr (n, s)) \<and>
         bus s = write_frame (sla_w a) (g # take (unat n) d) \<and> (sto < poll_budget tmo \<longrightarrow> g_I2C_i32ErrCode s = 0))) \<and>
    (acked tmo (2 + unat n) evs \<longrightarrow>
      (\<exists>s. I2C_WriteMultiBytesTwoRegs tmo evs sto r a h d n = Some (Inr (n, s)) \<and>
         bus s = write_frame (sla_w a) (addr_hi h # addr_lo h # take (unat n) d) \<and>
         (sto < poll_budget tmo \<longrightarrow> g_I2C_i32ErrCode s = 0)))"
  using multi_write_acked[OF wm.i2c_writer_axioms[of a d n], of tmo evs n sto r]
    multi_write_acked[OF wm1.i2c_writer_axioms[of a g d n], of tmo evs n sto r]
    multi_write_acked[OF wm2.i2c_writer_axioms[of a h d n], of tmo evs n sto r] assms
  by (simp add: I2C_WriteMultiBytes_def I2C_WriteMultiBytesOneReg_def I2C_WriteMultiBytesTwoRegs_def)

theorem I2C_multi_writes_send_frame_witness:
  "\<exists>s. I2C_WriteMultiBytes 100 [ev 0x08 0, ev 0x18 0, ev 0x28 0, ev 0x28 0] 3 regs0 0x50 [1, 2] 2 = Some (Inr (2, s)) \<and>
     bus s = [Start, Set_data 0xA0, Set_control 0x08, Set_data 1, Set_control 0x08, Set_data 2,
       Set_control 0x08, Set_control 0x18]"
proof -
  have "acked 100 (unat (2 :: u32)) [ev 0x08 0, ev 0x18 0, ev 0x28 0, ev 0x28 0]"
    by (simp add: acked_def in_time_def ack_status_def upt_rec)
  then show ?thesis
    using I2C_multi_writes_send_frame[of 2 "[1, 2]" 100 "[ev 0x08 0, ev 0x18 0, ev 0x28 0, ev 0x28 0]" 3 regs0 "0x50"]
    by (auto simp: write_frame_def sla_w_def)
qed

lemma write_nacked:
  assumes "i2c_writer sw a p at" "acked_then_nacked tmo k evs" "k \<le> length p" "at 0 1 0"
    "\<And>s. at k (u8Addr s) (u32txLen s) \<Longrightarrow> u8Err s = 1 \<Longrightarrow> u8Xfering s = 1 \<Longrightarrow> f s = v"
  shows "\<exists>s. with_result f (i2c_run sw tmo evs sto (xfer_init r [])) = Some (Inr (v, s)) \<and>
    bus s = write_frame (sla_w a) (take k p) \<and> u8Err s = 1"
  using i2c_writer.run_nacked[OF assms(1,4,3), of evs tmo sto r "[]"] assms(2,5)
  by (fastforce simp: acked_then_nacked_def in_timeD with_result_eq)

text \<open>
  C19. A byte that is not acknowledged ends a write: if the slave acknowledges \<open>k\<close> times and then no
  more, the bus has seen START, SLA+W, the first \<open>k\<close> bytes of the payload (register address, then
  data) and STOP. \<open>I2C_WriteMultiBytes\<close> then returns \<open>k\<close>, which counts the refused byte, and
  \<open>I2C_WriteMultiBytesTwoRegs\<close> the bytes of the buffer sent; \<open>I2C_WriteByteTwoRegs\<close> returns 1.
\<close>

theorem I2C_writes_stop_on_nack:
  assumes "unat n \<le> length d" "acked_then_nacked tmo k evs"
  shows "(k \<le> unat n \<longrightarrow>
      (\<exists>s. I2C_WriteMultiBytes tmo evs sto r a d n = Some (Inr (of_nat k, s)) \<and>
         bus s = write_frame (sla_w a) (take k d) \<and> u8Err s = 1)) \<and>
    (k \<le> 2 + unat n \<longrightarrow>
      (\<exists>s. I2C_WriteMultiBytesTwoRegs tmo evs sto r a h d n = Some (Inr (of_nat (k - 2), s)) \<and>
         bus s = write_frame (sla_w a) (take k (addr_hi h # addr_lo h # d)) \<and> u8Err s = 1)) \<and>
    (k \<le> 3 \<longrightarrow>
      (\<exists>s. I2C_WriteByteTwoRegs tmo evs sto r a h b = Some (Inr (1, s)) \<and>
         bus s = write_frame (sla_w a) (take k [addr_hi h, addr_lo h, b])))"
proof -
  have t: "k \<le> unat n \<Longrightarrow> take k (take (unat n) d) = take k d" by (simp add: min_absorb1)
  have t2: "k \<le> 2 + unat n \<Longrightarrow>
      take k (addr_hi h # addr_lo h # take (unat n) d) = take k (addr_hi h # addr_lo h # d)"
    by (auto simp: take_Cons' min_absorb1)
  have 1: "k \<le> unat n \<longrightarrow> (\<exists>s. I2C_WriteMultiBytes tmo evs sto r a d n = Some (Inr (of_nat k, s)) \<and>
      bus s = write_frame (sla_w a) (take k d) \<and> u8Err s = 1)"
    using write_nacked[OF wm.i2c_writer_axioms[of a d n] assms(2), of u32txLen "of_nat k" sto r] assms(1) t
    by (simp add: I2C_WriteMultiBytes_def)
  have 2: "k \<le> 2 + unat n \<longrightarrow> (\<exists>s. I2C_WriteMultiBytesTwoRegs tmo evs sto r a h d n = Some (Inr (of_nat (k - 2), s)) \<and>
      bus s = write_frame (sla_w a) (take k (addr_hi h # addr_lo h # d)) \<and> u8Err s = 1)"
    using write_nacked[OF wm2.i2c_writer_axioms[of a h d n] assms(2), of u32txLen "of_nat (k - 2)" sto r] assms(1) t2
    by (simp add: I2C_WriteMultiBytesTwoRegs_def)
  have 3: "k \<le> 3 \<longrightarrow> (\<exists>s. I2C_WriteByteTwoRegs tmo evs sto r a h b = Some (Inr (1, s)) \<and>
      bus s = write_frame (sla_w a) (take k [addr_hi h, addr_lo h, b]))"
    using write_nacked[OF wb2.i2c_writer_axioms[of a h b] assms(2), of ret_status 1 sto r]
    by (auto simp: I2C_WriteByteTwoRegs_def ret_status_def)
  show ?thesis using 1 2 3 by blast
qed

theorem I2C_writes_stop_on_nack_witness:
  "\<exists>s. I2C_WriteMultiBytes 100 [ev 0x08 0, ev 0x18 0, ev 0x30 0] 3 regs0 0x50 [1, 2] 2 = Some (Inr (1, s)) \<and>
     bus s = [Start, Set_data 0xA0, Set_control 0x08, Set_data 1, Set_control 0x08, Set_control 0x18]"
proof -
  have "acked_then_nacked 100 1 [ev 0x08 0, ev 0x18 0, ev 0x30 0]"
    by (simp add: acked_then_nacked_def in_time_def ack_status_def nack_status_def)
  from I2C_writes_stop_on_nack[OF _ this, of 2 "[1, 2]" 3 regs0 "0x50"] show ?thesis
    by (auto simp: write_frame_def sla_w_def)
qed

section \<open>Reads\<close>

lemma multi_read_answered:
  assumes "i2c_receiver sw a reg n" "answered tmo reg (unat n) evs" "2 \<le> unat n" "unat n \<le> length buf"
  shows "\<exists>s. with_result u32rxLen (i2c_run sw tmo evs sto (xfer_init r buf)) = Some (Inr (n, s)) \<and>
    rbuf s = read_bytes (unat n) evs @ drop (unat n) buf \<and> bus s = read_frame a reg (unat n)"
proof -
  have st: "map ev_status evs = read_statuses reg @ 0x40 # replicate (unat n - 1) 0x50 @ [0x58]"
    "\<forall>ev \<in> set evs. ready_in_time tmo ev"
    using assms(2) by (simp_all add: answered_def in_timeD)
  have "length evs = length (read_statuses reg) + 1 + unat n"
    using arg_cong[OF st(1), of length] assms(3) by simp
  then have rb: "read_bytes (unat n) evs = map (\<lambda>ev. ucast (ev_dat ev)) (drop (length (read_statuses reg) + 1) evs)"
    by (simp add: read_bytes_def)
  obtain s where "i2c_run sw tmo evs sto (xfer_init r buf) = Some (Inr s)" "u32rxLen s = n"
      "rbuf s = read_bytes (unat n) evs @ drop (unat n) buf" "bus s = read_frame a reg (unat n)"
    using i2c_receiver.run_receive[OF assms(1) st assms(3,4), of sto r]
    unfolding rb read_frame_def i2c_receiver.receive_ops_def[OF assms(1)] by blast
  then show ?thesis by (auto simp: with_result_eq)
qed

text \<open>
  C20. The multi-byte reads of at least two bytes: if the slave acknowledges its address (and the
  register address), and \<open>u32rLen\<close> bytes arrive in time, then \<open>I2C_ReadMultiBytes\<close>,
  \<open>I2C_ReadMultiBytesOneReg\<close> and \<open>I2C_ReadMultiBytesTwoRegs\<close> return \<open>u32rLen\<close> with these
  bytes in the buffer and the rest of the buffer unchanged. On the bus they acknowledge every byte but
  the last one (\<open>AA\<close> set for the first \<open>u32rLen - 1\<close> bytes), then send STOP.
\<close>

theorem I2C_multi_reads_fill_buffer:
  assumes "2 \<le> unat n" "unat n \<le> length buf"
  shows "(answered tmo [] (unat n) evs \<longrightarrow>
      (\<exists>s. I2C_ReadMultiBytes tmo evs sto r a buf n = Some (Inr (n, s)) \<and>
         rbuf s = read_bytes (unat n) evs @ drop (unat n) buf \<and> bus s = read_frame a [] (unat n))) \<and>
    (answered tmo [g] (unat n) evs \<longrightarrow>
      (\<exists>s. I2C_ReadMultiBytesOneReg tmo evs sto r a g buf n = Some (Inr (n, s)) \<and>
         rbuf s = read_bytes (unat n) evs @ drop (unat n) buf \<and> bus s = read_frame a [g] (unat n))) \<and>
    (answered tmo [addr_hi h, addr_lo h] (unat n) evs \<longrightarrow>
      (\<exists>s. I2C_ReadMultiBytesTwoRegs tmo evs sto r a h buf n = Some (Inr (n, s)) \<and>
         rbuf s = read_bytes (unat n) evs @ drop (unat n) buf \<and>
         bus s = read_frame a [addr_hi h, addr_lo h] (unat n)))"
  using multi_read_answered[OF rm.i2c_receiver_axioms[of a n] _ assms]
    multi_read_answered[OF rm1.i2c_receiver_axioms[of a g n] _ assms]
    multi_read_answered[OF rm2.i2c_receiver_axioms[of a h n] _ assms]
  by (simp add: I2C_ReadMultiBytes_def I2C_ReadMultiBytesOneReg_def I2C_ReadMultiBytesTwoRegs_def)

theorem I2C_multi_reads_fill_buffer_witness:
  "\<exists>s. I2C_ReadMultiBytes 100 [ev 0x08 0, ev 0x40 0, ev 0x50 7, ev 0x58 9] 3 regs0 0x50 [0, 0, 5] 2 =
     Some (Inr (2, s)) \<and> rbuf s = [7, 9, 5]"
proof -
  have "answered 100 [] (unat (2 :: u32)) [ev 0x08 0, ev 0x40 0, ev 0x50 7, ev 0x58 9]"
    by (simp add: answered_def in_time_def)
  then show ?thesis
    using I2C_multi_reads_fill_buffer[of 2 "[0, 0, 5]" 100 "[ev 0x08 0, ev 0x40 0, ev 0x50 7, ev 0x58 9]" 3 regs0 "0x50"]
    by (auto simp: read_bytes_def)
qed

lemma byte_read_answered:
  assumes "i2c_byte_receiver sw a reg" "answered tmo reg 1 evs"
  shows "\<exists>s. with_result ret_rdata (i2c_run sw tmo evs sto (xfer_init r [])) =
      Some (Inr (ucast (ev_dat (last evs)), s)) \<and> bus s = read_frame a reg 1"
  using i2c_byte_receiver.run_receive[OF assms(1), of evs tmo sto r "[]"] assms(2)
  by (auto simp: answered_def in_timeD with_result_eq read_frame_def)

text \<open>
  The single-byte reads: if the slave answers in time, \<open>I2C_ReadByte\<close>,
  \<open>I2C_ReadByteOneReg\<close> and \<open>I2C_ReadByteTwoRegs\<close> return the byte that arrived with status
  \<open>0x58\<close>, having addressed the slave (and the register, by a repeated START) and sent STOP without
  acknowledging the byte.
\<close>

lemma I2C_byte_reads_return_data:
  "(answered tmo [] 1 evs \<longrightarrow>
      (\<exists>s. I2C_ReadByte tmo evs sto r a = Some (Inr (ucast (ev_dat (last evs)), s)) \<and> bus s = read_frame a [] 1)) \<and>
   (answered tmo [g] 1 evs \<longrightarrow>
      (\<exists>s. I2C_ReadByteOneReg tmo evs sto r a g = Some (Inr (ucast (ev_dat (last evs)), s)) \<and>
         bus s = read_frame a [g] 1)) \<and>
   (answered tmo [addr_hi h, addr_lo h] 1 evs \<longrightarrow>
      (\<exists>s. I2C_ReadByteTwoRegs tmo evs sto r a h = Some (Inr (ucast (ev_dat (last evs)), s)) \<and>
         bus s = read_frame a [addr_hi h, addr_lo h] 1))"
  using byte_read_answered[OF rb.i2c_byte_receiver_axioms[of a]]
    byte_read_answered[OF rb1.i2c_byte_receiver_axioms[of a g]]
    byte_read_answered[OF rb2.i2c_byte_receiver_axioms[of a h]]
  by (simp add: I2C_ReadByte_def I2C_ReadByteOneReg_def I2C_ReadByteTwoRegs_def)

text \<open>
  \<open>I2C_ReadMultiBytes\<close> of one byte overruns the buffer: the code sets \<open>AA\<close> as soon as the
  address is acknowledged, so the controller acknowledges the first byte (status \<open>0x50\<close>), and only
  then clears \<open>AA\<close>; the byte that follows (status \<open>0x58\<close>) is stored at \<open>rdata[1]\<close>.
\<close>

lemma I2C_ReadMultiBytes_one_overruns:
  assumes "in_time tmo evs" "map ev_status evs = [0x08, 0x40, 0x50, 0x58]" "length buf = 1"
  shows "I2C_ReadMultiBytes tmo evs sto r a buf 1 = Some (Inl (Rx_out_of_bounds 1))"
  using assms
  by (auto simp: in_timeD map_eq_Cons_conv I2C_ReadMultiBytes_def i2c_run_def i2c_round_def sw_ReadMultiBytes_def
      send_sla_def receive_more_def receive_last_def store_next_def with_result_eq Let_def)

section \<open>Every transfer\<close>

text \<open>
  C21. No transfer leaves the bus held: for each of the twelve transfers, whatever the controller
  reports, if the transfer returns and the global error code is not \<open>I2C_ERR_TIMEOUT\<close>, then it
  has sent STOP.
\<close>

theorem I2C_transfers_send_stop:
  assumes "driver_switch sw" "i2c_run sw tmo evs sto (xfer_init r buf) = Some (Inr s)"
    "g_I2C_i32ErrCode s \<noteq> I2C_ERR_TIMEOUT"
  shows "stop_sent s"
  using i2c_master.run_returns_stopped[OF driver_switch_master] assms by blast

theorem I2C_transfers_send_stop_witness:
  "\<exists>s. i2c_run (sw_ReadByte 0x50) 100 [ev 0x08 0, ev 0x48 0] 0 (xfer_init regs0 []) = Some (Inr s) \<and> stop_sent s"
proof -
  obtain s where "i2c_run (sw_ReadByte 0x50) 100 [ev 0x08 0, ev 0x48 0] 0 (xfer_init regs0 []) = Some (Inr s)"
      "g_I2C_i32ErrCode s = 0"
    by (simp add: i2c_run_def i2c_round_def sw_ReadByte_def send_sla_def nacked_def)
  then show ?thesis
    using I2C_transfers_send_stop[OF driver_switch.intros(7)] by fastforce
qed

text \<open>
  A silent controller cannot hang a transfer: if, at some round, \<open>SI\<close> stays clear for
  \<open>SystemCoreClock\<close> polls, then the transfer returns (or has faulted on a buffer) at that round at
  the latest, whatever is in the status register and whatever would follow; and unless it had ended before,
  the global error code is \<open>I2C_ERR_TIMEOUT\<close>.
\<close>

lemma I2C_silence_ends_transfer:
  assumes "driver_switch sw" "poll_expires (ev_wait late) tmo"
  shows "\<exists>x. i2c_run sw tmo (pre @ late # post) sto (xfer_init r buf) = Some x \<and>
    (case x of Inl f \<Rightarrow> True
     | Inr s \<Rightarrow> i2c_run sw tmo pre sto (xfer_init r buf) = Some (Inr s) \<or> g_I2C_i32ErrCode s = I2C_ERR_TIMEOUT)"
proof -
  have late: "\<not> ready_in_time tmo late" using assms(2) by (simp add: poll_expires_iff)
  obtain x where x: "i2c_loop sw tmo (pre @ late # post) (I2C_START (xfer_init r buf)) = Some x"
      "case x of Inr s' \<Rightarrow> i2c_loop sw tmo pre (I2C_START (xfer_init r buf)) = Some (Inr s') \<or>
        g_I2C_i32ErrCode s' = I2C_ERR_TIMEOUT | Inl f \<Rightarrow> True"
    using i2c_master.loop_expired[OF driver_switch_master[OF assms(1)] late, of pre post "I2C_START (xfer_init r buf)"]
    by blast
  then show ?thesis by (cases x) (auto simp: i2c_run_def)
qed

section \<open>The bus clock\<close>

lemma round_div: "0 < b \<Longrightarrow> (p * 10 div (b * 4) + 5) div 10 = (p + 2 * b) div (4 * b)" for p b :: nat
proof -
  assume b: "0 < b"
  have "b * 4 \<noteq> 0" using b by simp
  from div_mult_self1[OF this, of "p * 10" 5]
  have "p * 10 div (b * 4) + 5 = (p * 10 + 5 * (b * 4)) div (b * 4)" by linarith
  also have "\<dots> div 10 = (10 * (p + 2 * b)) div (10 * (4 * b))"
    by (simp only: div_mult2_eq[symmetric]) (simp add: algebra_simps)
  also have "\<dots> = (p + 2 * b) div (4 * b)" by (rule div_mult_mult1) simp
  finally show ?thesis .
qed

lemma unat_i2c_div:
  assumes "0 < unat b" "unat b * 4 < 2 ^ 32" "unat p * 10 < 2 ^ 32 - 5" "2 * unat b \<le> unat p"
  shows "unat (i2c_div p b) + 1 = (unat p + 2 * unat b) div (4 * unat b)"
proof -
  have m: "unat (b * 4) = unat b * 4" "unat (p * 10) = unat p * 10"
    using assms(2,3) by (simp_all add: unat_word_ariths)
  have "unat p * 10 div (unat b * 4) \<le> unat p * 10" by (rule div_le_dividend)
  then have a: "unat (p * 10 div (b * 4) + 5) = unat p * 10 div (unat b * 4) + 5"
    using assms(3) by (subst unat_add_nowrap) (simp_all only: unat_div m, simp_all)
  let ?q = "(p * 10 div (b * 4) + 5) div 10"
  have q: "unat ?q = (unat p + 2 * unat b) div (4 * unat b)"
    using round_div[OF assms(1)] by (simp add: unat_div a)
  moreover have "1 \<le> (unat p + 2 * unat b) div (4 * unat b)"
    using assms(1,4) by (simp add: Suc_le_eq div_greater_zero_iff)
  ultimately have "1 \<le> unat ?q" by simp
  then have "unat (?q - 1) = unat ?q - 1" by (intro unat_minus_one_u32) auto
  then show ?thesis using q \<open>1 \<le> unat ?q\<close> by (simp add: i2c_div_def)
qed

text \<open>
  The bus clock: for a requested clock of at most half of PCLK0, with PCLK0 below 429 MHz so
  that \<open>u32Pclk * 10U\<close> does not wrap, \<open>I2C_Open\<close> programs the divider nearest to
  PCLK0 / (4 * clock) (half a step away at most), enables the controller, and returns the frequency
  that \<open>I2C_GetBusClockFreq\<close> reads back.
\<close>

lemma I2C_Open_nearest_divider:
  assumes "0 < unat b" "unat b * 4 < 2 ^ 32" "unat p * 10 < 2 ^ 32 - 5" "2 * unat b \<le> unat p"
    "I2C_Open p b r = (f, r')"
  shows "let q = unat (CLKDIV r') + 1 in
      \<bar>int (unat p) - int (4 * unat b * q)\<bar> \<le> int (2 * unat b) \<and> unat f = unat p div (4 * q) \<and>
      I2C_GetBusClockFreq p r' = f \<and> CTL0 r' AND 0x40 = 0x40"
proof -
  define q where "q = (unat p + 2 * unat b) div (4 * unat b)"
  have q: "unat (CLKDIV r') + 1 = q" using unat_i2c_div[OF assms(1-4)] assms(5)
    by (auto simp: I2C_Open_def Let_def q_def)
  have "4 * unat b * q + (unat p + 2 * unat b) mod (4 * unat b) = unat p + 2 * unat b"
    by (simp add: q_def)
  moreover have "(unat p + 2 * unat b) mod (4 * unat b) < 4 * unat b" using assms(1) by simp
  ultimately have near: "\<bar>int (unat p) - int (4 * unat b * q)\<bar> \<le> int (2 * unat b)" by linarith
  have "4 * q \<le> 4 * unat b * q" using assms(1) by simp
  also have "\<dots> \<le> unat p + 2 * unat b" by (simp add: q_def)
  finally have q4: "4 * q < 2 ^ 32" using assms(3,4) by simp
  have "unat (CLKDIV r' + 1) = q" using q q4 by (simp add: unat_word_ariths)
  then have "unat (push_bit 2 (CLKDIV r' + 1)) = 4 * q"
    using q4 unat_mult_nowrap[of "CLKDIV r' + 1" 4] by (simp add: push_bit_eq_mult mult.commute)
  moreover have "f = p div push_bit 2 (CLKDIV r' + 1)" using assms(5) by (auto simp: I2C_Open_def Let_def)
  ultimately have "unat f = unat p div (4 * q)" "I2C_GetBusClockFreq p r' = f"
    by (simp_all add: unat_div I2C_GetBusClockFreq_def)
  moreover have "CTL0 r' AND 0x40 = 0x40" using assms(5)
    by (auto simp: I2C_Open_def Let_def bit.conj_disj_distrib2)
  ultimately show ?thesis using near q by (simp add: Let_def)
qed

end
