(* ===== verification/Hid_Parser.thy ===== *)
theory Hid_Parser
  imports Usb_Mem
begin

text \<open>
  Model of the HID report descriptor parser \<open>Library/UsbHostLib/src_hid/hid_parser.c\<close>:
  the search for the HID descriptor in a configuration descriptor, the parsing of report descriptor items into
  the list of reports of a device, and the decoding of keyboard and mouse input reports.

  The file's static variables and the \<open>HID_DEV_T\<close> of the device are the state; the reports are
  allocated with \<open>usbh_alloc_mem\<close> of the memory manager and their linked list is a list of
  addressed records in list order. Memory that is read through a byte pointer is a list of bytes; an access outside of
  it is a \<open>hid_fault\<close>, as is a store outside \<open>_data_usages\<close> and a shift by 32 or more.
  The control transfer that fetches the report descriptor is a parameter.
\<close>

section \<open>Constants\<close>

abbreviation (input) "TAG_INPUT \<equiv> (0x80 :: u8)"
abbreviation (input) "TAG_OUTPUT \<equiv> (0x90 :: u8)"
abbreviation (input) "TAG_FEATURE \<equiv> (0xB0 :: u8)"
abbreviation (input) "TAG_COLLECTION \<equiv> (0xA0 :: u8)"
abbreviation (input) "TAG_USAGE_PAGE \<equiv> (0x04 :: u8)"
abbreviation (input) "TAG_LOGICAL_MIN \<equiv> (0x14 :: u8)"
abbreviation (input) "TAG_LOGICAL_MAX \<equiv> (0x24 :: u8)"
abbreviation (input) "TAG_PHYSICAL_MIN \<equiv> (0x34 :: u8)"
abbreviation (input) "TAG_PHYSICAL_MAX \<equiv> (0x44 :: u8)"
abbreviation (input) "TAG_UNIT_EXPONENT \<equiv> (0x54 :: u8)"
abbreviation (input) "TAG_UNIT \<equiv> (0x64 :: u8)"
abbreviation (input) "TAG_REPORT_SIZE \<equiv> (0x74 :: u8)"
abbreviation (input) "TAG_REPORT_ID \<equiv> (0x84 :: u8)"
abbreviation (input) "TAG_REPORT_COUNT \<equiv> (0x94 :: u8)"
abbreviation (input) "TAG_USAGE \<equiv> (0x08 :: u8)"
abbreviation (input) "TAG_USAGE_MIN \<equiv> (0x18 :: u8)"
abbreviation (input) "TAG_USAGE_MAX \<equiv> (0x28 :: u8)"
abbreviation (input) "TAG_DESIGNATOR_INDEX \<equiv> (0x38 :: u8)"
abbreviation (input) "TAG_DESIGNATOR_MIN \<equiv> (0x48 :: u8)"
abbreviation (input) "TAG_DESIGNATOR_MAX \<equiv> (0x58 :: u8)"
abbreviation (input) "TAG_STRING_INDEX \<equiv> (0x78 :: u8)"
abbreviation (input) "TAG_STRING_MIN \<equiv> (0x88 :: u8)"
abbreviation (input) "TAG_STRING_MAX \<equiv> (0x98 :: u8)"

abbreviation (input) "UP_GENERIC_DESKTOP \<equiv> (0x01 :: u8)"
abbreviation (input) "UP_KEYCODE \<equiv> (0x07 :: u8)"
abbreviation (input) "UP_LEDS \<equiv> (0x08 :: u8)"
abbreviation (input) "UP_BUTTON \<equiv> (0x09 :: u8)"
abbreviation (input) "USAGE_ID_POINTER \<equiv> (0x01 :: u8)"
abbreviation (input) "USAGE_ID_MOUSE \<equiv> (0x02 :: u8)"
abbreviation (input) "USAGE_ID_KEYBOARD \<equiv> (0x06 :: u8)"
abbreviation (input) "USAGE_ID_X \<equiv> (0x30 :: u8)"
abbreviation (input) "USAGE_ID_Y \<equiv> (0x31 :: u8)"
abbreviation (input) "USAGE_ID_WHEEL \<equiv> (0x38 :: u8)"

abbreviation (input) "USBH_ERR_MEMORY_OUT \<equiv> (- 10 :: int)"
abbreviation (input) "USBH_ERR_NOT_SUPPORTED \<equiv> (- 101 :: int)"
abbreviation (input) "USBH_ERR_NOT_FOUND \<equiv> (- 106 :: int)"
abbreviation (input) "HID_RET_IO_ERR \<equiv> (- 1082 :: int)"
abbreviation (input) "HID_RET_INVALID_PARAMETER \<equiv> (- 1083 :: int)"
abbreviation (input) "HID_RET_PARSING \<equiv> (- 1087 :: int)"

section \<open>State\<close>

datatype hid_fault = Out_of_bounds | Null_pointer | Usages_overflow | Bad_shift | Mem_fault mem_fault

text \<open>The bit fields of \<open>status\<close>.\<close>

record rp_status =
  st_constant :: bool
  st_variable :: bool
  st_relative :: bool
  st_wrap :: bool
  st_non_linear :: bool
  st_no_preferred :: bool
  st_null_state :: bool
  st_is_volatile :: bool
  st_buffered_bytes :: bool

record RP_INFO_T =
  rp_type :: u8
  usage_page :: u8
  app_usage :: u8
  data_usage :: u8
  usage_mim :: int
  usage_max :: int
  logical_min :: int
  logical_max :: int
  physical_min :: int
  physical_max :: int
  unit_exponent :: int
  rp_unit :: int
  designator_index :: int
  designator_min :: int
  designator_max :: int
  string_index :: int
  string_min :: int
  string_max :: int
  report_id :: u8
  report_size :: u8
  report_count :: u8
  status :: rp_status

definition RP_INFO_zero :: RP_INFO_T where
  "RP_INFO_zero = \<lparr>rp_type = 0, usage_page = 0, app_usage = 0, data_usage = 0, usage_mim = 0, usage_max = 0,
     logical_min = 0, logical_max = 0, physical_min = 0, physical_max = 0, unit_exponent = 0, rp_unit = 0,
     designator_index = 0, designator_min = 0, designator_max = 0, string_index = 0, string_min = 0,
     string_max = 0, report_id = 0, report_size = 0, report_count = 0,
     status = \<lparr>st_constant = False, st_variable = False, st_relative = False, st_wrap = False,
       st_non_linear = False, st_no_preferred = False, st_null_state = False, st_is_volatile = False,
       st_buffered_bytes = False\<rparr>\<rparr>"

text \<open>On LP64 a \<open>RP_INFO_T\<close> has 80 bytes.\<close>

abbreviation (input) "sizeof_RP_INFO_T \<equiv> (80 :: int)"

record RPD_T =
  has_report_id :: bool
  last_pressed_lock_keys :: u8
  lock_state :: u8
  report :: "(u64 \<times> RP_INFO_T) list"

record HID_DEV_T =
  bSubClassCode :: u8
  bProtocolCode :: u8
  rpd :: RPD_T

text \<open>The parser's variables, the device and the memory manager.\<close>

record hid_state =
  rp_info :: RP_INFO_T
  data_usages :: "u8 list"
  data_usage_cnt :: nat
  hdev :: HID_DEV_T
  hmem :: usb_mem

section \<open>Items of a report descriptor\<close>

definition read_main_item_status :: "u8 \<Rightarrow> u8 \<Rightarrow> RP_INFO_T \<Rightarrow> RP_INFO_T" where
  "read_main_item_status b0 b1 info =
     (let st = status info;
          st = (if bit b0 0 then st\<lparr>st_constant := True, st_variable := False\<rparr> else st);
          st = (if bit b0 1 then st\<lparr>st_constant := False, st_variable := True\<rparr> else st);
          st = (if bit b0 2 then st\<lparr>st_relative := True\<rparr> else st);
          st = (if bit b0 3 then st\<lparr>st_wrap := True\<rparr> else st);
          st = (if bit b0 4 then st\<lparr>st_non_linear := True\<rparr> else st);
          st = (if bit b0 5 then st\<lparr>st_no_preferred := True\<rparr> else st);
          st = (if bit b0 6 then st\<lparr>st_null_state := True\<rparr> else st);
          st = (if bit b0 7 then st\<lparr>st_is_volatile := True\<rparr> else st);
          st = (if bit b1 0 then st\<lparr>st_buffered_bytes := True\<rparr> else st)
      in info\<lparr>status := st\<rparr>)"

definition hid_add_report :: "u8 \<Rightarrow> hid_state \<Rightarrow> hid_fault + int \<times> hid_state" where
  "hid_add_report ty s =
     (case usbh_alloc_mem sizeof_RP_INFO_T (hmem s) of
        Inl e \<Rightarrow> Inl (Mem_fault e)
      | Inr (p, m) \<Rightarrow>
          if p = 0 then Inr (USBH_ERR_MEMORY_OUT, s\<lparr>hmem := m\<rparr>)
          else let r = rpd (hdev s); info = (rp_info s)\<lparr>rp_type := ty\<rparr> in
               Inr (0, s\<lparr>hmem := m, hdev := (hdev s)\<lparr>rpd := r\<lparr>report := report r @ [(p, info)]\<rparr>\<rparr>\<rparr>))"

text \<open>\<open>bSize\<close> is 0, 1, 2 or 4 for a short item; the bytes are little endian and signed.\<close>

definition hid_read_item_value :: "nat \<Rightarrow> u8 list \<Rightarrow> int" where
  "hid_read_item_value bSize buff =
     (if bSize = 1 then sint (buff ! 0)
      else if bSize = 2 then sint ((ucast (buff ! 0) :: u16) OR push_bit 8 (ucast (buff ! 1)))
      else if bSize = 4 then sint ((ucast (buff ! 0) :: u32) OR push_bit 8 (ucast (buff ! 1)) OR
             push_bit 16 (ucast (buff ! 2)) OR push_bit 24 (ucast (buff ! 3)))
      else 0)"

text \<open>\<open>bSize\<close> and \<open>item_len\<close>, from the first two bytes.\<close>

definition item_bTag :: "u8 list \<Rightarrow> u8" where
  "item_bTag buff = drop_bit 4 (buff ! 0) AND 0xF"

definition item_bSize :: "u8 list \<Rightarrow> nat" where
  "item_bSize buff =
     (if item_bTag buff = 0xF then unat (buff ! 1)
      else let b = unat (buff ! 0 AND 0x3) in if b = 3 then 4 else b)"

definition item_len :: "u8 list \<Rightarrow> nat" where
  "item_len buff = item_bSize buff + (if item_bTag buff = 0xF then 3 else 1)"

definition item_tag :: "u8 list \<Rightarrow> u8" where
  "item_tag buff = buff ! 0 AND 0xFC"

text \<open>
  How many bytes the function reads: the debug dump reads all \<open>item_len\<close> bytes; a main item
  with status reads \<open>buff[1]\<close> and \<open>buff[2]\<close> and the items with a byte operand
  \<open>buff[1]\<close>, whatever their size is.
\<close>

definition item_reads :: "u8 list \<Rightarrow> nat" where
  "item_reads buff =
     (let tag = item_tag buff in
      max (item_len buff)
        (if tag \<in> {TAG_INPUT, TAG_OUTPUT, TAG_FEATURE} then 3
         else if tag \<in> {TAG_COLLECTION, TAG_USAGE_PAGE, TAG_REPORT_SIZE, TAG_REPORT_ID, TAG_REPORT_COUNT, TAG_USAGE}
           then 2
         else 1))"

definition item_readable :: "u8 list \<Rightarrow> bool" where
  "item_readable buff \<longleftrightarrow> buff \<noteq> [] \<and> (item_bTag buff = 0xF \<longrightarrow> 2 \<le> length buff) \<and>
     item_reads buff \<le> length buff"

text \<open>The loop of \<open>TAG_INPUT\<close> over the collected data usages.\<close>

fun add_usage_reports :: "u8 list \<Rightarrow> hid_state \<Rightarrow> hid_fault + int \<times> hid_state" where
  "add_usage_reports [] s = Inr (0, s)"
| "add_usage_reports (u # us) s =
     sbind (hid_add_report TAG_INPUT (s\<lparr>rp_info := (rp_info s)\<lparr>report_count := 1, data_usage := u\<rparr>\<rparr>))
       (\<lambda>(ret, s1). if ret \<noteq> 0 then Inr (USBH_ERR_MEMORY_OUT, s1) else add_usage_reports us s1)"

text \<open>
  \<open>if (_rp_info.report_count > 0) if (hid_add_report(hdev, tag) != 0) return USBH_ERR_MEMORY_OUT;\<close>
  followed by \<open>return item_len\<close>.
\<close>

definition add_counted_report :: "u8 \<Rightarrow> int \<Rightarrow> hid_state \<Rightarrow> hid_fault + int \<times> hid_state" where
  "add_counted_report ty len s =
     (if report_count (rp_info s) > 0
      then sbind (hid_add_report ty s) (\<lambda>(ret, s1). Inr (if ret \<noteq> 0 then USBH_ERR_MEMORY_OUT else len, s1))
      else Inr (len, s))"

definition parse_input_item :: "int \<Rightarrow> hid_state \<Rightarrow> hid_fault + int \<times> hid_state" where
  "parse_input_item len s =
     (if data_usage_cnt s > 0 then
        let cnt = data_usage_cnt s; rc = report_count (rp_info s) in
        sbind (add_usage_reports (take cnt (data_usages s)) s) (\<lambda>(ret, s1).
          if ret \<noteq> 0 then Inr (USBH_ERR_MEMORY_OUT, s1)
          else add_counted_report TAG_INPUT len
            (s1\<lparr>rp_info := (rp_info s1)\<lparr>report_count := rc - of_nat cnt, data_usage := 0\<rparr>, data_usage_cnt := 0\<rparr>))
      else add_counted_report TAG_INPUT len s)"

text \<open>\<open>_data_usages[_data_usage_cnt++] = buff[1]\<close>, without a check of the index.\<close>

definition collect_usage :: "u8 \<Rightarrow> int \<Rightarrow> hid_state \<Rightarrow> hid_fault + int \<times> hid_state" where
  "collect_usage u len s =
     (if data_usage_cnt s < length (data_usages s)
      then Inr (len, s\<lparr>data_usages := (data_usages s)[data_usage_cnt s := u], data_usage_cnt := data_usage_cnt s + 1\<rparr>)
      else Inl Usages_overflow)"

definition set_item_info :: "u8 \<Rightarrow> u8 \<Rightarrow> int \<Rightarrow> RP_INFO_T \<Rightarrow> RP_INFO_T" where
  "set_item_info tag b v info =
     (if tag = TAG_USAGE_PAGE then info\<lparr>usage_page := b\<rparr>
      else if tag = TAG_LOGICAL_MIN then info\<lparr>logical_min := v\<rparr>
      else if tag = TAG_LOGICAL_MAX then info\<lparr>logical_max := v\<rparr>
      else if tag = TAG_PHYSICAL_MIN then info\<lparr>physical_min := v\<rparr>
      else if tag = TAG_PHYSICAL_MAX then info\<lparr>physical_max := v\<rparr>
      else if tag = TAG_UNIT_EXPONENT then info\<lparr>unit_exponent := v\<rparr>
      else if tag = TAG_UNIT then info\<lparr>rp_unit := v\<rparr>
      else if tag = TAG_REPORT_SIZE then info\<lparr>report_size := b\<rparr>
      else if tag = TAG_REPORT_ID then info\<lparr>report_id := b\<rparr>
      else if tag = TAG_REPORT_COUNT then info\<lparr>report_count := b\<rparr>
      else if tag = TAG_USAGE then info\<lparr>app_usage := b\<rparr>
      else if tag = TAG_USAGE_MIN then info\<lparr>usage_mim := v\<rparr>
      else if tag = TAG_USAGE_MAX then info\<lparr>usage_max := v\<rparr>
      else if tag = TAG_DESIGNATOR_INDEX then info\<lparr>designator_index := v\<rparr>
      else if tag = TAG_DESIGNATOR_MIN then info\<lparr>designator_min := v\<rparr>
      else if tag = TAG_DESIGNATOR_MAX then info\<lparr>designator_max := v\<rparr>
      else if tag = TAG_STRING_INDEX then info\<lparr>string_index := v\<rparr>
      else if tag = TAG_STRING_MIN then info\<lparr>string_min := v\<rparr>
      else if tag = TAG_STRING_MAX then info\<lparr>string_max := v\<rparr>
      else info)"

definition hid_parse_item :: "u8 list \<Rightarrow> hid_state \<Rightarrow> hid_fault + int \<times> hid_state" where
  "hid_parse_item buff s =
     (if \<not> item_readable buff then Inl Out_of_bounds
      else let tag = item_tag buff; len = int (item_len buff) in
      if tag = TAG_INPUT then
        parse_input_item len (s\<lparr>rp_info := read_main_item_status (buff ! 1) (buff ! 2) (rp_info s)\<rparr>)
      else if tag = TAG_OUTPUT then
        add_counted_report TAG_OUTPUT len (s\<lparr>rp_info := read_main_item_status (buff ! 1) (buff ! 2) (rp_info s)\<rparr>)
      else if tag = TAG_FEATURE then
        Inr (len, s\<lparr>rp_info := read_main_item_status (buff ! 1) (buff ! 2) (rp_info s)\<rparr>)
      else if tag = TAG_USAGE \<and> buff ! 1 \<in> {USAGE_ID_X, USAGE_ID_Y, USAGE_ID_WHEEL} then
        collect_usage (buff ! 1) len s
      else let s1 = s\<lparr>rp_info := set_item_info tag (buff ! 1)
                        (hid_read_item_value (item_bSize buff) (tl buff)) (rp_info s)\<rparr> in
        Inr (len, if tag = TAG_REPORT_ID
                  then s1\<lparr>hdev := (hdev s1)\<lparr>rpd := (rpd (hdev s1))\<lparr>has_report_id := True\<rparr>\<rparr>\<rparr> else s1))"

text \<open>The loop over the items; the value is \<open>HID_RET_PARSING\<close> or 0.\<close>

function parse_items :: "u8 list \<Rightarrow> int \<Rightarrow> hid_state \<Rightarrow> hid_fault + int \<times> hid_state" where
  "parse_items buff remain_len s =
     (if remain_len > 0 then
        sbind (hid_parse_item buff s) (\<lambda>(sz, s1).
          if sz \<le> 0 then Inr (HID_RET_PARSING, s1)
          else parse_items (drop (nat sz) buff) (remain_len - sz) s1)
      else Inr (0, s))"
  by pat_completeness auto
termination by (relation "measure (\<lambda>(buff, remain_len, s). nat remain_len)") auto

declare parse_items.simps [simp del]

section \<open>Finding and parsing the report descriptor\<close>

text \<open>
  \<open>probe buf off ps\<close>: the conjunction of the tests \<open>buf[off + k] == v\<close>, evaluated from the
  left as C does; \<open>None\<close> when a byte outside the buffer is read.
\<close>

fun probe :: "u8 list \<Rightarrow> nat \<Rightarrow> (nat \<times> u8) list \<Rightarrow> bool option" where
  "probe buf off [] = Some True"
| "probe buf off ((k, v) # ps) =
     (if off + k < length buf then if buf ! (off + k) = v then probe buf off ps else Some False else None)"

text \<open>
  \<open>size >= sizeof(T)\<close> compares an \<open>int\<close> with a \<open>size_t\<close>: a negative \<open>size\<close>
  is converted to a large unsigned number.
\<close>

definition ge_sizeof :: "int \<Rightarrow> int \<Rightarrow> bool" where
  "ge_sizeof sz n \<longleftrightarrow> sz < 0 \<or> n \<le> sz"

abbreviation (input) "sizeof_DESC_IF_T \<equiv> (9 :: int)"
abbreviation (input) "sizeof_DESC_HID_T \<equiv> (9 :: int)"

text \<open>The search for the interface descriptor: an error code, or its offset and what remains.\<close>

datatype found = Found nat int | Return int

function find_interface :: "u8 list \<Rightarrow> u8 \<Rightarrow> nat \<Rightarrow> int \<Rightarrow> hid_fault + found" where
  "find_interface buf if_num off sz =
     (if ge_sizeof sz sizeof_DESC_IF_T then
        (case probe buf off [(1, 0x04), (2, if_num), (5, 0x03)] of
           None \<Rightarrow> Inl Out_of_bounds
         | Some match \<Rightarrow>
             if match then Inr (Found off sz)
             else if buf ! off = 0 then Inr (Return (- 1))
             else find_interface buf if_num (off + unat (buf ! off)) (sz - int (unat (buf ! off))))
      else Inr (Return HID_RET_PARSING))"
  by pat_completeness auto
termination
  by (relation "measure (\<lambda>(buf, if_num, off, sz). length buf - off)")
    (auto split: if_splits simp: unat_gt_0 intro!: diff_less_mono2)

declare find_interface.simps [simp del]

text \<open>The search for the HID descriptor, which advances by the length \<open>l\<close> of the interface descriptor.\<close>

partial_function (option) find_hid_descriptor :: "u8 list \<Rightarrow> nat \<Rightarrow> nat \<Rightarrow> int \<Rightarrow> (hid_fault + found) option" where
  "find_hid_descriptor buf l off sz =
     (if ge_sizeof sz sizeof_DESC_HID_T then
        (case probe buf off [(1, 0x21), (6, 0x22)] of
           None \<Rightarrow> Some (Inl Out_of_bounds)
         | Some match \<Rightarrow>
             if match then Some (Inr (Found off sz))
             else if buf ! off = 0 then Some (Inr (Return HID_RET_PARSING))
             else find_hid_descriptor buf l (off + l) (sz - int l))
      else Some (Inr (Return HID_RET_PARSING)))"

text \<open>
  \<open>usbh_hid_get_report_descriptor\<close>: the argument stands for \<open>hdev\<close>. It is \<open>None\<close> when \<open>hdev\<close> is NULL or has no
  interface; otherwise \<open>Some xfer\<close>, where \<open>xfer n\<close> is the outcome of the control transfer of at most
  \<open>n\<close> bytes to its interface, the status and the bytes it stored.
\<close>

definition usbh_hid_get_report_descriptor :: "(int \<Rightarrow> int \<times> u8 list) option \<Rightarrow> int \<Rightarrow> int \<times> u8 list" where
  "usbh_hid_get_report_descriptor dev buf_max_len =
     (if buf_max_len < 9 then (HID_RET_INVALID_PARAMETER, [])
      else case dev of
        None \<Rightarrow> (USBH_ERR_NOT_FOUND, [])
      | Some xfer \<Rightarrow> (let (ret, bytes) = xfer buf_max_len in
           if ret < 0 \<or> bytes = [] then (HID_RET_IO_ERR, bytes) else (int (length bytes), bytes)))"

text \<open>The values sent to the keyboard's LEDs; \<open>answer\<close> gives the result of \<open>usbh_hid_set_report\<close>.\<close>

definition all_leds :: "u8 \<Rightarrow> u8" where
  "all_leds n = mask (min 8 (unat n))"

fun flash_leds :: "(u8 list \<Rightarrow> u8) \<Rightarrow> RP_INFO_T list \<Rightarrow> u8 list \<Rightarrow> u8 list" where
  "flash_leds answer [] sent = sent"
| "flash_leds answer (r # rs) sent =
     (if usage_page r = UP_LEDS \<and> report_size r = 1 \<and> st_variable (status r) then
        let sent1 = sent @ [all_leds (report_count r)] in
        flash_leds answer rs (if answer sent1 \<noteq> 1 then sent1 else sent1 @ [0])
      else flash_leds answer rs sent)"

text \<open>
  The part of \<open>hid_parse_report_descriptor\<close> from the HID descriptor at \<open>off\<close> on: allocate a
  buffer, fetch the report descriptor, parse its items, free the buffer. The memory read by the parser is the
  allocated block, zero after the received bytes.
\<close>

definition fetch_and_parse :: "(int \<Rightarrow> int \<times> u8 list) option \<Rightarrow> nat \<Rightarrow> hid_state \<Rightarrow> hid_fault + int \<times> hid_state" where
  "fetch_and_parse xfer wLen s =
     (let buf_len = int wLen + 8 in
      case usbh_alloc_mem buf_len (hmem s) of
        Inl e \<Rightarrow> Inl (Mem_fault e)
      | Inr (p, m) \<Rightarrow>
          if p = 0 then Inl Null_pointer
          else let s1 = s\<lparr>hmem := m\<rparr>;
                   (remain_len, bytes) = usbh_hid_get_report_descriptor xfer buf_len;
                   block = bytes @ replicate (nat (units_for buf_len DMA_MEM_UNIT_SIZE * DMA_MEM_UNIT_SIZE) - length bytes) 0
               in if remain_len \<le> 0 then Inr (remain_len, s1\<lparr>hmem := snd (usbh_free_mem p buf_len (hmem s1))\<rparr>)
                  else sbind (parse_items block remain_len s1)
                    (\<lambda>(ret, s2). Inr (ret, s2\<lparr>hmem := snd (usbh_free_mem p buf_len (hmem s2))\<rparr>)))"

definition hid_parse_report_descriptor ::
  "(int \<Rightarrow> int \<times> u8 list) option \<Rightarrow> (u8 list \<Rightarrow> u8) \<Rightarrow> u8 list \<Rightarrow> u8 \<Rightarrow> hid_state \<Rightarrow>
   (hid_fault + int \<times> u8 list \<times> hid_state) option" where
  "hid_parse_report_descriptor xfer answer cfd if_num s =
     (let r0 = rpd (hdev s);
          s0 = s\<lparr>rp_info := RP_INFO_zero, data_usage_cnt := 0,
                 hdev := (hdev s)\<lparr>rpd := r0\<lparr>has_report_id := False\<rparr>\<rparr>\<rparr> in
      if length cfd < 4 then Some (Inl Out_of_bounds)
      else let bLength = unat (cfd ! 0); wTotalLength = unat (cfd ! 2) + 256 * unat (cfd ! 3) in
      case find_interface cfd if_num bLength (int wTotalLength - int bLength) of
        Inl e \<Rightarrow> Some (Inl e)
      | Inr (Return ret) \<Rightarrow> Some (Inr (ret, [], s0))
      | Inr (Found off sz) \<Rightarrow>
          (let l = unat (cfd ! off) in
           case find_hid_descriptor cfd l (off + l) (sz - int l) of
             None \<Rightarrow> None
           | Some (Inl e) \<Rightarrow> Some (Inl e)
           | Some (Inr (Return ret)) \<Rightarrow> Some (Inr (ret, [], s0))
           | Some (Inr (Found hoff hsz)) \<Rightarrow>
               if length cfd \<le> hoff + 8 then Some (Inl Out_of_bounds)
               else let wLen = unat (cfd ! (hoff + 7)) + 256 * unat (cfd ! (hoff + 8)) in
               Some (sbind (fetch_and_parse xfer wLen s0) (\<lambda>(ret, s1).
                 let h = hdev s1 in
                 Inr (ret,
                   if ret = 0 \<and> bSubClassCode h = 1 \<and> bProtocolCode h = 1
                   then flash_leds answer (map snd (report (rpd h))) [] else [], s1)))))"

section \<open>Input reports\<close>

definition rd :: "u8 list \<Rightarrow> nat \<Rightarrow> hid_fault + u8" where
  "rd data i = (if i < length data then Inr (data ! i) else Inl Out_of_bounds)"

text \<open>\<open>(data[byte_idx] >> (bit_idx % 8)) & 0x1\<close>, shifted left by \<open>i\<close>.\<close>

definition shifted_bit :: "u8 list \<Rightarrow> nat \<Rightarrow> nat \<Rightarrow> nat \<Rightarrow> hid_fault + u32" where
  "shifted_bit data byte_idx bit_idx i =
     sbind (rd data byte_idx) (\<lambda>b. if 32 \<le> i then Inl Bad_shift else Inr (push_bit i (of_bool (bit b (bit_idx mod 8)))))"

subsection \<open>Keyboard\<close>

record KEYBOARD_EVENT_T =
  ke_lock_state :: u8
  modifier :: u8
  keycode :: "u8 list"
  key_cnt :: nat

record cursor =
  byte_idx :: nat
  bit_idx :: nat

text \<open>
  The loop for reports of one-bit fields: \<open>n\<close> fields remain, \<open>i\<close> are done. The byte is not advanced inside
  the loop.
\<close>

fun kbd_bits :: "u8 list \<Rightarrow> nat \<Rightarrow> nat \<Rightarrow> nat \<Rightarrow> u32 \<Rightarrow> nat \<Rightarrow> KEYBOARD_EVENT_T \<Rightarrow> hid_fault + nat \<times> KEYBOARD_EVENT_T" where
  "kbd_bits data byte 0 i usage_val bit_i e = Inr (bit_i, e)"
| "kbd_bits data byte (Suc n) i usage_val bit_i e =
     sbind (shifted_bit data byte bit_i i) (\<lambda>b.
       let v = usage_val OR b;
           e1 = (if bit_i < 8 then e\<lparr>modifier := modifier e OR ucast v\<rparr>
                 else if bit_i < 16 then e
                 else if bit_i < 64 then
                   (let k = (bit_i - 16) div 8 in e\<lparr>keycode := (keycode e)[k := keycode e ! k OR ucast v]\<rparr>)
                 else e)
       in kbd_bits data byte n (Suc i) v (Suc bit_i) e1)"

text \<open>The loop for reports of bytes.\<close>

fun kbd_bytes :: "u8 list \<Rightarrow> nat \<Rightarrow> nat \<Rightarrow> KEYBOARD_EVENT_T \<Rightarrow> hid_fault + nat \<times> KEYBOARD_EVENT_T" where
  "kbd_bytes data 0 byte e = Inr (byte, e)"
| "kbd_bytes data (Suc n) byte e =
     (if byte = 0 then sbind (rd data byte) (\<lambda>b. kbd_bytes data n (Suc byte) (e\<lparr>modifier := b\<rparr>))
      else if byte = 1 then kbd_bytes data n (Suc byte) e
      else if byte < 8 then
        sbind (rd data byte) (\<lambda>b. kbd_bytes data n (Suc byte) (e\<lparr>keycode := (keycode e)[byte - 2 := b]\<rparr>))
      else kbd_bytes data n (Suc byte) e)"

datatype scan_result = Unsupported | Scanned bool KEYBOARD_EVENT_T

text \<open>The loop over the reports; the flag is \<open>has_kbd_event\<close>.\<close>

fun kbd_scan :: "bool \<Rightarrow> u8 \<Rightarrow> u8 list \<Rightarrow> int \<Rightarrow> RP_INFO_T list \<Rightarrow> cursor \<Rightarrow> bool \<Rightarrow> KEYBOARD_EVENT_T \<Rightarrow>
    hid_fault + scan_result" where
  "kbd_scan use_id rid data data_len [] c has e = Inr (Scanned has e)"
| "kbd_scan use_id rid data data_len (r # rs) c has e =
     (if use_id \<and> report_id r \<noteq> rid then kbd_scan use_id rid data data_len rs c has e
      else if rp_type r \<noteq> TAG_INPUT then kbd_scan use_id rid data data_len rs c has e
      else if usage_page r = UP_KEYCODE \<and> app_usage r = USAGE_ID_KEYBOARD then
        if report_size r \<noteq> 1 \<and> report_size r \<noteq> 8 then Inr Unsupported
        else if report_size r = 1 then
          sbind (kbd_bits data (byte_idx c) (unat (report_count r)) 0 0 (bit_idx c) e) (\<lambda>(b, e1).
            if data_len \<le> int (b div 8) then Inr (Scanned True e1)
            else kbd_scan use_id rid data data_len rs (c\<lparr>bit_idx := b, byte_idx := b div 8\<rparr>) True e1)
        else
          sbind (kbd_bytes data (unat (report_count r)) (byte_idx c) e) (\<lambda>(k, e1).
            if data_len \<le> int k then Inr (Scanned True e1)
            else kbd_scan use_id rid data data_len rs (c\<lparr>byte_idx := k\<rparr>) True e1)
      else
        let b = bit_idx c + unat (report_size r) * unat (report_count r) in
        if data_len \<le> int (b div 8) then Inr (Scanned has e)
        else kbd_scan use_id rid data data_len rs (c\<lparr>bit_idx := b, byte_idx := b div 8\<rparr>) has e)"

text \<open>The scan of the six key codes: lock keys are collected, empty slots dropped, the others moved to the front.\<close>

fun scan_keycodes :: "nat list \<Rightarrow> u8 \<times> KEYBOARD_EVENT_T \<Rightarrow> u8 \<times> KEYBOARD_EVENT_T" where
  "scan_keycodes [] (locks, e) = (locks, e)"
| "scan_keycodes (i # is) (locks, e) =
     (let k = keycode e ! i in
      scan_keycodes is
        (if k = 0x53 then (locks OR 0x01, e)
         else if k = 0x39 then (locks OR 0x02, e)
         else if k = 0x47 then (locks OR 0x04, e)
         else if k = 0 \<or> k = 1 then (locks, e)
         else (locks, e\<lparr>keycode := (keycode e)[key_cnt e := k], key_cnt := key_cnt e + 1\<rparr>)))"

text \<open>The loop over the three lock keys: the new lock state and \<open>update_LEDs\<close>.\<close>

fun toggle_locks :: "nat list \<Rightarrow> u8 \<Rightarrow> u8 \<Rightarrow> u8 \<times> bool \<Rightarrow> u8 \<times> bool" where
  "toggle_locks [] pressed lastp (st, upd) = (st, upd)"
| "toggle_locks (i # is) pressed lastp (st, upd) =
     toggle_locks is pressed lastp
       (if bit pressed i \<and> \<not> bit lastp i then (st XOR push_bit i 1, True) else (st, upd))"

text \<open>
  The result: the returned code, the updated descriptor information, the value sent to the LEDs and the event
  passed to the callback (\<open>cb\<close> says whether one is registered).
\<close>

record kbd_outcome =
  ko_ret :: int
  ko_rpd :: RPD_T
  ko_leds :: "u8 option"
  ko_event :: "KEYBOARD_EVENT_T option"

definition report_cursor :: "RPD_T \<Rightarrow> u8 list \<Rightarrow> hid_fault + u8 \<times> cursor" where
  "report_cursor d data =
     (if has_report_id d then sbind (rd data 0) (\<lambda>b. Inr (b, \<lparr>byte_idx = 1, bit_idx = 8\<rparr>))
      else Inr (0, \<lparr>byte_idx = 0, bit_idx = 0\<rparr>))"

definition kbd_deliver :: "RPD_T \<Rightarrow> KEYBOARD_EVENT_T \<Rightarrow> kbd_outcome" where
  "kbd_deliver d e =
     (let (locks, e1) = scan_keycodes [0..<6] (0, e);
          (st, upd) = toggle_locks [0..<3] locks (last_pressed_lock_keys d) (ke_lock_state e1, False);
          e2 = e1\<lparr>ke_lock_state := st\<rparr>
      in \<lparr>ko_ret = 0, ko_rpd = d\<lparr>last_pressed_lock_keys := locks, lock_state := st\<rparr>,
          ko_leds = (if upd then Some st else None), ko_event = Some e2\<rparr>)"

definition hid_parse_keyboard_reports :: "bool \<Rightarrow> RPD_T \<Rightarrow> u8 list \<Rightarrow> int \<Rightarrow> hid_fault + kbd_outcome" where
  "hid_parse_keyboard_reports cb d data data_len =
     (let e0 = \<lparr>ke_lock_state = lock_state d, modifier = 0, keycode = replicate 6 0, key_cnt = 0\<rparr> in
      sbind (report_cursor d data) (\<lambda>(rid, c).
      sbind (kbd_scan (has_report_id d) rid data data_len (map snd (report d)) c False e0) (\<lambda>res.
        case res of
          Unsupported \<Rightarrow> Inr \<lparr>ko_ret = USBH_ERR_NOT_SUPPORTED, ko_rpd = d, ko_leds = None, ko_event = None\<rparr>
        | Scanned has e \<Rightarrow>
            if has \<and> cb then Inr (kbd_deliver d e)
            else Inr \<lparr>ko_ret = 0, ko_rpd = d, ko_leds = None, ko_event = None\<rparr>)))"

subsection \<open>Mouse\<close>

record MOUSE_EVENT_T =
  axis_relative :: bool
  wheel_relative :: bool
  button_cnt :: u8
  button_map :: u32
  axis_min :: int
  axis_max :: int
  mouse_X :: int
  mouse_Y :: int
  wheel_min :: int
  wheel_max :: int
  wheel :: int

text \<open>The loop over the buttons; the cursor advances by \<open>report_size\<close> bits.\<close>

fun mouse_buttons :: "u8 list \<Rightarrow> nat \<Rightarrow> nat \<Rightarrow> nat \<Rightarrow> cursor \<Rightarrow> u32 \<Rightarrow> hid_fault + cursor \<times> u32" where
  "mouse_buttons data sz 0 i c v = Inr (c, v)"
| "mouse_buttons data sz (Suc n) i c v =
     sbind (shifted_bit data (byte_idx c) (bit_idx c) i) (\<lambda>b.
       mouse_buttons data sz n (Suc i) \<lparr>byte_idx = (bit_idx c + sz) div 8, bit_idx = bit_idx c + sz\<rparr> (v OR b))"

text \<open>The loop over the bits of an axis.\<close>

fun mouse_axis :: "u8 list \<Rightarrow> nat \<Rightarrow> nat \<Rightarrow> cursor \<Rightarrow> u32 \<Rightarrow> hid_fault + cursor \<times> u32" where
  "mouse_axis data 0 i c v = Inr (c, v)"
| "mouse_axis data (Suc n) i c v =
     sbind (shifted_bit data (byte_idx c) (bit_idx c) i) (\<lambda>b.
       mouse_axis data n (Suc i) \<lparr>byte_idx = Suc (bit_idx c) div 8, bit_idx = Suc (bit_idx c)\<rparr> (v OR b))"

definition axis_value :: "u8 \<Rightarrow> u32 \<Rightarrow> int" where
  "axis_value sz v = (if sz \<le> 8 then sint (ucast v :: u8) else if sz \<le> 16 then sint (ucast v :: u16) else sint v)"

definition set_axis :: "RP_INFO_T \<Rightarrow> int \<Rightarrow> MOUSE_EVENT_T \<Rightarrow> MOUSE_EVENT_T" where
  "set_axis r v e =
     (if data_usage r = USAGE_ID_X then
        e\<lparr>mouse_X := v, axis_relative := st_relative (status r), axis_min := logical_min r, axis_max := logical_max r\<rparr>
      else if data_usage r = USAGE_ID_Y then e\<lparr>mouse_Y := v\<rparr>
      else if data_usage r = USAGE_ID_WHEEL then
        e\<lparr>wheel := v, wheel_relative := st_relative (status r), wheel_min := logical_min r, wheel_max := logical_max r\<rparr>
      else e)"

definition skip_bits :: "nat \<Rightarrow> cursor \<Rightarrow> cursor" where
  "skip_bits n c = \<lparr>byte_idx = (bit_idx c + n) div 8, bit_idx = bit_idx c + n\<rparr>"

text \<open>One report: the new cursor, \<open>has_mouse_event\<close> and the event.\<close>

definition mouse_report :: "u8 list \<Rightarrow> RP_INFO_T \<Rightarrow> cursor \<Rightarrow> bool \<Rightarrow> MOUSE_EVENT_T \<Rightarrow>
    hid_fault + cursor \<times> bool \<times> MOUSE_EVENT_T" where
  "mouse_report data r c has e =
     (if usage_page r = UP_BUTTON \<and> (app_usage r = USAGE_ID_MOUSE \<or> app_usage r = USAGE_ID_POINTER) then
        if st_variable (status r) then
          sbind (mouse_buttons data (unat (report_size r)) (unat (report_count r)) 0 c (button_map e)) (\<lambda>(c1, v).
            Inr (c1, True, e\<lparr>button_cnt := report_count r, button_map := v\<rparr>))
        else Inr (skip_bits (unat (report_count r) * unat (report_size r)) c, True, e)
      else if usage_page r = UP_GENERIC_DESKTOP \<and>
          (app_usage r = USAGE_ID_MOUSE \<or> app_usage r = USAGE_ID_POINTER \<or> data_usage r = USAGE_ID_WHEEL) then
        sbind (mouse_axis data (unat (report_size r)) 0 c 0) (\<lambda>(c1, v).
          Inr (c1, True, set_axis r (axis_value (report_size r) v) e))
      else Inr (skip_bits (unat (report_size r)) c, has, e))"

fun mouse_scan :: "bool \<Rightarrow> u8 \<Rightarrow> u8 list \<Rightarrow> int \<Rightarrow> RP_INFO_T list \<Rightarrow> cursor \<Rightarrow> bool \<Rightarrow> MOUSE_EVENT_T \<Rightarrow>
    hid_fault + bool \<times> MOUSE_EVENT_T" where
  "mouse_scan use_id rid data data_len [] c has e = Inr (has, e)"
| "mouse_scan use_id rid data data_len (r # rs) c has e =
     (if use_id \<and> report_id r \<noteq> rid then mouse_scan use_id rid data data_len rs c has e
      else if rp_type r \<noteq> TAG_INPUT then mouse_scan use_id rid data data_len rs c has e
      else sbind (mouse_report data r c has e) (\<lambda>(c1, has1, e1).
        if data_len \<le> int (byte_idx c1) then Inr (has1, e1)
        else mouse_scan use_id rid data data_len rs c1 has1 e1))"

definition mouse_event_zero :: MOUSE_EVENT_T where
  "mouse_event_zero = \<lparr>axis_relative = False, wheel_relative = False, button_cnt = 0, button_map = 0, axis_min = 0,
     axis_max = 0, mouse_X = 0, mouse_Y = 0, wheel_min = 0, wheel_max = 0, wheel = 0\<rparr>"

text \<open>The event passed to the callback, if any. The function always returns 0.\<close>

definition hid_parse_mouse_reports :: "bool \<Rightarrow> RPD_T \<Rightarrow> u8 list \<Rightarrow> int \<Rightarrow> hid_fault + MOUSE_EVENT_T option" where
  "hid_parse_mouse_reports cb d data data_len =
     sbind (report_cursor d data) (\<lambda>(rid, c).
     sbind (mouse_scan (has_report_id d) rid data data_len (map snd (report d)) c False mouse_event_zero) (\<lambda>(has, e).
       Inr (if has \<and> cb then Some e else None)))"

end
