(* ===== verification/Hid_Facts.thy ===== *)
theory Hid_Facts
  imports Hid_Parser Usb_Mem_Facts
begin

text \<open>
  Lemmas on the HID parser: which bytes an item reads, what parsing does to the list of reports
  and to the memory manager (the relation \<open>grown\<close>), the search for descriptors, and the bits an
  input report field is made of.
\<close>

section \<open>Items\<close>

lemma item_bSize_le: "item_bTag buff \<noteq> 0xF \<Longrightarrow> item_bSize buff \<le> 4" "item_bSize buff \<le> 255"
proof -
  have "unat (buff ! 0 AND 0x3) \<le> 3"
    using word_and_le1[of "buff ! 0" 3] by (simp add: word_le_nat_alt)
  then show "item_bTag buff \<noteq> 0xF \<Longrightarrow> item_bSize buff \<le> 4" "item_bSize buff \<le> 255"
    using unsigned_less[of "buff ! 1", where ?'a = nat] by (auto simp: item_bSize_def Let_def)
qed

lemma item_len_bounds: "1 \<le> item_len buff" "item_len buff \<le> 258"
  using item_bSize_le[of buff] by (auto simp: item_len_def)

lemma item_reads_le: "item_reads buff \<le> 258"
  using item_len_bounds(2)[of buff] by (auto simp: item_reads_def Let_def)

lemma item_readableI: "258 \<le> length buff \<Longrightarrow> item_readable buff"
  using item_reads_le[of buff] by (auto simp: item_readable_def)

section \<open>Growth of the report list\<close>

abbreviation reports :: "hid_state \<Rightarrow> (u64 \<times> RP_INFO_T) list" where
  "reports s \<equiv> report (rpd (hdev s))"

text \<open>
  From \<open>s\<close> to \<open>s'\<close> the reports \<open>new\<close> have been appended, each in a block of its own that was free
  before, and no other block has been taken or given back.
\<close>

definition grown_by :: "(u64 \<times> RP_INFO_T) list \<Rightarrow> hid_state \<Rightarrow> hid_state \<Rightarrow> bool" where
  "grown_by new s s' \<longleftrightarrow> mem_wf (hmem s') \<and> dma_mem_pool (hmem s') = dma_mem_pool (hmem s) \<and>
     reports s' = reports s @ new \<and> distinct (map fst new) \<and> fst ` set new \<inter> dma_live (hmem s) = {} \<and>
     dma_live (hmem s') = dma_live (hmem s) \<union> fst ` set new \<and>
     dma_mem_used_cnt (hmem s') = dma_mem_used_cnt (hmem s) + int (length new) \<and>
     (\<forall>j<128. dma_unit_used (hmem s) ! j \<longrightarrow> dma_unit_used (hmem s') ! j)"

abbreviation grown :: "hid_state \<Rightarrow> hid_state \<Rightarrow> bool" where
  "grown s s' \<equiv> \<exists>new. grown_by new s s'"

lemma grown_by_Nil: "mem_wf (hmem s) \<Longrightarrow> hmem s' = hmem s \<Longrightarrow> reports s' = reports s \<Longrightarrow> grown_by [] s s'"
  by (simp add: grown_by_def)

lemma grown_by_trans:
  assumes "grown_by n1 s s1" "grown_by n2 s1 s2"
  shows "grown_by (n1 @ n2) s s2"
  using assms unfolding grown_by_def by auto

lemma grown_by_from:
  "grown_by new s s' \<Longrightarrow> hmem s = hmem t \<Longrightarrow> reports s = reports t \<Longrightarrow> grown_by new t s'"
  by (simp add: grown_by_def)

lemma grown_by_to:
  "grown_by new s s' \<Longrightarrow> hmem t = hmem s' \<Longrightarrow> reports t = reports s' \<Longrightarrow> grown_by new s t"
  by (simp add: grown_by_def)

lemma units_for_report: "units_for sizeof_RP_INFO_T DMA_MEM_UNIT_SIZE = 1"
  by (simp add: units_for_def c_div_def)

lemma hid_add_report_cases:
  assumes "mem_wf (hmem s)"
  obtains (out) "hid_add_report ty s = Inr (USBH_ERR_MEMORY_OUT, s)"
    | (added) p s' where "hid_add_report ty s = Inr (0, s')"
        "grown_by [(p, (rp_info s)\<lparr>rp_type := ty\<rparr>)] s s'" "rp_info s' = rp_info s"
        "data_usages s' = data_usages s" "data_usage_cnt s' = data_usage_cnt s"
        "hdev s' = (hdev s)\<lparr>rpd := (rpd (hdev s))\<lparr>report := reports s @ [(p, (rp_info s)\<lparr>rp_type := ty\<rparr>)]\<rparr>\<rparr>"
proof -
  have pos: "0 < sizeof_RP_INFO_T" by simp
  show ?thesis
    using assms pos refl
  proof (cases rule: usbh_alloc_mem_cases)
    case (taken k)
    note one = taken[unfolded units_for_report]
    let ?p = "dma_block (hmem s) k"
    let ?s = "s\<lparr>hmem := dma_taken k 1 (hmem s), hdev := (hdev s)\<lparr>rpd := (rpd (hdev s))\<lparr>report :=
      reports s @ [(?p, (rp_info s)\<lparr>rp_type := ty\<rparr>)]\<rparr>\<rparr>\<rparr>"
    have "hid_add_report ty s = Inr (0, ?s)" using one(1) by (simp add: hid_add_report_def dma_block_def Let_def)
    moreover have "\<forall>j<128. dma_unit_used (hmem s) ! j \<longrightarrow> dma_unit_used (dma_taken k 1 (hmem s)) ! j"
      using assms by (auto simp: mem_wf_def simp del: fill.simps)
    then have "grown_by [(?p, (rp_info s)\<lparr>rp_type := ty\<rparr>)] s ?s"
      using dma_live_take[OF assms one(2), of "dma_taken k 1 (hmem s)"] mem_wf_dma_taken[OF assms one(2)]
      by (auto simp: grown_by_def)
    ultimately show ?thesis by (rule added) simp_all
  next
    case full
    then show ?thesis using out by (simp add: hid_add_report_def)
  qed
qed

lemma add_usage_reports_grown:
  assumes "mem_wf (hmem s)" "add_usage_reports us s = Inr (ret, s')"
  shows "\<exists>new. grown_by new s s' \<and> data_usages s' = data_usages s \<and> data_usage_cnt s' = data_usage_cnt s \<and>
    (ret = 0 \<longrightarrow> map snd new =
       map (\<lambda>u. (rp_info s)\<lparr>report_count := 1, data_usage := u, rp_type := TAG_INPUT\<rparr>) us)"
  using assms
proof (induction us arbitrary: s)
  case (Cons u us)
  let ?s = "s\<lparr>rp_info := (rp_info s)\<lparr>report_count := 1, data_usage := u\<rparr>\<rparr>"
  have wf: "mem_wf (hmem ?s)" using Cons.prems(1) by simp
  show ?case
    using wf
  proof (cases rule: hid_add_report_cases[where ty = TAG_INPUT])
    case out
    then have "ret \<noteq> 0" "s' = ?s" using Cons.prems(2) by auto
    then show ?thesis using Cons.prems(1) grown_by_Nil[of s s'] by auto
  next
    case (added p s1)
    have wf1: "mem_wf (hmem s1)" using added(2) by (simp add: grown_by_def)
    have rest: "add_usage_reports us s1 = Inr (ret, s')" using Cons.prems(2) added(1) by simp
    obtain new where new: "grown_by new s1 s'" "data_usages s' = data_usages s1" "data_usage_cnt s' = data_usage_cnt s1"
        "ret = 0 \<longrightarrow> map snd new =
          map (\<lambda>u. (rp_info s1)\<lparr>report_count := 1, data_usage := u, rp_type := TAG_INPUT\<rparr>) us"
      using Cons.IH[OF wf1 rest] by blast
    have "grown_by ((p, (rp_info ?s)\<lparr>rp_type := TAG_INPUT\<rparr>) # new) s s'"
      using grown_by_trans[OF grown_by_from[OF added(2), of s] new(1)] by simp
    then show ?thesis using new added(3-5) by (intro exI[of _ "(p, (rp_info ?s)\<lparr>rp_type := TAG_INPUT\<rparr>) # new"]) auto
  qed
qed (auto intro: exI[of _ "[]"] grown_by_Nil)

lemma add_counted_report_grown:
  assumes "mem_wf (hmem s)" "add_counted_report ty len s = Inr (ret, s')"
  shows "\<exists>new. grown_by new s s' \<and> data_usages s' = data_usages s \<and> data_usage_cnt s' = data_usage_cnt s \<and>
    rp_info s' = rp_info s \<and>
    (ret = USBH_ERR_MEMORY_OUT \<and> new = [] \<or>
     ret = len \<and> map snd new = (if report_count (rp_info s) = 0 then [] else [(rp_info s)\<lparr>rp_type := ty\<rparr>]))"
proof (cases "report_count (rp_info s) > 0")
  case True
  show ?thesis
    using assms(1)
  proof (cases rule: hid_add_report_cases[where ty = ty])
    case out
    then have "s' = s" "ret = USBH_ERR_MEMORY_OUT" using assms(2) True by (simp_all add: add_counted_report_def)
    then show ?thesis using grown_by_Nil[OF assms(1), of s] by blast
  next
    case (added p s1)
    then have "s' = s1" "ret = len" using assms(2) True by (simp_all add: add_counted_report_def)
    then show ?thesis using added True by fastforce
  qed
next
  case False
  then have "s' = s" "ret = len" using assms(2) by (simp_all add: add_counted_report_def)
  then show ?thesis using False grown_by_Nil[OF assms(1), of s] by (intro exI[of _ "[]"]) (auto simp: word_gt_0)
qed

text \<open>What an \<open>Input\<close> item appends: a report of count 1 per collected usage, then the remaining fields.\<close>

definition input_reports :: "RP_INFO_T \<Rightarrow> u8 list \<Rightarrow> RP_INFO_T list" where
  "input_reports info us =
     (let rest = report_count info - of_nat (length us) in
      map (\<lambda>u. info\<lparr>report_count := 1, data_usage := u, rp_type := TAG_INPUT\<rparr>) us @
      (if rest = 0 then []
       else [info\<lparr>report_count := rest, data_usage := (if us = [] then data_usage info else 0), rp_type := TAG_INPUT\<rparr>]))"

lemma add_usage_reports_info:
  assumes "mem_wf (hmem s)" "add_usage_reports us s = Inr (0, s')" "us \<noteq> []"
  shows "rp_info s' = (rp_info s)\<lparr>report_count := 1, data_usage := last us\<rparr>"
  using assms
proof (induction us arbitrary: s)
  case (Cons u us)
  let ?s = "s\<lparr>rp_info := (rp_info s)\<lparr>report_count := 1, data_usage := u\<rparr>\<rparr>"
  have wf: "mem_wf (hmem ?s)" using Cons.prems(1) by simp
  show ?case
    using wf
  proof (cases rule: hid_add_report_cases[where ty = TAG_INPUT])
    case out
    then show ?thesis using Cons.prems(2) by simp
  next
    case (added p s1)
    have "mem_wf (hmem s1)" using added(2) by (simp add: grown_by_def)
    then show ?thesis using Cons.IH[of s1] Cons.prems(2) added by (cases us) auto
  qed
qed simp

lemma parse_input_item_grown:
  assumes "mem_wf (hmem s)" "parse_input_item len s = Inr (ret, s')" "0 < len"
  shows "\<exists>new. grown_by new s s' \<and> data_usages s' = data_usages s \<and> data_usage_cnt s' \<le> data_usage_cnt s \<and>
    (ret = USBH_ERR_MEMORY_OUT \<or>
     ret = len \<and> data_usage_cnt s' = 0 \<and>
       (data_usage_cnt s \<le> length (data_usages s) \<longrightarrow>
          map snd new = input_reports (rp_info s) (take (data_usage_cnt s) (data_usages s))))"
proof (cases "data_usage_cnt s = 0")
  case True
  then have "add_counted_report TAG_INPUT len s = Inr (ret, s')" using assms(2) by (simp add: parse_input_item_def)
  from add_counted_report_grown[OF assms(1) this] show ?thesis using True by (fastforce simp: input_reports_def)
next
  case False
  let ?us = "take (data_usage_cnt s) (data_usages s)"
  obtain r1 s1 where s1: "add_usage_reports ?us s = Inr (r1, s1)"
    using assms(2) False by (auto simp: parse_input_item_def sbind_eq_Inr_iff Let_def)
  obtain n1 where n1: "grown_by n1 s s1" "data_usages s1 = data_usages s" "data_usage_cnt s1 = data_usage_cnt s"
      "r1 = 0 \<longrightarrow> map snd n1 = map (\<lambda>u. (rp_info s)\<lparr>report_count := 1, data_usage := u, rp_type := TAG_INPUT\<rparr>) ?us"
    using add_usage_reports_grown[OF assms(1) s1] by blast
  show ?thesis
  proof (cases "r1 = 0")
    case r: False
    then have "s' = s1" "ret = USBH_ERR_MEMORY_OUT"
      using assms(2) False s1 by (simp_all add: parse_input_item_def Let_def)
    then show ?thesis using n1 by auto
  next
    case r: True
    let ?s2 = "s1\<lparr>rp_info := (rp_info s1)\<lparr>report_count := report_count (rp_info s) - of_nat (data_usage_cnt s),
      data_usage := 0\<rparr>, data_usage_cnt := 0\<rparr>"
    have wf: "mem_wf (hmem ?s2)" using n1(1) by (simp add: grown_by_def)
    have "add_counted_report TAG_INPUT len ?s2 = Inr (ret, s')"
      using assms(2) False s1 r by (simp add: parse_input_item_def Let_def)
    from add_counted_report_grown[OF wf this] obtain n2 where n2: "grown_by n2 ?s2 s'"
        "data_usages s' = data_usages s1" "data_usage_cnt s' = 0"
        "ret = USBH_ERR_MEMORY_OUT \<and> n2 = [] \<or> ret = len \<and> map snd n2 =
          (if report_count (rp_info ?s2) = 0 then [] else [(rp_info ?s2)\<lparr>rp_type := TAG_INPUT\<rparr>])"
      by auto
    have g: "grown_by (n1 @ n2) s s'" by (rule grown_by_trans[OF n1(1) grown_by_from[OF n2(1)]]) simp_all
    show ?thesis
    proof (cases "data_usage_cnt s \<le> length (data_usages s)")
      case True
      then have us: "length ?us = data_usage_cnt s" "?us \<noteq> []" using False by auto
      have "rp_info s1 = (rp_info s)\<lparr>report_count := 1, data_usage := last ?us\<rparr>"
        using add_usage_reports_info[OF assms(1) s1[unfolded r] us(2)] .
      then have "ret = len \<longrightarrow> map snd (n1 @ n2) = input_reports (rp_info s) ?us"
        using n1(4) r n2(4) us assms(3) by (auto simp: input_reports_def Let_def)
      then show ?thesis using g n1(2) n2(2-4) by auto
    qed (use g n1(2) n2(2-4) in auto)
  qed
qed

text \<open>The well-formedness of the parser: the array of usages has 16 entries.\<close>

definition hid_wf :: "hid_state \<Rightarrow> bool" where
  "hid_wf s \<longleftrightarrow> mem_wf (hmem s) \<and> length (data_usages s) = 16 \<and> data_usage_cnt s \<le> 16"

lemma hid_wf_grown: "grown_by new s s' \<Longrightarrow> length (data_usages s') = 16 \<Longrightarrow> data_usage_cnt s' \<le> 16 \<Longrightarrow> hid_wf s'"
  by (simp add: hid_wf_def grown_by_def)

lemma add_counted_report_wf:
  assumes "hid_wf s" "add_counted_report ty len s = Inr (ret, s')"
  shows "hid_wf s' \<and> grown s s' \<and> (ret = len \<or> ret = USBH_ERR_MEMORY_OUT)"
proof -
  have "mem_wf (hmem s)" using assms(1) by (simp add: hid_wf_def)
  from add_counted_report_grown[OF this assms(2)] show ?thesis
    using assms(1) by (auto simp: hid_wf_def grown_by_def)
qed

lemma parse_input_item_wf:
  assumes "hid_wf s" "parse_input_item len s = Inr (ret, s')" "0 < len"
  shows "hid_wf s' \<and> grown s s' \<and> (ret = len \<or> ret = USBH_ERR_MEMORY_OUT)"
proof -
  have "mem_wf (hmem s)" using assms(1) by (simp add: hid_wf_def)
  from parse_input_item_grown[OF this assms(2,3)] show ?thesis
    using assms(1) by (auto simp: hid_wf_def grown_by_def)
qed

lemma grown_info: "hid_wf s \<Longrightarrow> grown (s\<lparr>rp_info := x\<rparr>) s' = grown s s'"
  by (simp add: grown_by_def)

lemma hid_parse_item_grown:
  assumes "hid_wf s" "hid_parse_item buff s = Inr (ret, s')"
  shows "hid_wf s' \<and> grown s s' \<and> (ret = int (item_len buff) \<or> ret = USBH_ERR_MEMORY_OUT)"
proof -
  let ?s = "s\<lparr>rp_info := read_main_item_status (buff ! 1) (buff ! 2) (rp_info s)\<rparr>"
  have wf: "hid_wf ?s" "mem_wf (hmem s)" using assms(1) by (simp_all add: hid_wf_def)
  have len: "0 < int (item_len buff)" using item_len_bounds(1)[of buff] by simp
  note [simp] = grown_info[OF assms(1)]
  consider (inp) "parse_input_item (int (item_len buff)) ?s = Inr (ret, s')"
    | (out) "add_counted_report TAG_OUTPUT (int (item_len buff)) ?s = Inr (ret, s')"
    | (usage) "collect_usage (buff ! 1) (int (item_len buff)) s = Inr (ret, s')"
    | (other) "ret = int (item_len buff)" "hmem s' = hmem s" "reports s' = reports s"
        "data_usages s' = data_usages s" "data_usage_cnt s' = data_usage_cnt s"
    using assms(2) by (auto simp: hid_parse_item_def Let_def split: if_splits)
  then show ?thesis
  proof cases
    case inp
    then show ?thesis using parse_input_item_wf[OF wf(1) inp len] by simp
  next
    case out
    then show ?thesis using add_counted_report_wf[OF wf(1) out] by simp
  next
    case usage
    then show ?thesis using assms(1) grown_by_Nil[OF wf(2), of s']
      by (auto simp: collect_usage_def hid_wf_def split: if_splits)
  next
    case other
    then show ?thesis using assms(1) grown_by_Nil[OF wf(2), of s'] by (auto simp: hid_wf_def)
  qed
qed

lemma parse_items_grown:
  assumes "hid_wf s" "parse_items buff n s = Inr (ret, s')"
  shows "hid_wf s' \<and> grown s s' \<and> (ret = 0 \<or> ret = HID_RET_PARSING)"
  using assms
proof (induction buff n s rule: parse_items.induct)
  case (1 buff n s)
  show ?case
  proof (cases "n > 0")
    case True
    obtain sz s1 where item: "hid_parse_item buff s = Inr (sz, s1)"
      using "1.prems"(2) True by (subst (asm) parse_items.simps) (auto simp: sbind_eq_Inr_iff)
    have s1: "hid_wf s1" "grown s s1" using hid_parse_item_grown[OF "1.prems"(1) item] by auto
    show ?thesis
    proof (cases "sz \<le> 0")
      case neg: True
      then show ?thesis using "1.prems"(2) True item s1 by (subst (asm) parse_items.simps) auto
    next
      case pos: False
      then have "parse_items (drop (nat sz) buff) (n - sz) s1 = Inr (ret, s')"
        using "1.prems"(2) True item by (subst (asm) parse_items.simps) auto
      from "1.IH"[OF True item refl pos s1(1) this] show ?thesis
        using s1(2) grown_by_trans by blast
    qed
  next
    case False
    then have "s' = s" "ret = 0" using "1.prems"(2) by (simp_all add: parse_items.simps)
    moreover have "grown_by [] s s" using "1.prems"(1) by (simp add: hid_wf_def grown_by_Nil)
    ultimately show ?thesis using "1.prems"(1) by blast
  qed
qed

section \<open>Faults of the parser\<close>

lemma add_usage_reports_no_fault: "mem_wf (hmem s) \<Longrightarrow> \<exists>x. add_usage_reports us s = Inr x"
proof (induction us arbitrary: s)
  case (Cons u us)
  let ?s = "s\<lparr>rp_info := (rp_info s)\<lparr>report_count := 1, data_usage := u\<rparr>\<rparr>"
  have wf: "mem_wf (hmem ?s)" using Cons.prems by simp
  show ?case
    using wf
  proof (cases rule: hid_add_report_cases[where ty = TAG_INPUT])
    case (added p s1)
    then show ?thesis using Cons.IH[of s1] by (simp add: grown_by_def)
  qed simp
qed simp

lemma add_counted_report_no_fault:
  assumes "mem_wf (hmem s)"
  shows "\<exists>x. add_counted_report ty len s = Inr x"
  using assms by (cases rule: hid_add_report_cases[where ty = ty]) (auto simp: add_counted_report_def)

lemma parse_input_item_no_fault:
  assumes "mem_wf (hmem s)"
  shows "\<exists>x. parse_input_item len s = Inr x"
proof -
  obtain ret s1 where s1: "add_usage_reports (take (data_usage_cnt s) (data_usages s)) s = Inr (ret, s1)"
    using add_usage_reports_no_fault[OF assms] by fastforce
  let ?s2 = "s1\<lparr>rp_info := (rp_info s1)\<lparr>report_count := report_count (rp_info s) - of_nat (data_usage_cnt s),
    data_usage := 0\<rparr>, data_usage_cnt := 0\<rparr>"
  have "mem_wf (hmem ?s2)" using add_usage_reports_grown[OF assms s1] by (auto simp: grown_by_def)
  from add_counted_report_no_fault[OF this, of TAG_INPUT len] show ?thesis
    using s1 add_counted_report_no_fault[OF assms, of TAG_INPUT len] by (auto simp: parse_input_item_def Let_def)
qed

text \<open>The parser has two faults: an item that runs out of the block, and a seventeenth data usage.\<close>

lemma hid_parse_item_fault:
  assumes "hid_wf s" "hid_parse_item buff s = Inl e"
  shows "e = Out_of_bounds \<and> \<not> item_readable buff \<or> e = Usages_overflow \<and> data_usage_cnt s = 16"
proof -
  let ?s = "s\<lparr>rp_info := read_main_item_status (buff ! 1) (buff ! 2) (rp_info s)\<rparr>"
  have wf: "mem_wf (hmem ?s)" using assms(1) by (simp add: hid_wf_def)
  show ?thesis
    using assms parse_input_item_no_fault[OF wf, of "int (item_len buff)"]
      add_counted_report_no_fault[OF wf, of TAG_OUTPUT "int (item_len buff)"]
    by (auto simp: hid_parse_item_def Let_def collect_usage_def hid_wf_def split: if_splits)
qed

lemma parse_items_fault:
  assumes "hid_wf s" "parse_items buff n s = Inl e" "n + 257 \<le> int (length buff)"
  shows "e = Usages_overflow"
  using assms
proof (induction buff n s rule: parse_items.induct)
  case (1 buff n s)
  have n: "n > 0" using "1.prems"(2) by (subst (asm) parse_items.simps) (auto split: if_splits)
  have readable: "item_readable buff" using item_readableI[of buff] "1.prems"(3) n by simp
  show ?case
  proof (cases "hid_parse_item buff s")
    case (Inl e')
    then show ?thesis using "1.prems"(2) n hid_parse_item_fault[OF "1.prems"(1) Inl] readable
      by (subst (asm) parse_items.simps) auto
  next
    case (Inr x)
    obtain sz s1 where x: "x = (sz, s1)" by (cases x)
    have item: "hid_parse_item buff s = Inr (sz, s1)" using Inr x by simp
    then have pos: "\<not> sz \<le> 0" "parse_items (drop (nat sz) buff) (n - sz) s1 = Inl e"
      using "1.prems"(2) n by (subst (asm) parse_items.simps, auto split: if_splits)+
    show ?thesis
      using "1.IH"[OF n item refl pos(1) _ pos(2)] hid_parse_item_grown[OF "1.prems"(1) item] "1.prems"(3) pos(1)
      by auto
  qed
qed

section \<open>The report descriptor is read into a temporary block\<close>

lemma used_run_mono:
  assumes "used_run xs k n" "\<forall>j<128. xs ! j \<longrightarrow> ys ! j" "length xs = 128" "length ys = 128"
  shows "used_run ys k n"
proof -
  have "ys ! nat j" if "j \<in> {k..<k + n}" for j
  proof -
    have "nat j < 128" "xs ! nat j" using that assms(1,3) by (auto simp: used_run_def)
    then show ?thesis using assms(2) by blast
  qed
  then show ?thesis using assms(1,3,4) by (simp add: used_run_def)
qed

text \<open>The temporary block is given back after the reports have been added.\<close>

lemma give_back_grown:
  assumes "mem_wf (hmem s)" "free_run (dma_unit_used (hmem s)) k n" "1 \<le> n" "n = units_for sz DMA_MEM_UNIT_SIZE"
    "grown_by new (s\<lparr>hmem := dma_taken k n (hmem s)\<rparr>) t"
    "t' = t\<lparr>hmem := snd (usbh_free_mem (dma_block (hmem s) k) sz (hmem t))\<rparr>"
  shows "mem_wf (hmem t') \<and> reports t' = reports s @ new \<and> distinct (map fst new) \<and>
    fst ` set new \<inter> dma_live (hmem s) = {} \<and>
    dma_mem_used_cnt (hmem t') = dma_mem_used_cnt (hmem s) + int (length new)"
proof -
  let ?m = "dma_taken k n (hmem s)"
  have len: "length (dma_unit_used (hmem s)) = 128" using assms(1) by (simp add: mem_wf_def)
  have k: "0 \<le> k" "k + n \<le> 128" "0 \<le> n" using assms(2,3) len by (auto simp: free_run_def)
  have sub: "dma_live (hmem s) \<subseteq> dma_live ?m"
    using len by (auto simp: dma_live_eq[of ?m "hmem s"] dma_live_def)
  have t: "mem_wf (hmem t)" "dma_mem_pool (hmem t) = dma_mem_pool (hmem s)"
      "\<forall>j<128. dma_unit_used ?m ! j \<longrightarrow> dma_unit_used (hmem t) ! j"
    using assms(5) by (auto simp: grown_by_def)
  have "used_run (dma_unit_used ?m) k n" using used_run_fill[of k n "dma_unit_used (hmem s)"] k len by simp
  then have "used_run (dma_unit_used (hmem t)) k n"
    by (rule used_run_mono[OF _ t(3)]) (use len t(1) in \<open>simp_all add: mem_wf_def\<close>)
  moreover have "dma_block (hmem s) k = dma_block (hmem t) k" using t(2) by (simp add: dma_block_def)
  ultimately have "usbh_free_mem (dma_block (hmem s) k) sz (hmem t) = (0, dma_given_back k n (hmem t))"
      "mem_wf (dma_given_back k n (hmem t))"
    using usbh_free_mem_run[OF t(1) _ assms(3,4)] by auto
  then show ?thesis using assms(5,6) sub by (auto simp: grown_by_def)
qed

lemma fetch_and_parse_accounting:
  assumes "hid_wf s" "fetch_and_parse xfer w s = Inr (ret, s')"
  shows "\<exists>new. mem_wf (hmem s') \<and> reports s' = reports s @ new \<and> distinct (map fst new) \<and>
    fst ` set new \<inter> dma_live (hmem s) = {} \<and>
    dma_mem_used_cnt (hmem s') = dma_mem_used_cnt (hmem s) + int (length new)"
proof -
  let ?sz = "int w + 8"
  let ?n = "units_for ?sz DMA_MEM_UNIT_SIZE"
  have wf: "mem_wf (hmem s)" using assms(1) by (simp add: hid_wf_def)
  have pos: "0 < ?sz" by simp
  show ?thesis
    using wf pos refl
  proof (cases rule: usbh_alloc_mem_cases)
    case (taken k)
    let ?s1 = "s\<lparr>hmem := dma_taken k ?n (hmem s)\<rparr>" and ?p = "dma_block (hmem s) k"
    have p0: "?p \<noteq> 0" by (simp add: dma_block_def)
    have wf1: "hid_wf ?s1" using assms(1) mem_wf_dma_taken[OF wf taken(2)] taken(4) by (simp add: hid_wf_def)
    consider "s' = ?s1\<lparr>hmem := snd (usbh_free_mem ?p ?sz (hmem ?s1))\<rparr>"
      | block n ret' s2 where "parse_items block n ?s1 = Inr (ret', s2)"
          "s' = s2\<lparr>hmem := snd (usbh_free_mem ?p ?sz (hmem s2))\<rparr>"
      using assms(2) taken(1) p0
      by (auto simp: fetch_and_parse_def Let_def sbind_eq_Inr_iff split: prod.splits if_splits)
    then obtain new t where "grown_by new ?s1 t" "s' = t\<lparr>hmem := snd (usbh_free_mem ?p ?sz (hmem t))\<rparr>"
    proof cases
      case 1
      have "grown_by [] ?s1 ?s1" using wf1 by (intro grown_by_Nil) (simp_all add: hid_wf_def)
      then show ?thesis using 1 that by blast
    next
      case (2 block n ret' s2)
      then show ?thesis using that parse_items_grown[OF wf1 2(1)] by blast
    qed
    from give_back_grown[OF wf taken(2,4) refl this] show ?thesis by blast
  qed (use assms(2) in \<open>simp add: fetch_and_parse_def\<close>)
qed

section \<open>The search for the interface\<close>

text \<open>A sequence of descriptors as the USB specification lays them out: each starts with its length.\<close>

definition descriptor :: "u8 list \<Rightarrow> bool" where
  "descriptor d \<longleftrightarrow> 2 \<le> length d \<and> unat (d ! 0) = length d"

definition hid_interface :: "u8 \<Rightarrow> u8 list \<Rightarrow> bool" where
  "hid_interface n d \<longleftrightarrow> 9 \<le> length d \<and> d ! 1 = 0x04 \<and> d ! 2 = n \<and> d ! 5 = 0x03"

text \<open>Interface descriptors have nine bytes.\<close>

definition well_formed_config :: "u8 list list \<Rightarrow> bool" where
  "well_formed_config ds \<longleftrightarrow> (\<forall>d \<in> set ds. descriptor d \<and> (d ! 1 = 0x04 \<longrightarrow> 9 \<le> length d))"

lemma nth_mid: "k < length d \<Longrightarrow> (pre @ d @ post) ! (length pre + k) = d ! k"
  by (simp add: nth_append)

lemma probe_descriptor:
  assumes "descriptor d" "d ! 1 = 0x04 \<longrightarrow> 9 \<le> length d"
  shows "probe (pre @ d @ post) (length pre) [(1, 0x04), (2, n), (5, 0x03)] = Some (hid_interface n d)"
  using assms nth_mid[of 1 d pre post] nth_mid[of 2 d pre post] nth_mid[of 5 d pre post]
  by (auto simp: descriptor_def hid_interface_def)

lemma find_interface_first:
  assumes "well_formed_config (ds @ [d])" "\<forall>x \<in> set ds. \<not> hid_interface n x" "hid_interface n d"
    "int (length (concat ds) + length d) \<le> sz" "off = length pre"
  shows "find_interface (pre @ concat ds @ d @ post) n off sz =
    Inr (Found (off + length (concat ds)) (sz - int (length (concat ds))))"
  using assms
proof (induction ds arbitrary: pre off sz)
  case Nil
  have "9 \<le> sz" using Nil by (simp add: hid_interface_def)
  then show ?case using Nil probe_descriptor[of d pre post n]
    by (simp add: find_interface.simps[of _ n] ge_sizeof_def well_formed_config_def del: probe.simps)
next
  case (Cons x ds)
  have x: "descriptor x" "x ! 1 = 0x04 \<longrightarrow> 9 \<le> length x" "\<not> hid_interface n x"
    using Cons.prems(1,2) by (auto simp: well_formed_config_def)
  have sz: "9 \<le> sz" using Cons.prems(3,4) by (simp add: hid_interface_def)
  let ?buf = "pre @ x @ concat ds @ d @ post"
  have "x \<noteq> []" using x(1) by (auto simp: descriptor_def)
  then have x0: "?buf ! length pre = x ! 0" "unat (x ! 0) = length x" "x ! 0 \<noteq> 0"
    using x(1) nth_mid[of 0 x pre "concat ds @ d @ post"] by (auto simp: descriptor_def)
  have "find_interface ?buf n (length pre) sz =
      find_interface ?buf n (length pre + length x) (sz - int (length x))"
    using probe_descriptor[OF x(1,2), of pre "concat ds @ d @ post" n] x(3) sz x0
    by (subst find_interface.simps) (simp add: ge_sizeof_def del: probe.simps)
  also have "\<dots> = Inr (Found (length pre + length x + length (concat ds)) (sz - int (length x) - int (length (concat ds))))"
    using Cons.IH[of "sz - int (length x)" "length pre + length x" "pre @ x"] Cons.prems
    by (auto simp: well_formed_config_def)
  finally show ?case using Cons.prems(5) by (simp add: algebra_simps)
qed

end
