(* ===== verification/Hid_Spec.thy ===== *)
theory Hid_Spec
  imports Hid_Facts
begin

text \<open>
  An abstract report descriptor parser without memory management, and the refinement: where the
  memory suffices, the parser of the driver computes the reports of the abstract one.
\<close>

section \<open>Abstract parser\<close>

record hid_spec =
  sp_info :: RP_INFO_T
  sp_usages :: "u8 list"
  sp_id :: bool
  sp_reports :: "RP_INFO_T list"

definition spec_empty :: hid_spec where
  "spec_empty = \<lparr>sp_info = RP_INFO_zero, sp_usages = [], sp_id = False, sp_reports = []\<rparr>"

text \<open>One item; \<open>None\<close> when more than 16 data usages are pending.\<close>

definition spec_item :: "u8 list \<Rightarrow> hid_spec \<Rightarrow> hid_spec option" where
  "spec_item buff a =
     (let tag = item_tag buff; info = read_main_item_status (buff ! 1) (buff ! 2) (sp_info a); us = sp_usages a in
      if tag = TAG_INPUT then
        Some (a\<lparr>sp_info := (if us = [] then info
                  else info\<lparr>report_count := report_count info - of_nat (length us), data_usage := 0\<rparr>),
          sp_usages := [], sp_reports := sp_reports a @ input_reports info us\<rparr>)
      else if tag = TAG_OUTPUT then
        Some (a\<lparr>sp_info := info, sp_reports := sp_reports a @
          (if report_count info = 0 then [] else [info\<lparr>rp_type := TAG_OUTPUT\<rparr>])\<rparr>)
      else if tag = TAG_FEATURE then Some (a\<lparr>sp_info := info\<rparr>)
      else if tag = TAG_USAGE \<and> buff ! 1 \<in> {USAGE_ID_X, USAGE_ID_Y, USAGE_ID_WHEEL} then
        if length us < 16 then Some (a\<lparr>sp_usages := us @ [buff ! 1]\<rparr>) else None
      else Some (a\<lparr>sp_info := set_item_info tag (buff ! 1) (hid_read_item_value (item_bSize buff) (tl buff)) (sp_info a),
        sp_id := (tag = TAG_REPORT_ID \<or> sp_id a)\<rparr>))"

function spec_items :: "u8 list \<Rightarrow> int \<Rightarrow> hid_spec \<Rightarrow> hid_spec option" where
  "spec_items buff n a =
     (if n > 0 then
        (case spec_item buff a of None \<Rightarrow> None
         | Some a1 \<Rightarrow> spec_items (drop (item_len buff) buff) (n - int (item_len buff)) a1)
      else Some a)"
  by pat_completeness auto
termination
  by (relation "measure (\<lambda>(buff, n, a). nat n)") (use item_len_bounds(1) in \<open>auto simp: Suc_le_eq\<close>)

declare spec_items.simps [simp del]

section \<open>Abstraction\<close>

definition hid_abs :: "hid_state \<Rightarrow> hid_spec" where
  "hid_abs s = \<lparr>sp_info = rp_info s, sp_usages = take (data_usage_cnt s) (data_usages s),
     sp_id = has_report_id (rpd (hdev s)), sp_reports = map snd (reports s)\<rparr>"

abbreviation used_units :: "hid_state \<Rightarrow> int" where
  "used_units s \<equiv> dma_mem_used_cnt (hmem s)"

text \<open>Where the memory does not suffice the step has failed; where it does it agrees with the abstract one.\<close>

lemma used_count_full: "(\<And>k. k < length xs \<Longrightarrow> xs ! k) \<Longrightarrow> used_count xs = int (length xs)"
  by (simp add: used_count_def filter_id_conv all_set_conv_all_nth)

lemma hid_add_report_ok:
  assumes "mem_wf (hmem s)" "used_units s < 128"
  shows "\<exists>s'. hid_add_report ty s = Inr (0, s') \<and> mem_wf (hmem s') \<and> used_units s' = used_units s + 1 \<and>
    data_usages s' = data_usages s \<and> data_usage_cnt s' = data_usage_cnt s \<and>
    hid_abs s' = (hid_abs s)\<lparr>sp_reports := sp_reports (hid_abs s) @ [(rp_info s)\<lparr>rp_type := ty\<rparr>]\<rparr>"
  using assms(1)
proof (cases rule: hid_add_report_cases[where ty = ty])
  case out
  have pos: "0 < sizeof_RP_INFO_T" by simp
  show ?thesis
    using assms(1) pos refl
  proof (cases rule: usbh_alloc_mem_cases)
    case (taken k)
    then show ?thesis using out by (simp add: hid_add_report_def dma_block_def Let_def)
  next
    case full
    have len: "length (dma_unit_used (hmem s)) = 128" using assms(1) by (simp add: mem_wf_def)
    have "dma_unit_used (hmem s) ! k" if "k < 128" for k
    proof -
      have "{int k..<int k + 1} = {int k}" by auto
      then show ?thesis using full(2)[of "int k"] that len by (auto simp: units_for_report free_run_def)
    qed
    then have "used_units s = 128" using used_count_full[of "dma_unit_used (hmem s)"] len assms(1)
      by (simp add: mem_wf_def)
    then show ?thesis using assms(2) by simp
  qed
next
  case (added p s')
  then show ?thesis by (intro exI[of _ s']) (auto simp: grown_by_def hid_abs_def)
qed

lemma add_usage_reports_ok:
  assumes "mem_wf (hmem s)" "used_units s + int (length us) \<le> 128"
  shows "\<exists>s'. add_usage_reports us s = Inr (0, s') \<and> mem_wf (hmem s') \<and> used_units s' = used_units s + int (length us) \<and>
    data_usages s' = data_usages s \<and> data_usage_cnt s' = data_usage_cnt s \<and>
    hid_abs s' = (hid_abs s)\<lparr>sp_info := (if us = [] then rp_info s
        else (rp_info s)\<lparr>report_count := 1, data_usage := last us\<rparr>),
      sp_reports := sp_reports (hid_abs s) @
        map (\<lambda>u. (rp_info s)\<lparr>report_count := 1, data_usage := u, rp_type := TAG_INPUT\<rparr>) us\<rparr>"
  using assms
proof (induction us arbitrary: s)
  case Nil
  then show ?case by (simp add: hid_abs_def)
next
  case (Cons u us)
  let ?s = "s\<lparr>rp_info := (rp_info s)\<lparr>report_count := 1, data_usage := u\<rparr>\<rparr>"
  obtain s1 where s1: "hid_add_report TAG_INPUT ?s = Inr (0, s1)" "mem_wf (hmem s1)" "used_units s1 = used_units s + 1"
      "data_usages s1 = data_usages s" "data_usage_cnt s1 = data_usage_cnt s"
      "hid_abs s1 = (hid_abs ?s)\<lparr>sp_reports := sp_reports (hid_abs ?s) @ [(rp_info ?s)\<lparr>rp_type := TAG_INPUT\<rparr>]\<rparr>"
    using hid_add_report_ok[of ?s TAG_INPUT] Cons.prems by auto
  have info: "rp_info s1 = (rp_info s)\<lparr>report_count := 1, data_usage := u\<rparr>"
    using arg_cong[OF s1(6), of sp_info] by (simp add: hid_abs_def)
  have "used_units s1 + int (length us) \<le> 128" using s1(3) Cons.prems(2) by simp
  from Cons.IH[OF s1(2) this] obtain s2 where s2: "add_usage_reports us s1 = Inr (0, s2)" "mem_wf (hmem s2)"
      "used_units s2 = used_units s1 + int (length us)" "data_usages s2 = data_usages s1" "data_usage_cnt s2 = data_usage_cnt s1"
      "hid_abs s2 = (hid_abs s1)\<lparr>sp_info := (if us = [] then rp_info s1
        else (rp_info s1)\<lparr>report_count := 1, data_usage := last us\<rparr>),
      sp_reports := sp_reports (hid_abs s1) @
        map (\<lambda>u. (rp_info s1)\<lparr>report_count := 1, data_usage := u, rp_type := TAG_INPUT\<rparr>) us\<rparr>"
    by blast
  have "hid_abs ?s = (hid_abs s)\<lparr>sp_info := rp_info ?s\<rparr>" by (simp add: hid_abs_def)
  then show ?case using s1 s2 info by (intro exI[of _ s2]) auto
qed

lemma add_counted_report_ok:
  assumes "mem_wf (hmem s)" "used_units s + of_bool (report_count (rp_info s) \<noteq> 0) \<le> 128"
  shows "\<exists>s'. add_counted_report ty len s = Inr (len, s') \<and> mem_wf (hmem s') \<and>
    used_units s' = used_units s + of_bool (report_count (rp_info s) \<noteq> 0) \<and>
    data_usages s' = data_usages s \<and> data_usage_cnt s' = data_usage_cnt s \<and>
    hid_abs s' = (hid_abs s)\<lparr>sp_reports := sp_reports (hid_abs s) @
      (if report_count (rp_info s) = 0 then [] else [(rp_info s)\<lparr>rp_type := ty\<rparr>])\<rparr>"
proof (cases "report_count (rp_info s) = 0")
  case True
  then show ?thesis using assms by (simp add: add_counted_report_def)
next
  case False
  then show ?thesis using hid_add_report_ok[OF assms(1), of ty] assms(2)
    by (auto simp: add_counted_report_def word_gt_0)
qed

lemma length_input_reports:
  "int (length (input_reports info us)) =
     int (length us) + of_bool (report_count info - of_nat (length us) \<noteq> 0)"
  by (simp add: input_reports_def Let_def)

lemma parse_input_item_ok:
  assumes "hid_wf s" "us = take (data_usage_cnt s) (data_usages s)"
    "used_units s + int (length (input_reports (rp_info s) us)) \<le> 128"
  shows "\<exists>s'. parse_input_item len s = Inr (len, s') \<and> hid_wf s' \<and>
    used_units s' = used_units s + int (length (input_reports (rp_info s) us)) \<and>
    hid_abs s' = (hid_abs s)\<lparr>sp_info := (if us = [] then rp_info s
        else (rp_info s)\<lparr>report_count := report_count (rp_info s) - of_nat (length us), data_usage := 0\<rparr>),
      sp_usages := [], sp_reports := sp_reports (hid_abs s) @ input_reports (rp_info s) us\<rparr>"
proof (cases "us = []")
  case True
  have cnt: "data_usage_cnt s = 0" using True assms(1,2) by (auto simp: hid_wf_def)
  have wf: "mem_wf (hmem s)" using assms(1) by (simp add: hid_wf_def)
  obtain s' where "add_counted_report TAG_INPUT len s = Inr (len, s')" "mem_wf (hmem s')"
      "used_units s' = used_units s + of_bool (report_count (rp_info s) \<noteq> 0)"
      "data_usages s' = data_usages s" "data_usage_cnt s' = data_usage_cnt s"
      "hid_abs s' = (hid_abs s)\<lparr>sp_reports := sp_reports (hid_abs s) @
        (if report_count (rp_info s) = 0 then [] else [(rp_info s)\<lparr>rp_type := TAG_INPUT\<rparr>])\<rparr>"
    using add_counted_report_ok[OF wf, of TAG_INPUT len] assms(3) True by (auto simp: length_input_reports)
  then show ?thesis using cnt True assms(1)
    by (intro exI[of _ s']) (auto simp: parse_input_item_def hid_wf_def input_reports_def hid_abs_def)
next
  case False
  have us: "data_usage_cnt s > 0" "length us = data_usage_cnt s" using False assms(1,2) by (auto simp: hid_wf_def)
  have wf: "mem_wf (hmem s)" using assms(1) by (simp add: hid_wf_def)
  have "used_units s + int (length us) \<le> 128" using assms(3) by (simp add: length_input_reports of_bool_def split: if_splits)
  from add_usage_reports_ok[OF wf this] obtain s1 where s1: "add_usage_reports us s = Inr (0, s1)" "mem_wf (hmem s1)"
      "used_units s1 = used_units s + int (length us)" "data_usages s1 = data_usages s" "data_usage_cnt s1 = data_usage_cnt s"
      "hid_abs s1 = (hid_abs s)\<lparr>sp_info := (rp_info s)\<lparr>report_count := 1, data_usage := last us\<rparr>,
        sp_reports := sp_reports (hid_abs s) @
          map (\<lambda>u. (rp_info s)\<lparr>report_count := 1, data_usage := u, rp_type := TAG_INPUT\<rparr>) us\<rparr>"
    using False by auto
  have info: "rp_info s1 = (rp_info s)\<lparr>report_count := 1, data_usage := last us\<rparr>"
    using arg_cong[OF s1(6), of sp_info] by (simp add: hid_abs_def)
  let ?rest = "report_count (rp_info s) - of_nat (length us)"
  let ?s2 = "s1\<lparr>rp_info := (rp_info s1)\<lparr>report_count := ?rest, data_usage := 0\<rparr>, data_usage_cnt := 0\<rparr>"
  have "mem_wf (hmem ?s2)" using s1(2) by simp
  from add_counted_report_ok[OF this, of TAG_INPUT len] obtain s3 where s3:
      "add_counted_report TAG_INPUT len ?s2 = Inr (len, s3)" "mem_wf (hmem s3)"
      "used_units s3 = used_units s1 + of_bool (?rest \<noteq> 0)"
      "data_usages s3 = data_usages s" "data_usage_cnt s3 = 0"
      "hid_abs s3 = (hid_abs ?s2)\<lparr>sp_reports := sp_reports (hid_abs ?s2) @
        (if ?rest = 0 then [] else [(rp_info ?s2)\<lparr>rp_type := TAG_INPUT\<rparr>])\<rparr>"
    using assms(3) s1(3,4) by (auto simp: length_input_reports)
  have abs2: "hid_abs ?s2 = (hid_abs s1)\<lparr>sp_info := rp_info ?s2, sp_usages := []\<rparr>" by (simp add: hid_abs_def)
  have "parse_input_item len s = Inr (len, s3)"
    using s1(1) s3(1) us by (simp add: parse_input_item_def Let_def flip: assms(2))
  then show ?thesis using s3 s1 us False info abs2 assms(1)
    by (intro exI[of _ s3]) (auto simp: hid_wf_def length_input_reports input_reports_def Let_def)
qed

section \<open>Refinement\<close>

lemma hid_parse_item_refines:
  assumes "hid_wf s" "item_readable buff" "spec_item buff (hid_abs s) = Some a"
    "used_units s + int (length (sp_reports a)) - int (length (reports s)) \<le> 128"
  shows "\<exists>s'. hid_parse_item buff s = Inr (int (item_len buff), s') \<and> hid_wf s' \<and> hid_abs s' = a \<and>
    used_units s' = used_units s + int (length (sp_reports a)) - int (length (reports s))"
proof -
  let ?s = "s\<lparr>rp_info := read_main_item_status (buff ! 1) (buff ! 2) (rp_info s)\<rparr>"
  have wf: "hid_wf ?s" "mem_wf (hmem ?s)" using assms(1) by (simp_all add: hid_wf_def)
  have abs: "hid_abs ?s = (hid_abs s)\<lparr>sp_info := rp_info ?s\<rparr>" by (simp add: hid_abs_def)
  have len: "length (reports s) = length (sp_reports (hid_abs s))" by (simp add: hid_abs_def)
  have fld: "sp_info (hid_abs s) = rp_info s" "sp_usages (hid_abs s) = take (data_usage_cnt s) (data_usages s)"
    by (simp_all add: hid_abs_def)
  consider (inp) "item_tag buff = TAG_INPUT" | (outp) "item_tag buff = TAG_OUTPUT"
    | (usage) "item_tag buff = TAG_USAGE" "buff ! 1 \<in> {USAGE_ID_X, USAGE_ID_Y, USAGE_ID_WHEEL}"
    | (other) "item_tag buff \<noteq> TAG_INPUT" "item_tag buff \<noteq> TAG_OUTPUT"
        "\<not> (item_tag buff = TAG_USAGE \<and> buff ! 1 \<in> {USAGE_ID_X, USAGE_ID_Y, USAGE_ID_WHEEL})"
    by blast
  then show ?thesis
  proof cases
    case inp
    then show ?thesis
      using parse_input_item_ok[OF wf(1) refl, of "int (item_len buff)"] assms(2-4) abs len fld
      by (auto simp: hid_parse_item_def spec_item_def Let_def)
  next
    case outp
    then show ?thesis
      using add_counted_report_ok[OF wf(2), of TAG_OUTPUT "int (item_len buff)"] assms abs len fld
      by (auto simp: hid_parse_item_def spec_item_def Let_def hid_wf_def)
  next
    case usage
    then have "length (take (data_usage_cnt s) (data_usages s)) < 16" and a: "a = (hid_abs s)\<lparr>sp_usages := sp_usages (hid_abs s) @ [buff ! 1]\<rparr>"
      using assms(3) fld by (auto simp: spec_item_def Let_def split: if_splits)
    then have cnt: "data_usage_cnt s < length (data_usages s)" using assms(1) by (auto simp: hid_wf_def)
    let ?s1 = "s\<lparr>data_usages := (data_usages s)[data_usage_cnt s := buff ! 1], data_usage_cnt := data_usage_cnt s + 1\<rparr>"
    have "hid_parse_item buff s = Inr (int (item_len buff), ?s1)"
      using usage cnt assms(2) by (simp add: hid_parse_item_def collect_usage_def)
    moreover have "hid_abs ?s1 = a" using cnt by (simp add: a hid_abs_def take_Suc_conv_app_nth)
    moreover have "hid_wf ?s1" using cnt assms(1) by (simp add: hid_wf_def)
    moreover have "length (sp_reports a) = length (reports s)" by (simp add: a hid_abs_def)
    ultimately show ?thesis by fastforce
  next
    case other
    show ?thesis
    proof (cases "item_tag buff = TAG_FEATURE")
      case True
      then have "hid_parse_item buff s = Inr (int (item_len buff), ?s)" "a = hid_abs ?s"
        using assms(2,3) by (auto simp: hid_parse_item_def spec_item_def Let_def hid_abs_def)
      then show ?thesis using wf(1) by (intro exI[of _ ?s]) (simp add: hid_abs_def)
    next
      case False
      let ?i = "set_item_info (item_tag buff) (buff ! 1) (hid_read_item_value (item_bSize buff) (tl buff)) (rp_info s)"
      let ?t = "s\<lparr>rp_info := ?i\<rparr>"
      let ?s1 = "if item_tag buff = TAG_REPORT_ID
        then ?t\<lparr>hdev := (hdev ?t)\<lparr>rpd := (rpd (hdev ?t))\<lparr>has_report_id := True\<rparr>\<rparr>\<rparr> else ?t"
      have "hid_parse_item buff s = Inr (int (item_len buff), ?s1)"
        using other False assms(2) by (simp only: hid_parse_item_def Let_def if_False simp_thms)
      moreover have "a = (hid_abs s)\<lparr>sp_info := ?i, sp_id := (item_tag buff = TAG_REPORT_ID \<or> sp_id (hid_abs s))\<rparr>"
        using other False assms(3) fld(1) by (simp only: spec_item_def Let_def if_False simp_thms option.inject)
      then have "hid_abs ?s1 = a" "length (sp_reports a) = length (reports s)" by (simp_all add: hid_abs_def)
      moreover have "hid_wf ?s1" "used_units ?s1 = used_units s" using assms(1) by (simp_all add: hid_wf_def)
      ultimately show ?thesis by auto
    qed
  qed
qed

lemma spec_item_mono: "spec_item buff a = Some a' \<Longrightarrow> length (sp_reports a) \<le> length (sp_reports a')"
  by (auto simp: spec_item_def Let_def split: if_splits)

lemma spec_items_mono: "spec_items buff n a = Some a' \<Longrightarrow> length (sp_reports a) \<le> length (sp_reports a')"
proof (induction buff n a rule: spec_items.induct)
  case (1 buff n a)
  show ?case
  proof (cases "n > 0")
    case True
    then obtain a1 where a1: "spec_item buff a = Some a1"
        "spec_items (drop (item_len buff) buff) (n - int (item_len buff)) a1 = Some a'"
      using "1.prems" by (subst (asm) spec_items.simps) (auto split: option.splits)
    show ?thesis using "1.IH"[OF True a1] spec_item_mono[OF a1(1)] by simp
  qed (use "1.prems" in \<open>simp add: spec_items.simps\<close>)
qed

lemma parse_items_refines:
  assumes "hid_wf s" "n + 257 \<le> int (length buff)" "spec_items buff n (hid_abs s) = Some a"
    "used_units s + int (length (sp_reports a)) - int (length (reports s)) \<le> 128"
  shows "\<exists>s'. parse_items buff n s = Inr (0, s') \<and> hid_abs s' = a"
  using assms
proof (induction buff n s rule: parse_items.induct)
  case (1 buff n s)
  show ?case
  proof (cases "n > 0")
    case True
    obtain a1 where a1: "spec_item buff (hid_abs s) = Some a1"
        "spec_items (drop (item_len buff) buff) (n - int (item_len buff)) a1 = Some a"
      using "1.prems"(3) True by (subst (asm) spec_items.simps) (auto split: option.splits)
    have "item_readable buff" using "1.prems"(2) True by (intro item_readableI) simp
    then obtain s1 where s1: "hid_parse_item buff s = Inr (int (item_len buff), s1)" "hid_wf s1" "hid_abs s1 = a1"
        "used_units s1 = used_units s + int (length (sp_reports a1)) - int (length (reports s))"
      using hid_parse_item_refines[OF "1.prems"(1) _ a1(1)] "1.prems"(4) spec_items_mono[OF a1(2)] by force
    have pos: "\<not> int (item_len buff) \<le> 0" using item_len_bounds(1)[of buff] by simp
    have "length (reports s1) = length (sp_reports a1)" using s1(3) by (auto simp: hid_abs_def)
    then have mem: "used_units s1 + int (length (sp_reports a)) - int (length (reports s1)) \<le> 128"
      using "1.prems"(4) s1(4) by simp
    have "\<exists>s'. parse_items (drop (nat (int (item_len buff))) buff) (n - int (item_len buff)) s1 = Inr (0, s') \<and> hid_abs s' = a"
      by (rule "1.IH"[OF True s1(1) refl pos s1(2) _ _ mem])
        (use "1.prems"(2) a1(2) s1(3) in \<open>auto simp: nat_int\<close>)
    then show ?thesis using True s1(1) pos by (subst parse_items.simps) auto
  qed (use "1.prems"(3) in \<open>simp add: parse_items.simps spec_items.simps\<close>)
qed

end
