(* ===== verification/Hid_Input.thy ===== *)
theory Hid_Input
  imports Hid_Parser
begin

text \<open>
  Lemmas on the decoding of input reports. The reference for a field is the little-endian number
  the report is, shifted and cut to the field's width; the key codes and lock keys have list and bit-set
  specifications.
\<close>

section \<open>Fields of a report\<close>

text \<open>The report as a number, first byte least significant.\<close>

fun report_number :: "u8 list \<Rightarrow> int" where
  "report_number [] = 0"
| "report_number (b # bs) = uint b + 2 ^ 8 * report_number bs"

text \<open>The \<open>n\<close> bits from bit \<open>k\<close> on.\<close>

definition report_field :: "u8 list \<Rightarrow> nat \<Rightarrow> nat \<Rightarrow> u32" where
  "report_field data k n = word_of_int (report_number data div 2 ^ k mod 2 ^ n)"

lemma bit_report_number:
  "k < 8 * length data \<Longrightarrow> bit (report_number data) k = bit (data ! (k div 8)) (k mod 8)"
proof (induction data arbitrary: k)
  case (Cons b bs)
  have eq: "report_number (b # bs) = concat_bit 8 (uint b) (report_number bs)"
    using unsigned_less[of b, where ?'a = int] by (simp add: concat_bit_eq push_bit_eq_mult take_bit_eq_mod)
  show ?case
  proof (cases "k < 8")
    case True
    then show ?thesis unfolding eq by (simp add: bit_concat_bit_iff bit_uint_iff)
  next
    case False
    then have "k - 8 < 8 * length bs" "k div 8 = Suc ((k - 8) div 8)" "(k - 8) mod 8 = k mod 8"
      using Cons.prems by (auto simp: le_div_geq le_mod_geq)
    then show ?thesis unfolding eq using False Cons.IH[of "k - 8"] by (simp add: bit_concat_bit_iff)
  qed
qed simp

lemma bit_report_field:
  assumes "k + n \<le> 8 * length data"
  shows "bit (report_field data k n) j \<longleftrightarrow> j < 32 \<and> j < n \<and> bit (data ! ((k + j) div 8)) ((k + j) mod 8)"
  using assms bit_report_number[of "k + j" data]
  by (auto simp: report_field_def bit_word_of_int_iff take_bit_eq_mod [symmetric] drop_bit_eq_div [symmetric]
      bit_take_bit_iff bit_drop_bit_eq)

lemma shifted_bit_ok:
  assumes "byte < length data" "i < 32"
  shows "shifted_bit data byte k i = Inr (push_bit i (of_bool (bit (data ! byte) (k mod 8))))"
  using assms by (simp add: shifted_bit_def rd_def)

lemma bit_push_of_bool: "bit (push_bit i (of_bool b) :: u32) j \<longleftrightarrow> b \<and> j = i \<and> i < 32"
  by (auto simp: bit_simps)

text \<open>A step of the loops over bits adds bit \<open>i\<close> of the field.\<close>

definition bits_from :: "u8 list \<Rightarrow> nat \<Rightarrow> nat \<Rightarrow> nat \<Rightarrow> u32 \<Rightarrow> u32 \<Rightarrow> bool" where
  "bits_from data k i n v v' \<longleftrightarrow>
     (\<forall>j<32. bit v' j \<longleftrightarrow> bit v j \<or> i \<le> j \<and> j < i + n \<and> bit (data ! ((k + j - i) div 8)) ((k + j - i) mod 8))"

lemma bits_from_step:
  assumes "bits_from data (Suc k) (Suc i) n (v OR push_bit i (of_bool (bit (data ! (k div 8)) (k mod 8)))) v'" "i < 32"
  shows "bits_from data k i (Suc n) v v'"
  unfolding bits_from_def
proof (intro allI impI)
  fix j :: nat
  assume "j < 32"
  then have step: "bit v' j \<longleftrightarrow> (bit v j \<or> bit (data ! (k div 8)) (k mod 8) \<and> j = i) \<or>
      Suc i \<le> j \<and> j < Suc i + n \<and> bit (data ! ((Suc k + j - Suc i) div 8)) ((Suc k + j - Suc i) mod 8)"
    using assms unfolding bits_from_def by (simp add: bit_or_iff bit_push_of_bool)
  show "bit v' j \<longleftrightarrow> bit v j \<or> i \<le> j \<and> j < i + Suc n \<and> bit (data ! ((k + j - i) div 8)) ((k + j - i) mod 8)"
    unfolding step by (cases "j = i") auto
qed

lemma mouse_axis_bits:
  assumes "byte_idx c = bit_idx c div 8" "bit_idx c + n \<le> 8 * length data" "i + n \<le> 32"
  shows "\<exists>v'. mouse_axis data n i c v = Inr (skip_bits n c, v') \<and> bits_from data (bit_idx c) i n v v'"
  using assms
proof (induction n arbitrary: i c v)
  case 0
  then show ?case by (auto simp: skip_bits_def bits_from_def)
next
  case (Suc n)
  let ?c = "\<lparr>byte_idx = Suc (bit_idx c) div 8, bit_idx = Suc (bit_idx c)\<rparr>"
  let ?b = "push_bit i (of_bool (bit (data ! (bit_idx c div 8)) (bit_idx c mod 8)))"
  have "shifted_bit data (byte_idx c) (bit_idx c) i = Inr ?b"
    using Suc.prems by (simp add: shifted_bit_ok less_mult_imp_div_less)
  moreover obtain v' where "mouse_axis data n (Suc i) ?c (v OR ?b) = Inr (skip_bits n ?c, v')"
      "bits_from data (bit_idx ?c) (Suc i) n (v OR ?b) v'"
    using Suc.IH[of ?c "Suc i" "v OR ?b"] Suc.prems by auto
  ultimately show ?case using bits_from_step[of data "bit_idx c" i n v v'] Suc.prems(3)
    by (auto simp: skip_bits_def)
qed

lemma mouse_axis_field:
  assumes "byte_idx c = bit_idx c div 8" "bit_idx c + n \<le> 8 * length data" "n \<le> 32"
  shows "mouse_axis data n 0 c 0 = Inr (skip_bits n c, report_field data (bit_idx c) n)"
proof -
  obtain v' where v': "mouse_axis data n 0 c 0 = Inr (skip_bits n c, v')" "bits_from data (bit_idx c) 0 n 0 v'"
    using mouse_axis_bits[of c n data 0 0] assms by auto
  have "v' = report_field data (bit_idx c) n"
    by (rule bit_word_eqI) (use v'(2) in \<open>simp add: bits_from_def bit_report_field[OF assms(2)]\<close>)
  then show ?thesis using v'(1) by simp
qed

text \<open>Buttons of one bit each are read by the same loop.\<close>

lemma mouse_buttons_axis: "mouse_buttons data 1 n i c v = mouse_axis data n i c v"
  by (induction n arbitrary: i c v) simp_all

section \<open>Key codes\<close>

definition lock_mask :: "u8 \<Rightarrow> u8" where
  "lock_mask k = (if k = 0x53 then 0x01 else if k = 0x39 then 0x02 else if k = 0x47 then 0x04 else 0)"

text \<open>A code that is neither empty, nor an error, nor a lock key.\<close>

definition plain_key :: "u8 \<Rightarrow> bool" where
  "plain_key k \<longleftrightarrow> k \<notin> {0, 1, 0x53, 0x39, 0x47}"

definition pressed_locks :: "u8 list \<Rightarrow> u8" where
  "pressed_locks ks = foldr (\<lambda>k m. lock_mask k OR m) ks 0"

lemma scan_keycodes_spec:
  assumes "key_cnt e \<le> i" "i \<le> length (keycode e)"
    "scan_keycodes [i..<length (keycode e)] (locks, e) = (locks', e')"
  shows "take (key_cnt e') (keycode e') = take (key_cnt e) (keycode e) @ filter plain_key (drop i (keycode e)) \<and>
    key_cnt e' = key_cnt e + length (filter plain_key (drop i (keycode e))) \<and>
    locks' = locks OR pressed_locks (drop i (keycode e)) \<and>
    modifier e' = modifier e \<and> ke_lock_state e' = ke_lock_state e"
  using assms
proof (induction "length (keycode e) - i" arbitrary: i e locks)
  case 0
  then show ?case by (simp add: pressed_locks_def)
next
  case (Suc n)
  let ?k = "keycode e ! i"
  have i: "i < length (keycode e)" using Suc.hyps(2) by simp
  then have upt: "[i..<length (keycode e)] = i # [Suc i..<length (keycode e)]" by (simp add: upt_conv_Cons)
  have drop: "drop i (keycode e) = ?k # drop (Suc i) (keycode e)" using i by (simp add: Cons_nth_drop_Suc)
  show ?case
  proof (cases "plain_key ?k")
    case True
    let ?e = "e\<lparr>keycode := (keycode e)[key_cnt e := ?k], key_cnt := key_cnt e + 1\<rparr>"
    have run: "scan_keycodes [Suc i..<length (keycode ?e)] (locks, ?e) = (locks', e')"
      using Suc.prems(3) True unfolding upt by (simp add: plain_key_def Let_def)
    have "lock_mask ?k = 0" using True by (simp add: plain_key_def lock_mask_def)
    moreover have "take (Suc (key_cnt e)) ((keycode e)[key_cnt e := ?k]) = take (key_cnt e) (keycode e) @ [?k]"
      using Suc.prems(1) i by (simp add: take_Suc_conv_app_nth)
    moreover have "drop (Suc i) ((keycode e)[key_cnt e := ?k]) = drop (Suc i) (keycode e)"
      using Suc.prems(1) by simp
    moreover have n: "n = length (keycode ?e) - Suc i" using Suc.hyps(2) by simp
    ultimately show ?thesis
      using Suc.hyps(1)[OF n _ _ run] Suc.prems(1) i True by (auto simp: drop pressed_locks_def)
  next
    case False
    then have "scan_keycodes [Suc i..<length (keycode e)] (locks OR lock_mask ?k, e) = (locks', e')"
      using Suc.prems(3) unfolding upt by (auto simp: plain_key_def Let_def lock_mask_def split: if_splits)
    moreover have n: "n = length (keycode e) - Suc i" using Suc.hyps(2) by simp
    ultimately show ?thesis
      using Suc.hyps(1)[OF n, of "locks OR lock_mask ?k"] Suc.prems(1) i False
      by (auto simp: drop pressed_locks_def or.assoc)
  qed
qed

text \<open>The lock keys that are pressed now and were not before.\<close>

definition new_locks :: "u8 \<Rightarrow> u8 \<Rightarrow> u8" where
  "new_locks pressed lastp = pressed AND NOT lastp AND mask 3"

lemma bit_new_locks: "bit (new_locks pressed lastp) n \<longleftrightarrow> n < 3 \<and> bit pressed n \<and> \<not> bit lastp n"
proof -
  have "bit pressed n \<Longrightarrow> n < 8" using bit_imp_le_length[of pressed n] by simp
  then show ?thesis by (auto simp: new_locks_def bit_and_iff bit_not_iff_eq bit_mask_iff)
qed

lemma new_locks_0_iff: "new_locks pressed lastp = 0 \<longleftrightarrow> (\<forall>n<3. bit pressed n \<longrightarrow> bit lastp n)"
  by (auto simp: bit_eq_iff bit_new_locks)

lemma bit_exp_u8: "bit (2 ^ i :: u8) n \<longleftrightarrow> n = i \<and> i < 8"
  by (auto simp: bit_exp_iff)

lemma bit_toggled:
  assumes "distinct is"
  shows "bit (foldl (\<lambda>x i. if bit pressed i \<and> \<not> bit lastp i then x XOR push_bit i 1 else x) (st :: u8) is) n \<longleftrightarrow>
    bit st n \<noteq> (n \<in> set is \<and> bit pressed n \<and> \<not> bit lastp n \<and> n < 8)"
  using assms
proof (induction "is" arbitrary: st)
  case (Cons i "is")
  show ?case
  proof (cases "bit pressed i \<and> \<not> bit lastp i")
    case True
    then show ?thesis using Cons.IH[of "st XOR push_bit i 1"] Cons.prems by (auto simp: bit_xor_iff bit_exp_u8)
  next
    case False
    then show ?thesis using Cons.IH[of st] Cons.prems by auto
  qed
qed simp

lemma toggle_locks_fold:
  "toggle_locks is pressed lastp (st, upd) =
     (foldl (\<lambda>x i. if bit pressed i \<and> \<not> bit lastp i then x XOR push_bit i 1 else x) st is,
      upd \<or> (\<exists>i \<in> set is. bit pressed i \<and> \<not> bit lastp i))"
  by (induction "is" pressed lastp "(st, upd)" arbitrary: st upd rule: toggle_locks.induct) auto

lemma toggle_locks_xor:
  "toggle_locks [0..<3] pressed lastp (st, False) = (st XOR new_locks pressed lastp, new_locks pressed lastp \<noteq> 0)"
proof -
  have "foldl (\<lambda>x i. if bit pressed i \<and> \<not> bit lastp i then x XOR push_bit i 1 else x) st [0..<3] =
      st XOR new_locks pressed lastp"
    by (rule bit_word_eqI) (simp only: bit_toggled distinct_upt, auto simp: bit_xor_iff bit_new_locks)
  moreover have "(\<exists>i \<in> set [0..<3]. bit pressed i \<and> \<not> bit lastp i) \<longleftrightarrow> new_locks pressed lastp \<noteq> 0"
    by (auto simp: new_locks_0_iff)
  ultimately show ?thesis by (simp only: toggle_locks_fold) simp
qed

text \<open>What is delivered: the plain key codes in order, and the lock state with newly pressed lock keys toggled.\<close>

lemma kbd_deliver_spec:
  assumes "length (keycode e) = 6" "key_cnt e = 0"
  shows "\<exists>e'. ko_event (kbd_deliver d e) = Some e' \<and>
    take (key_cnt e') (keycode e') = filter plain_key (keycode e) \<and> key_cnt e' = length (filter plain_key (keycode e)) \<and>
    modifier e' = modifier e \<and>
    (let pressed = pressed_locks (keycode e);
         new = new_locks pressed (last_pressed_lock_keys d);
         st = ke_lock_state e XOR new
     in ke_lock_state e' = st \<and> ko_rpd (kbd_deliver d e) = d\<lparr>last_pressed_lock_keys := pressed, lock_state := st\<rparr> \<and>
        ko_leds (kbd_deliver d e) = (if new = 0 then None else Some st) \<and> ko_ret (kbd_deliver d e) = 0)"
proof -
  obtain locks e1 where scan: "scan_keycodes [0..<6] (0, e) = (locks, e1)" by (cases "scan_keycodes [0..<6] (0, e)")
  have "take (key_cnt e1) (keycode e1) = filter plain_key (keycode e)"
      "key_cnt e1 = length (filter plain_key (keycode e))" "locks = pressed_locks (keycode e)"
      "modifier e1 = modifier e" "ke_lock_state e1 = ke_lock_state e"
    using scan_keycodes_spec[of e 0 0 locks e1] scan assms by auto
  then show ?thesis by (simp add: kbd_deliver_def scan toggle_locks_xor Let_def)
qed

section \<open>The modifier byte\<close>

lemma kbd_bits_modifier:
  assumes "0 < length data" "i + n \<le> 8" "modifier e = ucast v" "\<And>j. bit v j \<longleftrightarrow> j < i \<and> bit (data ! 0) j"
  shows "\<exists>e'. kbd_bits data 0 n i v i e = Inr (i + n, e') \<and> keycode e' = keycode e \<and> key_cnt e' = key_cnt e \<and>
    ke_lock_state e' = ke_lock_state e \<and> (\<forall>j. bit (modifier e') j \<longleftrightarrow> j < i + n \<and> bit (data ! 0) j)"
  using assms
proof (induction n arbitrary: i v e)
  case 0
  have "bit (modifier e) j \<longleftrightarrow> j < i \<and> bit (data ! 0) j" for j
    unfolding 0(3) bit_ucast_iff 0(4) using bit_imp_le_length[of "data ! 0" j] by auto
  then show ?case by simp
next
  case (Suc n)
  let ?v = "v OR push_bit i (of_bool (bit (data ! 0) (i mod 8)))"
  let ?e = "e\<lparr>modifier := modifier e OR ucast ?v\<rparr>"
  have i: "i < 8" using Suc.prems(2) by simp
  have "shifted_bit data 0 i i = Inr (push_bit i (of_bool (bit (data ! 0) (i mod 8))))"
    using Suc.prems(1) i by (simp add: shifted_bit_ok)
  then have step: "kbd_bits data 0 (Suc n) i v i e = kbd_bits data 0 n (Suc i) ?v (Suc i) ?e"
    using i by (simp add: Let_def)
  have v: "bit ?v j \<longleftrightarrow> j < Suc i \<and> bit (data ! 0) j" for j
    using Suc.prems(4)[of j] i by (auto simp: bit_or_iff bit_push_of_bool less_Suc_eq)
  have m: "modifier ?e = ucast ?v"
    using Suc.prems(3) by (simp add: unsigned_or_eq or.assoc[symmetric])
  have "Suc i + n \<le> 8" using Suc.prems(2) by simp
  from Suc.IH[OF Suc.prems(1) this m v] show ?case unfolding step by auto
qed

end
