(* ===== verification/Hid_Props.thy ===== *)
theory Hid_Props
  imports Hid_Spec Hid_Input
begin

text \<open>
  The properties of the HID parser: refinement of the abstract parser, memory accounting, the two
  ways a hostile descriptor breaks it, and the decoding of input reports of a boot mouse and a boot keyboard.
\<close>

section \<open>Vocabulary\<close>

definition hid_start :: "usb_mem \<Rightarrow> hid_state" where
  "hid_start m = \<lparr>rp_info = RP_INFO_zero, data_usages = replicate 16 0, data_usage_cnt = 0,
     hdev = \<lparr>bSubClassCode = 1, bProtocolCode = 2,
       rpd = \<lparr>has_report_id = False, last_pressed_lock_keys = 0, lock_state = 0, report = []\<rparr>\<rparr>, hmem = m\<rparr>"

lemma hid_start_simps [simp]:
  "hmem (hid_start m) = m" "hid_abs (hid_start m) = spec_empty" "reports (hid_start m) = []"
  "data_usages (hid_start m) = replicate 16 0" "data_usage_cnt (hid_start m) = 0" "rp_info (hid_start m) = RP_INFO_zero"
  by (simp_all add: hid_start_def hid_abs_def spec_empty_def)

lemma hid_start_wf: "mem_wf m \<Longrightarrow> hid_wf (hid_start m)"
  by (simp add: hid_wf_def)

text \<open>The report descriptor of a boot mouse, as printed in the HID specification.\<close>

definition boot_mouse_descriptor :: "u8 list" where
  "boot_mouse_descriptor = [0x05, 0x01, 0x09, 0x02, 0xA1, 0x01, 0x09, 0x01, 0xA1, 0x00, 0x05, 0x09, 0x19, 0x01,
     0x29, 0x03, 0x15, 0x00, 0x25, 0x01, 0x95, 0x03, 0x75, 0x01, 0x81, 0x02, 0x95, 0x01, 0x75, 0x05, 0x81, 0x01,
     0x05, 0x01, 0x09, 0x30, 0x09, 0x31, 0x15, 0x81, 0x25, 0x7F, 0x75, 0x08, 0x95, 0x02, 0x81, 0x06, 0xC0, 0xC0]"

text \<open>A boot keyboard: eight modifier bits, a reserved byte, LEDs, six key codes.\<close>

definition boot_keyboard_descriptor :: "u8 list" where
  "boot_keyboard_descriptor = [0x05, 0x01, 0x09, 0x06, 0xA1, 0x01, 0x05, 0x07, 0x19, 0xE0, 0x29, 0xE7, 0x15, 0x00,
     0x25, 0x01, 0x75, 0x01, 0x95, 0x08, 0x81, 0x02, 0x95, 0x01, 0x75, 0x08, 0x81, 0x01, 0x95, 0x05, 0x75, 0x01,
     0x05, 0x08, 0x19, 0x01, 0x29, 0x05, 0x91, 0x02, 0x95, 0x01, 0x75, 0x03, 0x91, 0x01, 0x95, 0x06, 0x75, 0x08,
     0x15, 0x00, 0x25, 0x65, 0x05, 0x07, 0x19, 0x00, 0x29, 0x65, 0x81, 0x00, 0xC0]"

definition spec_reports :: "u8 list \<Rightarrow> RP_INFO_T list" where
  "spec_reports d = (case spec_items (d @ replicate 257 0) (int (length d)) spec_empty of
     None \<Rightarrow> [] | Some a \<Rightarrow> sp_reports a)"

text \<open>The fields of a report the decoders use.\<close>

definition layout :: "RP_INFO_T \<Rightarrow> u8 list \<times> bool list \<times> int list" where
  "layout r = ([rp_type r, usage_page r, app_usage r, data_usage r, report_id r, report_size r, report_count r],
     [st_variable (status r), st_relative (status r)], [logical_min r, logical_max r])"

lemma mouse_layout:
  "map layout (spec_reports boot_mouse_descriptor) =
     [([0x80, 9, 1, 0, 0, 1, 3], [True, False], [0, 1]), ([0x80, 9, 1, 0, 0, 5, 1], [False, False], [0, 1]),
      ([0x80, 1, 1, 0x30, 0, 8, 1], [True, True], [-127, 127]), ([0x80, 1, 1, 0x31, 0, 8, 1], [True, True], [-127, 127])]"
  by code_simp

lemma keyboard_layout:
  "map layout (spec_reports boot_keyboard_descriptor) =
     [([0x80, 7, 6, 0, 0, 1, 8], [True, False], [0, 1]), ([0x80, 7, 6, 0, 0, 8, 1], [False, False], [0, 1]),
      ([0x90, 8, 6, 0, 0, 1, 5], [True, False], [0, 1]), ([0x90, 8, 6, 0, 0, 3, 1], [False, False], [0, 1]),
      ([0x80, 7, 6, 0, 0, 8, 6], [False, False], [0, 101])]"
  by code_simp

section \<open>Parsing report descriptors\<close>


lemma boot_mouse_spec: "\<exists>a. spec_items (boot_mouse_descriptor @ replicate 257 0) 50 spec_empty = Some a \<and>
    length (sp_reports a) = 4"
proof -
  have "length (spec_reports boot_mouse_descriptor) = 4" using arg_cong[OF mouse_layout, of length] by simp
  moreover have "int (length boot_mouse_descriptor) = 50" by (simp add: boot_mouse_descriptor_def)
  ultimately show ?thesis by (auto simp: spec_reports_def split: option.splits)
qed


text \<open>
  C23. Memory accounting of \<open>hid_parse_report_descriptor\<close> from the fetch of the descriptor on:
  however the parsing ends, the only memory it keeps is one unit per report added to the device; each of these is a
  block of its own that was free before, so the temporary buffer is given back on every path.
\<close>

theorem hid_fetch_keeps_reports_only:
  assumes "hid_wf s" "fetch_and_parse xfer w s = Inr (ret, s')"
  shows "\<exists>new. mem_wf (hmem s') \<and> reports s' = reports s @ new \<and> distinct (map fst new) \<and>
    fst ` set new \<inter> dma_live (hmem s) = {} \<and>
    dma_mem_used_cnt (hmem s') = dma_mem_used_cnt (hmem s) + int (length new)"
  by (rule fetch_and_parse_accounting[OF assms])

theorem hid_fetch_keeps_reports_only_witness:
  "\<exists>s' new. fetch_and_parse (Some (\<lambda>n. (-1, []))) 50 (hid_start boot_mem) = Inr (-1082, s') \<and>
     reports s' = new \<and> dma_mem_used_cnt (hmem s') = int (length new)"
proof -
  have "usbh_alloc_mem 58 boot_mem = Inr (dma_block boot_mem 0, dma_taken 0 1 boot_mem)"
    by (simp add: usbh_alloc_mem_def units_for_def c_div_def dma_scan.simps dma_taken_def)
  moreover have "dma_block boot_mem 0 \<noteq> 0" by (simp add: dma_block_def)
  ultimately obtain s' where s': "fetch_and_parse (Some (\<lambda>n. (-1, []))) 50 (hid_start boot_mem) = Inr (-1082, s')"
    by (auto simp: fetch_and_parse_def usbh_hid_get_report_descriptor_def Let_def)
  from hid_fetch_keeps_reports_only[OF hid_start_wf[OF boot_mem_wf] s'] show ?thesis using s' by auto
qed

text \<open>
  C24. Memory safety of the item loop: with 257 readable bytes after the descriptor (a long item has up to
  258 bytes), no item is read outside the buffer and the allocator never faults; the only fault left is the one
  of the next property.
\<close>

theorem hid_items_stay_in_buffer:
  assumes "hid_wf s" "n + 257 \<le> int (length buff)"
  shows "case parse_items buff n s of Inl e \<Rightarrow> e = Usages_overflow | Inr (ret, s') \<Rightarrow> hid_wf s' \<and> ret \<in> {0, HID_RET_PARSING}"
  using parse_items_fault[OF assms(1) _ assms(2)] parse_items_grown[OF assms(1), of buff n]
  by (auto split: sum.splits)

theorem hid_items_stay_in_buffer_witness:
  "case parse_items (boot_mouse_descriptor @ replicate 257 0) 50 (hid_start boot_mem) of
     Inl e \<Rightarrow> e = Usages_overflow | Inr (ret, s') \<Rightarrow> hid_wf s' \<and> ret \<in> {0, HID_RET_PARSING}"
  by (rule hid_items_stay_in_buffer[OF hid_start_wf[OF boot_mem_wf]]) (simp add: boot_mouse_descriptor_def)

text \<open>
  A descriptor can overflow \<open>_data_usages\<close>: \<open>m\<close> consecutive \<open>Usage(X)\<close> items write past the end
  of the array as soon as \<open>m\<close> exceeds the number of free entries.
\<close>

lemma usage_item:
  "item_tag (0x09 # 0x30 # xs) = TAG_USAGE" "item_len (0x09 # 0x30 # xs) = 2" "item_readable (0x09 # 0x30 # xs)"
  by (simp_all add: item_tag_def item_len_def item_bSize_def item_bTag_def item_readable_def item_reads_def Let_def)

lemma hid_usages_overflow:
  assumes "hid_wf s" "16 < data_usage_cnt s + m"
  shows "parse_items (concat (replicate m [0x09, 0x30]) @ rest) (2 * int m) s = Inl Usages_overflow"
  using assms
proof (induction m arbitrary: s)
  case 0
  then show ?case by (simp add: hid_wf_def)
next
  case (Suc m)
  let ?buff = "concat (replicate (Suc m) [0x09, 0x30]) @ rest"
  have item: "hid_parse_item ?buff s = collect_usage 0x30 2 s"
    using usage_item[of "concat (replicate m [0x09, 0x30]) @ rest"] by (simp add: hid_parse_item_def)
  show ?case
  proof (cases "data_usage_cnt s < 16")
    case True
    let ?s1 = "s\<lparr>data_usages := (data_usages s)[data_usage_cnt s := 0x30], data_usage_cnt := data_usage_cnt s + 1\<rparr>"
    have "hid_parse_item ?buff s = Inr (2, ?s1)"
      using item True Suc.prems(1) by (simp add: collect_usage_def hid_wf_def)
    moreover have "hid_wf ?s1" using Suc.prems(1) True by (simp add: hid_wf_def)
    ultimately show ?thesis using Suc.IH[of ?s1] Suc.prems(2) by (subst parse_items.simps) (simp add: algebra_simps)
  next
    case False
    then have "hid_parse_item ?buff s = Inl Usages_overflow"
      using item Suc.prems(1) by (simp add: collect_usage_def hid_wf_def)
    then show ?thesis by (subst parse_items.simps) simp
  qed
qed

text \<open>
  An \<open>Input\<close> item with more pending usages than fields: after one report of count 1 per usage, the
  remaining count is negative, wraps in \<open>uint8_t\<close>, and a further report of \<open>256 - (usages - fields)\<close>
  fields that the device does not send is added.
\<close>

lemma hid_input_count_wraps:
  assumes "hid_wf s" "us = take (data_usage_cnt s) (data_usages s)" "unat (report_count (rp_info s)) < length us"
    "used_units s + int (length us) + 1 \<le> 128"
  shows "\<exists>s'. parse_input_item len s = Inr (len, s') \<and>
    length (reports s') = length (reports s) + length us + 1 \<and>
    unat (report_count (snd (last (reports s')))) = 256 - (length us - unat (report_count (rp_info s)))"
proof -
  let ?rc = "report_count (rp_info s)" and ?n = "length us"
  have n: "?n \<le> 16" using assms(1,2) by (simp add: hid_wf_def)
  have "unat (of_nat ?n :: u8) = ?n" using n by (simp add: unat_of_nat)
  moreover have "unat (?rc - of_nat ?n) = (if of_nat ?n \<le> ?rc then unat ?rc - unat (of_nat ?n :: u8)
      else unat ?rc + 2 ^ 8 - unat (of_nat ?n :: u8))"
    using unat_sub_if_size[of ?rc "of_nat ?n"] by (simp add: word_size word_le_nat_alt)
  ultimately have rest: "unat (?rc - of_nat ?n) = 256 - (?n - unat ?rc)"
    using assms(3) n by (simp add: word_le_nat_alt)
  then have ne: "?rc - of_nat ?n \<noteq> 0" using n by auto
  then have ir: "input_reports (rp_info s) us =
      map (\<lambda>u. (rp_info s)\<lparr>report_count := 1, data_usage := u, rp_type := TAG_INPUT\<rparr>) us @
      [(rp_info s)\<lparr>report_count := ?rc - of_nat ?n, data_usage := 0, rp_type := TAG_INPUT\<rparr>]"
    using assms(3) by (auto simp: input_reports_def Let_def)
  then have "used_units s + int (length (input_reports (rp_info s) us)) \<le> 128" using assms(4) by simp
  from parse_input_item_ok[OF assms(1,2) this, of len] obtain s' where s': "parse_input_item len s = Inr (len, s')"
      "sp_reports (hid_abs s') = sp_reports (hid_abs s) @ input_reports (rp_info s) us"
    by auto
  have m: "map snd (reports s') = map snd (reports s) @ input_reports (rp_info s) us" using s'(2) by (simp add: hid_abs_def)
  then have "reports s' \<noteq> []" using ir by auto
  then have "snd (last (reports s')) = last (map snd (reports s'))" by (simp add: last_map)
  also have "\<dots> = last (input_reports (rp_info s) us)" unfolding m using ir by simp
  finally have "snd (last (reports s')) = last (input_reports (rp_info s) us)" .
  moreover have "length (reports s') = length (reports s) + length (input_reports (rp_info s) us)"
    using arg_cong[OF m, of length] by simp
  ultimately show ?thesis using s'(1) ir rest by simp
qed

section \<open>Finding the descriptors\<close>

text \<open>
  The search for the interface: in a configuration laid out as descriptors that start with their
  length, with interface descriptors of at least nine bytes, the loop finds the first descriptor that is a HID
  interface with the wanted number, and stays inside the buffer.
\<close>

lemma find_interface_finds_first:
  assumes "well_formed_config (ds @ [d])" "\<forall>x \<in> set ds. \<not> hid_interface n x" "hid_interface n d"
    "int (length (concat ds) + length d) \<le> sz" "off = length pre"
  shows "find_interface (pre @ concat ds @ d @ post) n off sz =
    Inr (Found (off + length (concat ds)) (sz - int (length (concat ds))))"
  by (rule find_interface_first[OF assms])

text \<open>
  A descriptor that claims to be longer than what remains of the configuration is not rejected:
  \<open>size\<close> becomes negative, compares as a large unsigned number with \<open>sizeof(DESC_IF_T)\<close>, and the
  search reads past the end of the buffer instead of returning \<open>HID_RET_PARSING\<close>.
\<close>

lemma find_interface_runs_off:
  assumes "9 \<le> sz" "probe buf off [(1, 0x04), (2, n), (5, 0x03)] = Some False"
    "sz < int (unat (buf ! off))" "length buf \<le> off + unat (buf ! off) + 1"
  shows "find_interface buf n off sz = Inl Out_of_bounds"
proof -
  let ?l = "unat (buf ! off)"
  have "buf ! off \<noteq> 0" using assms(1,3) by auto
  then have "find_interface buf n off sz = find_interface buf n (off + ?l) (sz - int ?l)"
    using assms(1,2) by (subst find_interface.simps) (simp add: ge_sizeof_def del: probe.simps)
  also have "\<dots> = Inl Out_of_bounds" using assms(3,4) by (subst find_interface.simps) (simp add: ge_sizeof_def)
  finally show ?thesis .
qed

section \<open>Decoding input reports\<close>

text \<open>
  C25. Extraction of an axis: for a field inside the report, of at most 32 bits, the loop over single bits
  yields the field of the little-endian number that the report is, and advances the cursor by the field's width.
\<close>

theorem mouse_axis_is_field:
  assumes "byte_idx c = bit_idx c div 8" "bit_idx c + n \<le> 8 * length data" "n \<le> 32"
  shows "mouse_axis data n 0 c 0 = Inr (skip_bits n c, report_field data (bit_idx c) n)"
  by (rule mouse_axis_field[OF assms])

theorem mouse_axis_is_field_witness:
  "mouse_axis [0x12, 0x34] 12 0 \<lparr>byte_idx = 0, bit_idx = 4\<rparr> 0 =
     Inr (skip_bits 12 \<lparr>byte_idx = 0, bit_idx = 4\<rparr>, report_field [0x12, 0x34] 4 12)"
  using mouse_axis_is_field[of "\<lparr>byte_idx = 0, bit_idx = 4\<rparr>" 12 "[0x12, 0x34]"] by simp

lemma field_byte:
  assumes "i < length data"
  shows "report_field data (8 * i) 8 = ucast (data ! i)"
proof (rule bit_word_eqI)
  fix j :: nat
  have "j < 8 \<Longrightarrow> (8 * i + j) div 8 = i" "j < 8 \<Longrightarrow> (8 * i + j) mod 8 = j" by simp_all
  then show "bit (report_field data (8 * i) 8) j \<longleftrightarrow> bit (ucast (data ! i) :: u32) j"
    using assms bit_imp_le_length[of "data ! i" j] by (auto simp: bit_report_field bit_ucast_iff)
qed

lemma field_low_bits:
  assumes "data \<noteq> []" "n \<le> 8"
  shows "report_field data 0 n = ucast (data ! 0 AND mask n)"
proof (rule bit_word_eqI)
  fix j :: nat
  have "n \<le> 8 * length data" using assms by (cases data) auto
  then show "bit (report_field data 0 n) j \<longleftrightarrow> bit (ucast (data ! 0 AND mask n) :: u32) j"
    using assms(2) by (auto simp: bit_report_field bit_ucast_iff bit_and_iff bit_mask_iff)
qed

lemma axis_value_8: "axis_value 8 (ucast x) = sint (x :: u8)"
proof -
  have "ucast (ucast x :: u32) = x" by (rule bit_word_eqI) (auto simp: bit_ucast_iff)
  then show ?thesis by (simp add: axis_value_def)
qed

lemma boot_mouse_reportsE:
  assumes "map layout rs = map layout (spec_reports boot_mouse_descriptor)"
  obtains r1 r2 r3 r4 where "rs = [r1, r2, r3, r4]"
    "rp_type r1 = 0x80" "usage_page r1 = 9" "app_usage r1 = 1" "report_size r1 = 1" "report_count r1 = 3" "st_variable (status r1)"
    "rp_type r2 = 0x80" "usage_page r2 = 9" "app_usage r2 = 1" "report_size r2 = 5" "report_count r2 = 1" "\<not> st_variable (status r2)"
    "rp_type r3 = 0x80" "usage_page r3 = 1" "app_usage r3 = 1" "data_usage r3 = 0x30" "report_size r3 = 8"
    "st_relative (status r3)" "logical_min r3 = -127" "logical_max r3 = 127"
    "rp_type r4 = 0x80" "usage_page r4 = 1" "app_usage r4 = 1" "data_usage r4 = 0x31" "report_size r4 = 8"
proof -
  obtain r1 r2 r3 r4 where "rs = [r1, r2, r3, r4]"
      "layout r1 = ([0x80, 9, 1, 0, 0, 1, 3], [True, False], [0, 1])"
      "layout r2 = ([0x80, 9, 1, 0, 0, 5, 1], [False, False], [0, 1])"
      "layout r3 = ([0x80, 1, 1, 0x30, 0, 8, 1], [True, True], [-127, 127])"
      "layout r4 = ([0x80, 1, 1, 0x31, 0, 8, 1], [True, True], [-127, 127])"
    using assms unfolding mouse_layout by (auto simp: map_eq_Cons_conv)
  then show ?thesis by (intro that[of r1 r2 r3 r4]) (simp_all add: layout_def)
qed

lemma boot_keyboard_reportsE:
  assumes "map layout rs = map layout (spec_reports boot_keyboard_descriptor)"
  obtains r1 r2 r3 r4 r5 where "rs = [r1, r2, r3, r4, r5]"
    "rp_type r1 = 0x80" "usage_page r1 = 7" "app_usage r1 = 6" "report_size r1 = 1" "report_count r1 = 8"
    "rp_type r2 = 0x80" "usage_page r2 = 7" "app_usage r2 = 6" "report_size r2 = 8" "report_count r2 = 1"
    "rp_type r3 = 0x90" "rp_type r4 = 0x90"
    "rp_type r5 = 0x80" "usage_page r5 = 7" "app_usage r5 = 6" "report_size r5 = 8" "report_count r5 = 6"
proof -
  obtain r1 r2 r3 r4 r5 where "rs = [r1, r2, r3, r4, r5]"
      "layout r1 = ([0x80, 7, 6, 0, 0, 1, 8], [True, False], [0, 1])"
      "layout r2 = ([0x80, 7, 6, 0, 0, 8, 1], [False, False], [0, 1])"
      "layout r3 = ([0x90, 8, 6, 0, 0, 1, 5], [True, False], [0, 1])"
      "layout r4 = ([0x90, 8, 6, 0, 0, 3, 1], [False, False], [0, 1])"
      "layout r5 = ([0x80, 7, 6, 0, 0, 8, 6], [False, False], [0, 101])"
    using assms unfolding keyboard_layout by (auto simp: map_eq_Cons_conv)
  then show ?thesis by (intro that[of r1 r2 r3 r4 r5]) (simp_all add: layout_def)
qed

text \<open>
  A boot mouse: with the reports of the boot mouse descriptor of the HID specification, a three-byte
  input report is delivered as its three buttons and its two signed displacements.
\<close>

lemma boot_mouse_event:
  assumes "map snd (report d) = spec_reports boot_mouse_descriptor" "\<not> has_report_id d"
  shows "\<exists>e. hid_parse_mouse_reports True d [b, x, y] 3 = Inr (Some e) \<and> button_cnt e = 3 \<and>
    button_map e = ucast (b AND 7) \<and> mouse_X e = sint x \<and> mouse_Y e = sint y \<and> axis_relative e \<and>
    axis_min e = - 127 \<and> axis_max e = 127 \<and> wheel e = 0"
proof -
  obtain r1 r2 r3 r4 where rs: "map snd (report d) = [r1, r2, r3, r4]"
    and r1: "rp_type r1 = 0x80" "usage_page r1 = 9" "app_usage r1 = 1" "report_size r1 = 1" "report_count r1 = 3" "st_variable (status r1)"
    and r2: "rp_type r2 = 0x80" "usage_page r2 = 9" "app_usage r2 = 1" "report_size r2 = 5" "report_count r2 = 1" "\<not> st_variable (status r2)"
    and r3: "rp_type r3 = 0x80" "usage_page r3 = 1" "app_usage r3 = 1" "data_usage r3 = 0x30" "report_size r3 = 8"
      "st_relative (status r3)" "logical_min r3 = -127" "logical_max r3 = 127"
    and r4: "rp_type r4 = 0x80" "usage_page r4 = 1" "app_usage r4 = 1" "data_usage r4 = 0x31" "report_size r4 = 8"
    using assms(1) by (elim boot_mouse_reportsE[OF arg_cong[where f = "map layout"]])
  let ?data = "[b, x, y]"
  let ?c = "\<lambda>k. \<lparr>byte_idx = k div 8, bit_idx = k\<rparr> :: cursor"
  have f: "mouse_axis ?data 3 0 (?c 0) 0 = Inr (?c 3, ucast (b AND mask 3))"
      "mouse_axis ?data 8 0 (?c 8) 0 = Inr (?c 16, ucast x)" "mouse_axis ?data 8 0 (?c 16) 0 = Inr (?c 24, ucast y)"
    using mouse_axis_field[of "?c 0" 3 ?data] mouse_axis_field[of "?c 8" 8 ?data] mouse_axis_field[of "?c 16" 8 ?data]
      field_low_bits[of ?data 3] field_byte[of 1 ?data] field_byte[of 2 ?data]
    by (simp_all add: skip_bits_def)
  have buttons: "mouse_buttons ?data 1 3 0 (?c 0) 0 = Inr (?c 3, ucast (b AND mask 3))"
    unfolding mouse_buttons_axis by (rule f(1))
  let ?e1 = "mouse_event_zero\<lparr>button_cnt := 3, button_map := ucast (b AND mask 3)\<rparr>"
  let ?e3 = "set_axis r3 (sint x) ?e1"
  have "mouse_report ?data r1 (?c 0) False mouse_event_zero = Inr (?c 3, True, ?e1)"
    using buttons r1 by (simp add: mouse_report_def mouse_event_zero_def)
  moreover have "mouse_report ?data r2 (?c 3) True ?e1 = Inr (?c 8, True, ?e1)"
    using r2 by (simp add: mouse_report_def skip_bits_def)
  moreover have "mouse_report ?data r3 (?c 8) True ?e1 = Inr (?c 16, True, ?e3)"
    using f(2) r3 by (simp add: mouse_report_def axis_value_8)
  moreover have "mouse_report ?data r4 (?c 16) True ?e3 = Inr (?c 24, True, set_axis r4 (sint y) ?e3)"
    using f(3) r4 by (simp add: mouse_report_def axis_value_8)
  ultimately have "hid_parse_mouse_reports True d ?data 3 = Inr (Some (set_axis r4 (sint y) ?e3))"
    using assms(2) rs r1(1) r2(1) r3(1) r4(1) by (simp add: hid_parse_mouse_reports_def report_cursor_def)
  moreover have "b AND mask 3 = b AND 7" by (simp add: mask_eq_exp_minus_1)
  ultimately show ?thesis using r3 r4 by (auto simp: set_axis_def mouse_event_zero_def)
qed

definition boot_mouse :: RPD_T where
  "boot_mouse = \<lparr>has_report_id = False, last_pressed_lock_keys = 0, lock_state = 0,
     report = map (Pair 0) (spec_reports boot_mouse_descriptor)\<rparr>"

text \<open>
  C26. A boot keyboard: with the reports of the boot keyboard descriptor, an eight-byte input report is
  delivered with its first byte as modifier, the codes of its last six bytes that are neither empty nor lock keys in their
  order, and with the lock state toggled for exactly the lock keys that were not pressed in the report before; the LEDs are set
  exactly when the lock state changes.
\<close>

theorem boot_keyboard_event:
  assumes "map snd (report d) = spec_reports boot_keyboard_descriptor" "\<not> has_report_id d" "length data = 8"
  shows "\<exists>ko e. hid_parse_keyboard_reports True d data 8 = Inr ko \<and> ko_event ko = Some e \<and> modifier e = data ! 0 \<and>
    take (key_cnt e) (keycode e) = filter plain_key (drop 2 data) \<and>
    (let pressed = pressed_locks (drop 2 data);
         new = new_locks pressed (last_pressed_lock_keys d);
         st = lock_state d XOR new
     in ke_lock_state e = st \<and> ko_rpd ko = d\<lparr>last_pressed_lock_keys := pressed, lock_state := st\<rparr> \<and>
        ko_leds ko = (if new = 0 then None else Some st))"
proof -
  obtain r1 r2 r3 r4 r5 where rs: "map snd (report d) = [r1, r2, r3, r4, r5]"
    and r1: "rp_type r1 = 0x80" "usage_page r1 = 7" "app_usage r1 = 6" "report_size r1 = 1" "report_count r1 = 8"
    and r2: "rp_type r2 = 0x80" "usage_page r2 = 7" "app_usage r2 = 6" "report_size r2 = 8" "report_count r2 = 1"
    and r34: "rp_type r3 = 0x90" "rp_type r4 = 0x90"
    and r5: "rp_type r5 = 0x80" "usage_page r5 = 7" "app_usage r5 = 6" "report_size r5 = 8" "report_count r5 = 6"
    using assms(1) by (elim boot_keyboard_reportsE[OF arg_cong[where f = "map layout"]])
  let ?e0 = "\<lparr>ke_lock_state = lock_state d, modifier = 0, keycode = replicate 6 0, key_cnt = 0\<rparr>"
  obtain e1 where e1: "kbd_bits data 0 8 0 0 0 ?e0 = Inr (8, e1)" "keycode e1 = replicate 6 0" "key_cnt e1 = 0"
      "ke_lock_state e1 = lock_state d" "\<And>j. bit (modifier e1) j \<longleftrightarrow> j < 8 \<and> bit (data ! 0) j"
    using kbd_bits_modifier[of data 0 8 ?e0 0] assms(3) by auto
  have m: "modifier e1 = data ! 0" by (rule bit_word_eqI) (simp add: e1(5))
  obtain b0 b1 b2 b3 b4 b5 b6 b7 where data: "data = [b0, b1, b2, b3, b4, b5, b6, b7]"
    using assms(3) by (auto simp: numeral_eq_Suc length_Suc_conv)
  let ?e2 = "e1\<lparr>keycode := drop 2 data\<rparr>"
  have keys: "kbd_bytes data 1 1 e1 = Inr (2, e1)" "kbd_bytes data 6 (Suc (Suc 0)) e1 = Inr (8, ?e2)"
    using e1(2) by (simp_all add: data rd_def eval_nat_numeral)
  have scan: "kbd_scan False 0 data 8 (map snd (report d)) \<lparr>byte_idx = 0, bit_idx = 0\<rparr> False ?e0 = Inr (Scanned True ?e2)"
    using e1(1) keys r1 r2 r34 r5 by (simp add: rs)
  have "length (keycode ?e2) = 6" "key_cnt ?e2 = 0" using assms(3) e1(3) by simp_all
  from kbd_deliver_spec[OF this, of d] obtain e where e: "ko_event (kbd_deliver d ?e2) = Some e"
      "take (key_cnt e) (keycode e) = filter plain_key (keycode ?e2)" "modifier e = modifier ?e2"
      "let pressed = pressed_locks (keycode ?e2);
         new = new_locks pressed (last_pressed_lock_keys d);
         st = ke_lock_state ?e2 XOR new
       in ke_lock_state e = st \<and> ko_rpd (kbd_deliver d ?e2) = d\<lparr>last_pressed_lock_keys := pressed, lock_state := st\<rparr> \<and>
        ko_leds (kbd_deliver d ?e2) = (if new = 0 then None else Some st) \<and> ko_ret (kbd_deliver d ?e2) = 0"
    by blast
  have "hid_parse_keyboard_reports True d data 8 = Inr (kbd_deliver d ?e2)"
    using assms(2) scan by (simp add: hid_parse_keyboard_reports_def report_cursor_def)
  then show ?thesis using e m e1(4) by (intro exI[of _ "kbd_deliver d ?e2"] exI[of _ e]) (simp add: Let_def)
qed

definition boot_keyboard :: RPD_T where
  "boot_keyboard = \<lparr>has_report_id = False, last_pressed_lock_keys = 0, lock_state = 0,
     report = map (Pair 0) (spec_reports boot_keyboard_descriptor)\<rparr>"

theorem boot_keyboard_event_witness:
  "\<exists>ko e. hid_parse_keyboard_reports True boot_keyboard [0x02, 0, 0x39, 0x04, 0, 0x05, 0, 0] 8 = Inr ko \<and>
     ko_event ko = Some e \<and> modifier e = 0x02 \<and> take (key_cnt e) (keycode e) = [0x04, 0x05] \<and> ko_leds ko = Some 2"
proof -
  have "map snd (report boot_keyboard) = spec_reports boot_keyboard_descriptor" "\<not> has_report_id boot_keyboard"
    by (simp_all add: boot_keyboard_def comp_def)
  from boot_keyboard_event[OF this, of "[0x02, 0, 0x39, 0x04, 0, 0x05, 0, 0]"] show ?thesis
    by (auto simp: plain_key_def pressed_locks_def lock_mask_def new_locks_def boot_keyboard_def Let_def mask_eq_exp_minus_1)
qed

end
