(* ===== verification/Canfd.thy ===== *)
theory Canfd
  imports MA35_Prelude
begin

text \<open>
  Model of the CAN FD driver \<open>Library/StdDriver/src/canfd.c\<close> with the structures of
  \<open>inc/canfd.h\<close> and the register block of \<open>Include/canfd_reg.h\<close>.

  The state of a port is its register block and the memory \<open>mem\<close> by absolute byte address, which
  holds the message RAM of the port at offset \<open>0x200\<close> from its base. The C code accesses that
  memory by words and by bytes; a word is stored with its least significant byte first.

  Registers keep their value during an operation, except where the code polls: the values a polling
  loop reads are an argument, a list, and the loop that has consumed the list is still waiting. What
  C leaves undefined (a shift by the width or more, a division by zero) and an access outside of a
  caller's structure are values of \<open>canfd_fault\<close>. The registers \<open>NDAT1\<close>, \<open>NDAT2\<close> and
  \<open>IR\<close> are cleared by writing ones, as \<open>canfd_reg.h\<close> and the driver's comments say.
  \<open>CLK_GetPLLClockFreq\<close>, \<open>SystemCoreClock\<close> and the chip revision in \<open>SYS + 0x1F0\<close> are
  read from elsewhere and are arguments.
\<close>

datatype canfd_fault = Still_Polling | Shift_Out_Of_Range | Division_By_Zero | Buffer_Overrun

section \<open>Enumerations and structures of canfd.h\<close>

datatype E_CANFD_ID_TYPE = eCANFD_SID | eCANFD_XID
datatype E_CANFD_FRM_TYPE = eCANFD_DATA_FRM | eCANFD_REMOTE_FRM
datatype E_CANFD_RX_BUF_TYPE = eCANFD_RX_FIFO_0 | eCANFD_RX_FIFO_1 | eCANFD_RX_DBUF
datatype E_CANFD_MODE = eCANFD_QUEUE_MODE | eCANFD_FIFO_MODE
datatype E_CANFD_DATA_FIELD_SIZE = eCANFD_BYTE8 | eCANFD_BYTE12 | eCANFD_BYTE16 | eCANFD_BYTE20
  | eCANFD_BYTE24 | eCANFD_BYTE32 | eCANFD_BYTE48 | eCANFD_BYTE64
datatype E_CANFD_ACC_NON_MATCH_FRM = eCANFD_ACC_NON_MATCH_FRM_RX_FIFO0
  | eCANFD_ACC_NON_MATCH_FRM_RX_FIFO1 | eCANFD_REJ_NON_MATCH_FRM

fun field_size_code :: "E_CANFD_DATA_FIELD_SIZE \<Rightarrow> u32" where
  "field_size_code eCANFD_BYTE8 = 0"
| "field_size_code eCANFD_BYTE12 = 1"
| "field_size_code eCANFD_BYTE16 = 2"
| "field_size_code eCANFD_BYTE20 = 3"
| "field_size_code eCANFD_BYTE24 = 4"
| "field_size_code eCANFD_BYTE32 = 5"
| "field_size_code eCANFD_BYTE48 = 6"
| "field_size_code eCANFD_BYTE64 = 7"

fun acc_code :: "E_CANFD_ACC_NON_MATCH_FRM \<Rightarrow> u32" where
  "acc_code eCANFD_ACC_NON_MATCH_FRM_RX_FIFO0 = 0"
| "acc_code eCANFD_ACC_NON_MATCH_FRM_RX_FIFO1 = 1"
| "acc_code eCANFD_REJ_NON_MATCH_FRM = 3"

text \<open>The nominal and the data bit timing structure have the same members.\<close>

record CANFD_NBT_CONFIG_T =
  u32BitRate :: u32
  u16TDCOffset :: u16
  u16TDCFltrWin :: u16
  u8TDC :: u8

type_synonym CANFD_DBT_CONFIG_T = CANFD_NBT_CONFIG_T

record CANFD_TIMEING_CONFIG_T =
  u8PreDivider :: u8
  u16NominalPrescaler :: u16
  u8NominalRJumpwidth :: u8
  u8NominalPhaseSeg1 :: u8
  u8NominalPhaseSeg2 :: u8
  u8NominalPropSeg :: u8
  u8DataPrescaler :: u8
  u8DataRJumpwidth :: u8
  u8DataPhaseSeg1 :: u8
  u8DataPhaseSeg2 :: u8
  u8DataPropSeg :: u8

record CANFD_FD_BT_CONFIG_T =
  sNormBitRate :: CANFD_NBT_CONFIG_T
  sDataBitRate :: CANFD_DBT_CONFIG_T
  sConfigBitTing :: CANFD_TIMEING_CONFIG_T
  bFDEn :: u8
  cfg_bBitRateSwitch :: u8
  bEnableLoopBack :: u8

record CANFD_RAM_PART_T =
  u32SIDFC_FLSSA :: u32
  u32XIDFC_FLESA :: u32
  u32RXF0C_F0SA :: u32
  u32RXF1C_F1SA :: u32
  u32RXBC_RBSA :: u32
  u32TXEFC_EFSA :: u32
  u32TXBC_TBSA :: u32

record CANFD_ELEM_SIZE_T =
  u32SIDFC :: u32
  u32XIDFC :: u32
  u32RxFifo0 :: u32
  u32RxFifo1 :: u32
  u32RxBuf :: u32
  u32TxBuf :: u32
  u32TxEventFifo :: u32

record CANFD_TX_BUF_CONFIG_T =
  eDataFieldSize :: E_CANFD_DATA_FIELD_SIZE
  eModeSel :: E_CANFD_MODE
  u32ElemCnt :: u32
  u32DBufNumber :: u32

record CANFD_FD_T =
  sBtConfig :: CANFD_FD_BT_CONFIG_T
  sMRamStartAddr :: CANFD_RAM_PART_T
  sElemSize :: CANFD_ELEM_SIZE_T
  sTxConfig :: CANFD_TX_BUF_CONFIG_T
  u32MRamSize :: u32

record CANFD_RX_INFO_T =
  eRxBuf :: E_CANFD_RX_BUF_TYPE
  u32BufIdx :: u32

text \<open>
  The union of \<open>au32Data\<close> and \<open>au8Data\<close> of a message is its byte view, a list of 64 bytes.
\<close>

record CANFD_FD_MSG_T =
  eIdType :: E_CANFD_ID_TYPE
  sRxInfo :: CANFD_RX_INFO_T
  eFrmType :: E_CANFD_FRM_TYPE
  u32Id :: u32
  u32DLC :: u32
  au8Data :: "u8 list"
  u8MsgMarker :: u8
  bFDFormat :: u8
  bBitRateSwitch :: u8
  bErrStaInd :: u8
  bEvntFifoCon :: u8

record CANFD_TX_EVNT_ELEM_T =
  evt_eIdType :: E_CANFD_ID_TYPE
  evt_u32Id :: u32
  evt_u32DLC :: u32
  u32TxTs :: u32
  u32MsgMarker :: u32
  evt_bErrStaInd :: u8
  bRemote :: u8
  evt_bFDFormat :: u8
  evt_bBitRateSwitch :: u8

section \<open>Registers and memory\<close>

record CANFD_T =
  DBTP :: u32
  TEST :: u32
  RWD :: u32
  CCCR :: u32
  NBTP :: u32
  TSCC :: u32
  TSCV :: u32
  TOCC :: u32
  TOCV :: u32
  ECR :: u32
  PSR :: u32
  TDCR :: u32
  IR :: u32
  IE :: u32
  ILS :: u32
  ILE :: u32
  GFC :: u32
  SIDFC :: u32
  XIDFC :: u32
  XIDAM :: u32
  HPMS :: u32
  NDAT1 :: u32
  NDAT2 :: u32
  RXF0C :: u32
  RXF0S :: u32
  RXF0A :: u32
  RXBC :: u32
  RXF1C :: u32
  RXF1S :: u32
  RXF1A :: u32
  RXESC :: u32
  TXBC :: u32
  TXFQS :: u32
  TXESC :: u32
  TXBRP :: u32
  TXBAR :: u32
  TXBCR :: u32
  TXBTO :: u32
  TXBCF :: u32
  TXBTIE :: u32
  TXBCIE :: u32
  TXEFC :: u32
  TXEFS :: u32
  TXEFA :: u32

datatype canfd_port = CANFD0 | CANFD1 | CANFD2 | CANFD3

fun canfd_base :: "canfd_port \<Rightarrow> nat" where
  "canfd_base CANFD0 = 0x403C0000"
| "canfd_base CANFD1 = 0x403D0000"
| "canfd_base CANFD2 = 0x403E0000"
| "canfd_base CANFD3 = 0x403F0000"

type_synonym memory = "nat \<Rightarrow> u8"

record canfd =
  port :: canfd_port
  regs :: CANFD_T
  mem :: memory

abbreviation (input) "CANFD_SRAM_BASE_ADDR \<equiv> (0x200 :: nat)"
abbreviation (input) "CANFD_MAX_11_BIT_FTR_ELEMS \<equiv> (128 :: u32)"
abbreviation (input) "CANFD_MAX_29_BIT_FTR_ELEMS \<equiv> (64 :: u32)"
abbreviation (input) "CANFD_MAX_RX_FIFO0_ELEMS \<equiv> (64 :: u32)"
abbreviation (input) "CANFD_MAX_RX_FIFO1_ELEMS \<equiv> (64 :: u32)"
abbreviation (input) "CANFD_MAX_RX_BUF_ELEMS \<equiv> (64 :: u8)"
abbreviation (input) "CANFD_MAX_TX_BUF_ELEMS \<equiv> (32 :: u32)"
abbreviation (input) "CANFD_NUM_RX_FIFOS \<equiv> (2 :: u32)"
abbreviation (input) "CANFD_SRAM_SIZE \<equiv> (8192 :: u32)"
abbreviation (input) "SIZEOF_CANFD_BUF_T \<equiv> (72 :: nat)"
abbreviation (input) "SA_Msk \<equiv> (0xFFFC :: u32)"

text \<open>Address of byte \<open>off\<close> of the message RAM.\<close>

definition sram_addr :: "canfd_port \<Rightarrow> nat \<Rightarrow> nat" where
  "sram_addr p off = canfd_base p + CANFD_SRAM_BASE_ADDR + off"

definition store32 :: "nat \<Rightarrow> u32 \<Rightarrow> memory \<Rightarrow> memory" where
  "store32 a w m = m(a := ucast w, a + 1 := ucast (drop_bit 8 w),
                     a + 2 := ucast (drop_bit 16 w), a + 3 := ucast (drop_bit 24 w))"

definition load32 :: "nat \<Rightarrow> memory \<Rightarrow> u32" where
  "load32 a m = ucast (m a) OR push_bit 8 (ucast (m (a + 1)))
                OR push_bit 16 (ucast (m (a + 2))) OR push_bit 24 (ucast (m (a + 3)))"

definition write_NDAT1 :: "u32 \<Rightarrow> CANFD_T \<Rightarrow> CANFD_T" where
  "write_NDAT1 v r = r\<lparr>NDAT1 := NDAT1 r AND NOT v\<rparr>"

definition write_NDAT2 :: "u32 \<Rightarrow> CANFD_T \<Rightarrow> CANFD_T" where
  "write_NDAT2 v r = r\<lparr>NDAT2 := NDAT2 r AND NOT v\<rparr>"

definition write_IR :: "u32 \<Rightarrow> CANFD_T \<Rightarrow> CANFD_T" where
  "write_IR v r = r\<lparr>IR := IR r AND NOT v\<rparr>"

text \<open>\<open>1UL << n\<close>, 64 bits wide.\<close>

definition ul_bit :: "u32 \<Rightarrow> canfd_fault + u64" where
  "ul_bit n = (if n < 64 then Inr (push_bit (unat n) 1) else Inl Shift_Out_Of_Range)"

text \<open>
  \<open>CANFD_ReadReg\<close> on the values that its successive reads see: on the affected chip revision the
  value must repeat three times in a row.
\<close>

fun read_stable :: "u32 \<Rightarrow> nat \<Rightarrow> u32 list \<Rightarrow> canfd_fault + u32" where
  "read_stable u32ReadReg cnt vs =
     (if cnt \<ge> 3 then Inr u32ReadReg
      else case vs of
             [] \<Rightarrow> Inl Still_Polling
           | v # vs' \<Rightarrow> if v = u32ReadReg then read_stable u32ReadReg (cnt + 1) vs'
                        else read_stable v 0 vs')"

definition chip_rev_a :: "u32 \<Rightarrow> bool" where
  "chip_rev_a sys_1f0 \<longleftrightarrow> sys_1f0 AND 0xf000000 = 0"

definition CANFD_ReadReg :: "u32 \<Rightarrow> u32 list \<Rightarrow> canfd_fault + u32" where
  "CANFD_ReadReg sys_1f0 vs =
     (case vs of
        [] \<Rightarrow> Inl Still_Polling
      | v # vs' \<Rightarrow> if chip_rev_a sys_1f0 then read_stable v 0 vs' else Inr v)"

fun CANFD_MemSet :: "nat \<Rightarrow> u8 \<Rightarrow> nat \<Rightarrow> memory \<Rightarrow> memory" where
  "CANFD_MemSet s c 0 m = m"
| "CANFD_MemSet s c (Suc n) m = CANFD_MemSet (s + 1) c n (m(s := c))"

section \<open>Default configuration\<close>

definition CANFD_CalculateRamAddress :: "CANFD_ELEM_SIZE_T \<Rightarrow> CANFD_RAM_PART_T \<Rightarrow> CANFD_RAM_PART_T" where
  "CANFD_CalculateRamAddress sz a =
     (let off = 0;
          (a, off) = (if u32SIDFC sz > 0 then (a\<lparr>u32SIDFC_FLSSA := 0\<rparr>, off + u32SIDFC sz * 4) else (a, off));
          (a, off) = (if u32XIDFC sz > 0 then (a\<lparr>u32XIDFC_FLESA := off\<rparr>, off + u32XIDFC sz * 8) else (a, off));
          (a, off) = (if u32TxBuf sz > 0 then (a\<lparr>u32TXBC_TBSA := off\<rparr>, off + u32TxBuf sz * 72) else (a, off));
          (a, off) = (if u32RxBuf sz > 0 then (a\<lparr>u32RXBC_RBSA := off\<rparr>, off + u32RxBuf sz * 72) else (a, off));
          (a, off) = (if u32RxFifo0 sz > 0 then (a\<lparr>u32RXF0C_F0SA := off\<rparr>, off + u32RxFifo0 sz * 72) else (a, off));
          (a, off) = (if u32RxFifo1 sz > 0 then (a\<lparr>u32RXF1C_F1SA := off\<rparr>, off + u32RxFifo1 sz * 72) else (a, off))
      in if u32TxEventFifo sz > 0 then a\<lparr>u32TXEFC_EFSA := off\<rparr> else a)"

text \<open>A configuration of zero bytes, as \<open>CANFD_MemSet\<close> leaves it.\<close>

definition zero_config :: CANFD_FD_T where
  "zero_config =
     (let bt = \<lparr>u32BitRate = 0, u16TDCOffset = 0, u16TDCFltrWin = 0, u8TDC = 0\<rparr>
      in \<lparr>sBtConfig = \<lparr>sNormBitRate = bt, sDataBitRate = bt,
            sConfigBitTing = \<lparr>u8PreDivider = 0, u16NominalPrescaler = 0, u8NominalRJumpwidth = 0,
              u8NominalPhaseSeg1 = 0, u8NominalPhaseSeg2 = 0, u8NominalPropSeg = 0,
              u8DataPrescaler = 0, u8DataRJumpwidth = 0, u8DataPhaseSeg1 = 0, u8DataPhaseSeg2 = 0,
              u8DataPropSeg = 0\<rparr>,
            bFDEn = 0, cfg_bBitRateSwitch = 0, bEnableLoopBack = 0\<rparr>,
          sMRamStartAddr = \<lparr>u32SIDFC_FLSSA = 0, u32XIDFC_FLESA = 0, u32RXF0C_F0SA = 0,
            u32RXF1C_F1SA = 0, u32RXBC_RBSA = 0, u32TXEFC_EFSA = 0, u32TXBC_TBSA = 0\<rparr>,
          sElemSize = \<lparr>u32SIDFC = 0, u32XIDFC = 0, u32RxFifo0 = 0, u32RxFifo1 = 0, u32RxBuf = 0,
            u32TxBuf = 0, u32TxEventFifo = 0\<rparr>,
          sTxConfig = \<lparr>eDataFieldSize = eCANFD_BYTE8, eModeSel = eCANFD_QUEUE_MODE,
            u32ElemCnt = 0, u32DBufNumber = 0\<rparr>,
          u32MRamSize = 0\<rparr>)"

definition CANFD_GetDefaultConfig :: "u8 \<Rightarrow> CANFD_FD_T" where
  "CANFD_GetDefaultConfig u8OpMode =
     (let fd = (u8OpMode \<noteq> 0);
          bt = (sBtConfig zero_config)
                 \<lparr>sNormBitRate := (sNormBitRate (sBtConfig zero_config))\<lparr>u32BitRate := 500000\<rparr>,
                  sDataBitRate := (sDataBitRate (sBtConfig zero_config))
                                    \<lparr>u32BitRate := (if fd then 1000000 else 0)\<rparr>,
                  bFDEn := (if fd then 1 else 0),
                  cfg_bBitRateSwitch := (if fd then 1 else 0),
                  bEnableLoopBack := 0\<rparr>;
          sz = \<lparr>u32SIDFC = 4, u32XIDFC = 4, u32RxFifo0 = 32, u32RxFifo1 = 32, u32RxBuf = 32,
                u32TxBuf = 8, u32TxEventFifo = 8\<rparr>
      in zero_config\<lparr>sBtConfig := bt, u32MRamSize := CANFD_SRAM_SIZE, sElemSize := sz,
           sMRamStartAddr := CANFD_CalculateRamAddress sz (sMRamStartAddr zero_config)\<rparr>)"

section \<open>Data length codes\<close>

definition CANFD_EncodeDLC :: "u8 \<Rightarrow> u8" where
  "CANFD_EncodeDLC n =
     (if n \<le> 8 then n else if n \<le> 12 then 9 else if n \<le> 16 then 10 else if n \<le> 20 then 11
      else if n \<le> 24 then 12 else if n \<le> 32 then 13 else if n \<le> 48 then 14 else 15)"

definition CANFD_DecodeDLC :: "u8 \<Rightarrow> u8" where
  "CANFD_DecodeDLC d =
     (if d \<le> 8 then d else if d = 9 then 12 else if d = 10 then 16 else if d = 11 then 20
      else if d = 12 then 24 else if d = 13 then 32 else if d = 14 then 48 else 64)"

section \<open>Bit timing\<close>

text \<open>The limits \<open>N_*\<close> of the nominal and \<open>D_*\<close> of the data bit timing.\<close>

record bt_limits =
  tseg1_min :: int
  tseg1_max :: int
  tseg2_min :: int
  tseg2_max :: int
  brp_min :: int
  brp_max :: int
  sjw_max :: int
  brp_inc :: int

definition bt_limits_of :: "bool \<Rightarrow> bt_limits" where
  "bt_limits_of u32Set_NBTP =
     (if u32Set_NBTP
      then \<lparr>tseg1_min = 2, tseg1_max = 256, tseg2_min = 2, tseg2_max = 128,
            brp_min = 1, brp_max = 512, sjw_max = 128, brp_inc = 1\<rparr>
      else \<lparr>tseg1_min = 1, tseg1_max = 32, tseg2_min = 1, tseg2_max = 16,
            brp_min = 1, brp_max = 32, sjw_max = 16, brp_inc = 1\<rparr>)"

text \<open>Returns the sample point and the two segments.\<close>

definition CANFD_Update_Spt :: "int \<Rightarrow> int \<Rightarrow> bool \<Rightarrow> int \<times> int \<times> int" where
  "CANFD_Update_Spt sampl_pt tseg u32Set_NBTP =
     (let l = bt_limits_of u32Set_NBTP;
          tseg2 = tseg + 1 - c_div (sampl_pt * (tseg + 1)) 1000;
          tseg2 = (if tseg2 < tseg2_min l then tseg2_min l else tseg2);
          tseg2 = (if tseg2 > tseg2_max l then tseg2_max l else tseg2);
          tseg1 = tseg - tseg2;
          (tseg1, tseg2) = (if tseg1 > tseg1_max l then (tseg1_max l, tseg - tseg1_max l)
                            else (tseg1, tseg2))
      in (c_div (1000 * (tseg + 1 - tseg2)) (tseg + 1), tseg1, tseg2))"

definition sample_point :: "u32 \<Rightarrow> int" where
  "sample_point u32BaudRate =
     (if u32BaudRate > 800000 then 750 else if u32BaudRate > 500000 then 800 else 875)"

record bt_search =
  best_error :: int
  spt_error :: int
  best_tseg :: int
  best_brp :: int

text \<open>
  One round of the search loop: the new state and whether the loop is left. The divisor
  \<open>tsegall * u32BaudRate\<close> is a 32-bit product, and \<open>brp\<close> is truncated to \<open>int\<close>.
\<close>

definition bt_brp :: "int \<Rightarrow> u32 \<Rightarrow> bool \<Rightarrow> int \<Rightarrow> canfd_fault + int" where
  "bt_brp clock_freq u32BaudRate u32Set_NBTP tseg =
     (let l = bt_limits_of u32Set_NBTP;
          tsegall = 1 + tseg div 2;
          d = uint (word_of_int tsegall * u32BaudRate :: u32);
          brp = sint (word_of_int (clock_freq div d + tseg mod 2) :: u32)
      in if d = 0 then Inl Division_By_Zero else Inr (c_div brp (brp_inc l) * brp_inc l))"

definition bt_step :: "int \<Rightarrow> u32 \<Rightarrow> bool \<Rightarrow> int \<Rightarrow> bt_search \<Rightarrow> canfd_fault + (bt_search \<times> bool)" where
  "bt_step clock_freq u32BaudRate u32Set_NBTP tseg s =
     sbind (bt_brp clock_freq u32BaudRate u32Set_NBTP tseg) (\<lambda>brp.
     (let l = bt_limits_of u32Set_NBTP;
          tsegall = 1 + tseg div 2;
          sampl_pt = sample_point u32BaudRate
      in if brp < brp_min l \<or> brp > brp_max l then Inr (s, False)
         else
           let rate = clock_freq div (brp * tsegall);
               error = \<bar>uint u32BaudRate - rate\<bar>
           in if error > best_error s then Inr (s, False)
              else
                let s1 = s\<lparr>best_error := error\<rparr>
                in if error = 0
                   then
                     let spt = fst (CANFD_Update_Spt sampl_pt (tseg div 2) u32Set_NBTP);
                         error = \<bar>sampl_pt - spt\<bar>
                     in if error > spt_error s1 then Inr (s1, False)
                        else Inr (s1\<lparr>spt_error := error, best_tseg := tseg div 2, best_brp := brp\<rparr>,
                                  error = 0)
                   else Inr (s1\<lparr>best_tseg := tseg div 2, best_brp := brp\<rparr>, False)))"

fun bt_loop :: "int \<Rightarrow> u32 \<Rightarrow> bool \<Rightarrow> int list \<Rightarrow> bt_search \<Rightarrow> canfd_fault + bt_search" where
  "bt_loop clock_freq u32BaudRate nbtp [] s = Inr s"
| "bt_loop clock_freq u32BaudRate nbtp (tseg # ts) s =
     sbind (bt_step clock_freq u32BaudRate nbtp tseg s) (\<lambda>(s', brk).
       if brk then Inr s' else bt_loop clock_freq u32BaudRate nbtp ts s')"

text \<open>The values of \<open>tseg\<close> in the order of the loop, and the initial locals.\<close>

definition bt_tsegs :: "bool \<Rightarrow> int list" where
  "bt_tsegs u32Set_NBTP =
     (let l = bt_limits_of u32Set_NBTP
      in rev [(tseg1_min l + tseg2_min l) * 2 .. (tseg1_max l + tseg2_max l) * 2 + 1])"

definition bt_init :: bt_search where
  "bt_init = \<lparr>best_error = 1000000000, spt_error = 1000, best_tseg = 0, best_brp = 0\<rparr>"

text \<open>The register values that the second half of \<open>CANFD_SetBitRate\<close> assembles.\<close>

definition nbtp_value :: "int \<Rightarrow> int \<Rightarrow> int \<Rightarrow> int \<Rightarrow> u32" where
  "nbtp_value brp sjw tseg1 tseg2 =
     push_bit 16 (word_of_int brp) OR push_bit 25 (word_of_int sjw)
     OR push_bit 8 (word_of_int tseg1) OR push_bit 0 (word_of_int tseg2)"

definition dbtp_value :: "int \<Rightarrow> int \<Rightarrow> int \<Rightarrow> int \<Rightarrow> u32" where
  "dbtp_value brp sjw tseg1 tseg2 =
     push_bit 16 (word_of_int brp) OR push_bit 0 (word_of_int sjw)
     OR push_bit 8 (word_of_int tseg1) OR push_bit 4 (word_of_int tseg2)"

definition tdco_value :: "int \<Rightarrow> int \<Rightarrow> u32 \<Rightarrow> u32" where
  "tdco_value clock_freq ssp u32BaudRate =
     (let tdco = word_of_int ((clock_freq div 1000) * ssp div uint u32BaudRate) :: u32
      in if tdco > 127 then 127 else tdco)"

definition CANFD_SetBitRate :: "u32 \<Rightarrow> u32 \<Rightarrow> bool \<Rightarrow> CANFD_T \<Rightarrow> canfd_fault + (u32 \<times> CANFD_T)" where
  "CANFD_SetBitRate u32BaudRate u32SourceClock_Hz u32Set_NBTP r =
     (let l = bt_limits_of u32Set_NBTP;
          clock_freq = uint (scast u32SourceClock_Hz :: u64);
          sampl_pt = sample_point u32BaudRate
      in sbind (bt_loop clock_freq u32BaudRate u32Set_NBTP (bt_tsegs u32Set_NBTP) bt_init) (\<lambda>s.
         let (spt, tseg1, tseg2) = CANFD_Update_Spt sampl_pt (best_tseg s) u32Set_NBTP;
             sjw = (if 2 > sjw_max l then sjw_max l else 2);
             sjw = (if tseg2 < sjw then tseg2 else sjw);
             brp = best_brp s - 1; sjw = sjw - 1; tseg1 = tseg1 - 1; tseg2 = tseg2 - 1;
             d = uint (word_of_int ((brp + 1) * (tseg1 + tseg2 + 3)) :: u64);
             rate = word_of_int (clock_freq div d) :: u32
         in if d = 0 then Inl Division_By_Zero
            else if u32Set_NBTP then Inr (rate, r\<lparr>NBTP := nbtp_value brp sjw tseg1 tseg2\<rparr>)
            else if rate > 2500000
            then Inr (rate, r\<lparr>TDCR := push_bit 8 (tdco_value clock_freq sampl_pt rate),
                              DBTP := push_bit 23 1 OR dbtp_value brp sjw tseg1 tseg2\<rparr>)
            else Inr (rate, r\<lparr>DBTP := dbtp_value brp sjw tseg1 tseg2\<rparr>)))"

abbreviation (input) "CANFD_CCCR_INIT_Msk \<equiv> (0x1 :: u32)"
abbreviation (input) "CANFD_CCCR_CCE_Msk \<equiv> (0x2 :: u32)"
abbreviation (input) "CANFD_CCCR_TEST_Msk \<equiv> (0x80 :: u32)"
abbreviation (input) "CANFD_CCCR_FDOE_Msk \<equiv> (0x100 :: u32)"
abbreviation (input) "CANFD_CCCR_BRSE_Msk \<equiv> (0x200 :: u32)"
abbreviation (input) "CANFD_TEST_LBCK_Msk \<equiv> (0x10 :: u32)"

definition CANFD_CalculateTimingValues :: "u32 \<Rightarrow> u32 \<Rightarrow> u32 \<Rightarrow> CANFD_T \<Rightarrow> canfd_fault + CANFD_T" where
  "CANFD_CalculateTimingValues u32NominalBaudRate u32DataBaudRate u32SourceClock_Hz r =
     (let nominal = (if u32NominalBaudRate > 1000000 then 1000000 else u32NominalBaudRate);
          data = (if u32DataBaudRate > 8000000 then 8000000 else u32DataBaudRate)
      in sbind (CANFD_SetBitRate nominal u32SourceClock_Hz True r) (\<lambda>(_, r1).
         if CCCR r1 AND CANFD_CCCR_FDOE_Msk \<noteq> 0
         then sbind (CANFD_SetBitRate data u32SourceClock_Hz False r1) (\<lambda>(_, r2). Inr r2)
         else Inr r1))"

section \<open>Clock selection\<close>

text \<open>The clock registers and the frequencies that \<open>CLK_GetPLLClockFreq\<close> reports.\<close>

record canfd_clocks =
  CLKDIV0 :: u32
  CLKSEL4 :: u32
  APLL_freq :: u32
  VPLL_freq :: u32

definition CANFD_GetClockDiv :: "u32 \<Rightarrow> canfd_clocks \<Rightarrow> canfd_fault + u32" where
  "CANFD_GetClockDiv u32CAN_Port c =
     (let n = 4 * u32CAN_Port
      in if n < 32 then Inr (drop_bit (unat n) (CLKDIV0 c AND push_bit (unat n) 7))
         else Inl Shift_Out_Of_Range)"

definition CANFD_GetClockSource :: "u32 \<Rightarrow> canfd_clocks \<Rightarrow> canfd_fault + u32" where
  "CANFD_GetClockSource u32CAN_Port c =
     (let n = 16 + u32CAN_Port
      in if n < 32 then Inr (drop_bit (unat n) (CLKSEL4 c AND push_bit (unat n) 1))
         else Inl Shift_Out_Of_Range)"

abbreviation (input) "CANFD2_MODULE \<equiv> (274996490 :: u32)"
abbreviation (input) "CANFD3_MODULE \<equiv> (275127691 :: u32)"

text \<open>The four branches at the start of \<open>CANFD_Open\<close>.\<close>

definition canfd_clock :: "canfd_port \<Rightarrow> canfd_clocks \<Rightarrow> canfd_fault + u32" where
  "canfd_clock p c =
     (let pll = (\<lambda>src vpll_code n. sbind (CANFD_GetClockSource src c) (\<lambda>s.
                  sbind (CANFD_GetClockDiv n c) (\<lambda>d.
                  Inr ((if s = vpll_code then VPLL_freq c else APLL_freq c) div push_bit 1 (d + 1)))))
      in case p of
           CANFD0 \<Rightarrow> pll 0 1 0
         | CANFD1 \<Rightarrow> pll 1 1 1
         | CANFD2 \<Rightarrow> pll CANFD2_MODULE 0 2
         | CANFD3 \<Rightarrow> pll CANFD3_MODULE 1 3)"

section \<open>Message RAM sections\<close>

text \<open>
  The size of a buffer element in words by the code of its data field:
  \<open>if (u32Size < 5U) u32Size += 4U; else u32Size = u32Size * 4U - 10U\<close>.
\<close>

definition elem_words :: "u32 \<Rightarrow> u32" where
  "elem_words u32Size = (if u32Size < 5 then u32Size + 4 else u32Size * 4 - 10)"

text \<open>\<open>CANFD_MemSet(ptr_s(u32Address), 0x00, n)\<close> at an offset of the message RAM.\<close>

definition clear_ram :: "u32 \<Rightarrow> u32 \<Rightarrow> canfd \<Rightarrow> canfd" where
  "clear_ram off n s = s\<lparr>mem := CANFD_MemSet (sram_addr (port s) (unat off)) 0 (unat n) (mem s)\<rparr>"

definition set_regs :: "(CANFD_T \<Rightarrow> CANFD_T) \<Rightarrow> canfd \<Rightarrow> canfd" where
  "set_regs f s = s\<lparr>regs := f (regs s)\<rparr>"

definition CANFD_ConfigSIDFC :: "CANFD_RAM_PART_T \<Rightarrow> CANFD_ELEM_SIZE_T \<Rightarrow> canfd \<Rightarrow> canfd" where
  "CANFD_ConfigSIDFC a sz s =
     clear_ram (u32SIDFC_FLSSA a AND SA_Msk) (u32SIDFC sz * 4)
       (set_regs (\<lambda>r. r\<lparr>SIDFC := push_bit 16 (u32SIDFC sz AND 0xFF) OR (u32SIDFC_FLSSA a AND SA_Msk)\<rparr>) s)"

definition CANFD_ConfigXIDFC :: "CANFD_RAM_PART_T \<Rightarrow> CANFD_ELEM_SIZE_T \<Rightarrow> canfd \<Rightarrow> canfd" where
  "CANFD_ConfigXIDFC a sz s =
     clear_ram (u32XIDFC_FLESA a AND SA_Msk) (u32XIDFC sz * 8)
       (set_regs (\<lambda>r. r\<lparr>XIDFC := push_bit 16 (u32XIDFC sz AND 0xFF) OR (u32XIDFC_FLESA a AND SA_Msk)\<rparr>) s)"

definition CANFD_InitTxDBuf ::
  "CANFD_RAM_PART_T \<Rightarrow> CANFD_ELEM_SIZE_T \<Rightarrow> E_CANFD_DATA_FIELD_SIZE \<Rightarrow> canfd \<Rightarrow> canfd" where
  "CANFD_InitTxDBuf a sz eTxBufSize s =
     clear_ram (u32TXBC_TBSA a AND SA_Msk) (elem_words (field_size_code eTxBufSize) * 4 * u32TxBuf sz)
       (set_regs (\<lambda>r. r\<lparr>TXBC := push_bit 16 (u32TxBuf sz AND 0x3F) OR (u32TXBC_TBSA a AND SA_Msk),
                        TXESC := put_field 7 0 (field_size_code eTxBufSize) (TXESC r)\<rparr>) s)"

definition CANFD_InitRxDBuf ::
  "CANFD_RAM_PART_T \<Rightarrow> CANFD_ELEM_SIZE_T \<Rightarrow> E_CANFD_DATA_FIELD_SIZE \<Rightarrow> canfd \<Rightarrow> canfd" where
  "CANFD_InitRxDBuf a sz eRxBufSize s =
     clear_ram (u32RXBC_RBSA a AND SA_Msk) (elem_words (field_size_code eRxBufSize) * 4 * u32RxBuf sz)
       (set_regs (\<lambda>r. r\<lparr>RXBC := u32RXBC_RBSA a AND SA_Msk,
                        RXESC := put_field 7 8 (field_size_code eRxBufSize) (RXESC r)\<rparr>) s)"

definition CANFD_InitRxFifo ::
  "u32 \<Rightarrow> CANFD_RAM_PART_T \<Rightarrow> CANFD_ELEM_SIZE_T \<Rightarrow> u32 \<Rightarrow> E_CANFD_DATA_FIELD_SIZE \<Rightarrow> canfd \<Rightarrow> canfd" where
  "CANFD_InitRxFifo u32RxFifoNum a sz u32FifoWM eFifoSize s =
     (if u32RxFifoNum > CANFD_NUM_RX_FIFOS then s
      else if u32RxFifo0 sz > CANFD_MAX_RX_FIFO0_ELEMS then s
      else if u32RxFifo1 sz > CANFD_MAX_RX_FIFO1_ELEMS then s
      else if u32RxFifoNum = 0 then
        (if u32RxFifo0 sz \<noteq> 0
         then clear_ram (u32RXF0C_F0SA a AND SA_Msk)
                (elem_words (field_size_code eFifoSize) * 4 * u32RxFifo0 sz)
                (set_regs (\<lambda>r. r\<lparr>RXF0C := u32RXF0C_F0SA a OR push_bit 16 (u32RxFifo0 sz)
                                            OR push_bit 24 u32FifoWM,
                                 RXESC := put_field 7 0 (field_size_code eFifoSize) (RXESC r)\<rparr>) s)
         else set_regs (\<lambda>r. r\<lparr>RXF0C := 0\<rparr>) s)
      else if u32RxFifoNum = 1 then
        (if u32RxFifo1 sz \<noteq> 0
         then clear_ram (u32RXF1C_F1SA a AND SA_Msk)
                (elem_words (field_size_code eFifoSize) * 4 * u32RxFifo1 sz)
                (set_regs (\<lambda>r. r\<lparr>RXF1C := u32RXF1C_F1SA a OR push_bit 16 (u32RxFifo1 sz)
                                            OR push_bit 24 u32FifoWM,
                                 RXESC := put_field 7 4 (field_size_code eFifoSize) (RXESC r)\<rparr>) s)
         else set_regs (\<lambda>r. r\<lparr>RXF1C := 0\<rparr>) s)
      else s)"

definition CANFD_InitTxEvntFifo ::
  "CANFD_RAM_PART_T \<Rightarrow> CANFD_ELEM_SIZE_T \<Rightarrow> u32 \<Rightarrow> canfd \<Rightarrow> canfd" where
  "CANFD_InitTxEvntFifo a sz u32FifoWaterLvl s =
     set_regs (\<lambda>r. r\<lparr>TXEFC := push_bit 24 u32FifoWaterLvl OR push_bit 16 (u32TxEventFifo sz)
                              OR (u32TXEFC_EFSA a AND SA_Msk)\<rparr>) s"

section \<open>Open and close\<close>

text \<open>The calls of \<open>CANFD_Open\<close> that set up the message RAM, each under its guard.\<close>

definition open_sections :: "CANFD_FD_T \<Rightarrow> canfd \<Rightarrow> canfd" where
  "open_sections cfg s =
     (let a = sMRamStartAddr cfg; sz = sElemSize cfg;
          s = (if u32SIDFC sz \<noteq> 0 then CANFD_ConfigSIDFC a sz s else s);
          s = (if u32XIDFC sz \<noteq> 0 then CANFD_ConfigXIDFC a sz s else s);
          s = (if u32TxBuf sz \<noteq> 0 then CANFD_InitTxDBuf a sz eCANFD_BYTE64 s else s);
          s = (if u32RxBuf sz \<noteq> 0 then CANFD_InitRxDBuf a sz eCANFD_BYTE64 s else s);
          s = (if u32RxFifo0 sz \<noteq> 0 then CANFD_InitRxFifo 0 a sz 0 eCANFD_BYTE64 s else s);
          s = (if u32RxFifo1 sz \<noteq> 0 then CANFD_InitRxFifo 1 a sz 0 eCANFD_BYTE64 s else s)
      in if u32TxEventFifo sz \<noteq> 0 then CANFD_InitTxEvntFifo a sz 0 s else s)"

definition CANFD_Open :: "canfd_clocks \<Rightarrow> CANFD_FD_T \<Rightarrow> canfd \<Rightarrow> canfd_fault + canfd" where
  "CANFD_Open clk cfg s =
     sbind (canfd_clock (port s) clk) (\<lambda>u32CANFD_CLK.
     (let bt = sBtConfig cfg; r = regs s;
          r = r\<lparr>CCCR := CCCR r OR CANFD_CCCR_CCE_Msk\<rparr>;
          r = (if cfg_bBitRateSwitch bt \<noteq> 0 then r\<lparr>CCCR := CCCR r OR CANFD_CCCR_BRSE_Msk\<rparr> else r);
          r = (if bFDEn bt \<noteq> 0 then r\<lparr>CCCR := CCCR r OR CANFD_CCCR_FDOE_Msk\<rparr> else r);
          r = r\<lparr>RXF0C := 0, RXF1C := 0\<rparr>
      in sbind (CANFD_CalculateTimingValues (u32BitRate (sNormBitRate bt))
                  (u32BitRate (sDataBitRate bt)) u32CANFD_CLK r) (\<lambda>r.
         (let s = open_sections cfg (s\<lparr>regs := r\<rparr>)
          in Inr (if bEnableLoopBack bt \<noteq> 0
                  then set_regs (\<lambda>r. r\<lparr>CCCR := CCCR r OR CANFD_CCCR_TEST_Msk,
                                       TEST := TEST r OR CANFD_TEST_LBCK_Msk\<rparr>) s
                  else s)))))"

text \<open>The interrupts that \<open>CANFD_Close\<close> passes to \<open>IRQ_Disable\<close>, in order.\<close>

fun CANFD_Close :: "canfd_port \<Rightarrow> int list" where
  "CANFD_Close CANFD0 = [103, 163]"
| "CANFD_Close CANFD1 = [132, 164]"
| "CANFD_Close CANFD2 = [157, 165]"
| "CANFD_Close CANFD3 = [158, 166]"

section \<open>Interrupts and status\<close>

definition CANFD_EnableInt :: "u32 \<Rightarrow> u32 \<Rightarrow> u32 \<Rightarrow> u32 \<Rightarrow> CANFD_T \<Rightarrow> CANFD_T" where
  "CANFD_EnableInt u32IntLine0 u32IntLine1 u32TXBTIE u32TXBCIE r =
     (let r = (if u32IntLine0 \<noteq> 0
               then r\<lparr>IE := IE r OR u32IntLine0, ILS := ILS r AND NOT u32IntLine0, ILE := ILE r OR 1\<rparr>
               else r);
          r = (if u32IntLine1 \<noteq> 0
               then r\<lparr>IE := IE r OR u32IntLine1, ILS := ILS r OR u32IntLine1, ILE := ILE r OR 2\<rparr>
               else r)
      in r\<lparr>TXBTIE := TXBTIE r OR u32TXBTIE, TXBCIE := TXBCIE r OR u32TXBCIE\<rparr>)"

definition CANFD_DisableInt :: "u32 \<Rightarrow> u32 \<Rightarrow> u32 \<Rightarrow> u32 \<Rightarrow> CANFD_T \<Rightarrow> CANFD_T" where
  "CANFD_DisableInt u32IntLine0 u32IntLine1 u32TXBTIE u32TXBCIE r =
     (let r = (if u32IntLine0 \<noteq> 0
               then r\<lparr>IE := IE r AND NOT u32IntLine0, ILE := ILE r AND NOT 1\<rparr> else r);
          r = (if u32IntLine1 \<noteq> 0
               then r\<lparr>IE := IE r AND NOT u32IntLine1, ILE := ILE r AND NOT 2\<rparr> else r)
      in r\<lparr>TXBTIE := TXBTIE r AND NOT u32TXBTIE, TXBCIE := TXBCIE r AND NOT u32TXBCIE\<rparr>)"

definition CANFD_GetStatusFlag :: "u32 \<Rightarrow> CANFD_T \<Rightarrow> u32" where
  "CANFD_GetStatusFlag u32IntTypeFlag r = IR r AND u32IntTypeFlag"

definition CANFD_ClearStatusFlag :: "u32 \<Rightarrow> CANFD_T \<Rightarrow> CANFD_T" where
  "CANFD_ClearStatusFlag u32InterruptFlag r = write_IR u32InterruptFlag r"

text \<open>The two counters that \<open>CANFD_GetBusErrCount\<close> stores, each where its pointer is not null.\<close>

definition CANFD_GetBusErrCount :: "bool \<Rightarrow> bool \<Rightarrow> CANFD_T \<Rightarrow> u8 option \<times> u8 option" where
  "CANFD_GetBusErrCount pu8TxErrBuf pu8RxErrBuf r =
     ((if pu8TxErrBuf then Some (ucast (drop_bit 0 (ECR r) AND 0xFF)) else None),
      (if pu8RxErrBuf then Some (ucast (drop_bit 8 (ECR r) AND push_bit 8 0x7F)) else None))"

text \<open>\<open>while (!done(reg));\<close> on the values the register shows.\<close>

fun wait_until :: "(u32 \<Rightarrow> bool) \<Rightarrow> u32 list \<Rightarrow> canfd_fault + u32" where
  "wait_until done [] = Inl Still_Polling"
| "wait_until done (v # vs) = (if done v then Inr v else wait_until done vs)"

definition CANFD_RunToNormal :: "u8 \<Rightarrow> u32 list \<Rightarrow> CANFD_T \<Rightarrow> canfd_fault + CANFD_T" where
  "CANFD_RunToNormal u8Enable cccrs r =
     (if u8Enable \<noteq> 0
      then let r = r\<lparr>CCCR := CCCR r AND NOT (CANFD_CCCR_CCE_Msk OR CANFD_CCCR_INIT_Msk)\<rparr>
           in sbind (wait_until (\<lambda>v. v AND CANFD_CCCR_INIT_Msk = 0) cccrs) (\<lambda>v. Inr (r\<lparr>CCCR := v\<rparr>))
      else let r = r\<lparr>CCCR := CCCR r OR CANFD_CCCR_INIT_Msk\<rparr>
           in sbind (wait_until (\<lambda>v. v AND CANFD_CCCR_INIT_Msk \<noteq> 0) cccrs) (\<lambda>v. Inr (r\<lparr>CCCR := v\<rparr>)))"

definition CANFD_SetGFC ::
  "E_CANFD_ACC_NON_MATCH_FRM \<Rightarrow> E_CANFD_ACC_NON_MATCH_FRM \<Rightarrow> u32 \<Rightarrow> u32 \<Rightarrow> CANFD_T \<Rightarrow> CANFD_T" where
  "CANFD_SetGFC eNMStdFrm eEMExtFrm u32RejRmtStdFrm u32RejRmtExtFrm r =
     (let r = r\<lparr>GFC := GFC r AND (2 OR 1)\<rparr>
      in r\<lparr>GFC := push_bit 4 (acc_code eNMStdFrm) OR push_bit 2 (acc_code eEMExtFrm)
                  OR push_bit 1 u32RejRmtStdFrm OR push_bit 0 u32RejRmtExtFrm\<rparr>)"

section \<open>Filters\<close>

definition CANFD_SetSIDFltr :: "u32 \<Rightarrow> u32 \<Rightarrow> canfd \<Rightarrow> canfd" where
  "CANFD_SetSIDFltr u32FltrIdx u32Filter s =
     (if u32FltrIdx \<ge> CANFD_MAX_11_BIT_FTR_ELEMS then s
      else let a = sram_addr (port s) (unat (SIDFC (regs s) AND SA_Msk) + unat u32FltrIdx * 4)
           in s\<lparr>mem := store32 a u32Filter (mem s)\<rparr>)"

definition CANFD_SetXIDFltr :: "u32 \<Rightarrow> u32 \<Rightarrow> u32 \<Rightarrow> canfd \<Rightarrow> canfd" where
  "CANFD_SetXIDFltr u32FltrIdx u32FilterLow u32FilterHigh s =
     (if u32FltrIdx \<ge> CANFD_MAX_29_BIT_FTR_ELEMS then s
      else let a = sram_addr (port s) (unat (XIDFC (regs s) AND SA_Msk) + unat u32FltrIdx * 8)
           in s\<lparr>mem := store32 (a + 4) u32FilterHigh (store32 a u32FilterLow (mem s))\<rparr>)"

section \<open>Transmission\<close>

abbreviation (input) "TX_BUFFER_T0_ELEM_XTD_Msk \<equiv> (0x40000000 :: u32)"
abbreviation (input) "TX_BUFFER_T0_ELEM_RTR_Msk \<equiv> (0x20000000 :: u32)"
abbreviation (input) "TX_BUFFER_T1_ELEM_FDF_Msk \<equiv> (0x200000 :: u32)"
abbreviation (input) "TX_BUFFER_T1_ELEM_BSR_Msk \<equiv> (0x100000 :: u32)"

text \<open>The two header words of a transmit element.\<close>

definition tx_id_word :: "CANFD_FD_MSG_T \<Rightarrow> u32" where
  "tx_id_word m =
     (let w = (if eIdType m = eCANFD_XID then TX_BUFFER_T0_ELEM_XTD_Msk OR (u32Id m AND 0x1FFFFFFF)
               else push_bit 18 (u32Id m AND 0x7FF))
      in if eFrmType m = eCANFD_REMOTE_FRM then w OR TX_BUFFER_T0_ELEM_RTR_Msk else w)"

definition tx_config_word :: "CANFD_FD_MSG_T \<Rightarrow> u32" where
  "tx_config_word m =
     (let w = push_bit 16 (ucast (CANFD_EncodeDLC (ucast (u32DLC m))));
          w = (if bFDFormat m \<noteq> 0 then w OR TX_BUFFER_T1_ELEM_FDF_Msk else w)
      in if bBitRateSwitch m \<noteq> 0 then w OR TX_BUFFER_T1_ELEM_BSR_Msk else w)"

text \<open>
  The copy loop over \<open>au32Data\<close>, word by word; both arrays have 16 words. A word of the union is
  its four bytes.
\<close>

fun copy_words :: "nat \<Rightarrow> nat \<Rightarrow> u8 list \<Rightarrow> nat \<Rightarrow> memory \<Rightarrow> canfd_fault + memory" where
  "copy_words i 0 bs a m = Inr m"
| "copy_words i (Suc n) bs a m =
     (if i < 16 \<and> 4 * i + 3 < length bs
      then copy_words (i + 1) n bs a
             (m(a + 4 * i := bs ! (4 * i), a + 4 * i + 1 := bs ! (4 * i + 1),
                a + 4 * i + 2 := bs ! (4 * i + 2), a + 4 * i + 3 := bs ! (4 * i + 3)))
      else Inl Buffer_Overrun)"

text \<open>
  Waiting for an idle bus with \<open>u32TimeOutCount\<close> on the values of \<open>PSR\<close>: true when the bus is
  idle, false when the count has run out.
\<close>

definition CANFD_GET_COMMUNICATION_STATE :: "u32 \<Rightarrow> u32" where
  "CANFD_GET_COMMUNICATION_STATE psr = drop_bit 3 (psr AND 0x18)"

fun wait_idle :: "u32 \<Rightarrow> u32 list \<Rightarrow> canfd_fault + bool" where
  "wait_idle cnt [] = Inl Still_Polling"
| "wait_idle cnt (psr # psrs) =
     (if CANFD_GET_COMMUNICATION_STATE psr = 1 then Inr True
      else if cnt = 0 then Inr False
      else wait_idle (cnt - 1) psrs)"

text \<open>Address of transmit buffer \<open>i\<close>: \<open>psCanfd + 0x200 + (TXBC & 0xFFFF) + i * sizeof(CANFD_BUF_T)\<close>.\<close>

definition tx_buf_addr :: "canfd \<Rightarrow> u32 \<Rightarrow> nat" where
  "tx_buf_addr s i = sram_addr (port s) (unat (TXBC (regs s) AND 0xFFFF) + unat i * SIZEOF_CANFD_BUF_T)"

definition CANFD_TransmitDMsg ::
  "u32 \<Rightarrow> u32 \<Rightarrow> u32 list \<Rightarrow> u32 \<Rightarrow> CANFD_FD_MSG_T \<Rightarrow> canfd \<Rightarrow> canfd_fault + (u32 \<times> canfd)" where
  "CANFD_TransmitDMsg sys_1f0 SystemCoreClock psrs u32TxBufIdx msg s =
     (if u32TxBufIdx \<ge> CANFD_MAX_TX_BUF_ELEMS then Inr (0, s)
      else if TXBRP (regs s) AND push_bit (unat u32TxBufIdx) 1 \<noteq> 0 then Inr (0, s)
      else
        let a = tx_buf_addr s u32TxBufIdx;
            m = store32 (a + 4) (tx_config_word msg) (store32 a (tx_id_word msg) (mem s))
        in sbind (copy_words 0 (unat ((u32DLC msg + 3) div 4)) (au8Data msg) (a + 8) m) (\<lambda>m.
           let s = s\<lparr>mem := m\<rparr>
           in sbind (if chip_rev_a sys_1f0 then wait_idle (SystemCoreClock div 100) psrs else Inr True)
                (\<lambda>idle. if idle
                         then Inr (1, set_regs (\<lambda>r. r\<lparr>TXBAR := push_bit (unat u32TxBufIdx) 1\<rparr>) s)
                         else Inr (0, s))))"

text \<open>\<open>txbrps\<close> are the values of \<open>TXBRP\<close> that the final loop reads.\<close>

definition CANFD_TransmitTxMsg ::
  "u32 \<Rightarrow> u32 \<Rightarrow> u32 list \<Rightarrow> u32 list \<Rightarrow> u32 \<Rightarrow> CANFD_FD_MSG_T \<Rightarrow> canfd \<Rightarrow> canfd_fault + (u32 \<times> canfd)" where
  "CANFD_TransmitTxMsg sys_1f0 SystemCoreClock psrs txbrps u32TxBufIdx msg s =
     sbind (CANFD_TransmitDMsg sys_1f0 SystemCoreClock psrs u32TxBufIdx msg s) (\<lambda>(ok, s').
       if ok = 1
       then sbind (wait_until (\<lambda>v. v AND push_bit (unat u32TxBufIdx) 1 \<noteq> 0) txbrps) (\<lambda>v.
              Inr (ok, set_regs (\<lambda>r. r\<lparr>TXBRP := v\<rparr>) s'))
       else Inr (ok, s'))"

definition CANFD_TxBufCancelReq :: "u32 \<Rightarrow> CANFD_T \<Rightarrow> canfd_fault + CANFD_T" where
  "CANFD_TxBufCancelReq u32TxBufIdx r =
     sbind (ul_bit u32TxBufIdx) (\<lambda>b. Inr (r\<lparr>TXBCR := ucast (ucast (TXBCR r) OR b)\<rparr>))"

definition CANFD_IsTxBufCancelFin :: "u32 \<Rightarrow> CANFD_T \<Rightarrow> canfd_fault + u32" where
  "CANFD_IsTxBufCancelFin u32TxBufIdx r =
     sbind (ul_bit u32TxBufIdx) (\<lambda>b. Inr (ucast (drop_bit (unat u32TxBufIdx) (ucast (TXBCR r) AND b))))"

definition CANFD_IsTxBufTransmitOccur :: "u32 \<Rightarrow> CANFD_T \<Rightarrow> canfd_fault + u32" where
  "CANFD_IsTxBufTransmitOccur u32TxBufIdx r =
     sbind (ul_bit u32TxBufIdx) (\<lambda>b. Inr (ucast (drop_bit (unat u32TxBufIdx) (ucast (TXBTO r) AND b))))"

section \<open>Reception\<close>

abbreviation (input) "RX_ELEM_ESI_Msk \<equiv> (0x80000000 :: u32)"
abbreviation (input) "RX_ELEM_XTD_Msk \<equiv> (0x40000000 :: u32)"
abbreviation (input) "RX_ELEM_RTR_Msk \<equiv> (0x20000000 :: u32)"
abbreviation (input) "RX_ELEM_ID_Msk \<equiv> (0x1FFFFFFF :: u32)"
abbreviation (input) "RX_ELEM_FDF_Msk \<equiv> (0x200000 :: u32)"
abbreviation (input) "RX_ELEM_BSR_Msk \<equiv> (0x100000 :: u32)"

fun copy_bytes :: "nat \<Rightarrow> nat \<Rightarrow> nat \<Rightarrow> memory \<Rightarrow> u8 list \<Rightarrow> u8 list" where
  "copy_bytes i 0 a m bs = bs"
| "copy_bytes i (Suc n) a m bs = copy_bytes (i + 1) n a m (bs[i := m (a + i)])"

text \<open>The element at address \<open>a\<close> is copied into \<open>msg\<close>; the length never exceeds 64.\<close>

definition CANFD_CopyDBufToMsgBuf :: "nat \<Rightarrow> memory \<Rightarrow> CANFD_FD_MSG_T \<Rightarrow> CANFD_FD_MSG_T" where
  "CANFD_CopyDBufToMsgBuf a m msg =
     (let idw = load32 a m; cfgw = load32 (a + 4) m;
          msg = msg\<lparr>bErrStaInd := (if idw AND RX_ELEM_ESI_Msk \<noteq> 0 then 1 else 0)\<rparr>;
          msg = (if idw AND RX_ELEM_XTD_Msk \<noteq> 0
                 then msg\<lparr>u32Id := idw AND RX_ELEM_ID_Msk, eIdType := eCANFD_XID\<rparr>
                 else msg\<lparr>u32Id := drop_bit 18 idw AND 0x7FF, eIdType := eCANFD_SID\<rparr>);
          msg = msg\<lparr>eFrmType := (if idw AND RX_ELEM_RTR_Msk \<noteq> 0 then eCANFD_REMOTE_FRM else eCANFD_DATA_FRM),
                    bFDFormat := (if cfgw AND RX_ELEM_FDF_Msk \<noteq> 0 then 1 else 0),
                    bBitRateSwitch := (if cfgw AND RX_ELEM_BSR_Msk \<noteq> 0 then 1 else 0),
                    u32DLC := ucast (CANFD_DecodeDLC (ucast (get_field 0xF 16 cfgw)))\<rparr>
      in msg\<lparr>au8Data := copy_bytes 0 (unat (u32DLC msg)) (a + 8) m (au8Data msg)\<rparr>)"

definition CANFD_CopyRxFifoToMsgBuf :: "nat \<Rightarrow> memory \<Rightarrow> CANFD_FD_MSG_T \<Rightarrow> CANFD_FD_MSG_T" where
  "CANFD_CopyRxFifoToMsgBuf a m msg = CANFD_CopyDBufToMsgBuf a m msg"

definition CANFD_ReadRxBufMsg :: "u8 \<Rightarrow> CANFD_FD_MSG_T \<Rightarrow> canfd \<Rightarrow> u32 \<times> CANFD_FD_MSG_T \<times> canfd" where
  "CANFD_ReadRxBufMsg u8MbIdx msg s =
     (if u8MbIdx < CANFD_MAX_RX_BUF_ELEMS then
        let r = regs s; i = unat u8MbIdx;
            newData = (if u8MbIdx < 32 then drop_bit i (NDAT1 r) AND 1
                       else drop_bit (i - 32) (NDAT2 r) AND 1)
        in if newData \<noteq> 0 then
             let a = sram_addr (port s) (unat (RXBC r AND 0xFFFF) + i * SIZEOF_CANFD_BUF_T);
                 msg = CANFD_CopyDBufToMsgBuf a (mem s) msg;
                 s = (if u8MbIdx < 32
                      then set_regs (\<lambda>r. write_NDAT1 (NDAT1 r OR push_bit i 1) r) s
                      else set_regs (\<lambda>r. write_NDAT2 (NDAT2 r OR push_bit (i - 32) 1) r) s)
             in (1, msg, s)
           else (0, msg, s)
      else (0, msg, s))"

text \<open>
  \<open>RXFnS\<close> is read three times, before the element is copied (fill level, get index) and after it
  has been acknowledged (message lost): \<open>rxfs\<close> are the three values.
\<close>

definition CANFD_ReadRxFifoMsg ::
  "u32 \<times> u32 \<times> u32 \<Rightarrow> u8 \<Rightarrow> CANFD_FD_MSG_T \<Rightarrow> canfd \<Rightarrow> u32 \<times> CANFD_FD_MSG_T \<times> canfd" where
  "CANFD_ReadRxFifoMsg rxfs u8FifoIdx msg s =
     (let (fill, get, lost) = rxfs; r = regs s
      in if ucast u8FifoIdx < CANFD_NUM_RX_FIFOS \<and> fill AND 0x7F > 0 then
           let GetIndex = ucast (drop_bit 8 get AND 0x3F) :: u8;
               pRXFC = (if u8FifoIdx = 0 then RXF0C r else RXF1C r);
               a = sram_addr (port s) (unat (pRXFC AND 0xFFFF) + unat GetIndex * SIZEOF_CANFD_BUF_T);
               msg = CANFD_CopyRxFifoToMsgBuf a (mem s) msg;
               s = set_regs (\<lambda>r. if u8FifoIdx = 0 then r\<lparr>RXF0A := ucast GetIndex\<rparr>
                                 else r\<lparr>RXF1A := ucast GetIndex\<rparr>) s
           in if lost AND 0x2000000 \<noteq> 0
              then (2, msg, set_regs (write_IR (push_bit (if u8FifoIdx = 0 then 3 else 7) 1)) s)
              else (1, msg, s)
         else (0, msg, s))"

definition CANFD_GetRxFifoWaterLvl :: "u32 \<Rightarrow> CANFD_T \<Rightarrow> u32" where
  "CANFD_GetRxFifoWaterLvl u32RxFifoNum r =
     (if u32RxFifoNum = 0 then get_field 0x7F 24 (RXF0C r) else get_field 0x7F 24 (RXF1C r))"

section \<open>Transmit events\<close>

definition CANFD_GetTxEvntFifoWaterLvl :: "CANFD_T \<Rightarrow> u32" where
  "CANFD_GetTxEvntFifoWaterLvl r = get_field 0x3F 24 (TXEFC r)"

text \<open>Without the base of the port and the offset of the message RAM, as the code has it.\<close>

definition CANFD_GetTxBufferElementAddress :: "u32 \<Rightarrow> CANFD_T \<Rightarrow> u32" where
  "CANFD_GetTxBufferElementAddress u32Idx r =
     (TXBC r AND SA_Msk) + u32Idx * elem_words (get_field 7 0 (TXESC r)) * 4"

definition CANFD_CopyTxEvntFifoToUsrBuf :: "u32 \<Rightarrow> canfd \<Rightarrow> CANFD_TX_EVNT_ELEM_T" where
  "CANFD_CopyTxEvntFifoToUsrBuf u32TxEvntNum s =
     (let a = unat (CANFD_GetTxBufferElementAddress u32TxEvntNum (regs s));
          w0 = load32 a (mem s); w1 = load32 (a + 4) (mem s);
          xtd = (w0 AND 0x40000000 \<noteq> 0)
      in \<lparr>evt_eIdType = (if xtd then eCANFD_XID else eCANFD_SID),
          evt_u32Id = (if xtd then w0 AND 0x1FFFFFFF else drop_bit 18 (w0 AND 0x1FFFFFFF)),
          evt_u32DLC = ucast (CANFD_DecodeDLC (ucast (get_field 0xF 16 w1))),
          u32TxTs = get_field 0xFFFF 0 w1,
          u32MsgMarker = get_field 0xFF 24 w1,
          evt_bErrStaInd = (if w0 AND 0x80000000 \<noteq> 0 then 1 else 0),
          bRemote = (if w0 AND 0x20000000 \<noteq> 0 then 1 else 0),
          evt_bFDFormat = (if w0 AND 0x200000 \<noteq> 0 then 1 else 0),
          evt_bBitRateSwitch = (if w0 AND 0x100000 \<noteq> 0 then 1 else 0)\<rparr>)"

end
