(* ===== verification/Canfd_Facts.thy ===== *)
theory Canfd_Facts
  imports Canfd
begin

text \<open>
  Lemmas about the CAN FD model: memory (words over bytes, \<open>CANFD_MemSet\<close> and the copy loops in
  closed form), the header words of an element and their decoding, the contract of the operations
  that set up a section of the message RAM, and the layout that
  \<open>CANFD_CalculateRamAddress\<close> computes.
\<close>

section \<open>Memory\<close>

named_theorems canfd_mem \<open>reads of the memory after a write\<close>

lemma load_store32 [canfd_mem]: "load32 a (store32 a w m) = w"
  unfolding load32_def store32_def
proof (rule bit_word_eqI)
  fix n :: nat
  assume "n < LENGTH(32)"
  then consider "n < 8" | "8 \<le> n" "n < 16" | "16 \<le> n" "n < 24" | "24 \<le> n" "n < 32" by fastforce
  then show "bit (ucast ((m(a := ucast w, a + 1 := ucast (drop_bit 8 w), a + 2 := ucast (drop_bit 16 w),
      a + 3 := ucast (drop_bit 24 w))) a) OR
      push_bit 8 (ucast ((m(a := ucast w, a + 1 := ucast (drop_bit 8 w), a + 2 := ucast (drop_bit 16 w),
      a + 3 := ucast (drop_bit 24 w))) (a + 1))) OR
      push_bit 16 (ucast ((m(a := ucast w, a + 1 := ucast (drop_bit 8 w), a + 2 := ucast (drop_bit 16 w),
      a + 3 := ucast (drop_bit 24 w))) (a + 2))) OR
      push_bit 24 (ucast ((m(a := ucast w, a + 1 := ucast (drop_bit 8 w), a + 2 := ucast (drop_bit 16 w),
      a + 3 := ucast (drop_bit 24 w))) (a + 3)) :: u32)) n = bit w n"
    by cases (auto simp: bit_simps)
qed

lemma store32_other [canfd_mem]: "x < a \<or> a + 4 \<le> x \<Longrightarrow> store32 a w m x = m x"
  by (auto simp: store32_def)

lemma load32_cong: "(\<And>x. a \<le> x \<Longrightarrow> x < a + 4 \<Longrightarrow> m x = m' x) \<Longrightarrow> load32 a m = load32 a m'"
  by (simp add: load32_def)

lemma load_store32_other [canfd_mem]:
  "b + 4 \<le> a \<or> a + 4 \<le> b \<Longrightarrow> load32 b (store32 a w m) = load32 b m"
  by (rule load32_cong) (auto simp: store32_other)

lemma CANFD_MemSet_eq [canfd_mem]:
  "CANFD_MemSet s c n m = (\<lambda>x. if s \<le> x \<and> x < s + n then c else m x)"
  by (induction n arbitrary: s m) (auto simp: fun_eq_iff)

lemma copy_words_eq:
  assumes "i + n \<le> 16" "length bs = 64"
  shows "copy_words i n bs a m =
           Inr (\<lambda>x. if a + 4 * i \<le> x \<and> x < a + 4 * (i + n) then bs ! (x - a) else m x)"
  using assms
proof (induction n arbitrary: i m)
  case (Suc n)
  define m' where "m' = m(a + 4 * i := bs ! (4 * i), a + 4 * i + 1 := bs ! (4 * i + 1),
                a + 4 * i + 2 := bs ! (4 * i + 2), a + 4 * i + 3 := bs ! (4 * i + 3))"
  have i: "i < 16" "4 * i + 3 < length bs" using Suc.prems by simp_all
  then have "copy_words i (Suc n) bs a m = copy_words (i + 1) n bs a m'"
    by (simp add: m'_def)
  also have "\<dots> = Inr (\<lambda>x. if a + 4 * (i + 1) \<le> x \<and> x < a + 4 * (i + 1 + n) then bs ! (x - a) else m' x)"
    by (rule Suc.IH) (use Suc.prems in simp_all)
  also have "\<dots> = Inr (\<lambda>x. if a + 4 * i \<le> x \<and> x < a + 4 * (i + Suc n) then bs ! (x - a) else m x)"
  proof -
    have "(if a + 4 * (i + 1) \<le> x \<and> x < a + 4 * (i + 1 + n) then bs ! (x - a) else m' x) =
          (if a + 4 * i \<le> x \<and> x < a + 4 * (i + Suc n) then bs ! (x - a) else m x)" for x
    proof (cases "a + 4 * i \<le> x \<and> x < a + 4 * (i + 1)")
      case True
      then consider "x = a + 4 * i" | "x = a + 4 * i + 1" | "x = a + 4 * i + 2" | "x = a + 4 * i + 3"
        by force
      then show ?thesis by cases (auto simp: m'_def)
    qed (auto simp: m'_def)
    then show ?thesis by simp
  qed
  finally show ?case .
qed (auto simp: fun_eq_iff)

lemma copy_words_overrun:
  assumes "16 < n" "length bs = 64"
  shows "copy_words 0 n bs a m = Inl Buffer_Overrun"
proof -
  have "copy_words i k bs a m = Inl Buffer_Overrun" if "16 < i + k" "i \<le> 16" for i k m
    using that assms(2) by (induction k arbitrary: i m) auto
  from this[of 0 n] assms show ?thesis by simp
qed

lemma length_copy_bytes [simp]: "length (copy_bytes i n a m bs) = length bs"
  by (induction i n a m bs rule: copy_bytes.induct) auto

lemma nth_copy_bytes:
  "k < length bs \<Longrightarrow>
   copy_bytes i n a m bs ! k = (if i \<le> k \<and> k < i + n then m (a + k) else bs ! k)"
  by (induction i n a m bs rule: copy_bytes.induct) (auto simp: nth_list_update le_Suc_eq not_less_eq_eq)

section \<open>Data length codes\<close>

lemma u8_cases: "P w" if "\<And>n. n < 256 \<Longrightarrow> P (of_nat n)" for w :: u8
proof -
  have "unat w < 256" using unsigned_less[of w, where ?'a = nat] by simp
  from that[OF this] show ?thesis by simp
qed

lemma DecodeDLC_le_64: "CANFD_DecodeDLC d \<le> 64"
  unfolding CANFD_DecodeDLC_def by (auto simp: word_le_nat_alt)

lemma EncodeDLC_le_15: "CANFD_EncodeDLC n \<le> 15"
  unfolding CANFD_EncodeDLC_def by (auto simp: word_le_nat_alt)

lemma DecodeDLC_mono: "d \<le> e \<Longrightarrow> CANFD_DecodeDLC d \<le> CANFD_DecodeDLC e"
  unfolding CANFD_DecodeDLC_def word_le_nat_alt word_unat_eq_iff by auto


section \<open>Header words\<close>

lemma and_bit_iff:
  "x AND 0x80000000 \<noteq> 0 \<longleftrightarrow> bit x 31" "x AND 0x40000000 \<noteq> 0 \<longleftrightarrow> bit x 30"
  "x AND 0x20000000 \<noteq> 0 \<longleftrightarrow> bit x 29" "x AND 0x200000 \<noteq> 0 \<longleftrightarrow> bit x 21"
  "x AND 0x100000 \<noteq> 0 \<longleftrightarrow> bit x 20" for x :: u32
  using and_exp_eq_0_iff_not_bit[of x 31] and_exp_eq_0_iff_not_bit[of x 30]
    and_exp_eq_0_iff_not_bit[of x 29] and_exp_eq_0_iff_not_bit[of x 21]
    and_exp_eq_0_iff_not_bit[of x 20]
  by simp_all

lemma header_masks:
  "(0x1FFFFFFF :: u32) = mask 29" "(0x7FF :: u32) = mask 11" "(0xF :: u32) = mask 4"
  by (simp_all add: mask_eq_exp_minus_1)

lemma bit_flag_iff [simp]:
  "bit (0x40000000 :: int) n \<longleftrightarrow> n = 30" "bit (0x20000000 :: int) n \<longleftrightarrow> n = 29"
  "bit (0x200000 :: int) n \<longleftrightarrow> n = 21" "bit (0x100000 :: int) n \<longleftrightarrow> n = 20"
  using bit_exp_iff[where ?'a = int, of 30 n] bit_exp_iff[where ?'a = int, of 29 n]
    bit_exp_iff[where ?'a = int, of 21 n] bit_exp_iff[where ?'a = int, of 20 n]
  by auto

lemma tx_id_word_bits:
  "\<not> bit (tx_id_word m) 31"
  "bit (tx_id_word m) 30 \<longleftrightarrow> eIdType m = eCANFD_XID"
  "bit (tx_id_word m) 29 \<longleftrightarrow> eFrmType m = eCANFD_REMOTE_FRM"
  unfolding tx_id_word_def header_masks Let_def
  by (auto simp: bit_simps)

lemma tx_id_word_XID:
  "eIdType m = eCANFD_XID \<Longrightarrow> tx_id_word m AND 0x1FFFFFFF = u32Id m AND 0x1FFFFFFF"
  unfolding tx_id_word_def header_masks Let_def
  by (rule bit_word_eqI) (auto simp: bit_simps)

lemma tx_id_word_SID:
  "eIdType m = eCANFD_SID \<Longrightarrow> drop_bit 18 (tx_id_word m) AND 0x7FF = u32Id m AND 0x7FF"
  unfolding tx_id_word_def header_masks Let_def
  by (rule bit_word_eqI) (auto simp: bit_simps)

lemma u8_le_15_bits: "bit w n \<Longrightarrow> n < 4" if "w \<le> 15" for w :: u8
proof -
  assume b: "bit w n"
  have "w AND mask 4 = w"
    using that by (intro less_mask_eq) (simp add: word_less_nat_alt word_le_nat_alt)
  with b show "n < 4" by (metis bit_and_iff bit_mask_iff)
qed

lemma tx_config_word_bits:
  "bit (tx_config_word m) 21 \<longleftrightarrow> bFDFormat m \<noteq> 0"
  "bit (tx_config_word m) 20 \<longleftrightarrow> bBitRateSwitch m \<noteq> 0"
  "ucast (get_field 0xF 16 (tx_config_word m)) = CANFD_EncodeDLC (ucast (u32DLC m))"
proof -
  note low = u8_le_15_bits[OF EncodeDLC_le_15]
  show "bit (tx_config_word m) 21 \<longleftrightarrow> bFDFormat m \<noteq> 0"
    "bit (tx_config_word m) 20 \<longleftrightarrow> bBitRateSwitch m \<noteq> 0"
    unfolding tx_config_word_def header_masks Let_def by (auto simp: bit_simps dest: low)
  show "ucast (get_field 0xF 16 (tx_config_word m)) = CANFD_EncodeDLC (ucast (u32DLC m))"
    unfolding tx_config_word_def get_field_def header_masks Let_def
    by (rule bit_word_eqI) (auto simp: bit_simps dest: low)
qed

section \<open>Layout of the message RAM\<close>

text \<open>
  The sizes in bytes of the sections that \<open>CANFD_Open\<close> clears, in the order of the layout, and where section \<open>i\<close> starts. The
  seventh section, of the transmit events, is behind them; the code configures it, but does not clear it.
\<close>

definition section_sizes :: "CANFD_ELEM_SIZE_T \<Rightarrow> nat list" where
  "section_sizes sz =
     [unat (u32SIDFC sz) * 4, unat (u32XIDFC sz) * 8, unat (u32TxBuf sz) * 72,
      unat (u32RxBuf sz) * 72, unat (u32RxFifo0 sz) * 72, unat (u32RxFifo1 sz) * 72]"

definition section_start :: "CANFD_ELEM_SIZE_T \<Rightarrow> nat \<Rightarrow> nat" where
  "section_start sz i = sum_list (take i (section_sizes sz))"

lemma CalculateRamAddress_fields:
  "u32SIDFC sz > 0 \<Longrightarrow> u32SIDFC_FLSSA (CANFD_CalculateRamAddress sz a) = 0"
  "u32XIDFC sz > 0 \<Longrightarrow> u32XIDFC_FLESA (CANFD_CalculateRamAddress sz a) = u32SIDFC sz * 4"
  "u32TxBuf sz > 0 \<Longrightarrow> u32TXBC_TBSA (CANFD_CalculateRamAddress sz a) =
     u32SIDFC sz * 4 + u32XIDFC sz * 8"
  "u32RxBuf sz > 0 \<Longrightarrow> u32RXBC_RBSA (CANFD_CalculateRamAddress sz a) =
     u32SIDFC sz * 4 + u32XIDFC sz * 8 + u32TxBuf sz * 72"
  "u32RxFifo0 sz > 0 \<Longrightarrow> u32RXF0C_F0SA (CANFD_CalculateRamAddress sz a) =
     u32SIDFC sz * 4 + u32XIDFC sz * 8 + u32TxBuf sz * 72 + u32RxBuf sz * 72"
  "u32RxFifo1 sz > 0 \<Longrightarrow> u32RXF1C_F1SA (CANFD_CalculateRamAddress sz a) =
     u32SIDFC sz * 4 + u32XIDFC sz * 8 + u32TxBuf sz * 72 + u32RxBuf sz * 72 + u32RxFifo0 sz * 72"
  "u32TxEventFifo sz > 0 \<Longrightarrow> u32TXEFC_EFSA (CANFD_CalculateRamAddress sz a) =
     u32SIDFC sz * 4 + u32XIDFC sz * 8 + u32TxBuf sz * 72 + u32RxBuf sz * 72 + u32RxFifo0 sz * 72
     + u32RxFifo1 sz * 72"
  unfolding CANFD_CalculateRamAddress_def Let_def by (auto simp: word_gt_0)

text \<open>A sum of element sizes that fits into the message RAM does not wrap.\<close>

lemma unat_scale:
  "unat n * unat c < 2 ^ 32 \<Longrightarrow> unat (n * c) = unat n * unat c" for n c :: u32
  by (rule unat_mult_nowrap) simp

lemma unat_sum_scale:
  fixes s n c :: u32
  assumes "unat s + unat n * unat c < 2 ^ 32"
  shows "unat (s + n * c) = unat s + unat n * unat c"
proof -
  have "unat (n * c) = unat n * unat c" using assms by (intro unat_scale) simp
  with assms show ?thesis by (simp add: unat_add_nowrap)
qed

lemma CalculateRamAddress_starts:
  fixes a0 :: CANFD_RAM_PART_T
  assumes "sum_list (section_sizes sz) < 2 ^ 16"
  defines "a \<equiv> CANFD_CalculateRamAddress sz a0"
  shows "u32SIDFC sz > 0 \<Longrightarrow> unat (u32SIDFC_FLSSA a) = section_start sz 0"
    and "u32XIDFC sz > 0 \<Longrightarrow> unat (u32XIDFC_FLESA a) = section_start sz 1"
    and "u32TxBuf sz > 0 \<Longrightarrow> unat (u32TXBC_TBSA a) = section_start sz 2"
    and "u32RxBuf sz > 0 \<Longrightarrow> unat (u32RXBC_RBSA a) = section_start sz 3"
    and "u32RxFifo0 sz > 0 \<Longrightarrow> unat (u32RXF0C_F0SA a) = section_start sz 4"
    and "u32RxFifo1 sz > 0 \<Longrightarrow> unat (u32RXF1C_F1SA a) = section_start sz 5"
    and "u32TxEventFifo sz > 0 \<Longrightarrow> unat (u32TXEFC_EFSA a) = section_start sz 6"
proof -
  let ?n = "\<lambda>f. unat (f sz)"
  have le: "?n u32SIDFC * 4 + ?n u32XIDFC * 8 + ?n u32TxBuf * 72 + ?n u32RxBuf * 72
            + ?n u32RxFifo0 * 72 + ?n u32RxFifo1 * 72 < 2 ^ 16"
    using assms(1) by (simp add: section_sizes_def)
  have o1: "unat (u32SIDFC sz * 4) = ?n u32SIDFC * 4"
    using le by (subst unat_scale) simp_all
  have o2: "unat (u32SIDFC sz * 4 + u32XIDFC sz * 8) = ?n u32SIDFC * 4 + ?n u32XIDFC * 8"
    using le by (subst unat_sum_scale) (simp_all add: o1)
  have o3: "unat (u32SIDFC sz * 4 + u32XIDFC sz * 8 + u32TxBuf sz * 72) =
            ?n u32SIDFC * 4 + ?n u32XIDFC * 8 + ?n u32TxBuf * 72"
    using le by (subst unat_sum_scale) (simp_all add: o2)
  have o4: "unat (u32SIDFC sz * 4 + u32XIDFC sz * 8 + u32TxBuf sz * 72 + u32RxBuf sz * 72) =
            ?n u32SIDFC * 4 + ?n u32XIDFC * 8 + ?n u32TxBuf * 72 + ?n u32RxBuf * 72"
    using le by (subst unat_sum_scale) (simp_all add: o3)
  have o5: "unat (u32SIDFC sz * 4 + u32XIDFC sz * 8 + u32TxBuf sz * 72 + u32RxBuf sz * 72
                  + u32RxFifo0 sz * 72) =
            ?n u32SIDFC * 4 + ?n u32XIDFC * 8 + ?n u32TxBuf * 72 + ?n u32RxBuf * 72
            + ?n u32RxFifo0 * 72"
    using le by (subst unat_sum_scale) (simp_all add: o4)
  have o6: "unat (u32SIDFC sz * 4 + u32XIDFC sz * 8 + u32TxBuf sz * 72 + u32RxBuf sz * 72
                  + u32RxFifo0 sz * 72 + u32RxFifo1 sz * 72) =
            ?n u32SIDFC * 4 + ?n u32XIDFC * 8 + ?n u32TxBuf * 72 + ?n u32RxBuf * 72
            + ?n u32RxFifo0 * 72 + ?n u32RxFifo1 * 72"
    using le by (subst unat_sum_scale) (simp_all add: o5)
  note offs = o1 o2 o3 o4 o5 o6 section_start_def section_sizes_def CalculateRamAddress_fields a_def
  show "u32SIDFC sz > 0 \<Longrightarrow> unat (u32SIDFC_FLSSA a) = section_start sz 0"
    and "u32XIDFC sz > 0 \<Longrightarrow> unat (u32XIDFC_FLESA a) = section_start sz 1"
    and "u32TxBuf sz > 0 \<Longrightarrow> unat (u32TXBC_TBSA a) = section_start sz 2"
    and "u32RxBuf sz > 0 \<Longrightarrow> unat (u32RXBC_RBSA a) = section_start sz 3"
    and "u32RxFifo0 sz > 0 \<Longrightarrow> unat (u32RXF0C_F0SA a) = section_start sz 4"
    and "u32RxFifo1 sz > 0 \<Longrightarrow> unat (u32RXF1C_F1SA a) = section_start sz 5"
    and "u32TxEventFifo sz > 0 \<Longrightarrow> unat (u32TXEFC_EFSA a) = section_start sz 6"
    by (simp_all add: offs)
qed

text \<open>
  Start and size in bytes of every section that is not empty, the transmit events included, in the order of the addresses: the start
  comes from the addresses, the size from the number of elements of 4, 8 and 72 bytes.
\<close>

definition ram_sections :: "CANFD_ELEM_SIZE_T \<Rightarrow> CANFD_RAM_PART_T \<Rightarrow> (nat \<times> nat) list" where
  "ram_sections sz a = filter (\<lambda>(p, n). 0 < n)
     [(unat (u32SIDFC_FLSSA a), unat (u32SIDFC sz) * 4), (unat (u32XIDFC_FLESA a), unat (u32XIDFC sz) * 8),
      (unat (u32TXBC_TBSA a), unat (u32TxBuf sz) * 72), (unat (u32RXBC_RBSA a), unat (u32RxBuf sz) * 72),
      (unat (u32RXF0C_F0SA a), unat (u32RxFifo0 sz) * 72), (unat (u32RXF1C_F1SA a), unat (u32RxFifo1 sz) * 72),
      (unat (u32TXEFC_EFSA a), unat (u32TxEventFifo sz) * 8)]"

lemma ram_sections_sorted:
  assumes "sum_list (section_sizes sz) < 2 ^ 16"
  shows "sorted_wrt (\<lambda>(p, n) (q, k). p + n \<le> q) (ram_sections sz (CANFD_CalculateRamAddress sz a0))"
proof -
  have pos: "unat x * c > 0 \<Longrightarrow> x > 0" for x :: u32 and c :: nat by (simp add: word_less_nat_alt)
  have "ram_sections sz (CANFD_CalculateRamAddress sz a0) = filter (\<lambda>(p, n). 0 < n)
     [(section_start sz 0, unat (u32SIDFC sz) * 4), (section_start sz 1, unat (u32XIDFC sz) * 8),
      (section_start sz 2, unat (u32TxBuf sz) * 72), (section_start sz 3, unat (u32RxBuf sz) * 72),
      (section_start sz 4, unat (u32RxFifo0 sz) * 72), (section_start sz 5, unat (u32RxFifo1 sz) * 72),
      (section_start sz 6, unat (u32TxEventFifo sz) * 8)]"
    unfolding ram_sections_def using CalculateRamAddress_starts[OF assms, of a0] pos by simp
  moreover have "sorted_wrt (\<lambda>(p, n) (q, k). p + n \<le> q)
     [(section_start sz 0, unat (u32SIDFC sz) * 4), (section_start sz 1, unat (u32XIDFC sz) * 8),
      (section_start sz 2, unat (u32TxBuf sz) * 72), (section_start sz 3, unat (u32RxBuf sz) * 72),
      (section_start sz 4, unat (u32RxFifo0 sz) * 72), (section_start sz 5, unat (u32RxFifo1 sz) * 72),
      (section_start sz 6, unat (u32TxEventFifo sz) * 8)]"
    by (simp add: section_start_def section_sizes_def)
  ultimately show ?thesis by (simp only: sorted_wrt_filter)
qed

lemma default_sections_fit:
  "\<forall>(p, n) \<in> set (ram_sections (sElemSize (CANFD_GetDefaultConfig mode)) (sMRamStartAddr (CANFD_GetDefaultConfig mode))).
     p + n \<le> unat (u32MRamSize (CANFD_GetDefaultConfig mode))"
proof -
  let ?sz = "sElemSize (CANFD_GetDefaultConfig mode)"
  have "section_sizes ?sz = [16, 32, 576, 2304, 2304, 2304]"
    by (simp add: section_sizes_def CANFD_GetDefaultConfig_def zero_config_def Let_def)
  then show ?thesis
    using CalculateRamAddress_starts[of ?sz "sMRamStartAddr zero_config"]
    by (simp add: section_start_def CANFD_GetDefaultConfig_def zero_config_def Let_def ram_sections_def)
qed

section \<open>Setting up sections\<close>

text \<open>
  The contract of the operations that configure a section of the message RAM: they keep the port and
  clear the \<open>len\<close> bytes from offset \<open>start\<close>, nothing else of the memory.
\<close>

locale canfd_section =
  fixes init :: "canfd \<Rightarrow> canfd" and start :: nat and len :: nat
  assumes port_init: "port (init s) = port s"
    and mem_init: "mem (init s) = CANFD_MemSet (sram_addr (port s) start) 0 len (mem s)"
begin

lemma cleared:
  assumes "start \<le> k" "k < start + len"
  shows "mem (init s) (sram_addr (port s) k) = 0"
  using assms by (simp add: mem_init canfd_mem sram_addr_def)

lemma untouched:
  assumes "x < sram_addr (port s) start \<or> sram_addr (port s) (start + len) \<le> x"
  shows "mem (init s) x = mem s x"
  using assms by (auto simp: mem_init canfd_mem sram_addr_def)

text \<open>A section that starts where the cleared bytes end extends them.\<close>

lemma extends:
  assumes "port s = p" "mem s = CANFD_MemSet (sram_addr p 0) 0 start m"
  shows "port (init s) = p \<and> mem (init s) = CANFD_MemSet (sram_addr p 0) 0 (start + len) m"
  using assms by (auto simp: port_init mem_init canfd_mem sram_addr_def fun_eq_iff)

end

lemma port_clear_ram [simp]: "port (clear_ram off n s) = port s"
  and port_set_regs [simp]: "port (set_regs f s) = port s"
  and mem_set_regs [simp]: "mem (set_regs f s) = mem s"
  and regs_clear_ram [simp]: "regs (clear_ram off n s) = regs s"
  and regs_set_regs [simp]: "regs (set_regs f s) = f (regs s)"
  and mem_clear_ram: "mem (clear_ram off n s) = CANFD_MemSet (sram_addr (port s) (unat off)) 0 (unat n) (mem s)"
  by (simp_all add: clear_ram_def set_regs_def)

lemmas section_defs = CANFD_ConfigSIDFC_def CANFD_ConfigXIDFC_def CANFD_InitTxDBuf_def
  CANFD_InitRxDBuf_def CANFD_InitRxFifo_def

interpretation sidfc: canfd_section "CANFD_ConfigSIDFC a sz" "unat (u32SIDFC_FLSSA a AND 0xFFFC)"
    "unat (u32SIDFC sz * 4)" for a sz
  by unfold_locales (simp_all add: section_defs mem_clear_ram)

interpretation xidfc: canfd_section "CANFD_ConfigXIDFC a sz" "unat (u32XIDFC_FLESA a AND 0xFFFC)"
    "unat (u32XIDFC sz * 8)" for a sz
  by unfold_locales (simp_all add: section_defs mem_clear_ram)

interpretation txbuf: canfd_section "CANFD_InitTxDBuf a sz e" "unat (u32TXBC_TBSA a AND 0xFFFC)"
    "unat (elem_words (field_size_code e) * 4 * u32TxBuf sz)" for a sz e
  by unfold_locales (simp_all add: section_defs mem_clear_ram)

interpretation rxbuf: canfd_section "CANFD_InitRxDBuf a sz e" "unat (u32RXBC_RBSA a AND 0xFFFC)"
    "unat (elem_words (field_size_code e) * 4 * u32RxBuf sz)" for a sz e
  by unfold_locales (simp_all add: section_defs mem_clear_ram)

text \<open>A receive FIFO is set up only when both element counts are at most 64.\<close>

definition fifo_guard :: "CANFD_ELEM_SIZE_T \<Rightarrow> bool" where
  "fifo_guard sz \<longleftrightarrow> u32RxFifo0 sz \<le> 64 \<and> u32RxFifo1 sz \<le> 64"

interpretation rxfifo0: canfd_section "CANFD_InitRxFifo 0 a sz wm e" "unat (u32RXF0C_F0SA a AND 0xFFFC)"
    "if fifo_guard sz then unat (elem_words (field_size_code e) * 4 * u32RxFifo0 sz) else 0" for a sz wm e
  by unfold_locales (auto simp: section_defs mem_clear_ram fifo_guard_def not_less)

interpretation rxfifo1: canfd_section "CANFD_InitRxFifo 1 a sz wm e" "unat (u32RXF1C_F1SA a AND 0xFFFC)"
    "if fifo_guard sz then unat (elem_words (field_size_code e) * 4 * u32RxFifo1 sz) else 0" for a sz wm e
  by unfold_locales (auto simp: section_defs mem_clear_ram fifo_guard_def not_less)

lemma elem_words_64 [simp]: "elem_words 7 = 18"
  by (simp add: elem_words_def)

lemma bit_sa_mask: "bit (0xFFFC :: u32) n \<longleftrightarrow> 2 \<le> n \<and> n < 16"
proof -
  have "(0xFFFC :: u32) = push_bit 2 (mask 14)" by (simp add: mask_eq_exp_minus_1)
  then show ?thesis by (auto simp only: bit_simps)  (simp_all)
qed

lemma sa_aligned:
  fixes w :: u32
  assumes "unat w < 2 ^ 16" "unat w mod 4 = 0"
  shows "w AND 0xFFFC = w"
proof -
  have "w < 2 ^ 16" using assms(1) by (simp add: word_less_nat_alt)
  then have 16: "take_bit 16 w = w" unfolding take_bit_eq_mask by (rule less_mask_eq)
  have 2: "take_bit 2 w = 0"
    using assms(2) by (simp add: take_bit_eq_mod word_unat_eq_iff unat_mod)
  have "2 \<le> n \<and> n < 16" if "bit w n" for n
    using that bit_take_bit_iff[of 16 w n] bit_take_bit_iff[of 2 w n] 16 2 by auto
  then show ?thesis by (intro bit_word_eqI) (auto simp only: bit_and_iff bit_sa_mask)
qed

text \<open>
  Setting up all sections of a computed layout clears the bytes of the message RAM from its start to
  the end of the last section, and no other byte.
\<close>

lemma length_section_sizes [simp]: "length (section_sizes sz) = 6"
  by (simp add: section_sizes_def)

lemma section_start_Suc:
  "i < 6 \<Longrightarrow> section_start sz (Suc i) = section_start sz i + section_sizes sz ! i"
  by (simp add: section_start_def take_Suc_conv_app_nth)

lemma section_start_le: "section_start sz i \<le> sum_list (section_sizes sz)"
proof -
  have "sum_list (take i (section_sizes sz)) + sum_list (drop i (section_sizes sz)) = sum_list (section_sizes sz)"
    unfolding sum_list_append[symmetric] append_take_drop_id ..
  then show ?thesis by (simp add: section_start_def)
qed

lemma section_start_aligned: "section_start sz i mod 4 = 0"
proof -
  have dvd: "4 dvd sum_list xs" if "\<forall>x \<in> set xs. 4 dvd x" for xs :: "nat list"
    using that by (induction xs) auto
  have "4 dvd sum_list (take i (section_sizes sz))"
    by (rule dvd) (auto simp: section_sizes_def dest!: in_set_takeD)
  then show ?thesis by (simp add: section_start_def)
qed

lemma section_start_masked:
  fixes w :: u32
  assumes "sum_list (section_sizes sz) < 2 ^ 16" "unat w = section_start sz i"
  shows "unat (w AND 0xFFFC) = section_start sz i"
  using sa_aligned[of w] assms section_start_le[of sz i] section_start_aligned[of sz i] by simp

lemma section_bytes_nowrap:
  assumes "sum_list (section_sizes sz) < 2 ^ 16"
  shows "unat (u32SIDFC sz * 4) = section_sizes sz ! 0"
    "unat (u32XIDFC sz * 8) = section_sizes sz ! 1"
    "unat (18 * 4 * u32TxBuf sz) = section_sizes sz ! 2"
    "unat (18 * 4 * u32RxBuf sz) = section_sizes sz ! 3"
    "unat (18 * 4 * u32RxFifo0 sz) = section_sizes sz ! 4"
    "unat (18 * 4 * u32RxFifo1 sz) = section_sizes sz ! 5"
  using assms unat_scale[of _ "4"] unat_scale[of _ "8"] unat_scale[of _ "72"]
  by (simp_all add: section_sizes_def mult.commute[of 72])

lemma extends_guarded:
  assumes "port t = p \<and> mem t = CANFD_MemSet (sram_addr p 0) 0 (section_start sz i) m" "i < 6"
    and "b \<Longrightarrow> canfd_section f (section_start sz i) (section_sizes sz ! i)"
    and "\<not> b \<Longrightarrow> section_sizes sz ! i = 0"
  shows "port (if b then f t else t) = p \<and>
         mem (if b then f t else t) = CANFD_MemSet (sram_addr p 0) 0 (section_start sz (Suc i)) m"
  using assms canfd_section.extends[of f "section_start sz i" "section_sizes sz ! i" t p m]
  by (auto simp: section_start_Suc)

lemma computed_sections:
  assumes fits: "sum_list (section_sizes sz) < 2 ^ 16" and guard: "fifo_guard sz"
    and a: "a = CANFD_CalculateRamAddress sz a0"
  shows "u32SIDFC sz \<noteq> 0 \<Longrightarrow> canfd_section (CANFD_ConfigSIDFC a sz) (section_start sz 0) (section_sizes sz ! 0)"
    and "u32XIDFC sz \<noteq> 0 \<Longrightarrow> canfd_section (CANFD_ConfigXIDFC a sz) (section_start sz 1) (section_sizes sz ! 1)"
    and "u32TxBuf sz \<noteq> 0 \<Longrightarrow>
      canfd_section (CANFD_InitTxDBuf a sz eCANFD_BYTE64) (section_start sz 2) (section_sizes sz ! 2)"
    and "u32RxBuf sz \<noteq> 0 \<Longrightarrow>
      canfd_section (CANFD_InitRxDBuf a sz eCANFD_BYTE64) (section_start sz 3) (section_sizes sz ! 3)"
    and "u32RxFifo0 sz \<noteq> 0 \<Longrightarrow>
      canfd_section (CANFD_InitRxFifo 0 a sz wm eCANFD_BYTE64) (section_start sz 4) (section_sizes sz ! 4)"
    and "u32RxFifo1 sz \<noteq> 0 \<Longrightarrow>
      canfd_section (CANFD_InitRxFifo 1 a sz wm eCANFD_BYTE64) (section_start sz 5) (section_sizes sz ! 5)"
  using sidfc.canfd_section_axioms[of a sz] xidfc.canfd_section_axioms[of a sz]
    txbuf.canfd_section_axioms[of a sz eCANFD_BYTE64] rxbuf.canfd_section_axioms[of a sz eCANFD_BYTE64]
    rxfifo0.canfd_section_axioms[of a sz wm eCANFD_BYTE64]
    rxfifo1.canfd_section_axioms[of a sz wm eCANFD_BYTE64] guard
  by (simp_all add: section_start_masked[OF fits] section_bytes_nowrap[OF fits, simplified]
      CalculateRamAddress_starts[OF fits, of a0, folded a] word_gt_0)

lemma open_sections_mem:
  assumes "sum_list (section_sizes (sElemSize cfg)) < 2 ^ 16" "fifo_guard (sElemSize cfg)"
    and "sMRamStartAddr cfg = CANFD_CalculateRamAddress (sElemSize cfg) a0"
  shows "mem (open_sections cfg s) =
           CANFD_MemSet (sram_addr (port s) 0) 0 (sum_list (section_sizes (sElemSize cfg))) (mem s)"
proof -
  define sz where "sz = sElemSize cfg"
  define a where "a = sMRamStartAddr cfg"
  define ok where "ok i t \<longleftrightarrow> port t = port s \<and>
    mem t = CANFD_MemSet (sram_addr (port s) 0) 0 (section_start sz i) (mem s)" for i and t :: canfd
  note secs = computed_sections[OF assms, folded sz_def a_def]
  have step: "ok i t \<Longrightarrow> i < 6 \<Longrightarrow> j = Suc i \<Longrightarrow> (b \<Longrightarrow> canfd_section f (section_start sz i) (section_sizes sz ! i)) \<Longrightarrow>
    (\<not> b \<Longrightarrow> section_sizes sz ! i = 0) \<Longrightarrow> ok j (if b then f t else t)" for i j t b f
    unfolding ok_def by (simp only:) (rule extends_guarded)
  define t1 where "t1 = (if u32SIDFC sz \<noteq> 0 then CANFD_ConfigSIDFC a sz s else s)"
  define t2 where "t2 = (if u32XIDFC sz \<noteq> 0 then CANFD_ConfigXIDFC a sz t1 else t1)"
  define t3 where "t3 = (if u32TxBuf sz \<noteq> 0 then CANFD_InitTxDBuf a sz eCANFD_BYTE64 t2 else t2)"
  define t4 where "t4 = (if u32RxBuf sz \<noteq> 0 then CANFD_InitRxDBuf a sz eCANFD_BYTE64 t3 else t3)"
  define t5 where "t5 = (if u32RxFifo0 sz \<noteq> 0 then CANFD_InitRxFifo 0 a sz 0 eCANFD_BYTE64 t4 else t4)"
  define t6 where "t6 = (if u32RxFifo1 sz \<noteq> 0 then CANFD_InitRxFifo 1 a sz 0 eCANFD_BYTE64 t5 else t5)"
  have "ok 0 s" by (simp add: ok_def section_start_def)
  then have "ok 1 t1"
    unfolding t1_def by (rule step[OF _ _ _ secs(1)]) (simp_all add: section_sizes_def)
  then have "ok 2 t2"
    unfolding t2_def by (rule step[OF _ _ _ secs(2)]) (simp_all add: section_sizes_def)
  then have "ok 3 t3"
    unfolding t3_def by (rule step[OF _ _ _ secs(3)]) (simp_all add: section_sizes_def)
  then have "ok 4 t4"
    unfolding t4_def by (rule step[OF _ _ _ secs(4)]) (simp_all add: section_sizes_def)
  then have "ok 5 t5"
    unfolding t5_def by (rule step[OF _ _ _ secs(5)]) (simp_all add: section_sizes_def)
  then have "ok 6 t6"
    unfolding t6_def by (rule step[OF _ _ _ secs(6)]) (simp_all add: section_sizes_def)
  moreover have "section_start sz 6 = sum_list (section_sizes sz)" by (simp add: section_start_def)
  moreover have "mem (open_sections cfg s) = mem t6"
    unfolding open_sections_def Let_def sz_def[symmetric] a_def[symmetric] t1_def[symmetric]
      t2_def[symmetric] t3_def[symmetric] t4_def[symmetric] t5_def[symmetric] t6_def[symmetric]
    by (simp add: CANFD_InitTxEvntFifo_def)
  ultimately show ?thesis by (simp add: ok_def sz_def)
qed

text \<open>The transmit section is the one that the transmit functions address.\<close>

lemma InitRxFifo_keeps [simp]: "TXBC (regs (CANFD_InitRxFifo n a sz wm e s)) = TXBC (regs s)"
  "CCCR (regs (CANFD_InitRxFifo n a sz wm e s)) = CCCR (regs s)"
  by (simp_all add: CANFD_InitRxFifo_def)

lemma open_sections_TXBC:
  "u32TxBuf (sElemSize cfg) \<noteq> 0 \<Longrightarrow>
   TXBC (regs (open_sections cfg s)) =
     push_bit 16 (u32TxBuf (sElemSize cfg) AND 0x3F) OR (u32TXBC_TBSA (sMRamStartAddr cfg) AND 0xFFFC)"
  by (simp add: open_sections_def Let_def CANFD_InitTxDBuf_def CANFD_InitRxDBuf_def CANFD_InitTxEvntFifo_def)

lemma open_sections_CCCR: "CCCR (regs (open_sections cfg s)) = CCCR (regs s)"
  by (simp add: open_sections_def Let_def section_defs CANFD_InitTxEvntFifo_def)

lemma port_section [simp]:
  "port (CANFD_ConfigSIDFC a sz s) = port s" "port (CANFD_ConfigXIDFC a sz s) = port s"
  "port (CANFD_InitTxDBuf a sz e s) = port s" "port (CANFD_InitRxDBuf a sz e s) = port s"
  "port (CANFD_InitRxFifo n a sz wm e s) = port s" "port (CANFD_InitTxEvntFifo a sz wm s) = port s"
  by (simp_all add: section_defs CANFD_InitTxEvntFifo_def)

lemma open_sections_port: "port (open_sections cfg s) = port s"
  by (simp add: open_sections_def Let_def)

lemma bit_lo16: "bit (0xFFFF :: u32) n \<longleftrightarrow> n < 16"
proof -
  have "(0xFFFF :: u32) = mask 16" by (simp add: mask_eq_exp_minus_1)
  then show ?thesis by (auto simp only: bit_mask_iff) simp
qed

lemma sa_field: "(push_bit 16 x OR (w AND 0xFFFC)) AND 0xFFFF = w AND 0xFFFC" for x w :: u32
  by (rule bit_word_eqI) (auto simp only: bit_and_iff bit_or_iff bit_push_bit_iff bit_sa_mask bit_lo16)

lemma tx_buf_addr_section:
  assumes "TXBC (regs t) = push_bit 16 x OR (w AND 0xFFFC)"
  shows "tx_buf_addr t i = sram_addr (port t) (unat (w AND 0xFFFC) + 72 * unat i)"
  using assms by (simp add: tx_buf_addr_def sa_field mult.commute)

section \<open>Transmission and reception\<close>

text \<open>The memory after a message has been written to the element at \<open>a\<close>.\<close>

definition tx_mem :: "nat \<Rightarrow> CANFD_FD_MSG_T \<Rightarrow> memory \<Rightarrow> memory" where
  "tx_mem a msg m =
     (\<lambda>x. if a + 8 \<le> x \<and> x < a + 8 + 4 * unat ((u32DLC msg + 3) div 4) then au8Data msg ! (x - (a + 8))
          else store32 (a + 4) (tx_config_word msg) (store32 a (tx_id_word msg) m) x)"

lemma tx_words:
  assumes "u32DLC msg \<le> 64"
  shows "unat ((u32DLC msg + 3) div 4) = (unat (u32DLC msg) + 3) div 4" "unat ((u32DLC msg + 3) div 4) \<le> 16"
proof -
  have "unat (u32DLC msg + 3) = unat (u32DLC msg) + 3"
    using assms by (subst unat_add_nowrap) (auto simp: word_le_nat_alt)
  then show "unat ((u32DLC msg + 3) div 4) = (unat (u32DLC msg) + 3) div 4"
    by (simp add: unat_div)
  then show "unat ((u32DLC msg + 3) div 4) \<le> 16" using assms by (simp add: word_le_nat_alt)
qed

lemma copy_tx:
  assumes "u32DLC msg \<le> 64" "length (au8Data msg) = 64"
  shows "copy_words 0 (unat ((u32DLC msg + 3) div 4)) (au8Data msg) (a + 8)
           (store32 (a + 4) (tx_config_word msg) (store32 a (tx_id_word msg) m)) = Inr (tx_mem a msg m)"
  using copy_words_eq[of 0 "unat ((u32DLC msg + 3) div 4)" "au8Data msg" "a + 8"] tx_words(2)[OF assms(1)] assms(2)
  by (simp add: tx_mem_def)

definition tx_free :: "u32 \<Rightarrow> CANFD_T \<Rightarrow> bool" where
  "tx_free i r \<longleftrightarrow> i < 32 \<and> TXBRP r AND push_bit (unat i) 1 = 0"

text \<open>Result of the wait for an idle bus.\<close>

definition bus_wait :: "u32 \<Rightarrow> u32 \<Rightarrow> u32 list \<Rightarrow> canfd_fault + bool" where
  "bus_wait sys_1f0 SystemCoreClock psrs =
     (if chip_rev_a sys_1f0 then wait_idle (SystemCoreClock div 100) psrs else Inr True)"

lemma TransmitDMsg_free:
  assumes "tx_free i (regs s)" "u32DLC msg \<le> 64" "length (au8Data msg) = 64"
  shows "CANFD_TransmitDMsg chip clk psrs i msg s =
    sbind (bus_wait chip clk psrs) (\<lambda>idle.
      let t = s\<lparr>mem := tx_mem (tx_buf_addr s i) msg (mem s)\<rparr>
      in if idle then Inr (1, set_regs (\<lambda>r. r\<lparr>TXBAR := push_bit (unat i) 1\<rparr>) t) else Inr (0, t))"
  unfolding CANFD_TransmitDMsg_def Let_def copy_tx[OF assms(2,3)] sbind.simps bus_wait_def
  using assms(1) unfolding tx_free_def by (auto dest: leD)

lemma tx_mem_words:
  "load32 a (tx_mem a msg m) = tx_id_word msg" "load32 (a + 4) (tx_mem a msg m) = tx_config_word msg"
proof -
  let ?m = "store32 (a + 4) (tx_config_word msg) (store32 a (tx_id_word msg) m)"
  have "load32 a (tx_mem a msg m) = load32 a ?m" "load32 (a + 4) (tx_mem a msg m) = load32 (a + 4) ?m"
    by (rule load32_cong; simp add: tx_mem_def)+
  then show "load32 a (tx_mem a msg m) = tx_id_word msg" "load32 (a + 4) (tx_mem a msg m) = tx_config_word msg"
    by (simp_all add: load_store32 load_store32_other)
qed

lemma tx_mem_data:
  assumes "k < 4 * ((unat (u32DLC msg) + 3) div 4)" "u32DLC msg \<le> 64"
  shows "tx_mem a msg m (a + 8 + k) = au8Data msg ! k"
  using assms tx_words[OF assms(2)] by (simp add: tx_mem_def)

lemma tx_mem_frame:
  assumes "x < a \<or> a + 8 + 4 * ((unat (u32DLC msg) + 3) div 4) \<le> x" "u32DLC msg \<le> 64"
  shows "tx_mem a msg m x = m x"
  using assms tx_words[OF assms(2)] by (auto simp: tx_mem_def store32_other)

text \<open>The length a receiver reads for a message of \<open>n\<close> bytes.\<close>

definition padded :: "u32 \<Rightarrow> u32" where
  "padded n = ucast (CANFD_DecodeDLC (CANFD_EncodeDLC (ucast n)))"

lemma CopyDBuf_fields:
  fixes a :: nat and m :: memory and buf :: CANFD_FD_MSG_T
  defines "c \<equiv> CANFD_CopyDBufToMsgBuf a m buf" and "w \<equiv> load32 a m" and "v \<equiv> load32 (a + 4) m"
  shows "eIdType c = (if bit w 30 then eCANFD_XID else eCANFD_SID)"
    "u32Id c = (if bit w 30 then w AND 0x1FFFFFFF else drop_bit 18 w AND 0x7FF)"
    "eFrmType c = (if bit w 29 then eCANFD_REMOTE_FRM else eCANFD_DATA_FRM)"
    "bErrStaInd c = (if bit w 31 then 1 else 0)"
    "bFDFormat c = (if bit v 21 then 1 else 0)"
    "bBitRateSwitch c = (if bit v 20 then 1 else 0)"
    "u32DLC c = ucast (CANFD_DecodeDLC (ucast (get_field 0xF 16 v)))"
    "au8Data c = copy_bytes 0 (unat (u32DLC c)) (a + 8) m (au8Data buf)"
  unfolding c_def CANFD_CopyDBufToMsgBuf_def Let_def w_def[symmetric] v_def[symmetric] and_bit_iff
  by simp_all

lemma read_tx_mem:
  fixes buf msg :: CANFD_FD_MSG_T and a :: nat and mm :: memory
  defines "m \<equiv> CANFD_CopyDBufToMsgBuf a (tx_mem a msg mm) buf"
  shows "eIdType m = eIdType msg" "eFrmType m = eFrmType msg"
    "u32Id m = u32Id msg AND (if eIdType msg = eCANFD_XID then 0x1FFFFFFF else 0x7FF)"
    "bFDFormat m = (if bFDFormat msg \<noteq> 0 then 1 else 0)"
    "bBitRateSwitch m = (if bBitRateSwitch msg \<noteq> 0 then 1 else 0)"
    "bErrStaInd m = 0" "u32DLC m = padded (u32DLC msg)"
proof -
  note f = CopyDBuf_fields[of a "tx_mem a msg mm" buf, folded m_def, unfolded tx_mem_words
      tx_id_word_bits tx_config_word_bits]
  show "eIdType m = eIdType msg" unfolding f by (cases "eIdType msg") simp_all
  show "eFrmType m = eFrmType msg" unfolding f by (cases "eFrmType msg") simp_all
  show "u32Id m = u32Id msg AND (if eIdType msg = eCANFD_XID then 0x1FFFFFFF else 0x7FF)"
    unfolding f using tx_id_word_XID[of msg] tx_id_word_SID[of msg] by (cases "eIdType msg") simp_all
  show "bFDFormat m = (if bFDFormat msg \<noteq> 0 then 1 else 0)"
    "bBitRateSwitch m = (if bBitRateSwitch msg \<noteq> 0 then 1 else 0)"
    "bErrStaInd m = 0" "u32DLC m = padded (u32DLC msg)"
    unfolding f padded_def by (simp_all add: tx_id_word_bits)
qed


lemma unat_ucast_u8 [simp]: "unat (ucast b :: u32) = unat b" for b :: u8
proof -
  have "unat b < 2 ^ 32" using unsigned_less[of b, where ?'a = nat] by simp
  then show ?thesis by (simp add: unsigned_ucast_eq take_bit_nat_eq_self)
qed

lemma dlc_small: "u32DLC msg \<le> 64 \<Longrightarrow> unat (ucast (u32DLC msg) :: u8) = unat (u32DLC msg)"
  by (simp add: word_le_nat_alt unsigned_ucast_eq take_bit_nat_eq_self_iff)

lemma EncodeDLC_covers: "n \<le> 64 \<Longrightarrow> n \<le> CANFD_DecodeDLC (CANFD_EncodeDLC n)"
  unfolding CANFD_DecodeDLC_def CANFD_EncodeDLC_def word_le_nat_alt word_unat_eq_iff by auto

lemma EncodeDLC_least: "n \<le> CANFD_DecodeDLC d \<Longrightarrow> d \<le> 15 \<Longrightarrow> CANFD_EncodeDLC n \<le> d"
  unfolding CANFD_DecodeDLC_def CANFD_EncodeDLC_def word_le_nat_alt word_unat_eq_iff
  by (auto split: if_splits)

lemma EncodeDLC_DecodeDLC: "d \<le> 15 \<Longrightarrow> CANFD_EncodeDLC (CANFD_DecodeDLC d) = d"
  unfolding CANFD_DecodeDLC_def CANFD_EncodeDLC_def word_le_nat_alt word_unat_eq_iff
  by (auto split: if_splits)

lemma padded_bounds:
  assumes "u32DLC msg \<le> 64"
  shows "u32DLC msg \<le> padded (u32DLC msg)" "padded (u32DLC msg) \<le> 64"
proof -
  have "(ucast (u32DLC msg) :: u8) \<le> 64" using assms by (simp add: word_le_nat_alt dlc_small)
  from EncodeDLC_covers[OF this] dlc_small[OF assms]
  show "u32DLC msg \<le> padded (u32DLC msg)" by (simp add: padded_def word_le_nat_alt)
  show "padded (u32DLC msg) \<le> 64"
    using DecodeDLC_le_64[of "CANFD_EncodeDLC (ucast (u32DLC msg))"] by (simp add: padded_def word_le_nat_alt)
qed

text \<open>What a received message looks like, whatever the message RAM holds.\<close>

definition canfd_msg_wf :: "CANFD_FD_MSG_T \<Rightarrow> bool" where
  "canfd_msg_wf m \<longleftrightarrow> length (au8Data m) = 64 \<and>
     u32DLC m \<in> {0, 1, 2, 3, 4, 5, 6, 7, 8, 12, 16, 20, 24, 32, 48, 64} \<and>
     u32Id m \<le> (if eIdType m = eCANFD_XID then 0x1FFFFFFF else 0x7FF) \<and>
     bFDFormat m \<le> 1 \<and> bBitRateSwitch m \<le> 1 \<and> bErrStaInd m \<le> 1"

lemma DecodeDLC_lengths:
  "(ucast (CANFD_DecodeDLC d) :: u32) \<in> {0, 1, 2, 3, 4, 5, 6, 7, 8, 12, 16, 20, 24, 32, 48, 64}"
proof -
  have "d \<le> 8 \<Longrightarrow> d \<in> {0, 1, 2, 3, 4, 5, 6, 7, 8}"
    unfolding word_le_nat_alt by (auto simp: word_unat_eq_iff)
  then show ?thesis by (auto simp: CANFD_DecodeDLC_def)
qed

lemma CopyDBuf_wf:
  assumes "length (au8Data msg) = 64"
  shows "canfd_msg_wf (CANFD_CopyDBufToMsgBuf a m msg)"
proof -
  have "w AND 0x1FFFFFFF \<le> 0x1FFFFFFF" "w AND 0x7FF \<le> 0x7FF" for w :: u32
    by (simp_all add: word_and_le1)
  then show ?thesis
    unfolding canfd_msg_wf_def CopyDBuf_fields using assms DecodeDLC_lengths by auto
qed

end
