(* ===== verification/Canfd_Timing.thy ===== *)
theory Canfd_Timing
  imports Canfd
begin

text \<open>
  The bit-rate search of \<open>CANFD_SetBitRate\<close>: in the range of clocks and rates that the driver
  passes, the loop never divides by zero, keeps the candidate with the smallest error, and the result
  is the best rate that any pair of prescaler and bit length of the searched grid gives.
\<close>

section \<open>Candidates\<close>

text \<open>Prescaler, validity, rate error and sample-point error of the round with value \<open>t\<close>.\<close>

definition cand_brp :: "int \<Rightarrow> int \<Rightarrow> int \<Rightarrow> int" where
  "cand_brp clk baud t = clk div ((1 + t div 2) * baud) + t mod 2"

definition cand_ok :: "bool \<Rightarrow> int \<Rightarrow> int \<Rightarrow> int \<Rightarrow> bool" where
  "cand_ok nbtp clk baud t \<longleftrightarrow>
     brp_min (bt_limits_of nbtp) \<le> cand_brp clk baud t \<and> cand_brp clk baud t \<le> brp_max (bt_limits_of nbtp)"

definition rate_error :: "int \<Rightarrow> int \<Rightarrow> int \<Rightarrow> int \<Rightarrow> int" where
  "rate_error clk baud brp n = \<bar>baud - clk div (brp * n)\<bar>"

definition cand_error :: "int \<Rightarrow> int \<Rightarrow> int \<Rightarrow> int" where
  "cand_error clk baud t = rate_error clk baud (cand_brp clk baud t) (1 + t div 2)"

definition cand_spt :: "bool \<Rightarrow> u32 \<Rightarrow> int \<Rightarrow> int" where
  "cand_spt nbtp baud t =
     \<bar>sample_point baud - fst (CANFD_Update_Spt (sample_point baud) (t div 2) nbtp)\<bar>"

text \<open>The rates and clocks for which the 32-bit arithmetic of the loop is exact.\<close>

definition bt_range :: "int \<Rightarrow> u32 \<Rightarrow> bool" where
  "bt_range clk baud \<longleftrightarrow> 0 \<le> clk \<and> clk < 2 ^ 31 \<and> 0 < baud \<and> baud \<le> 8000000"

lemma set_bt_tsegs:
  "t \<in> set (bt_tsegs nbtp) \<longleftrightarrow> (if nbtp then 8 \<le> t \<and> t \<le> 769 else 4 \<le> t \<and> t \<le> 97)"
  by (auto simp: bt_tsegs_def bt_limits_of_def Let_def)

lemma bt_range_baud:
  assumes "bt_range clk baud"
  shows "0 < uint baud" "uint baud \<le> 8000000"
  using assms by (auto simp: bt_range_def word_less_def word_le_def)

lemma sint_small: "0 \<le> x \<Longrightarrow> x < 2 ^ 31 \<Longrightarrow> sint (word_of_int x :: u32) = x"
  by (simp add: signed_of_int signed_take_bit_int_eq_self_iff)

lemma bt_brp_eq:
  assumes "bt_range clk baud" "t \<in> set (bt_tsegs nbtp)"
  shows "bt_brp clk baud nbtp t = Inr (cand_brp clk (uint baud) t)"
proof -
  define n where "n = 1 + t div 2"
  have n: "3 \<le> n" "n \<le> 385" using assms(2) by (auto simp: set_bt_tsegs n_def split: if_splits)
  note b = bt_range_baud[OF assms(1)]
  have p: "0 < n * uint baud" "n * uint baud \<le> 385 * 8000000"
    using n b mult_mono[of n 385 "uint baud" 8000000] by auto
  have d: "uint (word_of_int n * baud :: u32) = n * uint baud"
  proof -
    have "uint (word_of_int n :: u32) = n" using n by (simp add: uint_word_of_int)
    then show ?thesis using p by (simp add: uint_word_ariths)
  qed
  have q: "0 \<le> clk div (n * uint baud)" "clk div (n * uint baud) \<le> clk div 3"
  proof -
    show "0 \<le> clk div (n * uint baud)" using assms(1) p by (simp add: bt_range_def pos_imp_zdiv_nonneg_iff)
    have "3 * 1 \<le> n * uint baud" using n b by (intro mult_mono) auto
    then show "clk div (n * uint baud) \<le> clk div 3"
      using assms(1) by (intro zdiv_mono2) (auto simp: bt_range_def)
  qed
  have "clk div (n * uint baud) + t mod 2 < 2 ^ 31"
    using q assms(1) pos_mod_bound[of 2 t] by (auto simp: bt_range_def)
  moreover have "0 \<le> clk div (n * uint baud) + t mod 2" using q by simp
  ultimately have "sint (word_of_int (clk div (n * uint baud) + t mod 2) :: u32) =
      clk div (n * uint baud) + t mod 2" by (intro sint_small)
  moreover have "n \<noteq> 0" "uint baud \<noteq> 0" using n b by auto
  ultimately show ?thesis using d p
    by (simp add: bt_brp_def Let_def n_def[symmetric] bt_limits_of_def cand_brp_def c_div_def sgn_if)
qed

section \<open>Segments\<close>

lemma sample_point_cases: "sample_point baud \<in> {750, 800, 875}"
  by (simp add: sample_point_def)

lemma Update_Spt_segments:
  assumes "if nbtp then 4 \<le> tseg \<and> tseg \<le> 384 else 2 \<le> tseg \<and> tseg \<le> 48"
    and "spt \<in> {750, 800, 875}"
  obtains p t1 t2 where "CANFD_Update_Spt spt tseg nbtp = (p, t1, t2)" "t1 + t2 = tseg"
    "tseg1_min (bt_limits_of nbtp) \<le> t1" "t1 \<le> tseg1_max (bt_limits_of nbtp)"
    "tseg2_min (bt_limits_of nbtp) \<le> t2" "t2 \<le> tseg2_max (bt_limits_of nbtp)"
    "0 \<le> p" "p \<le> 1000"
proof -
  define l where "l = bt_limits_of nbtp"
  define q where "q = spt * (tseg + 1) div 1000"
  obtain p t1 t2 where u: "CANFD_Update_Spt spt tseg nbtp = (p, t1, t2)" by (metis surj_pair)
  have cd: "c_div (spt * (tseg + 1)) 1000 = q"
    using assms by (subst c_div_nonneg) (auto simp: q_def split: if_splits)
  have q: "1000 * q \<le> spt * (tseg + 1)" "spt * (tseg + 1) < 1000 * q + 1000"
    by (simp_all add: q_def)
  have seg: "t1 + t2 = tseg \<and> tseg1_min l \<le> t1 \<and> t1 \<le> tseg1_max l \<and> tseg2_min l \<le> t2 \<and> t2 \<le> tseg2_max l"
    using u assms q
    by (cases nbtp) (auto simp: CANFD_Update_Spt_def Let_def cd l_def bt_limits_of_def split: if_splits)
  have pos: "0 < tseg + 1" "0 \<le> tseg + 1 - t2" "tseg + 1 - t2 \<le> tseg + 1"
    using seg assms(1) by (auto simp: l_def bt_limits_of_def split: if_splits)
  have "p = c_div (1000 * (tseg + 1 - t2)) (tseg + 1)"
    using u by (auto simp: CANFD_Update_Spt_def Let_def split: if_splits)
  also have "\<dots> = 1000 * (tseg + 1 - t2) div (tseg + 1)"
    using pos by (intro c_div_nonneg) auto
  finally have p: "p = 1000 * (tseg + 1 - t2) div (tseg + 1)" .
  have "0 \<le> p" using pos p by (simp add: pos_imp_zdiv_nonneg_iff)
  moreover have "p \<le> 1000"
  proof -
    have "1000 * (tseg + 1 - t2) div (tseg + 1) \<le> 1000 * (tseg + 1) div (tseg + 1)"
      using pos by (intro zdiv_mono1) simp_all
    also have "\<dots> = 1000" using pos by (intro nonzero_mult_div_cancel_right) simp
    finally show ?thesis by (simp add: p)
  qed
  ultimately show thesis using that[OF u] seg by (simp add: l_def)
qed

lemma cand_spt_le:
  assumes "t \<in> set (bt_tsegs nbtp)"
  shows "0 \<le> cand_spt nbtp baud t" "cand_spt nbtp baud t \<le> 1000"
proof -
  have "if nbtp then 4 \<le> t div 2 \<and> t div 2 \<le> 384 else 2 \<le> t div 2 \<and> t div 2 \<le> 48"
    using assms by (auto simp: set_bt_tsegs split: if_splits)
  then obtain p t1 t2 where "CANFD_Update_Spt (sample_point baud) (t div 2) nbtp = (p, t1, t2)"
    "0 \<le> p" "p \<le> 1000"
    using Update_Spt_segments[OF _ sample_point_cases[of baud]] by metis
  then show "0 \<le> cand_spt nbtp baud t" "cand_spt nbtp baud t \<le> 1000"
    using sample_point_cases[of baud] by (simp_all add: cand_spt_def) auto
qed

section \<open>The search loop\<close>

lemma cand_error_le:
  assumes "bt_range clk baud" "t \<in> set (bt_tsegs nbtp)" "cand_ok nbtp clk (uint baud) t"
  shows "cand_error clk (uint baud) t \<le> 1000000000"
proof -
  define m where "m = cand_brp clk (uint baud) t * (1 + t div 2)"
  have "1 * 3 \<le> m"
    using assms(2,3) unfolding m_def
    by (intro mult_mono) (auto simp: cand_ok_def bt_limits_of_def set_bt_tsegs split: if_splits)
  then have "0 \<le> clk div m" "clk div m \<le> clk div 3"
    using assms(1) by (auto simp: bt_range_def pos_imp_zdiv_nonneg_iff intro: zdiv_mono2)
  moreover have "clk div 3 \<le> 715827882" using assms(1) by (auto simp: bt_range_def)
  ultimately show ?thesis
    using bt_range_baud[OF assms(1)] unfolding cand_error_def rate_error_def m_def[symmetric] by auto
qed

text \<open>
  One round in terms of the candidate, and the state that remembers a candidate.
\<close>

definition cand_round :: "bool \<Rightarrow> int \<Rightarrow> u32 \<Rightarrow> int \<Rightarrow> bt_search \<Rightarrow> bt_search \<times> bool" where
  "cand_round nbtp clk baud t s =
     (if \<not> cand_ok nbtp clk (uint baud) t \<or> cand_error clk (uint baud) t > best_error s then (s, False)
      else if cand_error clk (uint baud) t \<noteq> 0 then
        (s\<lparr>best_error := cand_error clk (uint baud) t, best_tseg := t div 2,
           best_brp := cand_brp clk (uint baud) t\<rparr>, False)
      else if cand_spt nbtp baud t > spt_error s then (s\<lparr>best_error := 0\<rparr>, False)
      else (s\<lparr>best_error := 0, spt_error := cand_spt nbtp baud t, best_tseg := t div 2,
              best_brp := cand_brp clk (uint baud) t\<rparr>, cand_spt nbtp baud t = 0))"

lemma bt_step_eq:
  assumes "bt_range clk baud" "t \<in> set (bt_tsegs nbtp)"
  shows "bt_step clk baud nbtp t s = Inr (cand_round nbtp clk baud t s)"
  by (simp add: bt_step_def bt_brp_eq[OF assms] Let_def cand_ok_def cand_error_def rate_error_def
      cand_spt_def not_le cand_round_def)

definition remember :: "bool \<Rightarrow> int \<Rightarrow> u32 \<Rightarrow> int \<Rightarrow> bt_search" where
  "remember nbtp clk baud t =
     \<lparr>best_error = cand_error clk (uint baud) t,
      spt_error = (if cand_error clk (uint baud) t = 0 then cand_spt nbtp baud t else 1000),
      best_tseg = t div 2, best_brp = cand_brp clk (uint baud) t\<rparr>"

text \<open>
  What is known after the rounds for the values in \<open>S\<close>: the state remembers the best candidate,
  the sample point deciding between exact rates.
\<close>

definition best_of :: "bool \<Rightarrow> int \<Rightarrow> u32 \<Rightarrow> int set \<Rightarrow> int \<Rightarrow> bool" where
  "best_of nbtp clk baud S t \<longleftrightarrow> t \<in> S \<and> cand_ok nbtp clk (uint baud) t \<and>
     (\<forall>t' \<in> S. cand_ok nbtp clk (uint baud) t' \<longrightarrow>
        cand_error clk (uint baud) t \<le> cand_error clk (uint baud) t' \<and>
        (cand_error clk (uint baud) t' = 0 \<longrightarrow> cand_spt nbtp baud t \<le> cand_spt nbtp baud t'))"

definition search_inv :: "bool \<Rightarrow> int \<Rightarrow> u32 \<Rightarrow> int set \<Rightarrow> bt_search \<Rightarrow> bool" where
  "search_inv nbtp clk baud S s \<longleftrightarrow>
     (s = bt_init \<and> (\<forall>t \<in> S. \<not> cand_ok nbtp clk (uint baud) t)) \<or>
     (\<exists>t. best_of nbtp clk baud S t \<and> s = remember nbtp clk baud t)"

lemma search_invI: "best_of nbtp clk baud S t \<Longrightarrow> s = remember nbtp clk baud t \<Longrightarrow> search_inv nbtp clk baud S s"
  by (auto simp: search_inv_def)

lemma cand_error_nonneg: "0 \<le> cand_error clk baud t"
  by (simp add: cand_error_def rate_error_def)

lemma first_round:
  assumes "bt_range clk baud" "t \<in> set (bt_tsegs nbtp)" "cand_ok nbtp clk (uint baud) t"
  shows "cand_round nbtp clk baud t bt_init =
    (remember nbtp clk baud t, cand_error clk (uint baud) t = 0 \<and> cand_spt nbtp baud t = 0)"
  using cand_error_le[OF assms] cand_spt_le[OF assms(2), of baud] assms(3)
  by (auto simp: cand_round_def remember_def bt_init_def)

lemma later_round:
  assumes best: "best_of nbtp clk baud S b" and t: "t \<in> set (bt_tsegs nbtp)"
  shows "\<exists>c. best_of nbtp clk baud (insert t S) c \<and>
    fst (cand_round nbtp clk baud t (remember nbtp clk baud b)) = remember nbtp clk baud c"
proof -
  let ?ok = "cand_ok nbtp clk (uint baud)" and ?e = "cand_error clk (uint baud)"
    and ?p = "cand_spt nbtp baud" and ?r = "remember nbtp clk baud"
  consider (keep) "\<not> ?ok t \<or> ?e t > ?e b \<or> ?e t = 0 \<and> ?e b = 0 \<and> ?p t > ?p b"
    | (better) "?ok t" "?e t \<le> ?e b" "?e t \<noteq> 0"
    | (exact) "?ok t" "?e t = 0" "?e b = 0 \<longrightarrow> ?p t \<le> ?p b"
    using cand_error_nonneg[of clk "uint baud" b] by force
  then show ?thesis
  proof cases
    case keep
    then have "best_of nbtp clk baud (insert t S) b"
      using best cand_error_nonneg[of clk "uint baud"  b] by (auto simp: best_of_def)
    moreover have "fst (cand_round nbtp clk baud t (?r b)) = ?r b"
      using keep by (auto simp: cand_round_def remember_def)
    ultimately show ?thesis by blast
  next
    case better
    then have "best_of nbtp clk baud (insert t S) t"
      using best cand_error_nonneg[of clk "uint baud" t] by (fastforce simp: best_of_def)
    moreover have "fst (cand_round nbtp clk baud t (?r b)) = ?r t"
      using better cand_error_nonneg[of clk "uint baud" t] by (auto simp: cand_round_def remember_def)
    ultimately show ?thesis by blast
  next
    case exact
    have "?p t \<le> ?p u" if "u \<in> S" "?ok u" "?e u = 0" for u
    proof -
      from best that have "?e b \<le> 0" "?p b \<le> ?p u" by (auto simp: best_of_def)
      with exact(3) cand_error_nonneg[of clk "uint baud" b] show ?thesis by simp
    qed
    then have "best_of nbtp clk baud (insert t S) t"
      using exact(1,2) by (auto simp: best_of_def cand_error_nonneg)
    moreover have "fst (cand_round nbtp clk baud t (?r b)) = ?r t"
      using exact cand_error_nonneg[of clk "uint baud" b] cand_spt_le[OF t, of baud]
      by (auto simp: cand_round_def remember_def)
    ultimately show ?thesis by blast
  qed
qed

lemma search_inv_round:
  assumes "bt_range clk baud" "t \<in> set (bt_tsegs nbtp)" "search_inv nbtp clk baud S s"
  shows "search_inv nbtp clk baud (insert t S) (fst (cand_round nbtp clk baud t s))"
proof (cases "s = bt_init \<and> (\<forall>u \<in> S. \<not> cand_ok nbtp clk (uint baud) u)")
  case True
  show ?thesis
  proof (cases "cand_ok nbtp clk (uint baud) t")
    case ok: True
    have "best_of nbtp clk baud (insert t S) t" using True ok by (auto simp: best_of_def)
    with True first_round[OF assms(1,2) ok] show ?thesis by (auto intro: search_invI)
  qed (use True in \<open>auto simp: search_inv_def cand_round_def\<close>)
next
  case False
  with assms(3) obtain b where "best_of nbtp clk baud S b" "s = remember nbtp clk baud b"
    by (auto simp: search_inv_def)
  with later_round[OF _ assms(2)] show ?thesis by (auto simp: search_inv_def)
qed

text \<open>Leaving the loop early loses nothing: an exact rate at the exact sample point is best.\<close>

lemma search_inv_break:
  assumes "search_inv nbtp clk baud S s" "best_error s = 0" "spt_error s = 0" "S \<subseteq> T"
    "T \<subseteq> set (bt_tsegs nbtp)"
  shows "search_inv nbtp clk baud T s"
proof -
  obtain b where b: "best_of nbtp clk baud S b" "s = remember nbtp clk baud b"
    using assms(1,2) by (auto simp: search_inv_def bt_init_def)
  then have "cand_error clk (uint baud) b = 0" "cand_spt nbtp baud b = 0"
    using assms(2,3) by (auto simp: remember_def split: if_splits)
  then have "best_of nbtp clk baud T b"
    using b(1) assms(4,5) cand_error_nonneg[of clk "uint baud"] cand_spt_le(1)[of _ nbtp baud]
    by (auto simp: best_of_def)
  with b(2) show ?thesis by (rule search_invI[rotated])
qed

lemma bt_loop_inv:
  assumes "bt_range clk baud" "set ts \<subseteq> set (bt_tsegs nbtp)" "S \<subseteq> set (bt_tsegs nbtp)"
    "search_inv nbtp clk baud S s"
  shows "\<exists>s'. bt_loop clk baud nbtp ts s = Inr s' \<and> search_inv nbtp clk baud (S \<union> set ts) s'"
  using assms(2-)
proof (induction ts arbitrary: S s)
  case (Cons t ts)
  obtain s1 brk where s1: "cand_round nbtp clk baud t s = (s1, brk)" by fastforce
  have t: "t \<in> set (bt_tsegs nbtp)" using Cons.prems(1) by simp
  have inv: "search_inv nbtp clk baud (insert t S) s1"
    using search_inv_round[OF assms(1) t Cons.prems(3)] s1 by simp
  show ?case
  proof (cases brk)
    case True
    then have "best_error s1 = 0" "spt_error s1 = 0"
      using s1 by (auto simp: cand_round_def split: if_splits)
    with inv have "search_inv nbtp clk baud (S \<union> set (t # ts)) s1"
      by (rule search_inv_break) (use Cons.prems in auto)
    then show ?thesis using True by (auto simp: bt_step_eq[OF assms(1) t] s1)
  next
    case False
    with Cons.IH[of "insert t S" s1] Cons.prems inv show ?thesis
      by (auto simp: bt_step_eq[OF assms(1) t] s1)
  qed
qed auto

section \<open>The best rate\<close>

text \<open>For a bit of \<open>n\<close> quanta the two rounds bracket the rate, so no prescaler does better.\<close>

lemma bracket:
  fixes clk baud n brp :: int
  assumes "0 \<le> clk" "0 < baud" "0 < n" "0 < brp"
  defines "q \<equiv> clk div (n * baud)"
  shows "brp \<le> q \<Longrightarrow> rate_error clk baud q n \<le> rate_error clk baud brp n"
    and "q < brp \<Longrightarrow> rate_error clk baud (q + 1) n \<le> rate_error clk baud brp n"
proof -
  have nb: "0 < n * baud" using assms by simp
  have q0: "0 \<le> q" using assms nb by (simp add: q_def pos_imp_zdiv_nonneg_iff)
  show "rate_error clk baud q n \<le> rate_error clk baud brp n" if "brp \<le> q"
  proof -
    have qpos: "0 < q" using that assms by simp
    have "q * (n * baud) \<le> clk" using le_zdiv_iff[OF nb, of q clk] by (simp add: q_def)
    then have "baud \<le> clk div (q * n)" using qpos assms(3) by (simp add: le_zdiv_iff mult_ac)
    moreover have "clk div (q * n) \<le> clk div (brp * n)"
      using that assms by (intro zdiv_mono2) auto
    ultimately show ?thesis by (simp add: rate_error_def)
  qed
  show "rate_error clk baud (q + 1) n \<le> rate_error clk baud brp n" if "q < brp"
  proof -
    have "clk < (q + 1) * (n * baud)" using zdiv_less_iff[OF nb, of clk "q + 1"] by (simp add: q_def)
    then have "clk div ((q + 1) * n) < baud" using q0 assms(3) by (simp add: zdiv_less_iff mult_ac)
    moreover have "clk div (brp * n) \<le> clk div ((q + 1) * n)"
      using that assms q0 by (intro zdiv_mono2) auto
    ultimately show ?thesis by (simp add: rate_error_def)
  qed
qed

text \<open>The rounds for a bit of \<open>n\<close> quanta are those of \<open>2 n - 2\<close> and \<open>2 n - 1\<close>.\<close>

lemma cand_of_quanta:
  fixes n :: int
  shows "cand_brp clk baud (2 * n - 2) = clk div (n * baud)" "1 + (2 * n - 2) div 2 = n"
    "cand_brp clk baud (2 * n - 1) = clk div (n * baud) + 1" "1 + (2 * n - 1) div 2 = n"
proof -
  have "(2 * n - 1) mod 2 = 1" "(2 * n - 2) mod 2 = 0" "(2 * n - 1) div 2 = n - 1" "(2 * n - 2) div 2 = n - 1"
    by presburger+
  then show "cand_brp clk baud (2 * n - 2) = clk div (n * baud)" "1 + (2 * n - 2) div 2 = n"
    "cand_brp clk baud (2 * n - 1) = clk div (n * baud) + 1" "1 + (2 * n - 1) div 2 = n"
    by (simp_all add: cand_brp_def)
qed

definition quanta_ok :: "bool \<Rightarrow> int \<Rightarrow> bool" where
  "quanta_ok nbtp n \<longleftrightarrow> tseg1_min (bt_limits_of nbtp) + tseg2_min (bt_limits_of nbtp) + 1 \<le> n \<and>
     n \<le> tseg1_max (bt_limits_of nbtp) + tseg2_max (bt_limits_of nbtp) + 1"

lemma best_rate:
  assumes best: "best_of nbtp clk baud (set (bt_tsegs nbtp)) t" and "bt_range clk baud"
    and n: "quanta_ok nbtp n" and brp: "1 \<le> brp" "brp \<le> brp_max (bt_limits_of nbtp)"
    and q: "clk div (n * uint baud) \<le> brp_max (bt_limits_of nbtp)"
  shows "cand_error clk (uint baud) t \<le> rate_error clk (uint baud) brp n"
proof -
  have pos: "0 \<le> clk" "0 < uint baud" "0 < n"
    using bt_range_baud[OF assms(2)] assms(2) n by (auto simp: bt_range_def quanta_ok_def bt_limits_of_def split: if_splits)
  have mem: "2 * n - 2 \<in> set (bt_tsegs nbtp)" "2 * n - 1 \<in> set (bt_tsegs nbtp)"
    using n by (auto simp: set_bt_tsegs quanta_ok_def bt_limits_of_def)
  have min: "brp_min (bt_limits_of nbtp) = 1" by (simp add: bt_limits_of_def)
  show ?thesis
  proof (cases "brp \<le> clk div (n * uint baud)")
    case True
    then have "cand_ok nbtp clk (uint baud) (2 * n - 2)"
      using q brp by (simp add: cand_ok_def cand_of_quanta min)
    with best mem(1) have "cand_error clk (uint baud) t \<le> cand_error clk (uint baud) (2 * n - 2)"
      by (simp add: best_of_def)
    also have "\<dots> = rate_error clk (uint baud) (clk div (n * uint baud)) n"
      unfolding cand_error_def cand_of_quanta ..
    also have "\<dots> \<le> rate_error clk (uint baud) brp n" using bracket(1)[of clk "uint baud" n brp] pos brp True by simp
    finally show ?thesis .
  next
    case False
    then have "0 \<le> clk div (n * uint baud)" using pos by (simp add: pos_imp_zdiv_nonneg_iff)
    then have "cand_ok nbtp clk (uint baud) (2 * n - 1)"
      using False brp by (simp add: cand_ok_def cand_of_quanta min)
    with best mem(2) have "cand_error clk (uint baud) t \<le> cand_error clk (uint baud) (2 * n - 1)"
      by (simp add: best_of_def)
    also have "\<dots> = rate_error clk (uint baud) (clk div (n * uint baud) + 1) n"
      unfolding cand_error_def cand_of_quanta ..
    also have "\<dots> \<le> rate_error clk (uint baud) brp n" using bracket(2)[of clk "uint baud" n brp] pos brp False by simp
    finally show ?thesis .
  qed
qed

text \<open>A candidate exists when the slowest bit is not too fast for the clock.\<close>

lemma search_finds:
  assumes "bt_range clk baud"
    and "clk < brp_max (bt_limits_of nbtp) * (tseg1_max (bt_limits_of nbtp) + tseg2_max (bt_limits_of nbtp) + 1) * uint baud"
  obtains t where "bt_loop clk baud nbtp (bt_tsegs nbtp) bt_init = Inr (remember nbtp clk baud t)"
    "best_of nbtp clk baud (set (bt_tsegs nbtp)) t"
proof -
  define n where "n = tseg1_max (bt_limits_of nbtp) + tseg2_max (bt_limits_of nbtp) + 1"
  have n: "2 * n - 1 \<in> set (bt_tsegs nbtp)" "0 < n" by (auto simp: n_def set_bt_tsegs bt_limits_of_def)
  have nb: "0 < n * uint baud" using n bt_range_baud[OF assms(1)] by simp
  have "clk div (n * uint baud) < brp_max (bt_limits_of nbtp)"
    unfolding zdiv_less_iff[OF nb] using assms(2) by (simp add: n_def mult_ac)
  moreover have "0 \<le> clk div (n * uint baud)"
    using nb assms(1) by (simp add: bt_range_def pos_imp_zdiv_nonneg_iff)
  moreover have "brp_min (bt_limits_of nbtp) = 1" by (simp add: bt_limits_of_def)
  ultimately have "cand_ok nbtp clk (uint baud) (2 * n - 1)" by (simp add: cand_ok_def cand_of_quanta)
  moreover have "search_inv nbtp clk baud {} bt_init" by (simp add: search_inv_def)
  ultimately show thesis
    using bt_loop_inv[OF assms(1) subset_refl, of "{}" nbtp bt_init] n that by (auto simp: search_inv_def)
qed

section \<open>Register fields\<close>

lemma bit_word_of_int_less:
  assumes "0 \<le> x" "x < 2 ^ k" "bit (word_of_int x :: u32) n"
  shows "n < k"
proof (rule ccontr)
  assume "\<not> n < k"
  have "x = take_bit k x" using assms(1,2) by (simp add: take_bit_int_eq_self)
  moreover have "bit x n" using assms(3) by (simp add: bit_simps)
  ultimately show False using \<open>\<not> n < k\<close> bit_take_bit_iff[of k x n] by auto
qed

lemma nbtp_fields:
  assumes "0 \<le> brp" "brp < 2 ^ 9" "0 \<le> sjw" "sjw < 2 ^ 7" "0 \<le> tseg1" "tseg1 < 2 ^ 8" "0 \<le> tseg2" "tseg2 < 2 ^ 7"
  defines "w \<equiv> nbtp_value brp sjw tseg1 tseg2"
  shows "get_field 0x1FF 16 w = word_of_int brp" "get_field 0x7F 25 w = word_of_int sjw"
    "get_field 0xFF 8 w = word_of_int tseg1" "get_field 0x7F 0 w = word_of_int tseg2"
proof -
  have m: "(0x1FF :: u32) = mask 9" "(0x7F :: u32) = mask 7" "(0xFF :: u32) = mask 8"
    by (simp_all add: mask_eq_exp_minus_1)
  note b = bit_word_of_int_less[OF assms(1,2)] bit_word_of_int_less[OF assms(3,4)]
    bit_word_of_int_less[OF assms(5,6)] bit_word_of_int_less[OF assms(7,8)]
  show "get_field 0x1FF 16 w = word_of_int brp" "get_field 0x7F 25 w = word_of_int sjw"
    "get_field 0xFF 8 w = word_of_int tseg1" "get_field 0x7F 0 w = word_of_int tseg2"
    unfolding w_def nbtp_value_def get_field_def m
    by (rule bit_word_eqI; auto simp: bit_and_iff bit_or_iff bit_push_bit_iff bit_drop_bit_eq
        bit_mask_iff dest: b)+
qed

lemma dbtp_fields:
  assumes "0 \<le> brp" "brp < 2 ^ 5" "0 \<le> sjw" "sjw < 2 ^ 4" "0 \<le> tseg1" "tseg1 < 2 ^ 5" "0 \<le> tseg2" "tseg2 < 2 ^ 4"
  defines "w \<equiv> dbtp_value brp sjw tseg1 tseg2"
  shows "get_field 0x1F 16 (tdc OR w) = get_field 0x1F 16 tdc OR word_of_int brp"
    "get_field 0xF 0 (tdc OR w) = get_field 0xF 0 tdc OR word_of_int sjw"
    "get_field 0x1F 8 (tdc OR w) = get_field 0x1F 8 tdc OR word_of_int tseg1"
    "get_field 0xF 4 (tdc OR w) = get_field 0xF 4 tdc OR word_of_int tseg2"
proof -
  have m: "(0x1F :: u32) = mask 5" "(0xF :: u32) = mask 4"
    by (simp_all add: mask_eq_exp_minus_1)
  note b = bit_word_of_int_less[OF assms(1,2)] bit_word_of_int_less[OF assms(3,4)]
    bit_word_of_int_less[OF assms(5,6)] bit_word_of_int_less[OF assms(7,8)]
  show "get_field 0x1F 16 (tdc OR w) = get_field 0x1F 16 tdc OR word_of_int brp"
    "get_field 0xF 0 (tdc OR w) = get_field 0xF 0 tdc OR word_of_int sjw"
    "get_field 0x1F 8 (tdc OR w) = get_field 0x1F 8 tdc OR word_of_int tseg1"
    "get_field 0xF 4 (tdc OR w) = get_field 0xF 4 tdc OR word_of_int tseg2"
    unfolding w_def dbtp_value_def get_field_def m
    by (rule bit_word_eqI; auto simp: bit_and_iff bit_or_iff bit_push_bit_iff bit_drop_bit_eq
        bit_mask_iff dest: b)+
qed

section \<open>The result of CANFD\_SetBitRate\<close>

text \<open>The registers after the timing has been written, by mode.\<close>

definition timing_written :: "bool \<Rightarrow> int \<Rightarrow> int \<Rightarrow> int \<Rightarrow> int \<Rightarrow> CANFD_T \<Rightarrow> bool" where
  "timing_written nbtp brp sjw tseg1 tseg2 r \<longleftrightarrow>
     (if nbtp then
        get_field 0x1FF 16 (NBTP r) = word_of_int (brp - 1) \<and> get_field 0x7F 25 (NBTP r) = word_of_int (sjw - 1) \<and>
        get_field 0xFF 8 (NBTP r) = word_of_int (tseg1 - 1) \<and> get_field 0x7F 0 (NBTP r) = word_of_int (tseg2 - 1)
      else
        get_field 0x1F 16 (DBTP r) = word_of_int (brp - 1) \<and> get_field 0xF 0 (DBTP r) = word_of_int (sjw - 1) \<and>
        get_field 0x1F 8 (DBTP r) = word_of_int (tseg1 - 1) \<and> get_field 0xF 4 (DBTP r) = word_of_int (tseg2 - 1))"

lemma uint_u64_small: "0 \<le> x \<Longrightarrow> x < 2 ^ 64 \<Longrightarrow> uint (word_of_int x :: u64) = x"
  by (simp add: uint_word_of_int)

lemma uint_scast_nonneg: "uint c < 2 ^ 31 \<Longrightarrow> uint (scast c :: u64) = uint c" for c :: u32
proof -
  assume "uint c < 2 ^ 31"
  moreover have "- (2 ^ 31) \<le> uint c" by (rule order_trans[of _ 0]) simp_all
  ultimately have "signed_take_bit 31 (uint c) = uint c" by (intro signed_take_bit_int_eq_self)
  then have "sint c = uint c" by (simp add: sint_uint)
  moreover have "scast c = (word_of_int (sint c) :: u64)" by (rule scast_eq)
  ultimately have "scast c = (word_of_int (uint c) :: u64)" by simp
  also have "uint \<dots> = uint c"
    using \<open>uint c < 2 ^ 31\<close> by (intro uint_u64_small) (simp_all add: order_less_trans[of _ "2 ^ 31"])
  finally show ?thesis .
qed

lemma SetBitRate_result:
  fixes baud c :: u32
  assumes range: "bt_range (uint c) baud"
    and fast: "uint c < brp_max (bt_limits_of nbtp) * (tseg1_max (bt_limits_of nbtp) + tseg2_max (bt_limits_of nbtp) + 1) * uint baud"
  obtains t brp tseg1 tseg2 r' where
    "best_of nbtp (uint c) baud (set (bt_tsegs nbtp)) t" "brp = cand_brp (uint c) (uint baud) t"
    "tseg1 + tseg2 = t div 2"
    "1 \<le> brp" "brp \<le> brp_max (bt_limits_of nbtp)"
    "tseg1_min (bt_limits_of nbtp) \<le> tseg1" "tseg1 \<le> tseg1_max (bt_limits_of nbtp)"
    "tseg2_min (bt_limits_of nbtp) \<le> tseg2" "tseg2 \<le> tseg2_max (bt_limits_of nbtp)"
    "CANFD_SetBitRate baud c nbtp r = Inr (word_of_int (uint c div (brp * (tseg1 + tseg2 + 1))), r')"
    "timing_written nbtp brp (min 2 tseg2) tseg1 tseg2 r'"
proof -
  obtain t where t: "bt_loop (uint c) baud nbtp (bt_tsegs nbtp) bt_init = Inr (remember nbtp (uint c) baud t)"
    "best_of nbtp (uint c) baud (set (bt_tsegs nbtp)) t" using search_finds[OF range fast] .
  have "if nbtp then 4 \<le> t div 2 \<and> t div 2 \<le> 384 else 2 \<le> t div 2 \<and> t div 2 \<le> 48"
    using t(2) by (auto simp: best_of_def set_bt_tsegs split: if_splits)
  then obtain p t1 t2 where u: "CANFD_Update_Spt (sample_point baud) (t div 2) nbtp = (p, t1, t2)"
    and seg: "t1 + t2 = t div 2" "tseg1_min (bt_limits_of nbtp) \<le> t1" "t1 \<le> tseg1_max (bt_limits_of nbtp)"
    "tseg2_min (bt_limits_of nbtp) \<le> t2" "t2 \<le> tseg2_max (bt_limits_of nbtp)"
    using Update_Spt_segments[OF _ sample_point_cases[of baud]] by metis
  define brp where "brp = cand_brp (uint c) (uint baud) t"
  have brp: "1 \<le> brp" "brp \<le> brp_max (bt_limits_of nbtp)"
    using t(2) by (auto simp: best_of_def cand_ok_def brp_def bt_limits_of_def split: if_splits)
  define rate where "rate = (word_of_int (uint c div (brp * (t1 + t2 + 1))) :: u32)"
  define tdc where "tdc = (if rate > 2500000 then push_bit 23 1 else 0 :: u32)"
  define r' where "r' = (if nbtp then r\<lparr>NBTP := nbtp_value (brp - 1) (min 2 t2 - 1) (t1 - 1) (t2 - 1)\<rparr>
    else (if rate > 2500000 then r\<lparr>TDCR := push_bit 8 (tdco_value (uint c) (sample_point baud) rate)\<rparr> else r)
      \<lparr>DBTP := tdc OR dbtp_value (brp - 1) (min 2 t2 - 1) (t1 - 1) (t2 - 1)\<rparr>)"
  have prod: "0 < brp * (t1 + t2 + 1)" "brp * (t1 + t2 + 1) \<le> 512 * 385"
  proof -
    have "0 < t1 + t2 + 1" "t1 + t2 + 1 \<le> 385" "brp \<le> 512"
      using seg brp by (auto simp: bt_limits_of_def split: if_splits)
    then show "0 < brp * (t1 + t2 + 1)" "brp * (t1 + t2 + 1) \<le> 512 * 385"
      using brp mult_mono[of brp 512 "t1 + t2 + 1" 385] by auto
  qed
  then have d: "uint (word_of_int (brp * (t1 + t2 + 1)) :: u64) = brp * (t1 + t2 + 1)"
    by (intro uint_u64_small) auto
  have clk: "uint (scast c :: u64) = uint c"
    using range by (intro uint_scast_nonneg) (simp add: bt_range_def)
  have sjw: "(if t2 < (if 2 > sjw_max (bt_limits_of nbtp) then sjw_max (bt_limits_of nbtp) else 2) then t2
      else (if 2 > sjw_max (bt_limits_of nbtp) then sjw_max (bt_limits_of nbtp) else 2)) = min 2 t2"
    by (simp add: bt_limits_of_def)
  have rem: "best_tseg (remember nbtp (uint c) baud t) = t div 2" "best_brp (remember nbtp (uint c) baud t) = brp"
    by (simp_all add: remember_def brp_def)
  have arith: "(brp - 1 + 1) * (t1 - 1 + (t2 - 1) + 3) = brp * (t1 + t2 + 1)" by (simp add: algebra_simps)
  have nz: "brp * (t1 + t2 + 1) \<noteq> 0" using prod(1) by (rule less_imp_neq[symmetric])
  have "CANFD_SetBitRate baud c nbtp r = Inr (rate, r')"
    unfolding CANFD_SetBitRate_def Let_def clk t(1) sbind.simps rem u prod.case sjw arith d
      rate_def[symmetric] r'_def tdc_def if_not_P[OF nz] by simp
  moreover have "timing_written nbtp brp (min 2 t2) t1 t2 r'"
    using brp seg nbtp_fields[of "brp - 1" "min 2 t2 - 1" "t1 - 1" "t2 - 1"]
      dbtp_fields[of "brp - 1" "min 2 t2 - 1" "t1 - 1" "t2 - 1" tdc]
    by (cases nbtp) (auto simp: timing_written_def r'_def bt_limits_of_def tdc_def get_field_def)
  ultimately show thesis
    using that[OF t(2) brp_def seg(1) brp seg(2-5)] by (simp add: rate_def)
qed

text \<open>The rates that the search can serve, and that nothing but the timing registers changes.\<close>

definition rate_reachable :: "bool \<Rightarrow> u32 \<Rightarrow> u32 \<Rightarrow> bool" where
  "rate_reachable nbtp c baud \<longleftrightarrow> bt_range (uint c) baud \<and>
     uint c < brp_max (bt_limits_of nbtp) * (tseg1_max (bt_limits_of nbtp) + tseg2_max (bt_limits_of nbtp) + 1) * uint baud"

lemma if3_Inr:
  "(if a then Inl e else if b then Inr (x, r1) else if g then Inr (x, r2) else Inr (x, r3)) = Inr (v, r') \<Longrightarrow>
   r' = r1 \<or> r' = r2 \<or> r' = r3"
  by (auto split: if_splits)

lemma SetBitRate_regs:
  assumes "CANFD_SetBitRate baud c nbtp r = Inr (v, r')"
  shows "\<exists>n d t. r' = r\<lparr>NBTP := n, DBTP := d, TDCR := t\<rparr>"
proof (cases "bt_loop (uint (scast c :: u64)) baud nbtp (bt_tsegs nbtp) bt_init")
  case (Inl e)
  then show ?thesis using assms by (simp add: CANFD_SetBitRate_def Let_def)
next
  case (Inr s)
  obtain p t1 t2 where u: "CANFD_Update_Spt (sample_point baud) (best_tseg s) nbtp = (p, t1, t2)"
    by (metis surj_pair)
  obtain n d t where "r' = r\<lparr>NBTP := n\<rparr> \<or> r' = r\<lparr>TDCR := t, DBTP := d\<rparr> \<or> r' = r\<lparr>DBTP := d\<rparr>"
    using if3_Inr[OF assms[unfolded CANFD_SetBitRate_def Let_def Inr sbind.simps u prod.case]] by blast
  then have "r' = r\<lparr>NBTP := n, DBTP := DBTP r, TDCR := TDCR r\<rparr> \<or> r' = r\<lparr>NBTP := NBTP r, DBTP := d, TDCR := t\<rparr> \<or>
    r' = r\<lparr>NBTP := NBTP r, DBTP := d, TDCR := TDCR r\<rparr>" by auto
  then show ?thesis by blast
qed

lemma CalculateTimingValues_returns:
  assumes "rate_reachable True c (min 1000000 nom)"
    and "CCCR r AND 0x100 \<noteq> 0 \<Longrightarrow> rate_reachable False c (min 8000000 dat)"
  shows "\<exists>n d t. CANFD_CalculateTimingValues nom dat c r = Inr (r\<lparr>NBTP := n, DBTP := d, TDCR := t\<rparr>)"
proof -
  have cap: "(if x > y then y else x) = min y x" for x y :: u32 by (auto simp: min_def)
  obtain v r1 where r1: "CANFD_SetBitRate (min 1000000 nom) c True r = Inr (v, r1)"
    using SetBitRate_result[of c "min 1000000 nom" True r] assms(1) unfolding rate_reachable_def by blast
  from SetBitRate_regs[OF r1] obtain n d t where e1: "r1 = r\<lparr>NBTP := n, DBTP := d, TDCR := t\<rparr>" by blast
  show ?thesis
  proof (cases "CCCR r AND 0x100 \<noteq> 0")
    case True
    obtain v' r2 where r2: "CANFD_SetBitRate (min 8000000 dat) c False r1 = Inr (v', r2)"
      using SetBitRate_result[of c "min 8000000 dat" False r1] assms(2)[OF True] unfolding rate_reachable_def by blast
    from SetBitRate_regs[OF r2] obtain n' d' t' where "r2 = r\<lparr>NBTP := n', DBTP := d', TDCR := t'\<rparr>" by (auto simp: e1)
    then show ?thesis
      using True r2[unfolded e1] by (auto simp: CANFD_CalculateTimingValues_def Let_def cap r1 e1)
  qed (auto simp: CANFD_CalculateTimingValues_def Let_def cap r1 e1)
qed

end
