(* ===== verification/Canfd_Props.thy ===== *)
theory Canfd_Props
  imports Canfd_Facts Canfd_Timing
begin

text \<open>
  The properties of the CAN FD driver: a transmitted message is read back, transmission touches only
  its element, the data length codes, the layout of the message RAM, the bit timing, and the
  reception from buffers and FIFOs.
\<close>

section \<open>States and messages of the witnesses\<close>

definition canfd_regs0 :: CANFD_T where
  "canfd_regs0 = \<lparr>DBTP = 0, TEST = 0, RWD = 0, CCCR = 0x100, NBTP = 0, TSCC = 0, TSCV = 0, TOCC = 0, TOCV = 0,
     ECR = 0, PSR = 0x8, TDCR = 0, IR = 0, IE = 0, ILS = 0, ILE = 0, GFC = 0, SIDFC = 0, XIDFC = 0, XIDAM = 0,
     HPMS = 0, NDAT1 = 0x6, NDAT2 = 0, RXF0C = 0x200A70, RXF0S = 0, RXF0A = 0, RXBC = 0x270, RXF1C = 0x201370,
     RXF1S = 0, RXF1A = 0, RXESC = 0x777, TXBC = 0x80030, TXFQS = 0, TXESC = 7, TXBRP = 0x2, TXBAR = 0,
     TXBCR = 0, TXBTO = 0, TXBCF = 0, TXBTIE = 0, TXBCIE = 0, TXEFC = 0, TXEFS = 0, TXEFA = 0\<rparr>"

definition canfd0 :: canfd where
  "canfd0 = \<lparr>port = CANFD0, regs = canfd_regs0, mem = (\<lambda>_. 0xEE)\<rparr>"

definition canfd_msg :: "u32 \<Rightarrow> CANFD_FD_MSG_T" where
  "canfd_msg n = \<lparr>eIdType = eCANFD_XID, sRxInfo = \<lparr>eRxBuf = eCANFD_RX_DBUF, u32BufIdx = 0\<rparr>,
     eFrmType = eCANFD_DATA_FRM, u32Id = 0x1ABCDE, u32DLC = n, au8Data = map of_nat [0..<64],
     u8MsgMarker = 0, bFDFormat = 1, bBitRateSwitch = 1, bErrStaInd = 0, bEvntFifoCon = 0\<rparr>"

lemma canfd_witness_simps [simp]:
  "regs canfd0 = canfd_regs0" "port canfd0 = CANFD0" "mem canfd0 = (\<lambda>_. 0xEE)"
  "u32DLC (canfd_msg n) = n" "length (au8Data (canfd_msg n)) = 64"
  "eIdType (canfd_msg n) = eCANFD_XID" "u32Id (canfd_msg n) = 0x1ABCDE"
  "TXBRP canfd_regs0 = 2" "NDAT1 canfd_regs0 = 6" "NDAT2 canfd_regs0 = 0" "RXF0C canfd_regs0 = 0x200A70"
  "TXBC canfd_regs0 = 0x80030" "RXBC canfd_regs0 = 0x270"
  by (simp_all add: canfd0_def canfd_regs0_def canfd_msg_def)

section \<open>Transmission\<close>

text \<open>
  C27. A message of at most 64 bytes that is sent through a free transmit buffer over an idle bus is
  requested for exactly that buffer, and the driver's own receive routine reads the element back as
  the same message: type, identifier (cut to 29 or 11 bits), frame type, flags, and all its data
  bytes, with the length rounded up to the next length of CAN FD.
\<close>

theorem canfd_transmit_then_read:
  assumes "tx_free i (regs s)" "u32DLC msg \<le> 64" "length (au8Data msg) = 64" "length (au8Data buf) = 64"
    and "bus_wait chip clk psrs = Inr True"
  shows "\<exists>s'. CANFD_TransmitDMsg chip clk psrs i msg s = Inr (1, s') \<and>
    TXBAR (regs s') = push_bit (unat i) 1 \<and>
    (let m = CANFD_CopyDBufToMsgBuf (tx_buf_addr s i) (mem s') buf
     in eIdType m = eIdType msg \<and> eFrmType m = eFrmType msg \<and>
        u32Id m = u32Id msg AND (if eIdType msg = eCANFD_XID then 0x1FFFFFFF else 0x7FF) \<and>
        bFDFormat m = (if bFDFormat msg \<noteq> 0 then 1 else 0) \<and>
        bBitRateSwitch m = (if bBitRateSwitch msg \<noteq> 0 then 1 else 0) \<and> bErrStaInd m = 0 \<and>
        u32DLC m = padded (u32DLC msg) \<and> u32DLC msg \<le> u32DLC m \<and>
        (\<forall>k < unat (u32DLC msg). au8Data m ! k = au8Data msg ! k))"
proof -
  define a where "a = tx_buf_addr s i"
  define s' where "s' = set_regs (\<lambda>r. r\<lparr>TXBAR := push_bit (unat i) 1\<rparr>) (s\<lparr>mem := tx_mem a msg (mem s)\<rparr>)"
  define m where "m = CANFD_CopyDBufToMsgBuf a (mem s') buf"
  have mem: "mem s' = tx_mem a msg (mem s)" by (simp add: s'_def set_regs_def)
  note f = read_tx_mem[of a msg "mem s" buf, folded mem m_def]
  have data: "au8Data m ! k = au8Data msg ! k" if "k < unat (u32DLC msg)" for k
  proof -
    have "k < unat (padded (u32DLC msg))" "k < 64"
      using that padded_bounds[OF assms(2)] assms(2) by (simp_all add: word_le_nat_alt)
    moreover have "k < 4 * ((unat (u32DLC msg) + 3) div 4)" using that by presburger
    ultimately show ?thesis
      using CopyDBuf_fields(8)[of a "mem s'" buf, folded m_def] assms(2,4)
      by (simp add: f nth_copy_bytes mem tx_mem_data)
  qed
  have "CANFD_TransmitDMsg chip clk psrs i msg s = Inr (1, s')"
    unfolding TransmitDMsg_free[OF assms(1-3)] assms(5) by (simp add: s'_def a_def)
  moreover have "TXBAR (regs s') = push_bit (unat i) 1" by (simp add: s'_def set_regs_def)
  ultimately show ?thesis
    using f data padded_bounds(1)[OF assms(2)] by (auto simp: m_def a_def Let_def)
qed

theorem canfd_transmit_then_read_witness:
  "\<exists>s'. CANFD_TransmitDMsg 0 1000 [0, 8] 0 (canfd_msg 10) canfd0 = Inr (1, s') \<and>
     u32DLC (CANFD_CopyDBufToMsgBuf (tx_buf_addr canfd0 0) (mem s') (canfd_msg 0)) = 12"
proof -
  have "bus_wait 0 1000 [0, 8] = Inr True"
    by (simp add: bus_wait_def chip_rev_a_def CANFD_GET_COMMUNICATION_STATE_def)
  moreover have "padded 10 = 12" by (simp add: padded_def CANFD_EncodeDLC_def CANFD_DecodeDLC_def)
  ultimately show ?thesis
    using canfd_transmit_then_read[of 0 canfd0 "canfd_msg 10" "canfd_msg 0" 0 1000 "[0, 8]"]
    by (auto simp: tx_free_def Let_def)
qed

text \<open>
  The refusals of \<open>CANFD_TransmitDMsg\<close>: for an index of 32 or more and a buffer with a
  pending request it returns 0 and changes nothing; a message that claims more than 64 bytes overruns
  the data arrays. (For the three largest lengths the number of words wraps to 0.)
\<close>

lemma TransmitDMsg_refused: "\<not> tx_free i (regs s) \<Longrightarrow> CANFD_TransmitDMsg chip clk psrs i msg s = Inr (0, s)"
  by (auto simp: tx_free_def CANFD_TransmitDMsg_def not_less)

lemma TransmitDMsg_overrun:
  assumes "tx_free i (regs s)" "length (au8Data msg) = 64" "64 < u32DLC msg" "u32DLC msg < 0xFFFFFFFD"
  shows "CANFD_TransmitDMsg chip clk psrs i msg s = Inl Buffer_Overrun"
proof -
  have "unat (u32DLC msg + 3) = unat (u32DLC msg) + 3"
    using assms(4) by (subst unat_add_nowrap) (auto simp: word_less_nat_alt)
  then have "16 < unat ((u32DLC msg + 3) div 4)" using assms(3) by (auto simp: word_less_nat_alt unat_div)
  from copy_words_overrun[OF this] assms show ?thesis
    unfolding CANFD_TransmitDMsg_def tx_free_def Let_def by (auto dest: leD)
qed

text \<open>
  C28. Sending a message of at most 64 bytes through a free buffer changes no byte outside the header and the copied words
  of its element, hence never another element; the bytes up to the length on the wire that the copy
  does not reach keep what the buffer held before, and go out with the frame. When the bus does not
  become idle in time nothing is requested, but the element has been overwritten. The length is not checked: for
  a message that claims more than 64 bytes the copy runs over the ends of the arrays of message and element.
\<close>

theorem canfd_transmit_frame:
  assumes "tx_free i (regs s)" "length (au8Data msg) = 64" "bus_wait chip clk psrs = Inr idle"
  shows "(u32DLC msg \<le> 64 \<longrightarrow> (\<exists>s'. CANFD_TransmitDMsg chip clk psrs i msg s = Inr (if idle then 1 else 0, s') \<and>
      regs s' = (regs s)\<lparr>TXBAR := (if idle then push_bit (unat i) 1 else TXBAR (regs s))\<rparr> \<and>
      (\<forall>x. x < tx_buf_addr s i \<or> tx_buf_addr s i + 8 + 4 * ((unat (u32DLC msg) + 3) div 4) \<le> x \<longrightarrow>
         mem s' x = mem s x) \<and>
      load32 (tx_buf_addr s i) (mem s') = tx_id_word msg \<and>
      tx_buf_addr s i + 8 + 4 * ((unat (u32DLC msg) + 3) div 4) \<le> tx_buf_addr s (i + 1))) \<and>
    (64 < u32DLC msg \<and> u32DLC msg < 0xFFFFFFFD \<longrightarrow> CANFD_TransmitDMsg chip clk psrs i msg s = Inl Buffer_Overrun)"
proof (intro conjI impI)
  assume dlc: "u32DLC msg \<le> 64"
  define a where "a = tx_buf_addr s i"
  define t where "t = s\<lparr>mem := tx_mem a msg (mem s)\<rparr>"
  define s' where "s' = (if idle then set_regs (\<lambda>r. r\<lparr>TXBAR := push_bit (unat i) 1\<rparr>) t else t)"
  have mem: "mem s' = tx_mem a msg (mem s)" by (simp add: s'_def t_def set_regs_def)
  have "CANFD_TransmitDMsg chip clk psrs i msg s = Inr (if idle then 1 else 0, s')"
    unfolding TransmitDMsg_free[OF assms(1) dlc assms(2)] assms(3) by (simp add: s'_def t_def a_def)
  moreover have "regs s' = (regs s)\<lparr>TXBAR := (if idle then push_bit (unat i) 1 else TXBAR (regs s))\<rparr>"
    by (simp add: s'_def t_def set_regs_def)
  moreover have "unat (i + 1) = unat i + 1"
    using assms(1) by (subst unat_add_nowrap) (auto simp: tx_free_def word_less_nat_alt)
  then have "a + 8 + 4 * ((unat (u32DLC msg) + 3) div 4) \<le> tx_buf_addr s (i + 1)"
    using dlc by (simp add: a_def tx_buf_addr_def sram_addr_def word_le_nat_alt)
  ultimately show "\<exists>s'. CANFD_TransmitDMsg chip clk psrs i msg s = Inr (if idle then 1 else 0, s') \<and>
      regs s' = (regs s)\<lparr>TXBAR := (if idle then push_bit (unat i) 1 else TXBAR (regs s))\<rparr> \<and>
      (\<forall>x. x < tx_buf_addr s i \<or> tx_buf_addr s i + 8 + 4 * ((unat (u32DLC msg) + 3) div 4) \<le> x \<longrightarrow>
         mem s' x = mem s x) \<and>
      load32 (tx_buf_addr s i) (mem s') = tx_id_word msg \<and>
      tx_buf_addr s i + 8 + 4 * ((unat (u32DLC msg) + 3) div 4) \<le> tx_buf_addr s (i + 1)"
    using tx_mem_frame[OF _ dlc, of _ a "mem s"] tx_mem_words(1)[of a msg "mem s"]
    by (auto simp: mem a_def)
qed (use TransmitDMsg_overrun[OF assms(1,2)] in simp)

theorem canfd_transmit_frame_witness:
  "(\<exists>s'. CANFD_TransmitDMsg 0 100 [0, 0] 0 (canfd_msg 25) canfd0 = Inr (0, s') \<and>
     mem s' (tx_buf_addr canfd0 0 + 8 + 28) = 0xEE \<and> padded 25 = 32) \<and>
   CANFD_TransmitDMsg 0 100 [0, 0] 0 (canfd_msg 65) canfd0 = Inl Buffer_Overrun"
proof -
  have bus: "bus_wait 0 100 [0, 0] = Inr False"
    by (simp add: bus_wait_def chip_rev_a_def CANFD_GET_COMMUNICATION_STATE_def)
  moreover have "padded 25 = 32" by (simp add: padded_def CANFD_EncodeDLC_def CANFD_DecodeDLC_def)
  ultimately have "\<exists>s'. CANFD_TransmitDMsg 0 100 [0, 0] 0 (canfd_msg 25) canfd0 = Inr (0, s') \<and>
     mem s' (tx_buf_addr canfd0 0 + 8 + 28) = 0xEE \<and> padded 25 = 32"
    using canfd_transmit_frame[of 0 canfd0 "canfd_msg 25" 0 100 "[0, 0]" False]
    by (auto simp: tx_free_def)
  moreover have "CANFD_TransmitDMsg 0 100 [0, 0] 0 (canfd_msg 65) canfd0 = Inl Buffer_Overrun"
    using canfd_transmit_frame[of 0 canfd0 "canfd_msg 65" 0 100 "[0, 0]" False] bus by (auto simp: tx_free_def)
  ultimately show ?thesis by blast
qed

text \<open>
  The data length codes are the optimal ones: the code of a length up to 64 stands for at least
  that length, no smaller code does, and each of the 16 codes is the code of its own length.
\<close>

lemma canfd_dlc_codes:
  fixes n d :: u8
  shows "(n \<le> 64 \<longrightarrow> n \<le> CANFD_DecodeDLC (CANFD_EncodeDLC n) \<and>
           (\<forall>c \<le> 15. n \<le> CANFD_DecodeDLC c \<longrightarrow> CANFD_EncodeDLC n \<le> c)) \<and>
         (d \<le> 15 \<longrightarrow> CANFD_EncodeDLC (CANFD_DecodeDLC d) = d)"
  using EncodeDLC_covers EncodeDLC_least EncodeDLC_DecodeDLC by auto

section \<open>Message RAM\<close>

text \<open>
  C29. When the filter, buffer and FIFO sections together take less than 64 KB, \<open>CANFD_CalculateRamAddress\<close> lays the
  non-empty sections out in the order of the hardware manual: each starts at the end of those before it, so that none
  overlaps the next, and everything before the transmit events takes exactly the sum of the sizes. In both default configurations
  every section, the transmit events included, ends inside of the message RAM that the configuration announces.
\<close>

theorem canfd_ram_layout:
  fixes a0 :: CANFD_RAM_PART_T
  assumes "sum_list (section_sizes sz) < 2 ^ 16"
  defines "a \<equiv> CANFD_CalculateRamAddress sz a0"
  shows "(u32SIDFC sz > 0 \<longrightarrow> unat (u32SIDFC_FLSSA a) = section_start sz 0) \<and>
    (u32XIDFC sz > 0 \<longrightarrow> unat (u32XIDFC_FLESA a) = section_start sz 1) \<and>
    (u32TxBuf sz > 0 \<longrightarrow> unat (u32TXBC_TBSA a) = section_start sz 2) \<and>
    (u32RxBuf sz > 0 \<longrightarrow> unat (u32RXBC_RBSA a) = section_start sz 3) \<and>
    (u32RxFifo0 sz > 0 \<longrightarrow> unat (u32RXF0C_F0SA a) = section_start sz 4) \<and>
    (u32RxFifo1 sz > 0 \<longrightarrow> unat (u32RXF1C_F1SA a) = section_start sz 5) \<and>
    (u32TxEventFifo sz > 0 \<longrightarrow> unat (u32TXEFC_EFSA a) = section_start sz 6) \<and>
    sorted_wrt (\<lambda>(p, n) (q, k). p + n \<le> q) (ram_sections sz a) \<and>
    (let d = CANFD_GetDefaultConfig mode in
      \<forall>(p, n) \<in> set (ram_sections (sElemSize d) (sMRamStartAddr d)). p + n \<le> unat (u32MRamSize d))"
  using CalculateRamAddress_starts[OF assms(1), of a0] ram_sections_sorted[OF assms(1), of a0] default_sections_fit
  by (auto simp: a_def Let_def)

theorem canfd_ram_layout_witness:
  "let a = sMRamStartAddr (CANFD_GetDefaultConfig 1)
   in unat (u32TXBC_TBSA a) = 48 \<and> unat (u32TXEFC_EFSA a) = 7536 \<and>
      ram_sections (sElemSize (CANFD_GetDefaultConfig 1)) a =
        [(0, 16), (16, 32), (48, 576), (624, 2304), (2928, 2304), (5232, 2304), (7536, 64)]"
proof -
  let ?sz = "sElemSize (CANFD_GetDefaultConfig 1)"
  have "section_sizes ?sz = [16, 32, 576, 2304, 2304, 2304]"
    by (simp add: section_sizes_def CANFD_GetDefaultConfig_def zero_config_def Let_def)
  then show ?thesis
    using canfd_ram_layout[of ?sz "sMRamStartAddr zero_config"]
    by (simp add: section_start_def CANFD_GetDefaultConfig_def zero_config_def Let_def ram_sections_def)
qed

section \<open>Bit timing and opening\<close>

text \<open>
  C30. For a rate of at most 8 MHz (the driver's own cap) and a clock below 2 GHz that the slowest
  bit of the grid does not exceed, \<open>CANFD_SetBitRate\<close> finds a setting within the limits of the
  hardware, writes its prescaler, segments and jump width into the fields of \<open>NBTP\<close> or
  \<open>DBTP\<close>, returns the resulting rate, and no prescaler and number of quanta within the limits
  comes closer to the rate asked for (as long as their quotient does not call for a larger prescaler).
\<close>

theorem canfd_bitrate_best:
  assumes "rate_reachable nbtp c baud"
  shows "\<exists>brp tseg1 tseg2 r'.
    CANFD_SetBitRate baud c nbtp r = Inr (word_of_int (uint c div (brp * (1 + tseg1 + tseg2))), r') \<and>
    timing_written nbtp brp (min 2 tseg2) tseg1 tseg2 r' \<and>
    1 \<le> brp \<and> brp \<le> brp_max (bt_limits_of nbtp) \<and>
    tseg1_min (bt_limits_of nbtp) \<le> tseg1 \<and> tseg1 \<le> tseg1_max (bt_limits_of nbtp) \<and>
    tseg2_min (bt_limits_of nbtp) \<le> tseg2 \<and> tseg2 \<le> tseg2_max (bt_limits_of nbtp) \<and>
    (\<forall>brp' n. 1 \<le> brp' \<and> brp' \<le> brp_max (bt_limits_of nbtp) \<and> quanta_ok nbtp n \<and>
       uint c div (n * uint baud) \<le> brp_max (bt_limits_of nbtp) \<longrightarrow>
       \<bar>uint baud - uint c div (brp * (1 + tseg1 + tseg2))\<bar> \<le> \<bar>uint baud - uint c div (brp' * n)\<bar>)"
proof -
  note reach = assms[unfolded rate_reachable_def]
  obtain t brp tseg1 tseg2 r' where
    t: "best_of nbtp (uint c) baud (set (bt_tsegs nbtp)) t" "brp = cand_brp (uint c) (uint baud) t"
      "tseg1 + tseg2 = t div 2" and
    res: "1 \<le> brp" "brp \<le> brp_max (bt_limits_of nbtp)"
    "tseg1_min (bt_limits_of nbtp) \<le> tseg1" "tseg1 \<le> tseg1_max (bt_limits_of nbtp)"
    "tseg2_min (bt_limits_of nbtp) \<le> tseg2" "tseg2 \<le> tseg2_max (bt_limits_of nbtp)"
    "CANFD_SetBitRate baud c nbtp r = Inr (word_of_int (uint c div (brp * (tseg1 + tseg2 + 1))), r')"
    "timing_written nbtp brp (min 2 tseg2) tseg1 tseg2 r'"
    using SetBitRate_result[OF reach[THEN conjunct1] reach[THEN conjunct2], of r] by blast
  have comm: "tseg1 + tseg2 + 1 = 1 + tseg1 + tseg2" by simp
  have "cand_error (uint c) (uint baud) t = \<bar>uint baud - uint c div (brp * (1 + tseg1 + tseg2))\<bar>"
    using t(2,3) by (simp add: cand_error_def rate_error_def add.assoc)
  with best_rate[OF t(1) reach[THEN conjunct1]]
  have "\<forall>brp' n. 1 \<le> brp' \<and> brp' \<le> brp_max (bt_limits_of nbtp) \<and> quanta_ok nbtp n \<and>
       uint c div (n * uint baud) \<le> brp_max (bt_limits_of nbtp) \<longrightarrow>
       \<bar>uint baud - uint c div (brp * (1 + tseg1 + tseg2))\<bar> \<le> \<bar>uint baud - uint c div (brp' * n)\<bar>"
    by (auto simp: rate_error_def)
  then show ?thesis using res unfolding comm by blast
qed

theorem canfd_bitrate_best_witness:
  "\<exists>rate r'. CANFD_SetBitRate 500000 200000000 True canfd_regs0 = Inr (rate, r') \<and> rate = 500000"
proof -
  have "rate_reachable True 200000000 500000"
    by (simp add: rate_reachable_def bt_range_def bt_limits_of_def)
  from canfd_bitrate_best[OF this, of canfd_regs0] obtain brp tseg1 tseg2 r' where
    r: "CANFD_SetBitRate 500000 200000000 True canfd_regs0 =
          Inr (word_of_int (200000000 div (brp * (1 + tseg1 + tseg2))), r')" and
    best: "\<forall>brp' n. 1 \<le> brp' \<and> brp' \<le> 512 \<and> quanta_ok True n \<and> 200000000 div (n * 500000) \<le> 512 \<longrightarrow>
       \<bar>500000 - 200000000 div (brp * (1 + tseg1 + tseg2))\<bar> \<le> \<bar>500000 - 200000000 div (brp' * n)\<bar>"
    by (auto simp: bt_limits_of_def)
  from best[rule_format, of 2 200] have "200000000 div (brp * (1 + tseg1 + tseg2)) = 500000"
    by (simp add: quanta_ok_def bt_limits_of_def)
  with r show ?thesis by simp
qed



section \<open>Reception\<close>

text \<open>
  C32. Whatever the message RAM holds, a message that \<open>CANFD_ReadRxBufMsg\<close> or
  \<open>CANFD_ReadRxFifoMsg\<close> reports as received is well formed: 64 bytes of data, one of the sixteen
  lengths of CAN FD, an identifier of 11 or 29 bits, flags 0 or 1. When they report none, message and
  port are unchanged; they never write to the message RAM.
\<close>

theorem canfd_received_well_formed:
  assumes "length (au8Data msg) = 64"
  shows "(case CANFD_ReadRxBufMsg u8MbIdx msg s of (ok, m, s') \<Rightarrow>
            mem s' = mem s \<and> (if ok = 0 then m = msg \<and> s' = s else ok = 1 \<and> canfd_msg_wf m)) \<and>
         (case CANFD_ReadRxFifoMsg rxfs u8FifoIdx msg s of (ok, m, s') \<Rightarrow>
            mem s' = mem s \<and> (if ok = 0 then m = msg \<and> s' = s else (ok = 1 \<or> ok = 2) \<and> canfd_msg_wf m))"
  using CopyDBuf_wf[OF assms]
  by (auto simp: CANFD_ReadRxBufMsg_def CANFD_ReadRxFifoMsg_def CANFD_CopyRxFifoToMsgBuf_def Let_def
      split: prod.splits)

theorem canfd_received_well_formed_witness:
  "\<exists>m s'. CANFD_ReadRxBufMsg 1 (canfd_msg 0) canfd0 = (1, m, s') \<and> canfd_msg_wf m"
proof -
  obtain ok m s' where r: "CANFD_ReadRxBufMsg 1 (canfd_msg 0) canfd0 = (ok, m, s')" by (metis surj_pair)
  then have "ok = 1" by (auto simp: CANFD_ReadRxBufMsg_def Let_def split: if_splits)
  with r canfd_received_well_formed[where msg = "canfd_msg 0" and u8MbIdx = 1 and s = canfd0] show ?thesis by auto
qed

text \<open>
  C33. Reading one dedicated receive buffer clears the new-data flags of all 32 buffers of its
  register, since the flags are cleared by the ones written and the code writes back every flag it
  reads: each other message waiting there is reported as absent afterwards.
\<close>

theorem canfd_read_drops_other_messages:
  assumes "CANFD_ReadRxBufMsg i msg s = (1, m, s')" "i < 32" "j < 32"
  shows "NDAT1 (regs s') = 0 \<and> NDAT2 (regs s') = NDAT2 (regs s) \<and>
         CANFD_ReadRxBufMsg j msg' s' = (0, msg', s')"
proof -
  have "NDAT1 r AND NOT (NDAT1 r OR x) = 0" for r :: CANFD_T and x
    by (rule bit_word_eqI) (auto simp: bit_simps)
  then have "NDAT1 (regs s') = 0 \<and> NDAT2 (regs s') = NDAT2 (regs s)"
    using assms(1,2) by (auto simp: CANFD_ReadRxBufMsg_def Let_def set_regs_def write_NDAT1_def split: if_splits)
  then show ?thesis using assms(3) by (simp add: CANFD_ReadRxBufMsg_def Let_def)
qed

theorem canfd_read_drops_other_messages_witness:
  "bit (NDAT1 (regs canfd0)) 2 \<and>
   (\<exists>m s'. CANFD_ReadRxBufMsg 1 (canfd_msg 0) canfd0 = (1, m, s') \<and>
      CANFD_ReadRxBufMsg 2 (canfd_msg 0) s' = (0, canfd_msg 0, s'))"
proof -
  obtain ok m s' where r: "CANFD_ReadRxBufMsg 1 (canfd_msg 0) canfd0 = (ok, m, s')" by (metis surj_pair)
  then have "ok = 1" by (auto simp: CANFD_ReadRxBufMsg_def Let_def split: if_splits)
  with r canfd_read_drops_other_messages[of 1 "canfd_msg 0" canfd0 m s' 2 "canfd_msg 0"] show ?thesis
    by auto
qed

section \<open>Clock of a port\<close>

text \<open>
  \<open>CANFD_Open\<close> reads the source and the divider of ports 0 and 1 from their fields, but on
  ports 2 and 3 it shifts by the module number of the port, far beyond the width of the register:
  the C behaviour is undefined there, whatever the configuration.
\<close>

lemma canfd_open_clock_of_port:
  "(port s = CANFD0 \<longrightarrow> canfd_clock (port s) clk =
      Inr ((if bit (CLKSEL4 clk) 16 then VPLL_freq clk else APLL_freq clk) div (2 * (get_field 7 0 (CLKDIV0 clk) + 1)))) \<and>
   (port s = CANFD1 \<longrightarrow> canfd_clock (port s) clk =
      Inr ((if bit (CLKSEL4 clk) 17 then VPLL_freq clk else APLL_freq clk) div (2 * (get_field 7 4 (CLKDIV0 clk) + 1)))) \<and>
   (port s = CANFD2 \<or> port s = CANFD3 \<longrightarrow> CANFD_Open clk cfg s = Inl Shift_Out_Of_Range)"
proof -
  have one: "drop_bit n (w AND push_bit n 1) = (if bit w n then 1 else 0)" if "n < 32" for w :: u32 and n
    by (rule bit_word_eqI) (use that in \<open>auto simp: bit_simps intro: gr0I\<close>)
  show ?thesis
    using one[of 16 "CLKSEL4 clk"] one[of 17 "CLKSEL4 clk"]
    by (auto simp: canfd_clock_def CANFD_Open_def CANFD_GetClockSource_def CANFD_GetClockDiv_def Let_def
        get_field_def push_bit_eq_mult mult.commute)
qed

text \<open>The receive error counter that the driver reports is always zero: it masks after shifting.\<close>

lemma canfd_rx_error_count_zero: "snd (CANFD_GetBusErrCount tx True r) = Some 0"
proof -
  have m: "(0x7F :: u32) = mask 7" by (simp add: mask_eq_exp_minus_1)
  have "(ucast (drop_bit 8 (ECR r) AND push_bit 8 0x7F) :: u8) = 0"
    unfolding m by (rule bit_word_eqI) (auto simp: bit_unsigned_iff bit_and_iff bit_push_bit_iff)
  then show ?thesis by (simp add: CANFD_GetBusErrCount_def)
qed

end
