(* ===== verification/Rtc.thy ===== *)
theory Rtc
  imports MA35_Prelude
begin

text \<open>
  The real-time clock driver (\<open>StdDriver/src/rtc.c\<close>, \<open>StdDriver/inc/rtc.h\<close>): the conversion between
  \<open>S_RTC_TIME_DATA_T\<close> and the decimal digits of the calendar and time registers, for the
  current time and for the alarm, and the control registers.

  The clock counts while the driver reads it. A function that reads the counters has an argument \<open>rd\<close>:
  \<open>rd k\<close> are the registers as its access number \<open>k\<close>, counted from 0, finds them. A pointer that may be
  null is an option.
\<close>

section \<open>Registers and data\<close>

record RTC_T =
  INIT :: u32
  TIME :: u32
  CAL :: u32
  CLKFMT :: u32
  WEEKDAY :: u32
  TALM :: u32
  CALM :: u32
  LEAPYEAR :: u32
  INTEN :: u32
  INTSTS :: u32
  TICK :: u32
  TAMSK :: u32
  CAMSK :: u32

record S_RTC_TIME_DATA_T =
  u32Year :: u32
  u32Month :: u32
  u32Day :: u32
  u32DayOfWeek :: u32
  u32Hour :: u32
  u32Minute :: u32
  u32Second :: u32
  u32TimeScale :: u32
  u32AmPm :: u32

text \<open>The static variables in which the digits are collected.\<close>

record rtc_digits =
  g_u32hiYear :: u32
  g_u32loYear :: u32
  g_u32hiMonth :: u32
  g_u32loMonth :: u32
  g_u32hiDay :: u32
  g_u32loDay :: u32
  g_u32hiHour :: u32
  g_u32loHour :: u32
  g_u32hiMin :: u32
  g_u32loMin :: u32
  g_u32hiSec :: u32
  g_u32loSec :: u32

datatype rtc_fault = Null_Pointer

abbreviation RTC_INIT_KEY :: u32 where "RTC_INIT_KEY \<equiv> 0xA5EB1357"
abbreviation RTC_INIT_ACTIVE_Msk :: u32 where "RTC_INIT_ACTIVE_Msk \<equiv> 1"
abbreviation RTC_CLKFMT_24HEN_Msk :: u32 where "RTC_CLKFMT_24HEN_Msk \<equiv> 1"
abbreviation RTC_WEEKDAY_WEEKDAY_Msk :: u32 where "RTC_WEEKDAY_WEEKDAY_Msk \<equiv> 7"
abbreviation RTC_TICK_TICK_Msk :: u32 where "RTC_TICK_TICK_Msk \<equiv> 7"
abbreviation RTC_YEAR2000 :: u32 where "RTC_YEAR2000 \<equiv> 2000"

definition RTC_CLOCK_12 :: u32 where "RTC_CLOCK_12 = 0"

definition RTC_CLOCK_24 :: u32 where "RTC_CLOCK_24 = 1"

definition RTC_AM :: u32 where "RTC_AM = 1"

definition RTC_PM :: u32 where "RTC_PM = 2"

section \<open>Writing a date and a time\<close>

text \<open>The registers hold two decimal digits for each number.\<close>

definition cal_word :: "u32 \<Rightarrow> u32 \<Rightarrow> u32 \<Rightarrow> u32" where
  "cal_word year month day =
     push_bit 20 ((year - RTC_YEAR2000) div 10) OR push_bit 16 ((year - RTC_YEAR2000) mod 10) OR
     push_bit 12 (month div 10) OR push_bit 8 (month mod 10) OR
     push_bit 4 (day div 10) OR day mod 10"

definition time_word :: "u32 \<Rightarrow> u32 \<Rightarrow> u32 \<Rightarrow> u32" where
  "time_word hour minute second =
     push_bit 20 (hour div 10) OR push_bit 16 (hour mod 10) OR
     push_bit 12 (minute div 10) OR push_bit 8 (minute mod 10) OR
     push_bit 4 (second div 10) OR second mod 10"

text \<open>In the 12-hour scale the hours after noon are 21 to 32; the structure of the caller is changed.\<close>

definition scale_hour :: "RTC_T \<Rightarrow> S_RTC_TIME_DATA_T \<Rightarrow> S_RTC_TIME_DATA_T" where
  "scale_hour r sPt =
     (let t = sPt\<lparr>u32TimeScale := CLKFMT r AND RTC_CLKFMT_24HEN_Msk\<rparr>
      in if u32TimeScale t = RTC_CLOCK_12
         then (if u32AmPm t = RTC_PM then t\<lparr>u32Hour := u32Hour t + 20\<rparr> else t)
         else t)"

definition RTC_SetDateAndTime :: "S_RTC_TIME_DATA_T \<Rightarrow> RTC_T \<Rightarrow> S_RTC_TIME_DATA_T \<times> RTC_T" where
  "RTC_SetDateAndTime sPt r =
     (let t = scale_hour r sPt;
          r = r\<lparr>WEEKDAY := u32DayOfWeek t\<rparr>;
          u32RegCAL = cal_word (u32Year t) (u32Month t) (u32Day t);
          u32RegTIME = time_word (u32Hour t) (u32Minute t) (u32Second t)
      in (t, r\<lparr>CAL := u32RegCAL, TIME := u32RegTIME\<rparr>))"

definition RTC_SetAlarmDateAndTime :: "S_RTC_TIME_DATA_T \<Rightarrow> RTC_T \<Rightarrow> S_RTC_TIME_DATA_T \<times> RTC_T" where
  "RTC_SetAlarmDateAndTime sPt r =
     (let t = scale_hour r sPt;
          u32RegCALM = cal_word (u32Year t) (u32Month t) (u32Day t);
          u32RegTALM = time_word (u32Hour t) (u32Minute t) (u32Second t)
      in (t, r\<lparr>CALM := u32RegCALM, TALM := u32RegTALM\<rparr>))"

definition RTC_SetDate :: "u32 \<Rightarrow> u32 \<Rightarrow> u32 \<Rightarrow> u32 \<Rightarrow> RTC_T \<Rightarrow> RTC_T" where
  "RTC_SetDate year month day dow r =
     r\<lparr>WEEKDAY := dow AND RTC_WEEKDAY_WEEKDAY_Msk, CAL := cal_word year month day\<rparr>"

text \<open>The hour of the functions without a structure.\<close>

definition plain_hour :: "RTC_T \<Rightarrow> u32 \<Rightarrow> u32 \<Rightarrow> u32" where
  "plain_hour r hour ampm =
     (let u32TimeMode = CLKFMT r AND RTC_CLOCK_24
      in if u32TimeMode = RTC_CLOCK_12 \<and> ampm = RTC_PM then hour + 20 else hour)"

definition RTC_SetTime :: "u32 \<Rightarrow> u32 \<Rightarrow> u32 \<Rightarrow> u32 \<Rightarrow> u32 \<Rightarrow> RTC_T \<Rightarrow> RTC_T" where
  "RTC_SetTime hour minute second u32TimeMode ampm r =
     r\<lparr>TIME := time_word (plain_hour r hour ampm) minute second\<rparr>"

definition RTC_SetAlarmDate :: "u32 \<Rightarrow> u32 \<Rightarrow> u32 \<Rightarrow> RTC_T \<Rightarrow> RTC_T" where
  "RTC_SetAlarmDate year month day r = r\<lparr>CALM := cal_word year month day\<rparr>"

definition RTC_SetAlarmTime :: "u32 \<Rightarrow> u32 \<Rightarrow> u32 \<Rightarrow> u32 \<Rightarrow> u32 \<Rightarrow> RTC_T \<Rightarrow> RTC_T" where
  "RTC_SetAlarmTime hour minute second u32TimeMode ampm r =
     r\<lparr>TALM := time_word (plain_hour r hour ampm) minute second\<rparr>"

section \<open>Reading a date and a time\<close>

text \<open>Six reads of a calendar register and six reads of a time register, one for each digit.\<close>

definition date_digits :: "(nat \<Rightarrow> u32) \<Rightarrow> rtc_digits \<Rightarrow> rtc_digits" where
  "date_digits cal g = g\<lparr>
     g_u32hiYear := get_field 0xF 20 (cal 0), g_u32loYear := get_field 0xF 16 (cal 1),
     g_u32hiMonth := get_field 1 12 (cal 2), g_u32loMonth := get_field 0xF 8 (cal 3),
     g_u32hiDay := get_field 3 4 (cal 4), g_u32loDay := get_field 0xF 0 (cal 5)\<rparr>"

definition time_digits :: "(nat \<Rightarrow> u32) \<Rightarrow> rtc_digits \<Rightarrow> rtc_digits" where
  "time_digits tim g = g\<lparr>
     g_u32hiHour := get_field 3 20 (tim 0), g_u32loHour := get_field 0xF 16 (tim 1),
     g_u32hiMin := get_field 7 12 (tim 2), g_u32loMin := get_field 0xF 8 (tim 3),
     g_u32hiSec := get_field 7 4 (tim 4), g_u32loSec := get_field 0xF 0 (tim 5)\<rparr>"

text \<open>The numbers, computed from the digits.\<close>

definition from_digits :: "rtc_digits \<Rightarrow> S_RTC_TIME_DATA_T \<Rightarrow> S_RTC_TIME_DATA_T" where
  "from_digits g sPt =
     (let t = sPt\<lparr>u32Year := g_u32hiYear g * 10 + g_u32loYear g + RTC_YEAR2000,
                   u32Month := g_u32hiMonth g * 10 + g_u32loMonth g,
                   u32Day := g_u32hiDay g * 10 + g_u32loDay g,
                   u32Hour := g_u32hiHour g * 10 + g_u32loHour g\<rparr>;
          t = (if u32TimeScale t = RTC_CLOCK_12
               then (if u32Hour t \<ge> 21 then t\<lparr>u32AmPm := RTC_PM, u32Hour := u32Hour t - 20\<rparr>
                     else t\<lparr>u32AmPm := RTC_AM\<rparr>)
               else t)
      in t\<lparr>u32Minute := g_u32hiMin g * 10 + g_u32loMin g, u32Second := g_u32hiSec g * 10 + g_u32loSec g\<rparr>)"

definition RTC_GetDateAndTime :: "(nat \<Rightarrow> RTC_T) \<Rightarrow> rtc_digits \<Rightarrow> S_RTC_TIME_DATA_T \<Rightarrow> rtc_digits \<times> S_RTC_TIME_DATA_T" where
  "RTC_GetDateAndTime rd g sPt =
     (let t = sPt\<lparr>u32TimeScale := CLKFMT (rd 0) AND RTC_CLKFMT_24HEN_Msk, u32DayOfWeek := WEEKDAY (rd 1) AND RTC_WEEKDAY_WEEKDAY_Msk\<rparr>;
          g = date_digits (\<lambda>i. CAL (rd (2 + i))) g;
          g = time_digits (\<lambda>i. TIME (rd (8 + i))) g
      in (g, from_digits g t))"

definition RTC_GetAlarmDateAndTime :: "(nat \<Rightarrow> RTC_T) \<Rightarrow> rtc_digits \<Rightarrow> S_RTC_TIME_DATA_T \<Rightarrow> rtc_digits \<times> S_RTC_TIME_DATA_T" where
  "RTC_GetAlarmDateAndTime rd g sPt =
     (let t = sPt\<lparr>u32TimeScale := CLKFMT (rd 0) AND RTC_CLKFMT_24HEN_Msk, u32DayOfWeek := WEEKDAY (rd 1) AND RTC_WEEKDAY_WEEKDAY_Msk\<rparr>;
          g = date_digits (\<lambda>i. CALM (rd (2 + i))) g;
          g = time_digits (\<lambda>i. TALM (rd (8 + i))) g
      in (g, from_digits g t))"

definition RTC_GetDayOfWeek :: "RTC_T \<Rightarrow> u32" where
  "RTC_GetDayOfWeek r = WEEKDAY r AND RTC_WEEKDAY_WEEKDAY_Msk"

section \<open>Opening\<close>

text \<open>The loop that waits for the clock to be active, on the values it reads: what is left of them.\<close>

fun wait_active :: "u32 list \<Rightarrow> u32 list option" where
  "wait_active [] = None"
| "wait_active (v # vs) = (if v \<noteq> RTC_INIT_ACTIVE_Msk then wait_active vs else Some vs)"

text \<open>The result is \<open>None\<close> while \<open>RTC_Open\<close> still waits.\<close>

definition RTC_Open :: "u32 list \<Rightarrow> S_RTC_TIME_DATA_T option \<Rightarrow> RTC_T \<Rightarrow> (rtc_fault + S_RTC_TIME_DATA_T \<times> RTC_T) option" where
  "RTC_Open polls sPt r =
     (let r = r\<lparr>INIT := RTC_INIT_KEY\<rparr>;
          set = (\<lambda>r. case sPt of None \<Rightarrow> Inl Null_Pointer | Some t \<Rightarrow> Inr (RTC_SetDateAndTime t r))
      in case polls of
           [] \<Rightarrow> None
         | v # vs \<Rightarrow>
             if v \<noteq> RTC_INIT_ACTIVE_Msk then
               (let r = r\<lparr>INIT := RTC_INIT_KEY\<rparr> in case wait_active vs of None \<Rightarrow> None | Some _ \<Rightarrow> Some (set r))
             else Some (set r))"

section \<open>Alarm masks, tick and interrupts\<close>

definition RTC_SetAlarmDateMask :: "u8 \<Rightarrow> u8 \<Rightarrow> u8 \<Rightarrow> u8 \<Rightarrow> u8 \<Rightarrow> u8 \<Rightarrow> RTC_T \<Rightarrow> RTC_T" where
  "RTC_SetAlarmDateMask u8IsTenYMsk u8IsYMsk u8IsTenMMsk u8IsMMsk u8IsTenDMsk u8IsDMsk r = r\<lparr>CAMSK :=
     push_bit 5 (ucast u8IsTenYMsk) OR push_bit 4 (ucast u8IsYMsk) OR push_bit 3 (ucast u8IsTenMMsk) OR
     push_bit 2 (ucast u8IsMMsk) OR push_bit 1 (ucast u8IsTenDMsk) OR push_bit 0 (ucast u8IsDMsk)\<rparr>"

definition RTC_SetAlarmTimeMask :: "u8 \<Rightarrow> u8 \<Rightarrow> u8 \<Rightarrow> u8 \<Rightarrow> u8 \<Rightarrow> u8 \<Rightarrow> RTC_T \<Rightarrow> RTC_T" where
  "RTC_SetAlarmTimeMask u8IsTenHMsk u8IsHMsk u8IsTenMMsk u8IsMMsk u8IsTenSMsk u8IsSMsk r = r\<lparr>TAMSK :=
     push_bit 5 (ucast u8IsTenHMsk) OR push_bit 4 (ucast u8IsHMsk) OR push_bit 3 (ucast u8IsTenMMsk) OR
     push_bit 2 (ucast u8IsMMsk) OR push_bit 1 (ucast u8IsTenSMsk) OR push_bit 0 (ucast u8IsSMsk)\<rparr>"

definition RTC_SetTickPeriod :: "u32 \<Rightarrow> RTC_T \<Rightarrow> RTC_T" where
  "RTC_SetTickPeriod u32TickSelection r = r\<lparr>TICK := (TICK r AND NOT RTC_TICK_TICK_Msk) OR u32TickSelection\<rparr>"

definition RTC_EnableInt :: "u32 \<Rightarrow> RTC_T \<Rightarrow> RTC_T" where
  "RTC_EnableInt u32IntFlagMask r = r\<lparr>INTEN := INTEN r OR u32IntFlagMask\<rparr>"

text \<open>A flag of \<open>INTSTS\<close> is cleared by writing one.\<close>

definition clear_flags :: "u32 \<Rightarrow> RTC_T \<Rightarrow> RTC_T" where
  "clear_flags v r = r\<lparr>INTSTS := INTSTS r AND NOT v\<rparr>"

definition RTC_DisableInt :: "u32 \<Rightarrow> RTC_T \<Rightarrow> RTC_T" where
  "RTC_DisableInt u32IntFlagMask r = clear_flags u32IntFlagMask (r\<lparr>INTEN := INTEN r AND NOT u32IntFlagMask\<rparr>)"

definition RTC_IS_LEAP_YEAR :: "RTC_T \<Rightarrow> u32" where
  "RTC_IS_LEAP_YEAR r = (if LEAPYEAR r AND 1 \<noteq> 0 then 1 else 0)"

definition RTC_CLEAR_ALARM_INT_FLAG :: "RTC_T \<Rightarrow> RTC_T" where
  "RTC_CLEAR_ALARM_INT_FLAG r = clear_flags 1 r"

definition RTC_CLEAR_TICK_INT_FLAG :: "RTC_T \<Rightarrow> RTC_T" where
  "RTC_CLEAR_TICK_INT_FLAG r = clear_flags 2 r"

definition RTC_GET_ALARM_INT_FLAG :: "RTC_T \<Rightarrow> u32" where
  "RTC_GET_ALARM_INT_FLAG r = (if INTSTS r AND 1 \<noteq> 0 then 1 else 0)"

definition RTC_GET_TICK_INT_FLAG :: "RTC_T \<Rightarrow> u32" where
  "RTC_GET_TICK_INT_FLAG r = (if INTSTS r AND 2 \<noteq> 0 then 1 else 0)"

end
