(* ===== verification/Rtc_Props.thy ===== *)
theory Rtc_Props
  imports Rtc
begin

text \<open>
  The properties of the real-time clock driver. The locale \<open>rtc_calendar\<close> is the contract of the two pairs of
  functions that write and read a date and a time, for the current time and for the alarm: what is proved in it
  holds for both.
\<close>

section \<open>Digits of a register\<close>

lemma put_field_zero: "put_field m p v 0 = push_bit p v"
  by (simp add: put_field_def)

lemma get_field_zero [simp]: "get_field m p 0 = 0"
  by (simp add: get_field_def)

lemma get_field_or: "get_field m p (a OR b) = get_field m p a OR get_field m p b"
  by (rule bit_word_eqI) (auto simp: get_field_def bit_simps)

lemma get_field_same:
  "v AND m = v \<Longrightarrow> (\<And>n. bit m n \<Longrightarrow> n + p < 32) \<Longrightarrow> get_field m p (push_bit p v) = v"
  using get_put_field[of v m p 0] by (simp add: put_field_zero)

lemma get_field_other:
  "push_bit p m AND push_bit q m' = 0 \<Longrightarrow> v AND m' = v \<Longrightarrow> get_field m p (push_bit q v) = 0"
  using get_put_field_other[of p m q m' v 0] by (simp add: put_field_zero)

lemma low_masks:
  "v < 2 \<Longrightarrow> v AND 1 = v" "v < 4 \<Longrightarrow> v AND 3 = v" "v < 8 \<Longrightarrow> v AND 7 = v" "v < 16 \<Longrightarrow> v AND 15 = v" for v :: u32
  using low_mask[of v 1] low_mask[of v 2] low_mask[of v 3] low_mask[of v 4] by (simp_all add: word_less_nat_alt mask_eq_exp_minus_1)

lemma bit_nibble: "bit (15 :: u32) n \<Longrightarrow> n < 4"
  using bit_mask_iff[where ?'a = u32, of 4 n] by (simp add: mask_eq_exp_minus_1)

lemma get_field_narrow: "k AND 15 = k \<Longrightarrow> get_field k p w = get_field 15 p w AND k"
proof (rule bit_word_eqI)
  fix n :: nat
  assume "k AND 15 = k" "n < LENGTH(32)"
  then have "bit k n \<longleftrightarrow> bit k n \<and> bit (15 :: u32) n" by (metis bit_and_iff)
  then show "bit (get_field k p w) n \<longleftrightarrow> bit (get_field 15 p w AND k) n" by (auto simp: get_field_def bit_simps)
qed

lemma six_digits:
  assumes "w = push_bit 20 a OR push_bit 16 b OR push_bit 12 c OR push_bit 8 d OR push_bit 4 e OR f"
    "a < 16" "b < 16" "c < 16" "d < 16" "e < 16" "f < 16"
  shows "get_field 15 20 w = a" "get_field 15 16 w = b" "get_field 15 12 w = c" "get_field 15 8 w = d"
    "get_field 15 4 w = e" "get_field 15 0 w = f"
proof -
  note n = assms(2-7)[THEN low_masks(4)]
  have same: "p < 28 \<Longrightarrow> v AND 15 = v \<Longrightarrow> get_field 15 p (push_bit p v) = v" for p v
    by (rule get_field_same, assumption, drule bit_nibble, simp)
  note other = get_field_other[where m' = 15 and m = 15] and same0 = same[of 0 f, simplified] and other0 = get_field_other[of _ 15 0 15 f, simplified]
  show "get_field 15 20 w = a" "get_field 15 16 w = b" "get_field 15 12 w = c" "get_field 15 8 w = d"
    "get_field 15 4 w = e" "get_field 15 0 w = f"
    unfolding assms(1) by (simp_all add: get_field_or same other same0 other0 n)
qed

text \<open>The digits of a number, as words.\<close>

lemma digits_less:
  "v < 160 \<Longrightarrow> v div 10 < 16" "v < 80 \<Longrightarrow> v div 10 < 8" "v < 40 \<Longrightarrow> v div 10 < 4" "v < 20 \<Longrightarrow> v div 10 < 2" "v mod 10 < 16" for v :: u32
  by (simp_all add: word_less_nat_alt unat_div unat_mod)

text \<open>The hour that is read from the digits of \<open>H\<close>: its tens have two bits.\<close>

definition hour_read :: "u32 \<Rightarrow> u32" where
  "hour_read H = (H div 10 AND 3) * 10 + H mod 10"

lemma hour_read_id: "H < 40 \<Longrightarrow> hour_read H = H"
  using low_masks(2)[of "H div 10"] digits_less(3)[of H] div_mult_mod_eq[of H 10] by (simp add: hour_read_def)

lemma hour_spill: "h \<le> 12 \<Longrightarrow> hour_read (h + 40) = h"
proof -
  assume "h \<le> 12"
  then have "unat h \<in> set [0..<13]" by (simp add: word_le_nat_alt)
  moreover have "\<forall>k \<in> set [0..<13]. hour_read (of_nat k + 40) = of_nat k" by (simp add: upt_rec hour_read_def)
  ultimately have "hour_read (of_nat (unat h) + 40) = of_nat (unat h)" by blast
  then show ?thesis by simp
qed

lemma decode:
  assumes "2000 \<le> y" "y \<le> 2099" "m < 20" "d < 40" "H < 160" "mi < 80" "s < 80"
  shows "from_digits (time_digits (\<lambda>_. time_word H mi s) (date_digits (\<lambda>_. cal_word y m d) g)) t =
    (let u = t\<lparr>u32Year := y, u32Month := m, u32Day := d, u32Hour := hour_read H, u32Minute := mi, u32Second := s\<rparr>
     in if u32TimeScale t = RTC_CLOCK_12 then
          (if 21 \<le> hour_read H then u\<lparr>u32Hour := hour_read H - 20, u32AmPm := RTC_PM\<rparr> else u\<lparr>u32AmPm := RTC_AM\<rparr>)
        else u)"
proof -
  have y: "y - 2000 < 160" using assms(1,2) by uint_arith
  have lt: "m < 160" "d < 160" "mi < 160" "s < 160" using assms(3-7) by (simp_all add: word_less_nat_alt)
  note c = six_digits[OF cal_word_def digits_less(1)[OF y] digits_less(5) digits_less(1)[OF lt(1)] digits_less(5) digits_less(1)[OF lt(2)] digits_less(5)]
  note w = six_digits[OF time_word_def digits_less(1)[OF assms(5)] digits_less(5) digits_less(1)[OF lt(3)] digits_less(5) digits_less(1)[OF lt(4)] digits_less(5)]
  note n = get_field_narrow[of 1] get_field_narrow[of 3] get_field_narrow[of 7]
  note k = low_masks(1)[OF digits_less(4)[OF assms(3)]] low_masks(2)[OF digits_less(3)[OF assms(4)]]
    low_masks(3)[OF digits_less(2)[OF assms(6)]] low_masks(3)[OF digits_less(2)[OF assms(7)]]
  have e: "v div 10 * 10 + v mod 10 = v" for v :: u32 by (rule div_mult_mod_eq)
  show ?thesis by (simp add: from_digits_def date_digits_def time_digits_def c w n k e hour_read_def Let_def)
qed

section \<open>The contract of a calendar\<close>

text \<open>A date and a time as the driver documents them, in the scale that is selected.\<close>

definition rtc_valid :: "RTC_T \<Rightarrow> S_RTC_TIME_DATA_T \<Rightarrow> bool" where
  "rtc_valid r t \<longleftrightarrow> 2000 \<le> u32Year t \<and> u32Year t \<le> 2099 \<and> 1 \<le> u32Month t \<and> u32Month t \<le> 12 \<and> 1 \<le> u32Day t \<and> u32Day t \<le> 31 \<and>
     u32DayOfWeek t \<le> 6 \<and> u32Minute t \<le> 59 \<and> u32Second t \<le> 59 \<and>
     (if CLKFMT r AND RTC_CLKFMT_24HEN_Msk = RTC_CLOCK_12
      then 1 \<le> u32Hour t \<and> u32Hour t \<le> 12 \<and> (u32AmPm t = RTC_AM \<or> u32AmPm t = RTC_PM) else u32Hour t \<le> 23)"

text \<open>What is read back: the selected scale, and in the 24-hour scale the old half of the day.\<close>

definition rtc_seen :: "RTC_T \<Rightarrow> S_RTC_TIME_DATA_T \<Rightarrow> S_RTC_TIME_DATA_T \<Rightarrow> S_RTC_TIME_DATA_T" where
  "rtc_seen r t0 t = t\<lparr>u32TimeScale := CLKFMT r AND RTC_CLKFMT_24HEN_Msk, u32DayOfWeek := RTC_GetDayOfWeek r,
     u32AmPm := if CLKFMT r AND RTC_CLKFMT_24HEN_Msk = RTC_CLOCK_12 then u32AmPm t else u32AmPm t0\<rparr>"

locale rtc_calendar =
  fixes put :: "S_RTC_TIME_DATA_T \<Rightarrow> RTC_T \<Rightarrow> S_RTC_TIME_DATA_T \<times> RTC_T"
    and get :: "(nat \<Rightarrow> RTC_T) \<Rightarrow> rtc_digits \<Rightarrow> S_RTC_TIME_DATA_T \<Rightarrow> rtc_digits \<times> S_RTC_TIME_DATA_T"
    and cal tim :: "RTC_T \<Rightarrow> u32"
  assumes put_struct: "fst (put t r) = scale_hour r t"
    and put_cal: "cal (snd (put t r)) = cal_word (u32Year t) (u32Month t) (u32Day t)"
    and put_tim: "tim (snd (put t r)) = time_word (u32Hour (scale_hour r t)) (u32Minute t) (u32Second t)"
    and put_format: "CLKFMT (snd (put t r)) = CLKFMT r"
    and get_steady: "\<forall>k < 14. rd k = r \<Longrightarrow> snd (get rd g t) =
      from_digits (time_digits (\<lambda>_. tim r) (date_digits (\<lambda>_. cal r) g))
        (t\<lparr>u32TimeScale := CLKFMT r AND RTC_CLKFMT_24HEN_Msk, u32DayOfWeek := RTC_GetDayOfWeek r\<rparr>)"
begin

lemma read_back:
  assumes "2000 \<le> u32Year t" "u32Year t \<le> 2099" "u32Month t \<le> 12" "u32Day t \<le> 31" "u32Minute t \<le> 59" "u32Second t \<le> 59"
    "H = u32Hour (scale_hour r t)" "H < 160" "\<forall>k < 14. rd k = snd (put t r)"
  shows "snd (get rd g t0) = rtc_seen (snd (put t r)) t0 (if CLKFMT r AND RTC_CLKFMT_24HEN_Msk = RTC_CLOCK_12
    then (if 21 \<le> hour_read H then t\<lparr>u32Hour := hour_read H - 20, u32AmPm := RTC_PM\<rparr> else t\<lparr>u32Hour := hour_read H, u32AmPm := RTC_AM\<rparr>)
    else t\<lparr>u32Hour := hour_read H\<rparr>)"
proof -
  have b: "u32Month t < 20" "u32Day t < 40" "u32Minute t < 80" "u32Second t < 80"
    using assms(3-6) by (simp_all add: word_le_nat_alt word_less_nat_alt)
  show ?thesis
    unfolding get_steady[OF assms(9)] put_cal put_tim assms(7)[symmetric] decode[OF assms(1,2) b(1,2) assms(8) b(3,4)]
    by (auto simp: put_format rtc_seen_def Let_def intro!: S_RTC_TIME_DATA_T.equality)
qed

lemma round_trip:
  assumes "rtc_valid r t" "\<forall>k < 14. rd k = snd (put t r)"
  shows "snd (get rd g t0) = rtc_seen (snd (put t r)) t0 t"
proof -
  define H where "H = u32Hour (scale_hour r t)"
  have b: "2000 \<le> u32Year t" "u32Year t \<le> 2099" "u32Month t \<le> 12" "u32Day t \<le> 31" "u32Minute t \<le> 59" "u32Second t \<le> 59"
    using assms(1) by (simp_all add: rtc_valid_def)
  have H: "H < 40" "CLKFMT r AND 1 = RTC_CLOCK_12 \<Longrightarrow> (21 \<le> H \<longleftrightarrow> u32AmPm t = RTC_PM)"
    using assms(1) unfolding rtc_valid_def scale_hour_def Let_def H_def
    by (auto simp: RTC_CLOCK_12_def RTC_AM_def RTC_PM_def split: if_splits) uint_arith+
  have "H < 160" using H(1) by (simp add: word_less_nat_alt)
  note seen = read_back[OF b H_def this assms(2)]
  show ?thesis unfolding seen hour_read_id[OF H(1)]
    using H(2) assms(1) unfolding H_def scale_hour_def Let_def
    by (auto simp: put_format rtc_seen_def rtc_valid_def)
qed

text \<open>A structure that was used once has the hours after noon moved by 20; used again they are moved again.\<close>

lemma reused:
  assumes "rtc_valid r t" "CLKFMT r AND RTC_CLKFMT_24HEN_Msk = RTC_CLOCK_12" "u32AmPm t = RTC_PM" "CLKFMT r' = CLKFMT r"
    "u = scale_hour r t" "\<forall>k < 14. rd k = snd (put u r')"
  shows "snd (get rd g t0) = rtc_seen (snd (put u r')) t0 (t\<lparr>u32AmPm := RTC_AM\<rparr>)"
proof -
  have u: "u = t\<lparr>u32TimeScale := CLKFMT r AND 1, u32Hour := u32Hour t + 20\<rparr>" using assms(2,3,5) by (simp add: scale_hour_def)
  define H where "H = u32Hour (scale_hour r' u)"
  have H: "H = u32Hour t + 40" using assms(2-4) u unfolding H_def scale_hour_def Let_def by simp
  have h: "1 \<le> u32Hour t" "u32Hour t \<le> 12" using assms(1,2) by (simp_all add: rtc_valid_def)
  have "H < 160" using h unfolding H by uint_arith
  have b: "2000 \<le> u32Year u" "u32Year u \<le> 2099" "u32Month u \<le> 12" "u32Day u \<le> 31" "u32Minute u \<le> 59" "u32Second u \<le> 59"
    using assms(1) u by (simp_all add: rtc_valid_def)
  note seen = read_back[OF b H_def \<open>H < 160\<close> assms(6)]
  have r: "hour_read H = u32Hour t" "\<not> 21 \<le> u32Hour t" using hour_spill[OF h(2)] h(2) H by (simp, uint_arith)
  show ?thesis unfolding seen r(1) using r(2) assms(2-4) by (simp add: rtc_seen_def put_format u)
qed

end

interpretation current: rtc_calendar RTC_SetDateAndTime RTC_GetDateAndTime CAL TIME
  by unfold_locales (simp_all add: RTC_SetDateAndTime_def RTC_GetDateAndTime_def RTC_GetDayOfWeek_def scale_hour_def date_digits_def time_digits_def Let_def)

interpretation alarm: rtc_calendar RTC_SetAlarmDateAndTime RTC_GetAlarmDateAndTime CALM TALM
  by unfold_locales (simp_all add: RTC_SetAlarmDateAndTime_def RTC_GetAlarmDateAndTime_def RTC_GetDayOfWeek_def scale_hour_def date_digits_def time_digits_def Let_def)

section \<open>Properties\<close>

lemma weekday_kept: "u32DayOfWeek t \<le> 7 \<Longrightarrow> u32DayOfWeek t AND RTC_WEEKDAY_WEEKDAY_Msk = u32DayOfWeek t"
  by (rule low_masks(3)) (simp add: word_le_nat_alt word_less_nat_alt)

text \<open>
  C34. A valid date and time that is set is read back, as the current time and as the alarm, in the 12-hour and in the 24-hour
  scale, as long as the clock does not count in between. The scale is the one selected in the register, whatever the caller
  asked for; in the 24-hour scale the half of the day is left as it was; the alarm has the current day of the week.
\<close>

theorem rtc_set_then_get:
  assumes "rtc_valid r t" "\<forall>k < 14. rd k = snd (RTC_SetDateAndTime t r)" "\<forall>k < 14. rd' k = snd (RTC_SetAlarmDateAndTime t r)"
    "half = (if CLKFMT r AND RTC_CLKFMT_24HEN_Msk = RTC_CLOCK_12 then u32AmPm t else u32AmPm t0)"
  shows "snd (RTC_GetDateAndTime rd g t0) = t\<lparr>u32TimeScale := CLKFMT r AND RTC_CLKFMT_24HEN_Msk, u32AmPm := half\<rparr> \<and>
    snd (RTC_GetAlarmDateAndTime rd' g t0) =
      t\<lparr>u32TimeScale := CLKFMT r AND RTC_CLKFMT_24HEN_Msk, u32AmPm := half, u32DayOfWeek := RTC_GetDayOfWeek r\<rparr>"
proof -
  have "u32DayOfWeek t \<le> 7" using assms(1) by (simp add: rtc_valid_def word_le_nat_alt)
  note w = weekday_kept[OF this]
  show ?thesis
    unfolding current.round_trip[OF assms(1,2)] alarm.round_trip[OF assms(1,3)]
    using w assms(4)
    by (simp add: rtc_seen_def current.put_format alarm.put_format RTC_GetDayOfWeek_def RTC_SetDateAndTime_def RTC_SetAlarmDateAndTime_def scale_hour_def Let_def)
qed

text \<open>A quarter past three in the afternoon of Leap Day 2024, a Thursday.\<close>

definition leap_day :: S_RTC_TIME_DATA_T where
  "leap_day = \<lparr>u32Year = 2024, u32Month = 2, u32Day = 29, u32DayOfWeek = 4, u32Hour = 3, u32Minute = 15, u32Second = 0,
     u32TimeScale = 1, u32AmPm = RTC_PM\<rparr>"

definition rtc_reset :: RTC_T where
  "rtc_reset = \<lparr>INIT = 0, TIME = 0, CAL = 0, CLKFMT = 0, WEEKDAY = 6, TALM = 0, CALM = 0, LEAPYEAR = 0, INTEN = 0, INTSTS = 0,
     TICK = 0, TAMSK = 0, CAMSK = 0\<rparr>"

lemma leap_day_valid: "rtc_valid rtc_reset leap_day"
  by (simp add: rtc_valid_def rtc_reset_def leap_day_def RTC_CLOCK_12_def)

theorem rtc_set_then_get_witness:
  "\<forall>g t0. snd (RTC_GetDateAndTime (\<lambda>_. snd (RTC_SetDateAndTime leap_day rtc_reset)) g t0) = leap_day\<lparr>u32TimeScale := 0\<rparr> \<and>
   snd (RTC_GetAlarmDateAndTime (\<lambda>_. snd (RTC_SetAlarmDateAndTime leap_day rtc_reset)) g t0) = leap_day\<lparr>u32TimeScale := 0, u32DayOfWeek := 6\<rparr>"
  using rtc_set_then_get[OF leap_day_valid, of "\<lambda>_. snd (RTC_SetDateAndTime leap_day rtc_reset)" "\<lambda>_. snd (RTC_SetAlarmDateAndTime leap_day rtc_reset)" RTC_PM]
  by (simp add: rtc_reset_def leap_day_def RTC_CLOCK_12_def RTC_GetDayOfWeek_def)

text \<open>
  Setting a time after noon in the 12-hour scale changes the hour in the structure of the caller. When the caller sets the
  same structure again, as the time or as the alarm, the clock is set to the hour before noon.
\<close>

lemma rtc_reused_structure_loses_pm:
  assumes "rtc_valid r t" "CLKFMT r AND RTC_CLKFMT_24HEN_Msk = RTC_CLOCK_12" "u32AmPm t = RTC_PM"
    "u = fst (RTC_SetDateAndTime t r) \<or> u = fst (RTC_SetAlarmDateAndTime t r)" "CLKFMT r' = CLKFMT r"
    "\<forall>k < 14. rd k = snd (RTC_SetDateAndTime u r')" "\<forall>k < 14. rd' k = snd (RTC_SetAlarmDateAndTime u r')"
  shows "snd (RTC_GetDateAndTime rd g t0) = t\<lparr>u32TimeScale := RTC_CLOCK_12, u32AmPm := RTC_AM\<rparr> \<and>
    snd (RTC_GetAlarmDateAndTime rd' g t0) =
      t\<lparr>u32TimeScale := RTC_CLOCK_12, u32AmPm := RTC_AM, u32DayOfWeek := RTC_GetDayOfWeek r'\<rparr>"
proof -
  have u: "u = scale_hour r t" using assms(4) by (auto simp: current.put_struct alarm.put_struct)
  then have "u32DayOfWeek u = u32DayOfWeek t" by (simp add: scale_hour_def Let_def)
  then have "u32DayOfWeek u \<le> 7" using assms(1) by (simp add: rtc_valid_def word_le_nat_alt)
  note w = weekday_kept[OF this]
  show ?thesis
    unfolding current.reused[OF assms(1-3,5) u assms(6)] alarm.reused[OF assms(1-3,5) u assms(7)]
    using w assms(2,5) \<open>u32DayOfWeek u = u32DayOfWeek t\<close>
    by (simp add: rtc_seen_def current.put_format alarm.put_format RTC_GetDayOfWeek_def RTC_SetDateAndTime_def RTC_SetAlarmDateAndTime_def scale_hour_def Let_def)
qed

text \<open>
  Setting the date and then the time has the same effect on the registers as setting both from a structure, for
  the current time when the day of the week is one, and for the alarm always. The time mode of the caller has no effect.
\<close>

lemma rtc_parts_equal_whole:
  "RTC_SetAlarmTime (u32Hour t) (u32Minute t) (u32Second t) mode (u32AmPm t)
     (RTC_SetAlarmDate (u32Year t) (u32Month t) (u32Day t) r) = snd (RTC_SetAlarmDateAndTime t r) \<and>
   (u32DayOfWeek t \<le> 7 \<longrightarrow> RTC_SetTime (u32Hour t) (u32Minute t) (u32Second t) mode (u32AmPm t)
     (RTC_SetDate (u32Year t) (u32Month t) (u32Day t) (u32DayOfWeek t) r) = snd (RTC_SetDateAndTime t r))"
  using weekday_kept[of t]
  by (simp add: RTC_SetAlarmTime_def RTC_SetAlarmDate_def RTC_SetAlarmDateAndTime_def RTC_SetTime_def RTC_SetDate_def
      RTC_SetDateAndTime_def plain_hour_def scale_hour_def RTC_CLOCK_24_def Let_def)

lemma wait_active_iff: "(\<exists>vs'. wait_active vs = Some vs') \<longleftrightarrow> RTC_INIT_ACTIVE_Msk \<in> set vs"
  by (induction vs) auto

text \<open>
  \<open>RTC_Open\<close> returns exactly when the clock reports to be active at some poll. It then has set the time of the caller;
  a null pointer, for which a default time is documented, is dereferenced.
\<close>

lemma rtc_open_returns:
  "RTC_Open polls sPt r = (if RTC_INIT_ACTIVE_Msk \<in> set polls
     then Some (case sPt of None \<Rightarrow> Inl Null_Pointer | Some t \<Rightarrow> Inr (RTC_SetDateAndTime t (r\<lparr>INIT := RTC_INIT_KEY\<rparr>)))
     else None)"
  using wait_active_iff[of "tl polls"]
  by (cases polls) (auto simp: RTC_Open_def Let_def split: option.splits)

section \<open>Reading while the clock counts\<close>

text \<open>
  The date is read before the time. When midnight passes in between, the time of the new day
  is combined with the date of the old one.
\<close>

lemma rtc_read_across_midnight:
  assumes "rtc_valid r t" "rtc_valid r t'" "CLKFMT r AND RTC_CLKFMT_24HEN_Msk \<noteq> RTC_CLOCK_12"
    "\<And>k. k < 8 \<Longrightarrow> rd k = snd (RTC_SetDateAndTime t r)" "\<And>k. 8 \<le> k \<Longrightarrow> rd k = snd (RTC_SetDateAndTime t' r)"
  shows "snd (RTC_GetDateAndTime rd g t0) = t\<lparr>u32TimeScale := CLKFMT r AND RTC_CLKFMT_24HEN_Msk, u32AmPm := u32AmPm t0,
    u32Hour := u32Hour t', u32Minute := u32Minute t', u32Second := u32Second t'\<rparr>"
proof -
  have b: "2000 \<le> u32Year t" "u32Year t \<le> 2099" "u32Month t < 20" "u32Day t < 40" "u32Hour t' < 160" "u32Minute t' < 80" "u32Second t' < 80"
    using assms(1-3) by (simp_all add: rtc_valid_def word_le_nat_alt word_less_nat_alt)
  have h: "hour_read (u32Hour t') = u32Hour t'" using assms(2,3) by (intro hour_read_id) (simp add: rtc_valid_def word_le_nat_alt word_less_nat_alt)
  have "u32DayOfWeek t \<le> 7" using assms(1) by (simp add: rtc_valid_def word_le_nat_alt)
  note w = weekday_kept[OF this]
  have d: "date_digits (\<lambda>i. CAL (rd (2 + i))) g = date_digits (\<lambda>_. cal_word (u32Year t) (u32Month t) (u32Day t)) g"
    "time_digits (\<lambda>i. TIME (rd (8 + i))) g' = time_digits (\<lambda>_. time_word (u32Hour t') (u32Minute t') (u32Second t')) g'" for g'
    using assms(3-5) by (simp_all add: date_digits_def time_digits_def current.put_cal current.put_tim scale_hour_def Let_def)
  show ?thesis
    unfolding RTC_GetDateAndTime_def Let_def snd_conv d decode[OF b]
    using assms(3,4) h w by (auto simp: current.put_format RTC_SetDateAndTime_def scale_hour_def Let_def intro!: S_RTC_TIME_DATA_T.equality)
qed

end
