(* ===== verification/Pdma.thy ===== *)
theory Pdma
  imports MA35_Prelude
begin

text \<open>
  The DMA controller driver (\<open>StdDriver/src/pdma.c\<close>): channel descriptors, request sources, time-outs, stride and
  repeat settings, triggers and interrupts. An array of registers is a list; an index outside of it and a shift by the width or
  more are faults. Constants are those of \<open>pdma.h\<close> and \<open>pdma_reg.h\<close>.
\<close>

section \<open>Registers\<close>

record DSCT_T =
  CTL :: u32
  SA :: u32
  DA :: u32
  NEXT :: u32

record STRIDE_T =
  STCR :: u32
  ASOCR :: u32

record REPEAT_T =
  AICTL :: u32
  RCNT :: u32

text \<open>
  The counters \<open>TOC0_1\<close> to \<open>TOC8_9\<close> and the selectors \<open>REQSEL0_3\<close> to \<open>REQSEL8_11\<close> are consecutive words, which the driver
  accesses as arrays.
\<close>

record PDMA_T =
  DSCT :: "DSCT_T list"
  CHCTL :: u32
  PAUSE :: u32
  SWREQ :: u32
  TRGSTS :: u32
  INTEN :: u32
  INTSTS :: u32
  ABTSTS :: u32
  TDSTS :: u32
  ALIGN :: u32
  TOUTEN :: u32
  TOUTIEN :: u32
  TOC :: "u32 list"
  REQSEL :: "u32 list"
  STRIDE :: "STRIDE_T list"
  REPEAT :: "REPEAT_T list"

datatype pdma_fault = Bad_Index | Bad_Shift

type_synonym pdma_result = "pdma_fault + PDMA_T"

abbreviation PDMA_CH_MAX :: nat where "PDMA_CH_MAX \<equiv> 10"
abbreviation PDMA_OP_BASIC :: u32 where "PDMA_OP_BASIC \<equiv> 1"
abbreviation PDMA_OP_SCATTER :: u32 where "PDMA_OP_SCATTER \<equiv> 2"
abbreviation PDMA_MEM :: u32 where "PDMA_MEM \<equiv> 0"
abbreviation PDMA_INT_TRANS_DONE :: u32 where "PDMA_INT_TRANS_DONE \<equiv> 0"
abbreviation PDMA_INT_TEMPTY :: u32 where "PDMA_INT_TEMPTY \<equiv> 1"
abbreviation PDMA_INT_TIMEOUT :: u32 where "PDMA_INT_TIMEOUT \<equiv> 2"
abbreviation PDMA_DSCT_CTL_OPMODE_Msk :: u32 where "PDMA_DSCT_CTL_OPMODE_Msk \<equiv> 3"
abbreviation PDMA_DSCT_CTL_TXTYPE_Msk :: u32 where "PDMA_DSCT_CTL_TXTYPE_Msk \<equiv> 4"
abbreviation PDMA_DSCT_CTL_BURSIZE_Msk :: u32 where "PDMA_DSCT_CTL_BURSIZE_Msk \<equiv> 0x70"
abbreviation PDMA_DSCT_CTL_TBINTDIS_Msk :: u32 where "PDMA_DSCT_CTL_TBINTDIS_Msk \<equiv> 0x80"
abbreviation PDMA_DSCT_CTL_SAINC_Msk :: u32 where "PDMA_DSCT_CTL_SAINC_Msk \<equiv> 0x300"
abbreviation PDMA_DSCT_CTL_DAINC_Msk :: u32 where "PDMA_DSCT_CTL_DAINC_Msk \<equiv> 0xC00"
abbreviation PDMA_DSCT_CTL_TXWIDTH_Msk :: u32 where "PDMA_DSCT_CTL_TXWIDTH_Msk \<equiv> 0x3000"
abbreviation PDMA_DSCT_CTL_STRIDEEN_Msk :: u32 where "PDMA_DSCT_CTL_STRIDEEN_Msk \<equiv> 0x8000"
abbreviation PDMA_DSCT_CTL_TXCNT_Msk :: u32 where "PDMA_DSCT_CTL_TXCNT_Msk \<equiv> 0xFFFF0000"
abbreviation PDMA_REQSEL0_3_REQSRC0_Msk :: u32 where "PDMA_REQSEL0_3_REQSRC0_Msk \<equiv> 0x7F"
abbreviation PDMA_TOC0_1_TOC0_Msk :: u32 where "PDMA_TOC0_1_TOC0_Msk \<equiv> 0xFFFF"

text \<open>An update of one element of an array of registers.\<close>

definition at_index :: "u32 \<Rightarrow> ('a \<Rightarrow> 'a) \<Rightarrow> 'a list \<Rightarrow> pdma_fault + 'a list" where
  "at_index i f xs = (if unat i < length xs then Inr (xs[unat i := f (xs ! unat i)]) else Inl Bad_Index)"

definition upd_dsct :: "u32 \<Rightarrow> (DSCT_T \<Rightarrow> DSCT_T) \<Rightarrow> PDMA_T \<Rightarrow> pdma_result" where
  "upd_dsct u32Ch f pdma = sbind (at_index u32Ch f (DSCT pdma)) (\<lambda>ds. Inr (pdma\<lparr>DSCT := ds\<rparr>))"

text \<open>\<open>reg = (reg & ~msk) | v\<close> on the control word of a descriptor.\<close>

definition upd_ctl :: "u32 \<Rightarrow> u32 \<Rightarrow> u32 \<Rightarrow> PDMA_T \<Rightarrow> pdma_result" where
  "upd_ctl u32Ch msk v = upd_dsct u32Ch (\<lambda>d. d\<lparr>CTL := (CTL d AND NOT msk) OR v\<rparr>)"

section \<open>Channels\<close>

fun open_channels :: "nat \<Rightarrow> nat \<Rightarrow> u32 \<Rightarrow> PDMA_T \<Rightarrow> pdma_result" where
  "open_channels 0 i u32Mask pdma = Inr pdma"
| "open_channels (Suc n) i u32Mask pdma =
     sbind (if push_bit i 1 AND u32Mask \<noteq> 0 then upd_dsct (of_nat i) (\<lambda>d. d\<lparr>CTL := 0\<rparr>) pdma else Inr pdma)
       (open_channels n (Suc i) u32Mask)"

definition PDMA_Open :: "u32 \<Rightarrow> PDMA_T \<Rightarrow> pdma_result" where
  "PDMA_Open u32Mask pdma = sbind (open_channels PDMA_CH_MAX 0 u32Mask pdma) (\<lambda>pdma. Inr (pdma\<lparr>CHCTL := CHCTL pdma OR u32Mask\<rparr>))"

definition PDMA_Close :: "PDMA_T \<Rightarrow> PDMA_T" where
  "PDMA_Close pdma = pdma\<lparr>CHCTL := 0\<rparr>"

definition PDMA_SetTransferCnt :: "u32 \<Rightarrow> u32 \<Rightarrow> u32 \<Rightarrow> PDMA_T \<Rightarrow> pdma_result" where
  "PDMA_SetTransferCnt u32Ch u32Width u32TransCount =
     upd_ctl u32Ch (PDMA_DSCT_CTL_TXCNT_Msk OR PDMA_DSCT_CTL_TXWIDTH_Msk) (u32Width OR push_bit 16 (u32TransCount - 1))"

definition PDMA_SetStride :: "u32 \<Rightarrow> u32 \<Rightarrow> u32 \<Rightarrow> u32 \<Rightarrow> PDMA_T \<Rightarrow> pdma_result" where
  "PDMA_SetStride u32Ch u32DestLen u32SrcLen u32TransCount pdma =
     sbind (upd_ctl u32Ch 0 PDMA_DSCT_CTL_STRIDEEN_Msk pdma) (\<lambda>pdma.
     sbind (at_index u32Ch (\<lambda>s. s\<lparr>ASOCR := push_bit 16 (u32DestLen - 1) OR (u32SrcLen - 1), STCR := u32TransCount - 1\<rparr>) (STRIDE pdma)) (\<lambda>ss.
     Inr (pdma\<lparr>STRIDE := ss\<rparr>)))"

definition PDMA_SetRepeat :: "u32 \<Rightarrow> u32 \<Rightarrow> u32 \<Rightarrow> u32 \<Rightarrow> PDMA_T \<Rightarrow> pdma_result" where
  "PDMA_SetRepeat u32Ch u32DestInterval u32SrcInterval u32RepeatCount pdma =
     sbind (upd_ctl u32Ch 0 PDMA_DSCT_CTL_STRIDEEN_Msk pdma) (\<lambda>pdma.
     sbind (at_index u32Ch (\<lambda>s. s\<lparr>AICTL := push_bit 16 u32DestInterval OR u32SrcInterval, RCNT := u32RepeatCount\<rparr>) (REPEAT pdma)) (\<lambda>rs.
     Inr (pdma\<lparr>REPEAT := rs\<rparr>)))"

definition PDMA_SetTransferAddr :: "u32 \<Rightarrow> u32 \<Rightarrow> u32 \<Rightarrow> u32 \<Rightarrow> u32 \<Rightarrow> PDMA_T \<Rightarrow> pdma_result" where
  "PDMA_SetTransferAddr u32Ch u32SrcAddr u32SrcCtrl u32DstAddr u32DstCtrl pdma =
     sbind (upd_dsct u32Ch (\<lambda>d. d\<lparr>SA := u32SrcAddr, DA := u32DstAddr\<rparr>) pdma)
       (upd_ctl u32Ch (PDMA_DSCT_CTL_SAINC_Msk OR PDMA_DSCT_CTL_DAINC_Msk) (u32SrcCtrl OR u32DstCtrl))"

definition PDMA_SetTransferMode :: "u32 \<Rightarrow> u32 \<Rightarrow> u32 \<Rightarrow> u32 \<Rightarrow> PDMA_T \<Rightarrow> pdma_result" where
  "PDMA_SetTransferMode u32Ch u32Peripheral u32ScatterEn u32DescAddr pdma =
     (if unat u32Ch < PDMA_CH_MAX then
        sbind (at_index (u32Ch div 4) (put_field PDMA_REQSEL0_3_REQSRC0_Msk (unat (u32Ch mod 4) * 8) u32Peripheral) (REQSEL pdma)) (\<lambda>rs.
        let pdma = pdma\<lparr>REQSEL := rs\<rparr>
        in if u32ScatterEn \<noteq> 0
           then sbind (upd_dsct u32Ch (\<lambda>d. d\<lparr>NEXT := u32DescAddr\<rparr>) pdma) (upd_ctl u32Ch PDMA_DSCT_CTL_OPMODE_Msk PDMA_OP_SCATTER)
           else upd_ctl u32Ch PDMA_DSCT_CTL_OPMODE_Msk PDMA_OP_BASIC pdma)
      else Inr pdma)"

definition PDMA_SetBurstType :: "u32 \<Rightarrow> u32 \<Rightarrow> u32 \<Rightarrow> PDMA_T \<Rightarrow> pdma_result" where
  "PDMA_SetBurstType u32Ch u32BurstType u32BurstSize =
     upd_ctl u32Ch (PDMA_DSCT_CTL_TXTYPE_Msk OR PDMA_DSCT_CTL_BURSIZE_Msk) (u32BurstType OR u32BurstSize)"

section \<open>Time-out, trigger and interrupts\<close>

definition PDMA_EnableTimeout :: "u32 \<Rightarrow> PDMA_T \<Rightarrow> PDMA_T" where
  "PDMA_EnableTimeout u32Mask pdma = pdma\<lparr>TOUTEN := TOUTEN pdma OR u32Mask\<rparr>"

definition PDMA_DisableTimeout :: "u32 \<Rightarrow> PDMA_T \<Rightarrow> PDMA_T" where
  "PDMA_DisableTimeout u32Mask pdma = pdma\<lparr>TOUTEN := TOUTEN pdma AND NOT u32Mask\<rparr>"

definition PDMA_SetTimeOut :: "u32 \<Rightarrow> u32 \<Rightarrow> u32 \<Rightarrow> PDMA_T \<Rightarrow> pdma_result" where
  "PDMA_SetTimeOut u32Ch u32OnOff u32TimeOutCnt pdma =
     (if unat u32Ch < PDMA_CH_MAX then
        sbind (at_index (u32Ch div 2) (put_field PDMA_TOC0_1_TOC0_Msk (unat (u32Ch mod 2) * 16) u32TimeOutCnt) (TOC pdma)) (\<lambda>ts.
        let pdma = pdma\<lparr>TOC := ts\<rparr>
        in if u32OnOff \<noteq> 0 then Inr (pdma\<lparr>TOUTEN := TOUTEN pdma OR push_bit (unat u32Ch) 1\<rparr>)
           else Inr (pdma\<lparr>TOUTEN := TOUTEN pdma AND NOT (push_bit (unat u32Ch) 1)\<rparr>))
      else Inr pdma)"

definition PDMA_Trigger :: "u32 \<Rightarrow> PDMA_T \<Rightarrow> pdma_result" where
  "PDMA_Trigger u32Ch pdma =
     (if unat (u32Ch div 4) < length (REQSEL pdma) then
        (let u32ChReq = get_field PDMA_REQSEL0_3_REQSRC0_Msk (unat (u32Ch mod 4) * 8) (REQSEL pdma ! unat (u32Ch div 4))
         in if u32ChReq = PDMA_MEM then Inr (pdma\<lparr>SWREQ := push_bit (unat u32Ch) 1\<rparr>) else Inr pdma)
      else Inl Bad_Index)"

text \<open>\<open>1ul\<close> has 64 bits; a bit beyond the register is lost.\<close>

definition ch_bit :: "u32 \<Rightarrow> pdma_fault + u32" where
  "ch_bit u32Ch = (if unat u32Ch < 64 then Inr (push_bit (unat u32Ch) 1) else Inl Bad_Shift)"

definition PDMA_EnableInt :: "u32 \<Rightarrow> u32 \<Rightarrow> PDMA_T \<Rightarrow> pdma_result" where
  "PDMA_EnableInt u32Ch u32Mask pdma =
     (if u32Mask = PDMA_INT_TRANS_DONE then sbind (ch_bit u32Ch) (\<lambda>b. Inr (pdma\<lparr>INTEN := INTEN pdma OR b\<rparr>))
      else if u32Mask = PDMA_INT_TEMPTY then upd_ctl u32Ch PDMA_DSCT_CTL_TBINTDIS_Msk 0 pdma
      else if u32Mask = PDMA_INT_TIMEOUT then sbind (ch_bit u32Ch) (\<lambda>b. Inr (pdma\<lparr>TOUTIEN := TOUTIEN pdma OR b\<rparr>))
      else Inr pdma)"

definition PDMA_DisableInt :: "u32 \<Rightarrow> u32 \<Rightarrow> PDMA_T \<Rightarrow> pdma_result" where
  "PDMA_DisableInt u32Ch u32Mask pdma =
     (if u32Mask = PDMA_INT_TRANS_DONE then sbind (ch_bit u32Ch) (\<lambda>b. Inr (pdma\<lparr>INTEN := INTEN pdma AND NOT b\<rparr>))
      else if u32Mask = PDMA_INT_TEMPTY then upd_ctl u32Ch 0 PDMA_DSCT_CTL_TBINTDIS_Msk pdma
      else if u32Mask = PDMA_INT_TIMEOUT then sbind (ch_bit u32Ch) (\<lambda>b. Inr (pdma\<lparr>TOUTIEN := TOUTIEN pdma AND NOT b\<rparr>))
      else Inr pdma)"

end
