(* ===== verification/Pdma_Props.thy ===== *)
theory Pdma_Props
  imports Pdma
begin

text \<open>
  The properties of the DMA driver: what configuring a channel leaves in its descriptor and in the registers it shares with
  other channels.
\<close>

section \<open>Fields of a word\<close>

lemma high_half: "push_bit 16 x AND 0xFFFF0000 = push_bit 16 x" "m AND 0xFFFF = m \<Longrightarrow> push_bit 16 x AND m = 0" for x m :: u32
proof -
  have h: "0xFFFF0000 = (NOT (mask 16) :: u32)" "0xFFFF = (mask 16 :: u32)" by (simp_all add: mask_eq_exp_minus_1)
  show "push_bit 16 x AND 0xFFFF0000 = push_bit 16 x" unfolding h by (rule bit_word_eqI) (auto simp: bit_simps)
  assume "m AND 0xFFFF = m"
  then have "push_bit 16 x AND m = (push_bit 16 x AND mask 16) AND m" unfolding h by (metis and.assoc and.commute)
  also have "push_bit 16 x AND mask 16 = 0" by (rule bit_word_eqI) (auto simp: bit_simps)
  finally show "push_bit 16 x AND m = 0" by simp
qed

section \<open>Channels\<close>

definition pdma_wf :: "PDMA_T \<Rightarrow> bool" where
  "pdma_wf p \<longleftrightarrow> length (DSCT p) = 10 \<and> length (TOC p) = 5 \<and> length (REQSEL p) = 3 \<and> length (STRIDE p) = 6 \<and> length (REPEAT p) = 2"

lemma upd_dsct_ok: "unat ch < length (DSCT p) \<Longrightarrow> upd_dsct ch f p = Inr (p\<lparr>DSCT := (DSCT p)[unat ch := f (DSCT p ! unat ch)]\<rparr>)"
  by (simp add: upd_dsct_def at_index_def)

lemma request_index: "unat ch < 10 \<Longrightarrow> unat (ch div 4) < 3" "unat (ch div 4) = unat ch div 4" "unat (ch mod 4) = unat ch mod 4" for ch :: u32
  by (simp_all add: unat_div unat_mod)

text \<open>The control word after the four setting functions.\<close>

definition set_ctl :: "u32 \<Rightarrow> u32 \<Rightarrow> u32 \<Rightarrow> u32" where
  "set_ctl m v c = (c AND NOT m) OR v"

lemma set_ctl_field:
  "m' AND m = m' \<Longrightarrow> set_ctl m v c AND m' = v AND m'" "v AND m = v \<Longrightarrow> m' AND m = 0 \<Longrightarrow> set_ctl m v c AND m' = c AND m'"
  unfolding set_ctl_def by (rule field_in field_out; assumption)+

lemma or_and: "(a OR b) AND m = (a AND m) OR (b AND m)" for a b m :: u32
  by (rule bit.conj_disj_distrib2)

lemma configured_ctl:
  assumes "w AND PDMA_DSCT_CTL_TXWIDTH_Msk = w" "sc AND PDMA_DSCT_CTL_SAINC_Msk = sc" "dc AND PDMA_DSCT_CTL_DAINC_Msk = dc"
    "bt AND PDMA_DSCT_CTL_TXTYPE_Msk = bt" "bs AND PDMA_DSCT_CTL_BURSIZE_Msk = bs" "om AND PDMA_DSCT_CTL_OPMODE_Msk = om"
    "c' = set_ctl (PDMA_DSCT_CTL_TXTYPE_Msk OR PDMA_DSCT_CTL_BURSIZE_Msk) (bt OR bs) (set_ctl PDMA_DSCT_CTL_OPMODE_Msk om
      (set_ctl (PDMA_DSCT_CTL_SAINC_Msk OR PDMA_DSCT_CTL_DAINC_Msk) (sc OR dc)
      (set_ctl (PDMA_DSCT_CTL_TXCNT_Msk OR PDMA_DSCT_CTL_TXWIDTH_Msk) (w OR push_bit 16 x) c)))"
  shows "c' AND PDMA_DSCT_CTL_OPMODE_Msk = om" "c' AND PDMA_DSCT_CTL_TXTYPE_Msk = bt" "c' AND PDMA_DSCT_CTL_BURSIZE_Msk = bs"
    "c' AND PDMA_DSCT_CTL_SAINC_Msk = sc" "c' AND PDMA_DSCT_CTL_DAINC_Msk = dc" "c' AND PDMA_DSCT_CTL_TXWIDTH_Msk = w"
    "c' AND PDMA_DSCT_CTL_TXCNT_Msk = push_bit 16 x" "c' AND 0xC088 = c AND 0xC088"
proof -
  note out = sub_out[OF assms(1)] sub_out[OF assms(2)] sub_out[OF assms(3)] sub_out[OF assms(4)] sub_out[OF assms(5)] sub_out[OF assms(6)]
  note inn = sub_in[OF assms(1)] sub_in[OF assms(2)] sub_in[OF assms(3)] sub_in[OF assms(4)] sub_in[OF assms(5)] sub_in[OF assms(6)]
  note all = or_and out inn high_half sub_in[OF high_half(1)]
  show "c' AND PDMA_DSCT_CTL_OPMODE_Msk = om" unfolding assms(7) by (simp add: set_ctl_field all)
  show "c' AND PDMA_DSCT_CTL_TXTYPE_Msk = bt" unfolding assms(7) by (simp add: set_ctl_field all)
  show "c' AND PDMA_DSCT_CTL_BURSIZE_Msk = bs" unfolding assms(7) by (simp add: set_ctl_field all)
  show "c' AND PDMA_DSCT_CTL_SAINC_Msk = sc" unfolding assms(7) by (simp add: set_ctl_field all)
  show "c' AND PDMA_DSCT_CTL_DAINC_Msk = dc" unfolding assms(7) by (simp add: set_ctl_field all)
  show "c' AND PDMA_DSCT_CTL_TXWIDTH_Msk = w" unfolding assms(7) by (simp add: set_ctl_field all)
  show "c' AND PDMA_DSCT_CTL_TXCNT_Msk = push_bit 16 x" unfolding assms(7) by (simp add: set_ctl_field all)
  show "c' AND 0xC088 = c AND 0xC088" unfolding assms(7) by (simp add: set_ctl_field all)
qed

text \<open>
  C35. A channel that is configured as the driver documents has in its descriptor the addresses, the number and the width of the
  transfers, the increments, the mode and the burst of the arguments; its interrupt, stride and acknowledge bits and the
  descriptors of all other channels are left as they were.
\<close>

theorem pdma_channel_configured:
  assumes "pdma_wf p" "unat ch < 10" "w AND PDMA_DSCT_CTL_TXWIDTH_Msk = w" "1 \<le> unat n" "unat n \<le> 65536"
    "sc AND PDMA_DSCT_CTL_SAINC_Msk = sc" "dc AND PDMA_DSCT_CTL_DAINC_Msk = dc" "bt AND PDMA_DSCT_CTL_TXTYPE_Msk = bt" "bs AND PDMA_DSCT_CTL_BURSIZE_Msk = bs"
  shows "\<exists>p'. sbind (PDMA_SetTransferCnt ch w n p) (\<lambda>p. sbind (PDMA_SetTransferAddr ch src sc dst dc p) (\<lambda>p.
      sbind (PDMA_SetTransferMode ch per scat desc p) (PDMA_SetBurstType ch bt bs))) = Inr p' \<and> pdma_wf p' \<and>
    (\<forall>i < 10. i \<noteq> unat ch \<longrightarrow> DSCT p' ! i = DSCT p ! i) \<and>
    SA (DSCT p' ! unat ch) = src \<and> DA (DSCT p' ! unat ch) = dst \<and>
    NEXT (DSCT p' ! unat ch) = (if scat \<noteq> 0 then desc else NEXT (DSCT p ! unat ch)) \<and>
    unat (get_field 0xFFFF 16 (CTL (DSCT p' ! unat ch))) + 1 = unat n \<and>
    CTL (DSCT p' ! unat ch) AND PDMA_DSCT_CTL_TXWIDTH_Msk = w \<and>
    CTL (DSCT p' ! unat ch) AND PDMA_DSCT_CTL_SAINC_Msk = sc \<and> CTL (DSCT p' ! unat ch) AND PDMA_DSCT_CTL_DAINC_Msk = dc \<and>
    CTL (DSCT p' ! unat ch) AND PDMA_DSCT_CTL_TXTYPE_Msk = bt \<and> CTL (DSCT p' ! unat ch) AND PDMA_DSCT_CTL_BURSIZE_Msk = bs \<and>
    CTL (DSCT p' ! unat ch) AND PDMA_DSCT_CTL_OPMODE_Msk = (if scat \<noteq> 0 then PDMA_OP_SCATTER else PDMA_OP_BASIC) \<and>
    CTL (DSCT p' ! unat ch) AND 0xC088 = CTL (DSCT p ! unat ch) AND 0xC088"
proof -
  define om :: u32 where "om = (if scat \<noteq> 0 then PDMA_OP_SCATTER else PDMA_OP_BASIC)"
  let ?d = "DSCT p ! unat ch" and ?rs = "(REQSEL p)[unat (ch div 4) := put_field PDMA_REQSEL0_3_REQSRC0_Msk (unat (ch mod 4) * 8) per (REQSEL p ! unat (ch div 4))]"
  define c' where "c' = set_ctl (PDMA_DSCT_CTL_TXTYPE_Msk OR PDMA_DSCT_CTL_BURSIZE_Msk) (bt OR bs) (set_ctl PDMA_DSCT_CTL_OPMODE_Msk om
      (set_ctl (PDMA_DSCT_CTL_SAINC_Msk OR PDMA_DSCT_CTL_DAINC_Msk) (sc OR dc)
      (set_ctl (PDMA_DSCT_CTL_TXCNT_Msk OR PDMA_DSCT_CTL_TXWIDTH_Msk) (w OR push_bit 16 (n - 1)) (CTL ?d))))"
  define d' where "d' = ?d\<lparr>CTL := c', SA := src, DA := dst, NEXT := if scat \<noteq> 0 then desc else NEXT ?d\<rparr>"
  let ?p = "p\<lparr>REQSEL := ?rs, DSCT := (DSCT p)[unat ch := d']\<rparr>"
  have om: "om AND PDMA_DSCT_CTL_OPMODE_Msk = om" by (simp add: om_def)
  note f = configured_ctl[OF assms(3,6-9) om c'_def]
  have "unat (n - 1) = unat n - 1" using assms(4) by (simp add: unat_sub word_le_nat_alt)
  then have x: "unat (n - 1) < 2 ^ 16" "unat (n - 1) + 1 = unat n" using assms(4,5) by simp_all
  have cnt: "get_field 0xFFFF 16 c' = n - 1" using f(7) unshift[OF x(1)] by (simp add: get_field_def)
  have l: "unat ch < length (DSCT p)" "unat (ch div 4) < length (REQSEL p)" using assms(1,2) request_index(1)[OF assms(2)] by (simp_all add: pdma_wf_def)
  have run: "sbind (PDMA_SetTransferCnt ch w n p) (\<lambda>p. sbind (PDMA_SetTransferAddr ch src sc dst dc p) (\<lambda>p.
      sbind (PDMA_SetTransferMode ch per scat desc p) (PDMA_SetBurstType ch bt bs))) = Inr ?p"
    using l assms(2) by (auto simp: PDMA_SetTransferCnt_def PDMA_SetTransferAddr_def PDMA_SetTransferMode_def PDMA_SetBurstType_def
        upd_ctl_def upd_dsct_ok at_index_def Let_def d'_def c'_def om_def set_ctl_def
        intro!: PDMA_T.equality DSCT_T.equality arg_cong[where f = "\<lambda>d. (DSCT p)[unat ch := d]"])
  have d: "DSCT ?p ! unat ch = d'" using l(1) by simp
  have wf: "pdma_wf ?p" using assms(1) by (simp add: pdma_wf_def)
  have other: "\<forall>i < 10. i \<noteq> unat ch \<longrightarrow> DSCT ?p ! i = DSCT p ! i" by simp
  have e: "SA d' = src" "DA d' = dst" "NEXT d' = (if scat \<noteq> 0 then desc else NEXT ?d)" "CTL d' = c'" by (simp_all add: d'_def)
  show ?thesis
    by (intro exI[of _ ?p] conjI run wf other) (simp_all only: d e f cnt x(2) om_def)
qed

text \<open>A controller after reset.\<close>

definition pdma_reset :: PDMA_T where
  "pdma_reset = \<lparr>DSCT = replicate 10 \<lparr>CTL = 0, SA = 0, DA = 0, NEXT = 0\<rparr>, CHCTL = 0, PAUSE = 0, SWREQ = 0, TRGSTS = 0, INTEN = 0, INTSTS = 0,
     ABTSTS = 0, TDSTS = 0, ALIGN = 0, TOUTEN = 0, TOUTIEN = 0, TOC = replicate 5 0, REQSEL = replicate 3 0,
     STRIDE = replicate 6 \<lparr>STCR = 0, ASOCR = 0\<rparr>, REPEAT = replicate 2 \<lparr>AICTL = 0, RCNT = 0\<rparr>\<rparr>"

lemma pdma_reset_wf: "pdma_wf pdma_reset"
  by (simp add: pdma_wf_def pdma_reset_def)

theorem pdma_channel_configured_witness:
  "\<exists>p'. sbind (PDMA_SetTransferCnt 5 0x2000 64 pdma_reset) (\<lambda>p. sbind (PDMA_SetTransferAddr 5 0x1000 0 0x2000 0xC00 p) (\<lambda>p.
      sbind (PDMA_SetTransferMode 5 4 0 0 p) (PDMA_SetBurstType 5 4 0))) = Inr p' \<and>
    SA (DSCT p' ! 5) = 0x1000 \<and> unat (get_field 0xFFFF 16 (CTL (DSCT p' ! 5))) + 1 = 64"
  using pdma_channel_configured[OF pdma_reset_wf, of 5 "0x2000" 64 0 "0xC00" 4 0 "0x1000" "0x2000" 4 0 0] by auto

section \<open>Request sources\<close>

text \<open>The peripheral of a channel: eight bits of a selector.\<close>

definition req_source :: "PDMA_T \<Rightarrow> nat \<Rightarrow> u32" where
  "req_source p i = get_field 0xFF (i mod 4 * 8) (REQSEL p ! (i div 4))"

lemma byte_masks: "0xFF = (mask 8 :: u32)" "0x7F = (mask 7 :: u32)"
  by (simp_all add: mask_eq_exp_minus_1)

lemma bit_high: "bit (0x80 :: u32) n \<longleftrightarrow> n = 7"
proof -
  have "(0x80 :: u32) = 2 ^ 7" by simp
  then show ?thesis by (simp only: bit_exp_iff) (auto simp: possible_bit_word)
qed

lemma byte_bits: "unat v < 256 \<Longrightarrow> bit v n \<Longrightarrow> n < 8" for v :: u32
proof -
  assume v: "unat v < 256" "bit v n"
  then have "take_bit 8 v = v" by (intro unsigned_word_eqI[where ?'a = nat]) (simp add: unsigned_take_bit_eq take_bit_nat_eq_self_iff)
  then show "n < 8" using v(2) by (metis bit_take_bit_iff)
qed

lemma source_own:
  assumes "unat per < 256" "q < 4" "\<And>n. bit k n \<longleftrightarrow> n = 7"
  shows "get_field 0xFF (q * 8) (put_field 0x7F (q * 8) per r) = per OR (get_field 0xFF (q * 8) r AND k)"
  unfolding byte_masks
proof (rule bit_word_eqI)
  fix n :: nat
  show "bit (get_field (mask 8) (q * 8) (put_field (mask 7) (q * 8) per r)) n \<longleftrightarrow> bit (per OR get_field (mask 8) (q * 8) r AND k) n"
    using byte_bits[OF assms(1), of n] assms(2) by (auto simp: get_field_def put_field_def bit_simps assms(3))
qed

lemma source_other:
  assumes "unat per < 256" "q < 4" "q' < 4" "q' \<noteq> q"
  shows "get_field 0xFF (q' * 8) (put_field 0x7F (q * 8) per r) = get_field 0xFF (q' * 8) r"
  unfolding byte_masks
proof (rule bit_word_eqI)
  fix n :: nat
  have "\<not> (q * 8 \<le> q' * 8 + n \<and> q' * 8 + n - q * 8 < 8)" if "n < 8" using that assms(2-4) by linarith
  then show "bit (get_field (mask 8) (q' * 8) (put_field (mask 7) (q * 8) per r)) n \<longleftrightarrow> bit (get_field (mask 8) (q' * 8) r) n"
    using byte_bits[OF assms(1), of "q' * 8 + n - q * 8"] by (auto simp: get_field_def put_field_def bit_simps)
qed

lemma own_low: "get_field 0x7F (q * 8) (put_field 0x7F (q * 8) per r) = per AND 0x7F" if "q < 4"
  unfolding byte_masks by (rule bit_word_eqI) (use that in \<open>auto simp: get_field_def put_field_def bit_simps\<close>)

text \<open>
  C36. The field of a request source has eight bits, but its mask has seven. Selecting a peripheral keeps the high bit of the peripheral selected
  before, so that the channel is connected to another peripheral when one from 128 on was selected; other channels are not
  affected. A channel connected to peripheral 128 is taken for a memory channel and gets a software request.
\<close>

theorem pdma_request_source_mask:
  assumes "pdma_wf p" "unat ch < 10" "unat per < 256"
  shows "\<exists>p'. PDMA_SetTransferMode ch per scat desc p = Inr p' \<and> pdma_wf p' \<and>
    req_source p' (unat ch) = per OR (req_source p (unat ch) AND 0x80) \<and>
    (\<forall>i < 10. i \<noteq> unat ch \<longrightarrow> req_source p' i = req_source p i) \<and>
    PDMA_Trigger ch p' = Inr (if per AND 0x7F = 0 then p'\<lparr>SWREQ := push_bit (unat ch) 1\<rparr> else p')"
proof -
  let ?q = "unat ch mod 4" and ?i = "unat ch div 4"
  let ?rs = "(REQSEL p)[?i := put_field 0x7F (?q * 8) per (REQSEL p ! ?i)]"
  have l: "unat ch < length (DSCT p)" "?i < length (REQSEL p)" "length (REQSEL p) = 3" using assms(1,2) by (simp_all add: pdma_wf_def)
  obtain ds where ds: "PDMA_SetTransferMode ch per scat desc p = Inr (p\<lparr>REQSEL := ?rs, DSCT := ds\<rparr>)" "length ds = length (DSCT p)"
    using l assms(2) by (cases "scat = 0") (simp_all add: PDMA_SetTransferMode_def at_index_def upd_ctl_def upd_dsct_ok request_index(2,3) Let_def)
  let ?p = "p\<lparr>REQSEL := ?rs, DSCT := ds\<rparr>"
  have own: "req_source ?p (unat ch) = per OR (req_source p (unat ch) AND 0x80)"
    using l(2) source_own[OF assms(3) _ bit_high, of ?q] by (simp add: req_source_def)
  have other: "req_source ?p i = req_source p i" if "i \<noteq> unat ch" for i
  proof (cases "i div 4 = ?i")
    case True
    then have "i mod 4 \<noteq> ?q" using that by (metis div_mult_mod_eq)
    then show ?thesis using True l(2) source_other[OF assms(3), of ?q "i mod 4"] by (simp add: req_source_def)
  qed (simp add: req_source_def)
  have trig: "PDMA_Trigger ch ?p = Inr (if per AND 0x7F = 0 then ?p\<lparr>SWREQ := push_bit (unat ch) 1\<rparr> else ?p)"
    using l(2) own_low[of ?q per] by (simp add: PDMA_Trigger_def request_index(2,3) Let_def)
  show ?thesis by (intro exI[of _ ?p] conjI ds(1) own trig allI impI other) (use assms(1) ds(2) in \<open>simp_all add: pdma_wf_def\<close>)
qed

theorem pdma_request_source_mask_witness:
  "\<exists>p p'. PDMA_SetTransferMode 0 128 0 0 pdma_reset = Inr p \<and> PDMA_Trigger 0 p = Inr (p\<lparr>SWREQ := 1\<rparr>) \<and>
     PDMA_SetTransferMode 0 4 0 0 p = Inr p' \<and> req_source p' 0 = 132"
proof -
  obtain p where p: "PDMA_SetTransferMode 0 128 0 0 pdma_reset = Inr p" "pdma_wf p" "req_source p 0 = 128 OR (req_source pdma_reset 0 AND 0x80)"
    "PDMA_Trigger 0 p = Inr (p\<lparr>SWREQ := 1\<rparr>)"
    using pdma_request_source_mask[OF pdma_reset_wf, of 0 128 0 0] by auto
  have "req_source p 0 = 128" using p(3) by (simp add: req_source_def pdma_reset_def get_field_def)
  then show ?thesis using p pdma_request_source_mask[OF p(2), of 0 4 0 0] by auto
qed

section \<open>Opening\<close>

text \<open>\<open>PDMA_Open\<close> clears the control words of the selected channels, leaves the other descriptors, and enables what was enabled and what is selected.\<close>

lemma open_channels_ok:
  "i + n \<le> length (DSCT p) \<Longrightarrow> i + n \<le> 10 \<Longrightarrow> \<exists>p'. open_channels n i msk p = Inr p' \<and> CHCTL p' = CHCTL p \<and> length (DSCT p') = length (DSCT p) \<and>
     (\<forall>j. DSCT p' ! j = (if i \<le> j \<and> j < i + n \<and> push_bit j 1 AND msk \<noteq> 0 then (DSCT p ! j)\<lparr>CTL := 0\<rparr> else DSCT p ! j))"
proof (induction n arbitrary: i p)
  case (Suc n)
  have i: "unat (of_nat i :: u32) = i" using Suc.prems(2) by (simp add: unat_of_nat)
  let ?p = "if push_bit i 1 AND msk \<noteq> 0 then p\<lparr>DSCT := (DSCT p)[i := (DSCT p ! i)\<lparr>CTL := 0\<rparr>]\<rparr> else p"
  have step: "open_channels (Suc n) i msk p = open_channels n (Suc i) msk ?p"
    using Suc.prems i by (simp add: upd_dsct_ok)
  have "Suc i + n \<le> length (DSCT ?p)" "Suc i + n \<le> 10" using Suc.prems by simp_all
  from Suc.IH[OF this] obtain p' where p': "open_channels n (Suc i) msk ?p = Inr p'" "CHCTL p' = CHCTL ?p" "length (DSCT p') = length (DSCT ?p)"
    "\<And>j. DSCT p' ! j = (if Suc i \<le> j \<and> j < Suc i + n \<and> push_bit j 1 AND msk \<noteq> 0 then (DSCT ?p ! j)\<lparr>CTL := 0\<rparr> else DSCT ?p ! j)" by blast
  have "DSCT p' ! j = (if i \<le> j \<and> j < i + Suc n \<and> push_bit j 1 AND msk \<noteq> 0 then (DSCT p ! j)\<lparr>CTL := 0\<rparr> else DSCT p ! j)" for j
    using Suc.prems unfolding p'(4) by (cases "j = i") (auto simp: nth_list_update)
  then show ?case using step p'(1-3) by (intro exI[of _ p']) simp
qed auto

lemma PDMA_Open_ok:
  assumes "pdma_wf p"
  shows "\<exists>p'. PDMA_Open msk p = Inr p' \<and> CHCTL p' = CHCTL p OR msk \<and>
    (\<forall>j < 10. DSCT p' ! j = (if push_bit j 1 AND msk \<noteq> 0 then (DSCT p ! j)\<lparr>CTL := 0\<rparr> else DSCT p ! j))"
  using open_channels_ok[of 0 10 p msk] assms by (auto simp: PDMA_Open_def pdma_wf_def)

end
