(* ===== verification/Clk.thy ===== *)
theory Clk
  imports MA35_Prelude
begin

text \<open>
  The phase-locked loops and system clocks of the clock driver (\<open>StdDriver/src/clk.c\<close>): reading and setting the frequency of a loop, with the
  search for its dividers, the system and peripheral clocks derived from it, and the sources, dividers and gates of the modules.

  Frequencies in \<open>uint64_t\<close> variables are natural numbers: no sum or product of the code reaches \<open>2 ^ 64\<close> (the product of the final
  formula is written with its wrap-around); \<open>uint32_t\<close> results are reduced. A division by zero is a fault. Constants with the
  suffix \<open>UL\<close> have 64 bits on AArch64.
\<close>

record PLL_T =
  CTL0 :: u32
  CTL1 :: u32
  CTL2 :: u32

text \<open>
  The registers in front of the loops are addressed by their offset, since the code computes addresses from the address of one
  register and a number; \<open>PLL0CTL0\<close> is the first control word of loop 0.
\<close>

record CLK_T =
  reg :: "nat \<Rightarrow> u32"
  PLL :: "PLL_T list"

abbreviation PWRCTL :: nat where "PWRCTL \<equiv> 0x00"
abbreviation SYSCLK0 :: nat where "SYSCLK0 \<equiv> 0x04"
abbreviation APBCLK0 :: nat where "APBCLK0 \<equiv> 0x0C"
abbreviation APBCLK2 :: nat where "APBCLK2 \<equiv> 0x14"
abbreviation CLKSEL0 :: nat where "CLKSEL0 \<equiv> 0x18"
abbreviation CLKSEL4 :: nat where "CLKSEL4 \<equiv> 0x28"
abbreviation CLKDIV0 :: nat where "CLKDIV0 \<equiv> 0x2C"
abbreviation CLKDIV4 :: nat where "CLKDIV4 \<equiv> 0x3C"
abbreviation CLKOCTL :: nat where "CLKOCTL \<equiv> 0x40"

definition set_reg :: "nat \<Rightarrow> u32 \<Rightarrow> CLK_T \<Rightarrow> CLK_T" where
  "set_reg a v r = r\<lparr>reg := (reg r)(a := v)\<rparr>"

text \<open>A field is replaced by a value that is already in its place.\<close>

definition set_bits :: "nat \<Rightarrow> u32 \<Rightarrow> u32 \<Rightarrow> CLK_T \<Rightarrow> CLK_T" where
  "set_bits a msk v r = set_reg a ((reg r a AND NOT msk) OR v) r"

datatype clk_fault = Div_Zero | Bad_Index

abbreviation HXT :: nat where "HXT \<equiv> 24000000"
abbreviation FREQ_180MHZ :: nat where "FREQ_180MHZ \<equiv> 180000000"
abbreviation FREQ_1MHZ :: nat where "FREQ_1MHZ \<equiv> 1000000"
abbreviation FREQ_40MHZ :: nat where "FREQ_40MHZ \<equiv> 40000000"
abbreviation FREQ_600MHZ :: nat where "FREQ_600MHZ \<equiv> 600000000"
abbreviation FREQ_1000MHZ :: nat where "FREQ_1000MHZ \<equiv> 1000000000"
abbreviation FREQ_2400MHZ :: nat where "FREQ_2400MHZ \<equiv> 2400000000"
abbreviation FREQ_85700KHZ :: nat where "FREQ_85700KHZ \<equiv> 85700000"

datatype E_PLL_INDEX = CAPLL | SYSPLL | DDRPLL | APLL | EPLL | VPLL

primrec pll_no :: "E_PLL_INDEX \<Rightarrow> nat" where
  "pll_no CAPLL = 0"
| "pll_no SYSPLL = 1"
| "pll_no DDRPLL = 2"
| "pll_no APLL = 3"
| "pll_no EPLL = 4"
| "pll_no VPLL = 5"

abbreviation PLL_OPMODE_INTEGER :: u32 where "PLL_OPMODE_INTEGER \<equiv> 0"
abbreviation CLK_PLLnCTL0_FBDIV_Msk :: u32 where "CLK_PLLnCTL0_FBDIV_Msk \<equiv> 0x7FF"
abbreviation CLK_PLLnCTL0_INDIV_Msk :: u32 where "CLK_PLLnCTL0_INDIV_Msk \<equiv> 0x3F000"
abbreviation CLK_PLLnCTL0_MODE_Msk :: u32 where "CLK_PLLnCTL0_MODE_Msk \<equiv> 0xC0000"
abbreviation CLK_PLLnCTL1_PD_Msk :: u32 where "CLK_PLLnCTL1_PD_Msk \<equiv> 1"
abbreviation CLK_PLLnCTL1_OUTDIV_Msk :: u32 where "CLK_PLLnCTL1_OUTDIV_Msk \<equiv> 0x70"
abbreviation CLK_PLLnCTL1_FRAC_Msk :: u32 where "CLK_PLLnCTL1_FRAC_Msk \<equiv> 0xFFFFFF00"

section \<open>The search for the dividers\<close>

text \<open>The ranges of the three loops.\<close>

definition pll_Ms :: "nat \<Rightarrow> nat list" where
  "pll_Ms src =
     (let minM = (if src div FREQ_40MHZ > 1 then src div FREQ_40MHZ else 1) mod 2 ^ 32;
          maxM = (if src div FREQ_1MHZ < 63 then src div FREQ_1MHZ else 63)
      in [minM ..< maxM + 1])"

definition pll_Ns :: "nat \<Rightarrow> nat list" where
  "pll_Ns con1 =
     (let minN = (if FREQ_600MHZ div con1 > 16 then FREQ_600MHZ div con1 else 16);
          maxN = (if FREQ_2400MHZ div con1 < 2047 then FREQ_2400MHZ div con1 else 2047)
      in [minN ..< maxN + 1])"

definition pll_Ps :: "nat \<Rightarrow> nat list" where
  "pll_Ps con2 =
     (let minP = (if con2 div FREQ_2400MHZ > 1 then con2 div FREQ_2400MHZ else 1);
          maxP = (if con2 div FREQ_85700KHZ < 7 then con2 div FREQ_85700KHZ else 7)
      in [minP ..< maxP + 1])"

text \<open>The settings in the order in which the loops try them, each with its frequency \<open>u64Con3\<close>.\<close>

definition pll_settings :: "nat \<Rightarrow> (nat \<times> nat \<times> nat \<times> nat) list" where
  "pll_settings src = concat (map (\<lambda>m. let con1 = src div m in
     concat (map (\<lambda>n. let con2 = con1 * n in map (\<lambda>p. (m, n, p, con2 div p)) (pll_Ps con2)) (pll_Ns con1))) (pll_Ms src))"

text \<open>\<open>u32Tmp\<close>, the distance to the wanted frequency.\<close>

definition pll_dist :: "nat \<Rightarrow> nat \<Rightarrow> nat" where
  "pll_dist freq con3 = (if con3 > freq then con3 - freq else freq - con3) mod 2 ^ 32"

text \<open>The body of the innermost loop: \<open>u32Min\<close> with its dividers; the search ends at an exact setting.\<close>

fun pll_search :: "nat \<Rightarrow> (nat \<times> nat \<times> nat \<times> nat) list \<Rightarrow> nat \<Rightarrow> nat \<times> nat \<times> nat \<Rightarrow> nat \<times> nat \<times> nat" where
  "pll_search freq [] u32Min best = best"
| "pll_search freq ((m, n, p, con3) # cs) u32Min best =
     (let u32Tmp = pll_dist freq con3
      in if u32Tmp < u32Min
         then (if u32Tmp = 0 then (m, n, p) else pll_search freq cs u32Tmp (m, n, p))
         else pll_search freq cs u32Min best)"

text \<open>The frequency of the loop and the two register values. The first divider is zero when the quotient is a multiple of \<open>2 ^ 32\<close>.\<close>

definition CLK_CalPLLFreq_Mode0 :: "nat \<Rightarrow> nat \<Rightarrow> clk_fault + nat \<times> u32 \<times> u32" where
  "CLK_CalPLLFreq_Mode0 src freq =
     (if freq < FREQ_85700KHZ \<or> freq > FREQ_2400MHZ then Inr (FREQ_1000MHZ, 0x307D, 0x10)
      else if 0 \<in> set (pll_Ms src) then Inl Div_Zero
      else case pll_search freq (pll_settings src) (2 ^ 32 - 1) (0, 0, 0) of (m, n, p) \<Rightarrow>
        if p * m = 0 then Inl Div_Zero
        else Inr ((src * n mod 2 ^ 64) div (p * m), push_bit 12 (of_nat m) OR of_nat n, push_bit 4 (of_nat p)))"

section \<open>Setting and reading a loop\<close>

definition CLK_SetAdvPLLFreq :: "E_PLL_INDEX \<Rightarrow> u32 \<Rightarrow> nat \<Rightarrow> nat \<Rightarrow> CLK_T \<Rightarrow> clk_fault + nat \<times> CLK_T" where
  "CLK_SetAdvPLLFreq i u32OpMode src freq r =
     (if pll_no i < length (PLL r) then
        (let c = PLL r ! pll_no i;
             u32CTLVal0 = (CTL0 c AND NOT CLK_PLLnCTL0_MODE_Msk) OR push_bit 18 u32OpMode
         in if u32OpMode = PLL_OPMODE_INTEGER then
              sbind (CLK_CalPLLFreq_Mode0 src freq) (\<lambda>(clk, reg0, reg1).
                let u32CTLVal0 = (u32CTLVal0 AND NOT (CLK_PLLnCTL0_INDIV_Msk OR CLK_PLLnCTL0_FBDIV_Msk)) OR reg0;
                    u32CTLVal1 = (CTL1 c AND NOT CLK_PLLnCTL1_OUTDIV_Msk) OR reg1
                in Inr (clk, r\<lparr>PLL := (PLL r)[pll_no i := c\<lparr>CTL0 := u32CTLVal0, CTL1 := u32CTLVal1 AND NOT CLK_PLLnCTL1_PD_Msk\<rparr>]\<rparr>))
            else Inr (0, r))
      else Inl Bad_Index)"

definition CLK_GetCAPLLClockFreq :: "CLK_T \<Rightarrow> clk_fault + u32" where
  "CLK_GetCAPLLClockFreq r =
     (if PLL r = [] then Inl Bad_Index else
      let val = CTL0 (PLL r ! 0);
          u32N = val AND 0xFF;
          u32M = get_field 0xF 8 val;
          u32P = get_field 3 12 val
      in if val AND 0x20000 \<noteq> 0 then Inr (of_nat HXT)
         else let u32RefClk = of_nat (HXT div 100) in
              if push_bit (unat u32P) 1 * u32M = 0 then Inl Div_Zero
              else Inr ((u32RefClk * u32N) div (push_bit (unat u32P) 1 * u32M) * 100))"

definition CLK_GetAdvPLLClockFreq :: "E_PLL_INDEX \<Rightarrow> CLK_T \<Rightarrow> clk_fault + u32" where
  "CLK_GetAdvPLLClockFreq i r =
     (if pll_no i < pll_no SYSPLL then Inr 0
      else if pll_no i < length (PLL r) then
        (let u32CTLVal0 = CTL0 (PLL r ! pll_no i);
             u32CTLVal1 = CTL1 (PLL r ! pll_no i)
         in if u32CTLVal1 AND CLK_PLLnCTL1_PD_Msk \<noteq> 0 then Inr 0
            else let u32Mode = get_field 3 18 u32CTLVal0;
                     u32N = u32CTLVal0 AND CLK_PLLnCTL0_FBDIV_Msk;
                     u32M = get_field 0x3F 12 u32CTLVal0;
                     u32P = get_field 7 4 u32CTLVal1;
                     u32X = get_field 0xFFFFFF 8 u32CTLVal1
                 in if u32P * u32M = 0 then Inl Div_Zero
                    else if u32Mode = PLL_OPMODE_INTEGER then Inr (of_nat ((HXT * unat u32N) div unat (u32P * u32M)))
                    else let x = of_nat ((unat u32X * 1000 + 500) div 2 ^ 24) :: u32
                         in Inr (of_nat ((HXT div 1000) * unat (u32N * 1000 + x) div unat (u32P * u32M))))
      else Inl Bad_Index)"

definition CLK_GetPLLClockFreq :: "E_PLL_INDEX \<Rightarrow> CLK_T \<Rightarrow> clk_fault + u32" where
  "CLK_GetPLLClockFreq i r = (case i of
     CAPLL \<Rightarrow> CLK_GetCAPLLClockFreq r
   | SYSPLL \<Rightarrow> Inr (of_nat FREQ_180MHZ)
   | _ \<Rightarrow> CLK_GetAdvPLLClockFreq i r)"

definition CLK_SetPLLClockFreq :: "E_PLL_INDEX \<Rightarrow> u32 \<Rightarrow> nat \<Rightarrow> nat \<Rightarrow> CLK_T \<Rightarrow> clk_fault + nat \<times> CLK_T" where
  "CLK_SetPLLClockFreq i u32OpMode src freq r = (case i of
     CAPLL \<Rightarrow> sbind (CLK_GetCAPLLClockFreq r) (\<lambda>f. Inr (unat f, r))
   | SYSPLL \<Rightarrow> Inr (FREQ_180MHZ, r)
   | _ \<Rightarrow> CLK_SetAdvPLLFreq i u32OpMode src freq r)"

definition CLK_GetPLLOpMode :: "E_PLL_INDEX \<Rightarrow> CLK_T \<Rightarrow> clk_fault + u32" where
  "CLK_GetPLLOpMode i r = (if pll_no i < length (PLL r) then Inr (get_field 3 18 (CTL0 (PLL r ! pll_no i))) else Inl Bad_Index)"

definition CLK_DisableAdvPLL :: "E_PLL_INDEX \<Rightarrow> CLK_T \<Rightarrow> clk_fault + CLK_T" where
  "CLK_DisableAdvPLL i r = (if pll_no i < length (PLL r)
     then Inr (r\<lparr>PLL := (PLL r)[pll_no i := (PLL r ! pll_no i)\<lparr>CTL1 := CTL1 (PLL r ! pll_no i) OR CLK_PLLnCTL1_PD_Msk\<rparr>]\<rparr>) else Inl Bad_Index)"

section \<open>Derived clocks\<close>

definition CLK_GetHXTFreq :: "CLK_T \<Rightarrow> u32" where
  "CLK_GetHXTFreq r = (if reg r PWRCTL AND 1 = 1 then of_nat HXT else 0)"

definition CLK_GetLXTFreq :: "CLK_T \<Rightarrow> u32" where
  "CLK_GetLXTFreq r = (if reg r PWRCTL AND 2 = 2 then 32768 else 0)"

definition CLK_GetSYSCLK0Freq :: "CLK_T \<Rightarrow> clk_fault + u32" where
  "CLK_GetSYSCLK0Freq r = (if reg r CLKSEL0 AND 4 = 0
     then sbind (CLK_GetPLLClockFreq EPLL r) (\<lambda>f. Inr (f div 2)) else CLK_GetPLLClockFreq SYSPLL r)"

definition CLK_GetSYSCLK1Freq :: "CLK_T \<Rightarrow> clk_fault + u32" where
  "CLK_GetSYSCLK1Freq r = (if reg r CLKSEL0 AND 0x10 = 0 then Inr (of_nat HXT) else CLK_GetPLLClockFreq SYSPLL r)"

definition CLK_GetPCLK0Freq :: "CLK_T \<Rightarrow> clk_fault + u32" where
  "CLK_GetPCLK0Freq r = CLK_GetSYSCLK1Freq r"

definition CLK_GetPCLK3Freq :: "CLK_T \<Rightarrow> clk_fault + u32" where
  "CLK_GetPCLK3Freq r = sbind (CLK_GetSYSCLK1Freq r) (\<lambda>f. Inr (f div 2))"

text \<open>
  The wait for a clock, on the values of the status register: a read is followed by the test of the count, so the loop gives up
  after one read more than the count. \<open>None\<close> when it still waits.
\<close>

fun wait_ready :: "u32 \<Rightarrow> int \<Rightarrow> u32 list \<Rightarrow> u32 option" where
  "wait_ready u32ClkMask i32TimeOutCnt [] = None"
| "wait_ready u32ClkMask i32TimeOutCnt (v # vs) =
     (if v AND u32ClkMask \<noteq> u32ClkMask then (if i32TimeOutCnt \<le> 0 then Some 0 else wait_ready u32ClkMask (i32TimeOutCnt - 1) vs) else Some 1)"

definition CLK_WaitClockReady :: "u32 \<Rightarrow> u32 list \<Rightarrow> u32 option" where
  "CLK_WaitClockReady u32ClkMask status = wait_ready u32ClkMask 2160000 status"

definition CLK_EnableXtalRC :: "u32 \<Rightarrow> CLK_T \<Rightarrow> CLK_T" where
  "CLK_EnableXtalRC u32ClkMask r = set_reg PWRCTL (reg r PWRCTL OR u32ClkMask) r"

definition CLK_DisableXtalRC :: "u32 \<Rightarrow> CLK_T \<Rightarrow> CLK_T" where
  "CLK_DisableXtalRC u32ClkMask r = set_reg PWRCTL (reg r PWRCTL AND NOT u32ClkMask) r"

section \<open>Clocks of the modules\<close>

text \<open>
  The index of a module: the number and the bit of the register that enables its clock, and number, mask and position of the field that
  selects its source and of the field that divides it. No mask, no such field.
\<close>

definition clk_module :: "u32 \<Rightarrow> u32 \<Rightarrow> u32 \<Rightarrow> u32 \<Rightarrow> u32 \<Rightarrow> u32 \<Rightarrow> u32 \<Rightarrow> u32 \<Rightarrow> u32" where
  "clk_module apbclk clksel selmsk selpos clkdiv divmsk divpos en =
     push_bit 29 apbclk OR push_bit 26 clksel OR push_bit 22 selmsk OR push_bit 17 selpos OR
     push_bit 14 clkdiv OR push_bit 10 divmsk OR push_bit 5 divpos OR en"

definition MODULE_APBCLK :: "u32 \<Rightarrow> nat" where "MODULE_APBCLK x = unat (drop_bit 29 x AND 7)"
definition MODULE_CLKSEL :: "u32 \<Rightarrow> nat" where "MODULE_CLKSEL x = unat (drop_bit 26 x AND 7)"
definition MODULE_CLKSEL_Msk :: "u32 \<Rightarrow> u32" where "MODULE_CLKSEL_Msk x = drop_bit 22 x AND 0xF"
definition MODULE_CLKSEL_Pos :: "u32 \<Rightarrow> nat" where "MODULE_CLKSEL_Pos x = unat (drop_bit 17 x AND 0x1F)"
definition MODULE_CLKDIV :: "u32 \<Rightarrow> nat" where "MODULE_CLKDIV x = unat (drop_bit 14 x AND 7)"
definition MODULE_CLKDIV_Msk :: "u32 \<Rightarrow> u32" where "MODULE_CLKDIV_Msk x = drop_bit 10 x AND 0xF"
definition MODULE_CLKDIV_Pos :: "u32 \<Rightarrow> nat" where "MODULE_CLKDIV_Pos x = unat (drop_bit 5 x AND 0x1F)"
definition MODULE_IP_EN_Pos :: "u32 \<Rightarrow> nat" where "MODULE_IP_EN_Pos x = unat (x AND 0x1F)"

definition CLKO_MODULE :: u32 where "CLKO_MODULE = clk_module 1 4 15 24 0 0 0 13"
definition KPI_MODULE :: u32 where "KPI_MODULE = clk_module 2 4 1 30 0 0 0 31"
definition ADC_MODULE :: u32 where "ADC_MODULE = clk_module 4 0 0 0 0 0 0 24"
definition EADC_MODULE :: u32 where "EADC_MODULE = clk_module 4 0 0 0 0 0 0 25"

text \<open>All modules in the order of the header. \<open>CA35_MODULE\<close> lacks a parenthesis and cannot be used.\<close>

definition clk_modules :: "u32 list" where
  "clk_modules = [
     clk_module 1 0 0 0 0 0 0 0, clk_module 1 0 0 0 0 0 0 1, clk_module 1 0 0 0 0 0 0 2, clk_module 1 0 0 0 0 0 0 3,
     clk_module 1 0 0 0 0 0 0 4, clk_module 1 0 0 0 0 0 0 5, clk_module 1 0 0 0 0 0 0 6, clk_module 1 0 0 0 0 0 0 7,
     clk_module 1 0 0 0 0 0 0 8, clk_module 1 0 0 0 0 0 0 9, clk_module 1 0 0 0 0 0 0 10, clk_module 1 0 0 0 0 0 0 11,
     clk_module 1 0 1 27 0 0 0 12, clk_module 1 4 15 24 0 0 0 13, clk_module 1 0 0 0 0 0 0 14, clk_module 1 0 0 0 0 0 0 16,
     clk_module 1 0 0 0 0 0 0 17, clk_module 1 0 0 0 0 0 0 18, clk_module 1 0 0 0 0 0 0 19, clk_module 1 0 0 0 0 0 0 20,
     clk_module 1 0 0 0 0 0 0 21, clk_module 1 0 0 0 0 0 0 22, clk_module 1 0 0 0 0 0 0 23, clk_module 1 0 0 0 0 0 0 24,
     clk_module 1 0 0 0 0 0 0 25, clk_module 1 0 0 0 0 0 0 26, clk_module 1 0 0 0 0 0 0 27, clk_module 1 0 0 0 0 0 0 28,
     clk_module 1 0 0 0 0 0 0 29, clk_module 0 0 1 2 0 0 0 0, clk_module 0 0 1 4 0 0 0 0, clk_module 0 0 7 8 0 0 0 1,
     clk_module 0 0 1 3 0 0 0 3, clk_module 0 0 0 0 0 0 0 4, clk_module 0 0 0 0 0 0 0 5, clk_module 0 4 1 16 0 7 0 8,
     clk_module 0 4 1 17 0 7 4 9, clk_module 0 4 1 18 0 7 8 10, clk_module 0 4 1 19 0 7 12 11, clk_module 0 0 3 16 0 0 0 16,
     clk_module 0 0 3 18 0 0 0 17, clk_module 0 0 0 0 0 0 0 18, clk_module 0 0 0 0 0 0 0 19, clk_module 0 0 0 0 0 0 0 20,
     clk_module 0 0 0 0 0 0 0 21, clk_module 0 0 0 0 0 0 0 22, clk_module 0 0 1 26 0 0 0 24, clk_module 0 0 0 0 0 0 0 25,
     clk_module 0 0 1 24 0 0 0 26, clk_module 0 0 0 0 0 7 16 26, clk_module 0 0 0 0 0 3 28 27, clk_module 0 0 0 0 0 3 30 28,
     clk_module 0 0 3 12 1 15 8 29, clk_module 0 0 3 14 1 15 12 30, clk_module 2 1 7 0 0 0 0 0, clk_module 2 1 7 4 0 0 0 1,
     clk_module 2 1 7 8 0 0 0 2, clk_module 2 1 7 12 0 0 0 3, clk_module 2 1 7 16 0 0 0 4, clk_module 2 1 7 20 0 0 0 5,
     clk_module 2 1 7 24 0 0 0 6, clk_module 2 1 7 28 0 0 0 7, clk_module 2 2 7 0 0 0 0 8, clk_module 2 2 7 4 0 0 0 9,
     clk_module 2 2 7 8 0 0 0 10, clk_module 2 2 7 12 0 0 0 11, clk_module 2 2 3 16 1 15 16 12, clk_module 2 2 3 18 1 15 20 13,
     clk_module 2 2 3 20 1 15 24 14, clk_module 2 2 3 22 1 15 28 15, clk_module 2 2 3 24 2 15 0 16, clk_module 2 2 3 26 2 15 4 17,
     clk_module 2 2 3 28 2 15 8 18, clk_module 2 2 3 30 2 15 12 19, clk_module 2 3 3 0 2 15 16 20, clk_module 2 3 3 2 2 15 20 21,
     clk_module 2 3 3 4 2 15 24 22, clk_module 2 3 3 6 2 15 28 23, clk_module 2 3 3 8 3 15 0 24, clk_module 2 3 3 10 3 15 4 25,
     clk_module 2 3 3 12 3 15 8 26, clk_module 2 3 3 14 3 15 12 27, clk_module 2 3 3 16 3 15 16 28, clk_module 2 0 0 0 0 0 0 29,
     clk_module 2 0 0 0 0 0 0 30, clk_module 2 4 1 30 0 0 0 31, clk_module 3 0 0 0 0 0 0 0, clk_module 3 0 0 0 0 0 0 1,
     clk_module 3 0 0 0 0 0 0 2, clk_module 3 0 0 0 0 0 0 3, clk_module 3 0 0 0 0 0 0 4, clk_module 3 0 0 0 0 0 0 5,
     clk_module 3 4 3 8 0 0 0 6, clk_module 3 4 3 10 0 0 0 7, clk_module 3 4 1 28 1 15 0 12, clk_module 3 4 1 29 1 15 4 13,
     clk_module 3 3 3 20 0 0 0 16, clk_module 3 3 3 24 0 0 0 17, clk_module 3 3 3 28 0 0 0 18, clk_module 3 3 3 22 0 0 0 16,
     clk_module 3 3 3 26 0 0 0 17, clk_module 3 3 3 30 0 0 0 18, clk_module 3 0 0 0 0 0 0 24, clk_module 3 0 0 0 0 0 0 25,
     clk_module 3 0 0 0 0 0 0 26, clk_module 4 4 3 12 0 0 0 0, clk_module 4 4 3 14 0 0 0 1, clk_module 4 0 0 0 0 0 0 2,
     clk_module 4 0 0 0 0 0 0 3, clk_module 4 4 3 0 0 0 0 4, clk_module 4 4 3 2 0 0 0 5, clk_module 4 4 3 4 0 0 0 6,
     clk_module 4 4 3 6 0 0 0 7, clk_module 4 0 0 0 0 0 0 8, clk_module 4 0 0 0 0 0 0 9, clk_module 4 0 0 0 0 0 0 10,
     clk_module 4 0 0 0 0 0 0 12, clk_module 4 0 0 0 0 0 0 13, clk_module 4 0 0 0 0 0 0 14, clk_module 4 0 0 0 0 0 0 24,
     clk_module 4 0 0 0 0 0 0 25]"

definition CLK_EnableModuleClock :: "u32 \<Rightarrow> CLK_T \<Rightarrow> CLK_T" where
  "CLK_EnableModuleClock u32ModuleIdx r =
     (let u32tmpVal = push_bit (MODULE_IP_EN_Pos u32ModuleIdx) 1;
          u32tmpAddr = SYSCLK0 + MODULE_APBCLK u32ModuleIdx * 4
      in set_reg u32tmpAddr (reg r u32tmpAddr OR u32tmpVal) r)"

definition CLK_DisableModuleClock :: "u32 \<Rightarrow> CLK_T \<Rightarrow> CLK_T" where
  "CLK_DisableModuleClock u32ModuleIdx r =
     (let u32tmpVal = NOT (push_bit (MODULE_IP_EN_Pos u32ModuleIdx) 1);
          u32tmpAddr = SYSCLK0 + MODULE_APBCLK u32ModuleIdx * 4
      in set_reg u32tmpAddr (reg r u32tmpAddr AND u32tmpVal) r)"

definition CLK_SetModuleClock :: "u32 \<Rightarrow> u32 \<Rightarrow> u32 \<Rightarrow> CLK_T \<Rightarrow> CLK_T" where
  "CLK_SetModuleClock u32ModuleIdx u32ClkSrc u32ClkDiv r =
     (if u32ModuleIdx = KPI_MODULE then
        set_bits APBCLK0 0x80000000 0x80000000 (set_bits CLKSEL4 0x40000000 u32ClkSrc (set_bits CLKDIV4 0xFF000000 u32ClkDiv r))
      else if u32ModuleIdx = ADC_MODULE then
        set_bits APBCLK2 0x1000000 0x1000000 (set_bits CLKDIV4 0x1FFFF0 u32ClkDiv r)
      else if u32ModuleIdx = EADC_MODULE then
        set_bits APBCLK2 0x2000000 0x2000000 (set_bits CLKDIV4 0xF u32ClkDiv r)
      else
        let r1 = (if MODULE_CLKDIV_Msk u32ModuleIdx \<noteq> 0
                  then set_bits (CLKDIV0 + MODULE_CLKDIV u32ModuleIdx * 4)
                         (push_bit (MODULE_CLKDIV_Pos u32ModuleIdx) (MODULE_CLKDIV_Msk u32ModuleIdx)) u32ClkDiv r
                  else r)
        in if MODULE_CLKSEL_Msk u32ModuleIdx \<noteq> 0
           then set_bits (CLKSEL0 + MODULE_CLKSEL u32ModuleIdx * 4)
                  (push_bit (MODULE_CLKSEL_Pos u32ModuleIdx) (MODULE_CLKSEL_Msk u32ModuleIdx)) u32ClkSrc r1
           else r1)"

text \<open>The two functions that read have tables of offsets with five entries each.\<close>

definition u32SelTbl :: "nat list" where "u32SelTbl = [0x0, 0x4, 0x8, 0xC, 0x10]"
definition u32DivTbl :: "nat list" where "u32DivTbl = [0x0, 0x4, 0xC, 0xC, 0x10]"

definition CLK_GetModuleClockSource :: "u32 \<Rightarrow> CLK_T \<Rightarrow> clk_fault + u32" where
  "CLK_GetModuleClockSource u32ModuleIdx r =
     (if MODULE_CLKSEL_Msk u32ModuleIdx \<noteq> 0 then
        if MODULE_CLKSEL u32ModuleIdx < length u32SelTbl
        then Inr (get_field (MODULE_CLKSEL_Msk u32ModuleIdx) (MODULE_CLKSEL_Pos u32ModuleIdx)
                    (reg r (CLKSEL0 + u32SelTbl ! MODULE_CLKSEL u32ModuleIdx)))
        else Inl Bad_Index
      else Inr 0)"

definition CLK_GetModuleClockDivider :: "u32 \<Rightarrow> CLK_T \<Rightarrow> clk_fault + u32" where
  "CLK_GetModuleClockDivider u32ModuleIdx r =
     (if MODULE_CLKDIV_Msk u32ModuleIdx \<noteq> 0 then
        if u32ModuleIdx = KPI_MODULE then Inr (get_field 0xFF 24 (reg r CLKDIV4))
        else if u32ModuleIdx = ADC_MODULE then Inr (get_field 0x1FFFF 4 (reg r CLKDIV4))
        else if MODULE_CLKDIV u32ModuleIdx < length u32DivTbl
        then Inr (get_field (MODULE_CLKDIV_Msk u32ModuleIdx) (MODULE_CLKDIV_Pos u32ModuleIdx)
                    (reg r (CLKDIV0 + u32DivTbl ! MODULE_CLKDIV u32ModuleIdx)))
        else Inl Bad_Index
      else Inr 0)"

text \<open>The clock output and the source of the system tick.\<close>

definition CLK_DisableCKO :: "CLK_T \<Rightarrow> CLK_T" where
  "CLK_DisableCKO r = CLK_DisableModuleClock CLKO_MODULE r"

definition CLK_EnableCKO :: "u32 \<Rightarrow> u32 \<Rightarrow> u32 \<Rightarrow> CLK_T \<Rightarrow> CLK_T" where
  "CLK_EnableCKO u32ClkSrc u32ClkDiv u32ClkDivBy1En r =
     CLK_SetModuleClock CLKO_MODULE u32ClkSrc 0
       (CLK_EnableModuleClock CLKO_MODULE
         (set_reg CLKOCTL (0x10 OR u32ClkDiv OR push_bit 5 u32ClkDivBy1En) r))"

definition CLK_SetSysTickClockSrc :: "u32 \<Rightarrow> CLK_T \<Rightarrow> CLK_T" where
  "CLK_SetSysTickClockSrc u32ClkSrc r = set_bits CLKSEL0 0x700 u32ClkSrc r"

end
