(* ===== verification/Clk_Props.thy ===== *)
theory Clk_Props
  imports Clk
begin

text \<open>
  The properties of the clock driver: the search for the dividers of a loop finds the closest setting of its grid and when there
  is none, the frequency of a loop that was set is the frequency that is read, and which settings of a module can be read back.
\<close>

section \<open>The grid of settings\<close>

lemma pll_settings_iff: "(m, n, p, c) \<in> set (pll_settings src) \<longleftrightarrow>
  m \<in> set (pll_Ms src) \<and> n \<in> set (pll_Ns (src div m)) \<and> p \<in> set (pll_Ps (src div m * n)) \<and> c = src div m * n div p"
  by (auto simp: pll_settings_def Let_def)

lemma pll_Ms_iff: "src < 2 ^ 32 \<Longrightarrow> m \<in> set (pll_Ms src) \<longleftrightarrow> 1 \<le> m \<and> src div FREQ_40MHZ \<le> m \<and> m \<le> src div FREQ_1MHZ \<and> m \<le> 63"
  by (auto simp: pll_Ms_def Let_def)

lemma pll_Ns_iff: "n \<in> set (pll_Ns con1) \<longleftrightarrow> 16 \<le> n \<and> FREQ_600MHZ div con1 \<le> n \<and> n \<le> FREQ_2400MHZ div con1 \<and> n \<le> 2047"
  by (auto simp: pll_Ns_def Let_def)

lemma pll_Ps_iff: "p \<in> set (pll_Ps con2) \<longleftrightarrow> 1 \<le> p \<and> con2 div FREQ_2400MHZ \<le> p \<and> p \<le> con2 div FREQ_85700KHZ \<and> p \<le> 7"
  by (auto simp: pll_Ps_def Let_def)

lemma mult_le_of_le_div: "a \<le> b div c \<Longrightarrow> c * a \<le> b" for a b c :: nat
  by (metis div_times_less_eq_dividend mult.commute mult_le_mono1 order_trans)

lemma setting_bounds:
  assumes "src < 2 ^ 32" "(m, n, p, c) \<in> set (pll_settings src)"
  shows "1 \<le> m" "m \<le> 63" "16 \<le> n" "n \<le> 2047" "1 \<le> p" "p \<le> 7" "FREQ_1MHZ \<le> src div m" "src div m * n \<le> FREQ_2400MHZ" "c \<le> FREQ_2400MHZ"
proof -
  have s: "m \<in> set (pll_Ms src)" "n \<in> set (pll_Ns (src div m))" "p \<in> set (pll_Ps (src div m * n))" "c = src div m * n div p"
    using assms(2) by (simp_all add: pll_settings_iff)
  show m: "1 \<le> m" "m \<le> 63" "16 \<le> n" "n \<le> 2047" "1 \<le> p" "p \<le> 7" using s assms(1) by (simp_all add: pll_Ms_iff pll_Ns_iff pll_Ps_iff)
  have "m \<le> src div FREQ_1MHZ" using s(1) assms(1) by (simp add: pll_Ms_iff)
  then have "FREQ_1MHZ * m \<le> src" by (rule mult_le_of_le_div)
  then show "FREQ_1MHZ \<le> src div m" using m(1) by (simp add: less_eq_div_iff_mult_less_eq)
  have "n \<le> FREQ_2400MHZ div (src div m)" using s(2) by (simp add: pll_Ns_iff)
  then show l: "src div m * n \<le> FREQ_2400MHZ" by (rule mult_le_of_le_div)
  show "c \<le> FREQ_2400MHZ" using l s(4) div_le_dividend[of "src div m * n" p] by linarith
qed

text \<open>There is a setting exactly for sources from 1 MHz to below 2560 MHz.\<close>

lemma settings_exist:
  assumes "FREQ_1MHZ \<le> src" "src < 64 * FREQ_40MHZ"
  shows "\<exists>x. x \<in> set (pll_settings src)"
proof -
  define m where "m = max 1 (src div FREQ_40MHZ)"
  define c where "c = src div m"
  define n where "n = max 16 (FREQ_600MHZ div c)"
  have q: "src div FREQ_40MHZ \<le> 63" "src div FREQ_40MHZ \<le> src div FREQ_1MHZ" "1 \<le> src div FREQ_1MHZ"
    using assms by (simp_all add: div_le_mono2 less_eq_div_iff_mult_less_eq less_mult_imp_div_less flip: less_Suc_eq_le)
  have c: "FREQ_1MHZ \<le> c" "c < 2 * FREQ_40MHZ"
  proof -
    have "m \<le> src div FREQ_1MHZ" using q by (simp add: m_def)
    then have "FREQ_1MHZ * m \<le> src" by (rule mult_le_of_le_div)
    then show "FREQ_1MHZ \<le> c" by (simp add: c_def m_def less_eq_div_iff_mult_less_eq)
    have "FREQ_40MHZ * (src div FREQ_40MHZ) + src mod FREQ_40MHZ = src" "src mod FREQ_40MHZ < FREQ_40MHZ" by simp_all
    then have "src < m * (2 * FREQ_40MHZ)" unfolding m_def by linarith
    then show "c < 2 * FREQ_40MHZ" unfolding c_def by (intro less_mult_imp_div_less) (simp add: mult.commute)
  qed
  have c0: "0 < c" using c(1) by linarith
  have n: "n \<le> FREQ_2400MHZ div c" "n \<le> 2047" "16 \<le> n" "FREQ_600MHZ div c \<le> n"
  proof -
    have "16 * c \<le> FREQ_2400MHZ" using c(2) by linarith
    then have "16 \<le> FREQ_2400MHZ div c" using c0 by (simp add: less_eq_div_iff_mult_less_eq)
    then show "n \<le> FREQ_2400MHZ div c" by (simp add: n_def div_le_mono)
    have "FREQ_600MHZ div c \<le> FREQ_600MHZ div FREQ_1MHZ" using c(1) by (intro div_le_mono2) simp_all
    then show "n \<le> 2047" by (simp add: n_def)
  qed (simp_all add: n_def)
  have big: "FREQ_85700KHZ \<le> c * n"
  proof -
    have "c * (FREQ_600MHZ div c) + FREQ_600MHZ mod c = FREQ_600MHZ" "FREQ_600MHZ mod c < c" using c0 by simp_all
    moreover have "c * (FREQ_600MHZ div c) \<le> c * n" using n(4) by simp
    ultimately show ?thesis using c(2) by linarith
  qed
  have small: "c * n \<le> FREQ_2400MHZ" using n(1) by (rule mult_le_of_le_div)
  have p: "1 \<in> set (pll_Ps (c * n))"
  proof -
    have "c * n div FREQ_2400MHZ \<le> FREQ_2400MHZ div FREQ_2400MHZ" using small by (rule div_le_mono)
    moreover have "1 \<le> c * n div FREQ_85700KHZ" using big by (simp add: less_eq_div_iff_mult_less_eq)
    ultimately show ?thesis by (simp add: pll_Ps_iff)
  qed
  have "src < 2 ^ 32" using assms(2) by simp
  then have m: "m \<in> set (pll_Ms src)" using q by (auto simp: pll_Ms_iff m_def)
  have "n \<in> set (pll_Ns c)" unfolding pll_Ns_iff using n by blast
  then have "(m, n, 1, c * n div 1) \<in> set (pll_settings src)" unfolding pll_settings_iff c_def[symmetric] using m p by blast
  then show ?thesis by blast
qed

lemma settings_none:
  assumes "src < 2 ^ 32" "src < FREQ_1MHZ \<or> 64 * FREQ_40MHZ \<le> src"
  shows "pll_settings src = []"
proof -
  have "src div FREQ_1MHZ = 0 \<or> 64 \<le> src div FREQ_40MHZ" using assms(2) by (auto simp: less_eq_div_iff_mult_less_eq)
  then have "\<forall>m. m \<notin> set (pll_Ms src)" unfolding pll_Ms_iff[OF assms(1)] by auto
  then have "pll_Ms src = []" by (cases "pll_Ms src") auto
  then show ?thesis by (simp add: pll_settings_def)
qed

section \<open>The search\<close>

lemma pll_search_best:
  "(pll_search f cs u best = best \<and> (\<forall>(m, n, p, c) \<in> set cs. u \<le> pll_dist f c)) \<or>
   (\<exists>m n p c. pll_search f cs u best = (m, n, p) \<and> (m, n, p, c) \<in> set cs \<and> pll_dist f c < u \<and> (\<forall>(m', n', p', c') \<in> set cs. pll_dist f c \<le> pll_dist f c'))"
proof (induction f cs u best rule: pll_search.induct)
  case (2 freq m n p con3 cs u best)
  let ?t = "pll_dist freq con3"
  consider "?t < u" "?t = 0" | "?t < u" "?t \<noteq> 0" | "\<not> ?t < u" by blast
  then show ?case
  proof cases
    case 1
    then show ?thesis by (intro disjI2 exI[of _ m] exI[of _ n] exI[of _ p] exI[of _ con3]) auto
  next
    case 2
    from "2.IH"(1)[OF refl 2] show ?thesis
    proof (elim disjE exE conjE)
      assume "pll_search freq cs ?t (m, n, p) = (m, n, p)" "\<forall>(m, n, p, c) \<in> set cs. ?t \<le> pll_dist freq c"
      then show ?thesis using 2 by (intro disjI2 exI[of _ m] exI[of _ n] exI[of _ p] exI[of _ con3]) auto
    next
      fix m' n' p' c'
      assume "pll_search freq cs ?t (m, n, p) = (m', n', p')" "(m', n', p', c') \<in> set cs" "pll_dist freq c' < ?t"
        "\<forall>(m'', n'', p'', c'') \<in> set cs. pll_dist freq c' \<le> pll_dist freq c''"
      then show ?thesis using 2 by (intro disjI2 exI[of _ m'] exI[of _ n'] exI[of _ p'] exI[of _ c']) auto
    qed
  next
    case 3
    from "2.IH"(2)[OF refl 3] show ?thesis
    proof (elim disjE exE conjE)
      assume "pll_search freq cs u best = best" "\<forall>(m, n, p, c) \<in> set cs. u \<le> pll_dist freq c"
      then show ?thesis using 3 by (intro disjI1) auto
    next
      fix m' n' p' c'
      assume "pll_search freq cs u best = (m', n', p')" "(m', n', p', c') \<in> set cs" "pll_dist freq c' < u"
        "\<forall>(m'', n'', p'', c'') \<in> set cs. pll_dist freq c' \<le> pll_dist freq c''"
      then show ?thesis using 3 by (intro disjI2 exI[of _ m'] exI[of _ n'] exI[of _ p'] exI[of _ c']) auto
    qed
  qed
qed simp

lemma pll_dist_abs:
  assumes "c \<le> FREQ_2400MHZ" "f \<le> FREQ_2400MHZ"
  shows "int (pll_dist f c) = \<bar>int c - int f\<bar>"
  using assms by (auto simp: pll_dist_def)

lemma clk_pll_search_real:
  assumes "src < 2 ^ 32" "FREQ_85700KHZ \<le> f" "f \<le> FREQ_2400MHZ"
  shows "if FREQ_1MHZ \<le> src \<and> src < 64 * FREQ_40MHZ
    then \<exists>m n p. CLK_CalPLLFreq_Mode0 src f = Inr (src * n div (p * m), push_bit 12 (of_nat m) OR of_nat n, push_bit 4 (of_nat p)) \<and>
      1 \<le> m \<and> m \<le> 63 \<and> 16 \<le> n \<and> n \<le> 2047 \<and> 1 \<le> p \<and> p \<le> 7 \<and> FREQ_1MHZ \<le> src div m \<and> src div m * n \<le> FREQ_2400MHZ \<and>
      (\<forall>m' \<in> set (pll_Ms src). \<forall>n' \<in> set (pll_Ns (src div m')). \<forall>p' \<in> set (pll_Ps (src div m' * n')).
         \<bar>int (src div m * n div p) - int f\<bar> \<le> \<bar>int (src div m' * n' div p') - int f\<bar>)
    else CLK_CalPLLFreq_Mode0 src f = Inl Div_Zero"
proof (cases "FREQ_1MHZ \<le> src \<and> src < 64 * FREQ_40MHZ")
  case True
  have d: "pll_dist f c < 2 ^ 32 - 1" if "(m, n, p, c) \<in> set (pll_settings src)" for m n p c
    using pll_dist_abs[OF setting_bounds(9)[OF assms(1) that] assms(3)] setting_bounds(9)[OF assms(1) that] assms(3) by simp
  obtain m0 n0 p0 c0 where s: "(m0, n0, p0, c0) \<in> set (pll_settings src)" using settings_exist[of src] True by auto
  have "\<not> (\<forall>(m, n, p, c) \<in> set (pll_settings src). 2 ^ 32 - 1 \<le> pll_dist f c)" using d[OF s] s by force
  then obtain m n p c where b: "pll_search f (pll_settings src) (2 ^ 32 - 1) (0, 0, 0) = (m, n, p)" "(m, n, p, c) \<in> set (pll_settings src)"
    "\<forall>(m', n', p', c') \<in> set (pll_settings src). pll_dist f c \<le> pll_dist f c'"
    using pll_search_best[of f "pll_settings src" "2 ^ 32 - 1" "(0, 0, 0)"] by blast
  note B = setting_bounds[OF assms(1) b(2)]
  have c: "c = src div m * n div p" using b(2) by (simp add: pll_settings_iff)
  have best: "\<bar>int (src div m * n div p) - int f\<bar> \<le> \<bar>int (src div m' * n' div p') - int f\<bar>"
    if "m' \<in> set (pll_Ms src)" "n' \<in> set (pll_Ns (src div m'))" "p' \<in> set (pll_Ps (src div m' * n'))" for m' n' p'
  proof -
    have i: "(m', n', p', src div m' * n' div p') \<in> set (pll_settings src)" using that by (simp add: pll_settings_iff)
    then have "pll_dist f c \<le> pll_dist f (src div m' * n' div p')" using b(3) by force
    then show ?thesis
      using pll_dist_abs[OF B(9) assms(3)] pll_dist_abs[OF setting_bounds(9)[OF assms(1) i] assms(3)] c by linarith
  qed
  have "src * n \<le> 2 ^ 32 * 2047" using assms(1) B(4) by (intro mult_le_mono) simp_all
  then have "src * n mod 2 ^ 64 = src * n" by simp
  then have run: "CLK_CalPLLFreq_Mode0 src f = Inr (src * n div (p * m), push_bit 12 (of_nat m) OR of_nat n, push_bit 4 (of_nat p))"
    using b(1) B(1,5) assms(2,3) pll_Ms_iff[OF assms(1), of 0] by (simp add: CLK_CalPLLFreq_Mode0_def)
  show ?thesis unfolding if_P[OF True]
    by (intro exI[of _ m] exI[of _ n] exI[of _ p] conjI run B(1-8) ballI best)
next
  case False
  then have "pll_settings src = []" using settings_none[OF assms(1)] by linarith
  then have "CLK_CalPLLFreq_Mode0 src f = Inl Div_Zero" using assms(2,3) by (simp add: CLK_CalPLLFreq_Mode0_def)
  then show ?thesis using False by simp
qed

text \<open>
  C37. For a wanted frequency in the range of the loops, \<open>CLK_CalPLLFreq_Mode0\<close> returns the dividers of a setting of its grid, inside of the limits of the
  hardware, and no setting of the grid comes closer to the wanted frequency. There is no setting, and the driver
  divides by zero, exactly when the source is below 1 MHz or from 2560 MHz on.
\<close>

theorem clk_pll_search_best:
  assumes "src < 2 ^ 32" "FREQ_85700KHZ \<le> f" "f \<le> FREQ_2400MHZ"
  shows "if FREQ_1MHZ \<le> src \<and> src < 64 * FREQ_40MHZ
    then \<exists>m n p. CLK_CalPLLFreq_Mode0 src f = Inr (src * n div (p * m), push_bit 12 (of_nat m) OR of_nat n, push_bit 4 (of_nat p)) \<and>
      1 \<le> m \<and> m \<le> 63 \<and> 16 \<le> n \<and> n \<le> 2047 \<and> 1 \<le> p \<and> p \<le> 7 \<and> FREQ_1MHZ \<le> src div m \<and> src div m * n \<le> FREQ_2400MHZ \<and>
      (\<forall>m' \<in> set (pll_Ms src). \<forall>n' \<in> set (pll_Ns (src div m')). \<forall>p' \<in> set (pll_Ps (src div m' * n')).
         \<bar>int (src div m * n div p) - int f\<bar> \<le> \<bar>int (src div m' * n' div p') - int f\<bar>)
    else CLK_CalPLLFreq_Mode0 src f = Inl Div_Zero"
  by (rule clk_pll_search_real[OF assms])

theorem clk_pll_search_best_witness:
  "(\<exists>m n p. CLK_CalPLLFreq_Mode0 HXT 500000000 = Inr (HXT * n div (p * m), push_bit 12 (of_nat m) OR of_nat n, push_bit 4 (of_nat p)) \<and>
      1 \<le> m \<and> m \<le> 63) \<and> CLK_CalPLLFreq_Mode0 32768 500000000 = Inl Div_Zero"
  using clk_pll_search_best[of HXT 500000000] clk_pll_search_best[of 32768 500000000] by auto

section \<open>Setting and reading\<close>

lemma scaled_div:
  fixes a n p m :: nat
  assumes "0 < m" "0 < p"
  shows "a * n div (p * m) \<le> a div m * n + n"
proof -
  have "a < m + a div m * m" using div_mult_mod_eq[of a m] mod_less_divisor[OF assms(1), of a] by linarith
  then have "a < (a div m + 1) * m" by (simp add: add_mult_distrib)
  then have "a * n \<le> (a div m + 1) * m * n" by (intro mult_le_mono1) simp
  also have "\<dots> = (a div m * n + n) * m" by (simp add: algebra_simps)
  finally have "a * n div m \<le> a div m * n + n" using assms(1) div_le_mono[of "a * n" "(a div m * n + n) * m" m] by simp
  moreover have "a * n div (p * m) \<le> a * n div m" using assms by (intro div_le_mono2) simp_all
  ultimately show ?thesis by (rule order_trans[rotated])
qed

text \<open>What is computed for the crystal of the board: dividers that fit in their fields.\<close>

lemma pll_registers:
  "\<exists>m n p. CLK_CalPLLFreq_Mode0 HXT f = Inr (HXT * n div (p * m), push_bit 12 (of_nat m) OR of_nat n, push_bit 4 (of_nat p)) \<and>
     1 \<le> m \<and> m \<le> 63 \<and> n \<le> 2047 \<and> 1 \<le> p \<and> p \<le> 7 \<and> HXT * n div (p * m) < 2 ^ 32"
proof (cases "f < FREQ_85700KHZ \<or> f > FREQ_2400MHZ")
  case True
  then have "CLK_CalPLLFreq_Mode0 HXT f = Inr (HXT * 125 div (1 * 3), push_bit 12 (of_nat 3) OR of_nat 125, push_bit 4 (of_nat 1))"
    by (simp add: CLK_CalPLLFreq_Mode0_def)
  then show ?thesis by (intro exI[of _ 3] exI[of _ 125] exI[of _ 1] conjI) simp_all
next
  case False
  obtain m n p where s: "CLK_CalPLLFreq_Mode0 HXT f = Inr (HXT * n div (p * m), push_bit 12 (of_nat m) OR of_nat n, push_bit 4 (of_nat p))"
    "1 \<le> m" "m \<le> 63" "n \<le> 2047" "1 \<le> p" "p \<le> 7" "HXT div m * n \<le> FREQ_2400MHZ"
    using False clk_pll_search_real[of HXT f] by auto
  have "HXT * n div (p * m) \<le> HXT div m * n + n" using s(2,5) by (intro scaled_div) simp_all
  moreover have "(2 :: nat) ^ 32 = 4294967296" by simp
  ultimately have "HXT * n div (p * m) < 2 ^ 32" using s(4,7) by linarith
  with s show ?thesis by blast
qed

text \<open>The fields of the two control words after setting.\<close>

lemma set_fields:
  assumes "m \<le> 63" "n \<le> 2047" "p \<le> 7"
    "v0 = ((c0 AND NOT CLK_PLLnCTL0_MODE_Msk) AND NOT (CLK_PLLnCTL0_INDIV_Msk OR CLK_PLLnCTL0_FBDIV_Msk)) OR (push_bit 12 (of_nat m) OR of_nat n)"
    "v1 = ((c1 AND NOT CLK_PLLnCTL1_OUTDIV_Msk) OR push_bit 4 (of_nat p)) AND NOT CLK_PLLnCTL1_PD_Msk"
  shows "v0 AND CLK_PLLnCTL0_FBDIV_Msk = of_nat n" "get_field 0x3F 12 v0 = of_nat m" "get_field 3 18 v0 = 0"
    "get_field 7 4 v1 = of_nat p" "v1 AND CLK_PLLnCTL1_PD_Msk = 0"
proof -
  have n: "of_nat n AND 0x7FF = (of_nat n :: u32)" using low_mask[of "of_nat n" 11] assms(2) by (simp add: unat_of_nat mask_eq_exp_minus_1)
  have m: "of_nat m AND 0x3F = (of_nat m :: u32)" using low_mask[of "of_nat m" 6] assms(1) by (simp add: unat_of_nat mask_eq_exp_minus_1)
  have p: "of_nat p AND 7 = (of_nat p :: u32)" using low_mask[of "of_nat p" 3] assms(3) by (simp add: unat_of_nat mask_eq_exp_minus_1)
  have m12: "push_bit 12 (of_nat m) AND CLK_PLLnCTL0_INDIV_Msk = (push_bit 12 (of_nat m) :: u32)"
    using arg_cong[OF m, of "push_bit 12"] by (simp add: push_bit_and)
  have p4: "push_bit 4 (of_nat p) AND CLK_PLLnCTL1_OUTDIV_Msk = (push_bit 4 (of_nat p) :: u32)"
    using arg_cong[OF p, of "push_bit 4"] by (simp add: push_bit_and)
  have mn: "(push_bit 12 (of_nat m) OR of_nat n) AND (CLK_PLLnCTL0_INDIV_Msk OR CLK_PLLnCTL0_FBDIV_Msk) = (push_bit 12 (of_nat m) OR of_nat n :: u32)"
    using sub_in[OF m12, of "CLK_PLLnCTL0_INDIV_Msk OR CLK_PLLnCTL0_FBDIV_Msk"] sub_in[OF n, of "CLK_PLLnCTL0_INDIV_Msk OR CLK_PLLnCTL0_FBDIV_Msk"]
    by (simp add: bit.conj_disj_distrib2)
  have "v0 AND CLK_PLLnCTL0_FBDIV_Msk = (push_bit 12 (of_nat m) OR of_nat n) AND CLK_PLLnCTL0_FBDIV_Msk"
    unfolding assms(4) by (rule field_in) simp
  then show "v0 AND CLK_PLLnCTL0_FBDIV_Msk = of_nat n" using n sub_out[OF m12, of CLK_PLLnCTL0_FBDIV_Msk] by (simp add: bit.conj_disj_distrib2)
  have "v0 AND CLK_PLLnCTL0_INDIV_Msk = (push_bit 12 (of_nat m) OR of_nat n) AND CLK_PLLnCTL0_INDIV_Msk"
    unfolding assms(4) by (rule field_in) simp
  then have "v0 AND CLK_PLLnCTL0_INDIV_Msk = push_bit 12 (of_nat m)" using m12 sub_out[OF n, of CLK_PLLnCTL0_INDIV_Msk] by (simp add: bit.conj_disj_distrib2)
  then show "get_field 0x3F 12 v0 = of_nat m" using unshift[of "of_nat m" 6 12] assms(1) by (simp add: get_field_def unat_of_nat)
  have "v0 AND CLK_PLLnCTL0_MODE_Msk = (c0 AND NOT CLK_PLLnCTL0_MODE_Msk) AND CLK_PLLnCTL0_MODE_Msk"
    unfolding assms(4) by (rule field_out[OF mn]) simp
  then show "get_field 3 18 v0 = 0" using field_in[of CLK_PLLnCTL0_MODE_Msk CLK_PLLnCTL0_MODE_Msk c0 0] by (simp add: get_field_def)
  have "v1 AND CLK_PLLnCTL1_OUTDIV_Msk = ((c1 AND NOT CLK_PLLnCTL1_OUTDIV_Msk) OR push_bit 4 (of_nat p)) AND CLK_PLLnCTL1_OUTDIV_Msk"
    using field_out[of 0 CLK_PLLnCTL1_PD_Msk CLK_PLLnCTL1_OUTDIV_Msk] unfolding assms(5) by simp
  also have "\<dots> = push_bit 4 (of_nat p)" using field_in[of CLK_PLLnCTL1_OUTDIV_Msk CLK_PLLnCTL1_OUTDIV_Msk c1] p4 by simp
  finally show "get_field 7 4 v1 = of_nat p" using unshift[of "of_nat p" 3 4] assms(3) by (simp add: get_field_def unat_of_nat)
  show "v1 AND CLK_PLLnCTL1_PD_Msk = 0" using field_in[of CLK_PLLnCTL1_PD_Msk CLK_PLLnCTL1_PD_Msk _ 0] unfolding assms(5) by simp
qed

lemma clk_pll_set_get:
  assumes "length (PLL r) = 6" "i = DDRPLL \<or> i = APLL \<or> i = EPLL \<or> i = VPLL"
  shows "\<exists>clk r' v. CLK_SetPLLClockFreq i PLL_OPMODE_INTEGER HXT f r = Inr (clk, r') \<and> CLK_GetPLLClockFreq i r' = Inr v \<and> unat v = clk \<and>
    (\<forall>j < 6. j \<noteq> pll_no i \<longrightarrow> PLL r' ! j = PLL r ! j)"
proof -
  obtain m n p where c: "CLK_CalPLLFreq_Mode0 HXT f = Inr (HXT * n div (p * m), push_bit 12 (of_nat m) OR of_nat n, push_bit 4 (of_nat p))"
    "1 \<le> m" "m \<le> 63" "n \<le> 2047" "1 \<le> p" "p \<le> 7" "HXT * n div (p * m) < 2 ^ 32" using pll_registers by blast
  have no: "pll_no i < 6" "\<not> pll_no i < 1" using assms(2) by auto
  let ?c = "PLL r ! pll_no i"
  define v0 where "v0 = ((CTL0 ?c AND NOT CLK_PLLnCTL0_MODE_Msk) AND NOT (CLK_PLLnCTL0_INDIV_Msk OR CLK_PLLnCTL0_FBDIV_Msk)) OR (push_bit 12 (of_nat m) OR of_nat n)"
  define v1 where "v1 = ((CTL1 ?c AND NOT CLK_PLLnCTL1_OUTDIV_Msk) OR push_bit 4 (of_nat p)) AND NOT CLK_PLLnCTL1_PD_Msk"
  note F = set_fields[OF c(3,4,6) v0_def v1_def]
  let ?r = "r\<lparr>PLL := (PLL r)[pll_no i := ?c\<lparr>CTL0 := v0, CTL1 := v1\<rparr>]\<rparr>"
  have adv: "CLK_SetPLLClockFreq i PLL_OPMODE_INTEGER HXT f r = CLK_SetAdvPLLFreq i PLL_OPMODE_INTEGER HXT f r"
    "CLK_GetPLLClockFreq i ?r = CLK_GetAdvPLLClockFreq i ?r"
    using assms(2) by (auto simp: CLK_SetPLLClockFreq_def CLK_GetPLLClockFreq_def)
  have set: "CLK_SetPLLClockFreq i PLL_OPMODE_INTEGER HXT f r = Inr (HXT * n div (p * m), ?r)"
    using c(1) no assms(1) unfolding adv v0_def v1_def by (simp add: CLK_SetAdvPLLFreq_def Let_def)
  have pm: "p * m \<le> 7 * 63" using c(3,6) by (intro mult_le_mono)
  have u: "unat (of_nat n :: u32) = n" "unat (of_nat p * of_nat m :: u32) = p * m"
    using c(4) pm by (simp_all add: unat_of_nat flip: of_nat_mult)
  have "0 < p * m" using c(2,5) by simp
  then have pm0: "(of_nat p * of_nat m :: u32) \<noteq> 0" using u(2) by (metis less_irrefl unat_0)
  have get: "CLK_GetPLLClockFreq i ?r = Inr (of_nat (HXT * n div (p * m)))"
    unfolding adv using no assms(1) pm0 by (simp add: CLK_GetAdvPLLClockFreq_def Let_def F u)
  show ?thesis
    by (intro exI[of _ "HXT * n div (p * m)"] exI[of _ ?r] exI[of _ "of_nat (HXT * n div (p * m))"] conjI set get)
       (use c(7) in \<open>simp_all add: unat_of_nat\<close>)
qed

text \<open>
  C38. Setting one of the four advanced loops in integer mode from the crystal of the board always returns, whatever frequency is wanted,
  and the frequency it returns is the one that is read back; the other loops are left as they were.
\<close>

theorem clk_pll_set_then_get:
  assumes "length (PLL r) = 6" "i = DDRPLL \<or> i = APLL \<or> i = EPLL \<or> i = VPLL"
  shows "\<exists>clk r' v. CLK_SetPLLClockFreq i PLL_OPMODE_INTEGER HXT f r = Inr (clk, r') \<and> CLK_GetPLLClockFreq i r' = Inr v \<and> unat v = clk \<and>
    (\<forall>j < 6. j \<noteq> pll_no i \<longrightarrow> PLL r' ! j = PLL r ! j)"
  by (rule clk_pll_set_get[OF assms])

theorem clk_pll_set_then_get_witness:
  "\<exists>clk r' v. CLK_SetPLLClockFreq VPLL 0 HXT 102000000 \<lparr>reg = (\<lambda>_. 0), PLL = replicate 6 \<lparr>CTL0 = 0, CTL1 = 1, CTL2 = 0\<rparr>\<rparr> = Inr (clk, r') \<and>
     CLK_GetPLLClockFreq VPLL r' = Inr v \<and> unat v = clk"
  using clk_pll_set_then_get[of "\<lparr>reg = (\<lambda>_. 0), PLL = replicate 6 \<lparr>CTL0 = 0, CTL1 = 1, CTL2 = 0\<rparr>\<rparr>" VPLL 102000000] by auto

section \<open>Clocks of the modules\<close>

text \<open>The fields of a module are inside of their registers, and the registers inside of the tables.\<close>

definition module_ok :: "u32 \<Rightarrow> bool" where
  "module_ok x \<longleftrightarrow> MODULE_CLKSEL x < 5 \<and> MODULE_CLKDIV x < 5 \<and>
     drop_bit (MODULE_CLKSEL_Pos x) (push_bit (MODULE_CLKSEL_Pos x) (MODULE_CLKSEL_Msk x)) = MODULE_CLKSEL_Msk x \<and>
     drop_bit (MODULE_CLKDIV_Pos x) (push_bit (MODULE_CLKDIV_Pos x) (MODULE_CLKDIV_Msk x)) = MODULE_CLKDIV_Msk x"

lemma clk_modules_ok: "list_all module_ok clk_modules"
  by (simp add: clk_modules_def clk_module_def module_ok_def MODULE_CLKSEL_def MODULE_CLKSEL_Msk_def MODULE_CLKSEL_Pos_def
    MODULE_CLKDIV_def MODULE_CLKDIV_Msk_def MODULE_CLKDIV_Pos_def)

lemma field_fits: "drop_bit p (push_bit p m) = m \<Longrightarrow> bit m n \<Longrightarrow> n + p < 32" for m :: u32
proof -
  assume d: "drop_bit p (push_bit p m) = m" and n: "bit m n"
  have "bit (drop_bit p (push_bit p m)) n" unfolding d by (rule n)
  then have "bit (push_bit p m) (p + n)" by (simp add: bit_drop_bit_eq)
  then have "p + n < LENGTH(32)" by (rule bit_imp_le_length)
  then show ?thesis by simp
qed

lemma set_bits_field: "set_bits a (push_bit p m) (push_bit p v) r = set_reg a (put_field m p v (reg r a)) r"
  by (simp add: set_bits_def put_field_def)

lemma reg_set_reg [simp]: "reg (set_reg a v r) b = (if b = a then v else reg r b)"
  by (simp add: set_reg_def)

text \<open>The bits of the fields of a module.\<close>

definition module_bits :: "u32 \<Rightarrow> nat \<Rightarrow> u32" where
  "module_bits x a =
     (if a = CLKSEL0 + MODULE_CLKSEL x * 4 then push_bit (MODULE_CLKSEL_Pos x) (MODULE_CLKSEL_Msk x)
      else if a = CLKDIV0 + MODULE_CLKDIV x * 4 then push_bit (MODULE_CLKDIV_Pos x) (MODULE_CLKDIV_Msk x) else 0)"

lemma put_field_outside: "v AND m = v \<Longrightarrow> put_field m p v w AND NOT (push_bit p m) = w AND NOT (push_bit p m)"
proof -
  assume "v AND m = v"
  then have "push_bit p v AND push_bit p m = push_bit p v" by (metis push_bit_and)
  then show ?thesis unfolding put_field_def by (rule field_out) simp
qed

lemma tables:
  "i < 5 \<Longrightarrow> u32SelTbl ! i = i * 4" "i < 5 \<Longrightarrow> u32DivTbl ! i = (if i = 2 then 3 else i) * 4"
  "length u32SelTbl = 5" "length u32DivTbl = 5"
  by (auto simp: u32SelTbl_def u32DivTbl_def less_Suc_eq numeral_eq_Suc)

lemma module_clock_set:
  assumes "module_ok x" "x \<notin> {KPI_MODULE, ADC_MODULE, EADC_MODULE}" "src AND MODULE_CLKSEL_Msk x = src" "d AND MODULE_CLKDIV_Msk x = d"
    "r' = CLK_SetModuleClock x (push_bit (MODULE_CLKSEL_Pos x) src) (push_bit (MODULE_CLKDIV_Pos x) d) r"
  shows "reg r' a =
     (if a = CLKSEL0 + MODULE_CLKSEL x * 4 then put_field (MODULE_CLKSEL_Msk x) (MODULE_CLKSEL_Pos x) src (reg r a)
      else if a = CLKDIV0 + MODULE_CLKDIV x * 4 then put_field (MODULE_CLKDIV_Msk x) (MODULE_CLKDIV_Pos x) d (reg r a) else reg r a)"
proof -
  have ne: "CLKSEL0 + MODULE_CLKSEL x * 4 \<noteq> CLKDIV0 + MODULE_CLKDIV x * 4" using assms(1) by (simp add: module_ok_def)
  have "MODULE_CLKSEL_Msk x = 0 \<Longrightarrow> src = 0" "MODULE_CLKDIV_Msk x = 0 \<Longrightarrow> d = 0" using assms(3,4) by auto
  then show ?thesis using assms(2) ne unfolding assms(5) CLK_SetModuleClock_def set_bits_field
    by (auto simp: Let_def put_field_def)
qed

text \<open>
  C39. For every module of \<open>clk.h\<close> that \<open>CLK_SetModuleClock\<close> does not treat by itself, the source that is set is the source that
  is read, and nothing but the bits of its two fields is changed. The divider that is set is the divider that is read, unless it is in the
  register \<open>CLKDIV2\<close> (\<open>UART4\<close> to \<open>UART11\<close>): then the field at this position of \<open>CLKDIV3\<close> is read, and the setting has no effect on
  what is read.
\<close>

theorem clk_module_clock_read_back:
  assumes "x \<in> set clk_modules" "x \<notin> {KPI_MODULE, ADC_MODULE, EADC_MODULE}"
    "src AND MODULE_CLKSEL_Msk x = src" "d AND MODULE_CLKDIV_Msk x = d"
    "r' = CLK_SetModuleClock x (push_bit (MODULE_CLKSEL_Pos x) src) (push_bit (MODULE_CLKDIV_Pos x) d) r"
  shows "CLK_GetModuleClockSource x r' = Inr src \<and>
    CLK_GetModuleClockDivider x r' = (if MODULE_CLKDIV x = 2 then CLK_GetModuleClockDivider x r else Inr d) \<and>
    (\<forall>a. reg r' a AND NOT (module_bits x a) = reg r a AND NOT (module_bits x a)) \<and> PLL r' = PLL r"
proof (intro conjI allI)
  have ok: "module_ok x" using assms(1) clk_modules_ok by (simp add: list_all_iff)
  note R = module_clock_set[OF ok assms(2-5)]
  have sel: "get_field (MODULE_CLKSEL_Msk x) (MODULE_CLKSEL_Pos x) (put_field (MODULE_CLKSEL_Msk x) (MODULE_CLKSEL_Pos x) src w) = src" for w
    by (rule get_put_field[OF assms(3)]) (use ok field_fits in \<open>auto simp: module_ok_def\<close>)
  have div: "get_field (MODULE_CLKDIV_Msk x) (MODULE_CLKDIV_Pos x) (put_field (MODULE_CLKDIV_Msk x) (MODULE_CLKDIV_Pos x) d w) = d" for w
    by (rule get_put_field[OF assms(4)]) (use ok field_fits in \<open>auto simp: module_ok_def\<close>)
  have lt: "MODULE_CLKSEL x < 5" "MODULE_CLKDIV x < 5" using ok by (simp_all add: module_ok_def)
  show "CLK_GetModuleClockSource x r' = Inr src"
    using lt sel assms(3) by (auto simp: CLK_GetModuleClockSource_def tables R)
  show "CLK_GetModuleClockDivider x r' = (if MODULE_CLKDIV x = 2 then CLK_GetModuleClockDivider x r else Inr d)"
    using lt div assms(2,4) by (auto simp: CLK_GetModuleClockDivider_def tables R)
  show "reg r' a AND NOT (module_bits x a) = reg r a AND NOT (module_bits x a)" for a
    using assms(3,4) by (simp add: R module_bits_def put_field_outside)
  show "PLL r' = PLL r" using assms(2) by (simp add: assms(5) CLK_SetModuleClock_def Let_def set_bits_def set_reg_def)
qed

theorem clk_module_clock_read_back_witness:
  "let uart0 = clk_module 2 2 3 16 1 15 16 12; uart4 = clk_module 2 2 3 24 2 15 0 16; r = \<lparr>reg = (\<lambda>_. 0), PLL = []\<rparr> in
     CLK_GetModuleClockSource uart0 (CLK_SetModuleClock uart0 0x10000 0x70000 r) = Inr 1 \<and>
     CLK_GetModuleClockDivider uart0 (CLK_SetModuleClock uart0 0x10000 0x70000 r) = Inr 7 \<and>
     CLK_GetModuleClockDivider uart4 (CLK_SetModuleClock uart4 0x1000000 7 r) = Inr 0"
proof -
  let ?r = "\<lparr>reg = (\<lambda>_. 0), PLL = []\<rparr>"
  have m: "clk_module 2 2 3 16 1 15 16 12 \<in> set clk_modules" "clk_module 2 2 3 24 2 15 0 16 \<in> set clk_modules"
    unfolding clk_modules_def list.set insert_iff by blast+
  show ?thesis
    using clk_module_clock_read_back[OF m(1) _ _ _ refl, of 1 7 ?r] clk_module_clock_read_back[OF m(2) _ _ _ refl, of 1 7 ?r]
    by (simp add: clk_module_def KPI_MODULE_def ADC_MODULE_def EADC_MODULE_def MODULE_CLKSEL_Msk_def MODULE_CLKSEL_Pos_def
      MODULE_CLKDIV_def MODULE_CLKDIV_Msk_def MODULE_CLKDIV_Pos_def CLK_GetModuleClockDivider_def get_field_def u32DivTbl_def)
qed

text \<open>The keypad and the two converters have a divider, but no mask for it: zero is read whatever was set.\<close>

lemma clk_special_divider_unread: "x \<in> {KPI_MODULE, ADC_MODULE, EADC_MODULE} \<Longrightarrow> CLK_GetModuleClockDivider x r = Inr 0"
  by (auto simp: CLK_GetModuleClockDivider_def KPI_MODULE_def ADC_MODULE_def EADC_MODULE_def MODULE_CLKDIV_Msk_def clk_module_def)

end
