(* ===== verification/Spec2Isabelle.thy ===== *)
theory Spec2Isabelle
  imports Usb_Mem_Props Usb_Core_Props Usb_Power_Props Hub_Props Msc_Props I2c_Props Hid_Props Canfd_Props Rtc_Props Pdma_Props Clk_Props
begin

text \<open>
  Verification of the MA35D1 non-OS board support package: drivers of \<open>Library/StdDriver\<close> and of
  the USB host library \<open>Library/UsbHostLib\<close>.

  \<^bold>\<open>The program.\<close> The package runs on an AArch64 core without an operating system. The standard
  drivers program one peripheral each, through memory-mapped registers and by polling. The USB host
  library has its own memory manager (\<open>mem_alloc.c\<close>), on which the core with device enumeration
  (\<open>usb_core.c\<close>), the host controller drivers and the class drivers build. The core calls the
  controller through the table of functions of \<open>HC_DRV_T\<close> and the class drivers through
  \<open>UDEV_DRV_T\<close>; it owns the devices and interfaces, and a class driver keeps pointers to them. The hub driver (\<open>hub.c\<close>)
  watches the ports of its hubs and tells the core to enumerate and remove devices. The mass
  storage driver (\<open>msc_xfer.c\<close>, \<open>msc_driver.c\<close>) sends SCSI commands through the core and gives sectors to
  the file system; the HID class driver parses report descriptors (\<open>hid_parser.c\<close>) into lists of
  reports allocated from that manager, and decodes input reports of mice and keyboards through callbacks.

  \<^bold>\<open>How the code is modelled.\<close> A C structure is a record with the members of the source, an
  enumeration a datatype, an unsigned integer a machine word with its wrap-around; C's \<open>int\<close> is
  \<open>int\<close> where its values stay small. Registers are fields of a record. Where the hardware changes
  a register under the code, its behaviour is an argument: the list of values that successive polls
  read, or the number of polls a flag stays set. Nothing is assumed about such values; a loop that
  has consumed its list is still waiting. Errors, accesses outside of an object, divisions by zero and
  shifts beyond the width are values of sum or option types. Loops that may not end are
  \<open>partial_function (option)\<close> or run on the list of values they read, so no fuel is chosen.

  The USB core, the hub driver and the mass storage driver are computations on one state \<open>ucore\<close>, which
  contains the state of the memory manager: the result is \<open>None\<close> when the code does not return, a fault, or a value
  and the next state. What these computations call and do not contain, the controller, the class drivers, user
  callbacks, interrupts and the clock, are functions of the record \<open>usb_env\<close> (\<open>msc_env\<close> adds the
  mount operation of the file system, \<open>hub_env\<close> the polling of the root hubs). The theorems name what they rely on: \<open>xfer_env\<close>, a controller that does not
  touch the objects of the core, \<open>clock_runs\<close>, a clock that advances while the code polls, \<open>disc_env\<close>,
  drivers that free only their own memory, \<open>carries\<close>, a controller that carries bulk transfers to a disk,
  \<open>hub_xfers\<close>, transfers that return and leave the objects of the core and the hubs alone, \<open>refuses\<close>, a controller
  that refuses every control transfer.

  \<^bold>\<open>Theories.\<close>
  \<^item> \<open>MA35_Prelude\<close>: machine words, C division, bit fields, flag arrays, computations that may fail.
  \<^item> \<open>Usb_Mem\<close>, \<open>Usb_Mem_Facts\<close>, \<open>Usb_Mem_Props\<close>: the USB host memory manager
    (\<open>src_core/mem_alloc.c\<close>): the page pool for host controller descriptors, the DMA pool with
    its occupancy array, the heap accounting, and the device and transfer objects. Properties: an
    allocation is the first fit and disjoint from every live block, a free gives it back, the pools
    and the accounting stay consistent in every reachable state, every loop ends.
  \<^item> \<open>Usb_Desc\<close>, \<open>Usb_Desc_Facts\<close>, \<open>Usb_Desc_Spec\<close>: the parser of configuration descriptors
    (\<open>usbh_parse_endpoint\<close>, \<open>usbh_parse_interface\<close>, the loop of \<open>usbh_parse_configuration\<close>), its safety on arbitrary bytes,
    and the tree of descriptors with its encoding that it is compared with.
  \<^item> \<open>Usb_Core\<close>, \<open>Usb_Core_Facts\<close>, \<open>Usb_Core_Config\<close>, \<open>Usb_Core_Remove\<close>, \<open>Usb_Core_Props\<close>: the
    USB host core (\<open>usb_core.c\<close>): registration of drivers, transfers, standard requests, enumeration,
    reset and removal. The locales \<open>frame_relation\<close> and \<open>memory_frame\<close> lift what the environment
    keeps to all operations of the core; they are interpreted for the address of a device, for the
    objects of the core during a transfer, and for the blocks of the pool during parsing and removal. Properties: the parser
    implements the tree of descriptors, is safe on hostile bytes, and hangs on a zero length; a control transfer
    returns and gives its request back; enumeration keeps or takes exactly one address; removal releases
    everything of the device and nothing else. Lemmas: lookup of endpoints; the table of drivers.
  \<^item> \<open>Usb_Power\<close>, \<open>Usb_Power_Props\<close>: suspend and resume of the controllers (\<open>usbh_suspend\<close>, \<open>usbh_resume\<close>) as
    sequences of register accesses, on hardware that answers from the accesses so far. The locale \<open>write_property\<close> lifts a
    property of writes to computations. Property: suspend returns when the controllers halt (\<open>halts_after\<close>) and otherwise
    never. Lemmas: the ports of the second controllers are left out, resume gives the command registers back.
  \<^item> \<open>Hub\<close>, \<open>Hub_Facts\<close>, \<open>Hub_Props\<close>: the hub driver on top of the core; the table of hubs is the
    world of \<open>ucore\<close>. Properties: a disconnected port removes the device below it and no other, a failed request
    silences a hub for good. A lemma: a change of the hub alone reads a variable without a value.
  \<^item> \<open>Msc\<close>, \<open>Msc_Disk\<close>, \<open>Msc_List\<close>, \<open>Msc_Props\<close>: the mass storage driver on top of the core.
    \<open>Msc_Disk\<close> states a disk as a state machine on the bytes of bulk transfers. Properties:
    sectors written are the sectors read, a bulk transfer returns and when its request is lost, removal
    of the disks of an interface.
  \<^item> \<open>I2c\<close>, \<open>I2c_Facts\<close>, \<open>I2c_Read\<close>, \<open>I2c_Props\<close>: the I2C driver (\<open>i2c.c\<close>):
    the register operations and the twelve polled transfers. The locales \<open>i2c_master\<close>,
    \<open>i2c_writer\<close>, \<open>i2c_reader\<close> and their relatives state what a switch over the bus status has to
    do, and are interpreted on the twelve switches of the code. Properties: which frames reach the
    bus, what the caller gets, that every transfer ends with a STOP. Lemmas: time-outs, the divider.
  \<^item> \<open>Hid_Parser\<close>, \<open>Hid_Facts\<close>, \<open>Hid_Spec\<close>, \<open>Hid_Input\<close>, \<open>Hid_Props\<close>: the HID
    report descriptor parser and the input decoders (\<open>hid_parser.c\<close>), on top of the memory manager.
    \<open>Hid_Spec\<close> is an abstract parser, refined by the code as long as a usage list and a report
    count stay within their arrays; lemmas show what happens beyond. Properties: the refinement, memory, reads inside
    of the buffer, the axis of a mouse as a bit field, the events of a boot keyboard.
  \<^item> \<open>Canfd\<close>, \<open>Canfd_Facts\<close>, \<open>Canfd_Timing\<close>, \<open>Canfd_Props\<close>: the CAN FD driver
    (\<open>canfd.c\<close>): configuration, message RAM, bit timing, transmission and reception. The locale
    \<open>canfd_section\<close> is the contract of the six operations that set up a section of the message RAM;
    \<open>Canfd_Timing\<close> proves the bit-rate search optimal. Properties: a message read back equals the
    message sent, transmissions stay in their element, layout, opening, received messages are well
    formed, and reading one buffer loses other messages. A lemma: the clock that each port is opened with.
  \<^item> \<open>Rtc\<close>, \<open>Rtc_Props\<close>: the real-time clock driver (\<open>rtc.c\<close>): decimal digits of dates and times, alarm,
    masks and interrupts. The locale \<open>rtc_calendar\<close> is the contract of the two pairs of functions that write and read a
    calendar, interpreted for the current time and for the alarm. Property: what is set is read back. Lemmas: a structure
    that is used twice loses the half of the day, when opening returns, setting in parts, a read across midnight.
  \<^item> \<open>Pdma\<close>, \<open>Pdma_Props\<close>: the DMA controller driver (\<open>pdma.c\<close>). Properties: a configured channel has its
    settings and leaves the others alone; a selected peripheral keeps a bit of the one before. A lemma: opening.
  \<^item> \<open>Clk\<close>, \<open>Clk_Props\<close>: the clock driver (\<open>clk.c\<close>): the phase-locked loops with the search for their dividers, the
    derived clocks, and source, divider and gate of the modules. Properties: the search finds the closest setting, and when it divides by
    zero; the frequency that is set is the frequency that is read; the settings of a module that can be read back, and those that cannot.
  \<^item> This theory: the clock driver and the CAN FD driver together. Property: a port runs at the frequency it was given.

  \<^bold>\<open>Bounds.\<close> The only bounds in the statements are those of the hardware or of the code: 64 data
  bytes, 32 transmit buffers, 16-bit RAM offsets, rates up to the driver's cap of 8 MHz with clocks
  below \<open>2 ^ 31\<close> Hz, timeouts of at most 2000 ticks, the 65535 sectors of a \<open>READ(10)\<close> command, and clock sources below \<open>2 ^ 32\<close> Hz.

  \<^bold>\<open>Not modelled.\<close> Assembly start-up code, cache maintenance and console output have no logic to
  state. The vendored packages under \<open>ThirdParty\<close> and the sample applications are not part of
  the package's own code. Of the USB host library, the
  host controller drivers and the other class drivers are not modelled: they share lists of descriptors with a running controller, whose
  behaviour is not in the sources. Of the clock driver the two functions for the system tick of the other core are left out, and of the
  standard drivers the remaining peripherals, which program the registers of one device each.
\<close>

section \<open>The clock of a CAN FD port\<close>

abbreviation CANFD0_MODULE :: u32 where "CANFD0_MODULE \<equiv> clk_module 0 4 1 16 0 7 0 8"
abbreviation CANFD1_MODULE :: u32 where "CANFD1_MODULE \<equiv> clk_module 0 4 1 17 0 7 4 9"

lemma canfd_modules: "CANFD0_MODULE \<in> set clk_modules" "CANFD1_MODULE \<in> set clk_modules"
  unfolding clk_modules_def list.set insert_iff by blast+

lemma canfd_module_fields:
  "MODULE_CLKSEL CANFD0_MODULE = 4" "MODULE_CLKSEL_Msk CANFD0_MODULE = 1" "MODULE_CLKSEL_Pos CANFD0_MODULE = 16"
  "MODULE_CLKDIV CANFD0_MODULE = 0" "MODULE_CLKDIV_Msk CANFD0_MODULE = 7" "MODULE_CLKDIV_Pos CANFD0_MODULE = 0"
  "MODULE_CLKSEL CANFD1_MODULE = 4" "MODULE_CLKSEL_Msk CANFD1_MODULE = 1" "MODULE_CLKSEL_Pos CANFD1_MODULE = 17"
  "MODULE_CLKDIV CANFD1_MODULE = 0" "MODULE_CLKDIV_Msk CANFD1_MODULE = 7" "MODULE_CLKDIV_Pos CANFD1_MODULE = 4"
  "CANFD0_MODULE \<notin> {KPI_MODULE, ADC_MODULE, EADC_MODULE}" "CANFD1_MODULE \<notin> {KPI_MODULE, ADC_MODULE, EADC_MODULE}"
  by (simp_all add: clk_module_def KPI_MODULE_def ADC_MODULE_def EADC_MODULE_def MODULE_CLKSEL_def MODULE_CLKSEL_Msk_def MODULE_CLKSEL_Pos_def
    MODULE_CLKDIV_def MODULE_CLKDIV_Msk_def MODULE_CLKDIV_Pos_def)

lemma PLL_SetModuleClock: "PLL (CLK_SetModuleClock x src d r) = PLL r"
  by (simp add: CLK_SetModuleClock_def Let_def set_bits_def set_reg_def)

lemma VPLL_of_PLL: "PLL r' = PLL r \<Longrightarrow> CLK_GetPLLClockFreq VPLL r' = CLK_GetPLLClockFreq VPLL r"
  by (simp add: CLK_GetPLLClockFreq_def CLK_GetAdvPLLClockFreq_def)

text \<open>The two fields that \<open>CANFD_Open\<close> reads, after the clock driver has set them.\<close>

lemma canfd_clock_set:
  assumes "(x, p) \<in> {(CANFD0_MODULE, CANFD0), (CANFD1_MODULE, CANFD1)}" "d AND 7 = d"
    "r2 = CLK_SetModuleClock x (push_bit (MODULE_CLKSEL_Pos x) 1) (push_bit (MODULE_CLKDIV_Pos x) d) r1"
  shows "canfd_clock p (canfd_clocks.make (reg r2 CLKDIV0) (reg r2 CLKSEL4) apll v) = Inr (v div (2 * (d + 1)))"
proof -
  have ok: "module_ok CANFD0_MODULE" "module_ok CANFD1_MODULE" using clk_modules_ok canfd_modules by (simp_all only: list_all_iff)
  have fits: "n + k < 32" if "bit (7 :: u32) n" "k \<le> 28" for n k
    using that bit_imp_le_length[of "7 :: u32" n] by (auto simp: bit_numeral_rec bit_1_iff split: nat.splits)
  consider "x = CANFD0_MODULE" "p = CANFD0" | "x = CANFD1_MODULE" "p = CANFD1" using assms(1) by auto
  then show ?thesis
  proof cases
    case 1
    have "get_field 7 0 (reg r2 CLKDIV0) = d" "get_field 1 16 (reg r2 CLKSEL4) = 1"
      using module_clock_set[OF ok(1) canfd_module_fields(13) _ _ assms(3)[unfolded 1(1)], unfolded canfd_module_fields] assms(2)
        get_put_field[of d 7 0] get_put_field[of 1 1 16] by (simp_all add: fits bit_1_iff)
    then show ?thesis unfolding 1(2) by (simp add: canfd_clock_def CANFD_GetClockSource_def CANFD_GetClockDiv_def canfd_clocks.make_def get_field_def push_bit_eq_mult mult.commute)
  next
    case 2
    have "get_field 7 4 (reg r2 CLKDIV0) = d" "get_field 1 17 (reg r2 CLKSEL4) = 1"
      using module_clock_set[OF ok(2) canfd_module_fields(14) _ _ assms(3)[unfolded 2(1)], unfolded canfd_module_fields] assms(2)
        get_put_field[of d 7 4] get_put_field[of 1 1 17] by (simp_all add: fits bit_1_iff)
    then show ?thesis unfolding 2(2) by (simp add: canfd_clock_def CANFD_GetClockSource_def CANFD_GetClockDiv_def canfd_clocks.make_def get_field_def push_bit_eq_mult mult.commute)
  qed
qed

text \<open>
  C40. A CAN FD port whose clock was set up with the clock driver runs at the frequency it was given: after \<open>CLK_SetPLLClockFreq\<close> has set the
  loop \<open>VPLL\<close> to a frequency \<open>clk\<close> and \<open>CLK_SetModuleClock\<close> has selected it for port 0 or 1 with a divider \<open>d\<close>, \<open>CANFD_Open\<close>
  computes \<open>clk / (2 (d + 1))\<close> as the clock of the port, whatever the registers held before.
\<close>

theorem canfd_clock_from_pll:
  assumes "length (PLL r) = 6" "(x, p) \<in> {(CANFD0_MODULE, CANFD0), (CANFD1_MODULE, CANFD1)}" "d AND 7 = d"
  shows "\<exists>clk r1 r2 v. CLK_SetPLLClockFreq VPLL PLL_OPMODE_INTEGER HXT f r = Inr (clk, r1) \<and>
    r2 = CLK_SetModuleClock x (push_bit (MODULE_CLKSEL_Pos x) 1) (push_bit (MODULE_CLKDIV_Pos x) d) r1 \<and>
    CLK_GetPLLClockFreq VPLL r2 = Inr v \<and>
    canfd_clock p (canfd_clocks.make (reg r2 CLKDIV0) (reg r2 CLKSEL4) apll v) = Inr (of_nat clk div (2 * (d + 1)))"
proof -
  obtain clk r1 v where s: "CLK_SetPLLClockFreq VPLL PLL_OPMODE_INTEGER HXT f r = Inr (clk, r1)" "CLK_GetPLLClockFreq VPLL r1 = Inr v" "unat v = clk"
    using clk_pll_set_get[OF assms(1), of VPLL f] by blast
  have v: "of_nat clk = v" unfolding s(3)[symmetric] by simp
  show ?thesis
    by (intro exI conjI, rule s(1), rule refl, subst VPLL_of_PLL[OF PLL_SetModuleClock], rule s(2))
       (simp only: v canfd_clock_set[OF assms(2,3) refl])
qed

theorem canfd_clock_from_pll_witness:
  "\<exists>clk r1 r2 v. CLK_SetPLLClockFreq VPLL PLL_OPMODE_INTEGER HXT 102000000
      \<lparr>reg = (\<lambda>_. 0xFFFFFFFF), PLL = replicate 6 \<lparr>CTL0 = 0, CTL1 = 1, CTL2 = 0\<rparr>\<rparr> = Inr (clk, r1) \<and>
    r2 = CLK_SetModuleClock CANFD1_MODULE (push_bit (MODULE_CLKSEL_Pos CANFD1_MODULE) 1) (push_bit (MODULE_CLKDIV_Pos CANFD1_MODULE) 4) r1 \<and>
    canfd_clock CANFD1 (canfd_clocks.make (reg r2 CLKDIV0) (reg r2 CLKSEL4) 0 v) = Inr (of_nat clk div 10)"
  using canfd_clock_from_pll[of "\<lparr>reg = (\<lambda>_. 0xFFFFFFFF), PLL = replicate 6 \<lparr>CTL0 = 0, CTL1 = 1, CTL2 = 0\<rparr>\<rparr>" CANFD1_MODULE CANFD1 4 102000000 0]
  by force

end
